(* ===== verification/Prelude.thy ===== *)
theory Prelude
  imports Main "HOL-Library.AList" "HOL-Library.Word" "HOL-Library.Signed_Division"
begin

text \<open>
  The vocabulary the components share.  Go strings and byte slices are both byte sequences, so both
  are HOL \<open>string\<close>s (a \<open>char\<close> is a byte); instants and durations are nanoseconds in \<open>int\<close>; a Go map
  is an association list without duplicate keys (\<open>gomap\<close>), read with \<open>map_of\<close>, written with
  \<open>m_put\<close> and \<open>m_del\<close>, its \<open>len\<close> being the length of the list.  A \<open>range\<close> over a Go map visits the
  entries in an unspecified order, which a definition that ranges over a map takes as an argument.
\<close>

named_theorems gomap_simps \<open>reading a Go map after a write\<close>
named_theorems inv_intros \<open>operations that keep an invariant\<close>

type_synonym bytes = string
type_synonym time = int
type_synonym duration = int
type_synonym ('k, 'v) gomap = "('k \<times> 'v) list"

abbreviation m_has :: "('k, 'v) gomap \<Rightarrow> 'k \<Rightarrow> bool" where
  "m_has m k \<equiv> map_of m k \<noteq> None"

abbreviation m_put :: "'k \<Rightarrow> 'v \<Rightarrow> ('k, 'v) gomap \<Rightarrow> ('k, 'v) gomap" where
  "m_put k v m \<equiv> AList.update k v m"

abbreviation m_del :: "'k \<Rightarrow> ('k, 'v) gomap \<Rightarrow> ('k, 'v) gomap" where
  "m_del k m \<equiv> AList.delete k m"

abbreviation m_keys :: "('k, 'v) gomap \<Rightarrow> 'k list" where
  "m_keys m \<equiv> map fst m"

abbreviation wf_map :: "('k, 'v) gomap \<Rightarrow> bool" where
  "wf_map m \<equiv> distinct (m_keys m)"

lemma map_of_m_put [gomap_simps]: "map_of (m_put k v m) = (map_of m)(k \<mapsto> v)"
  by (simp add: update_conv')

lemma map_of_m_del [gomap_simps]: "map_of (m_del k m) = (map_of m)(k := None)"
  by (simp add: delete_conv')

lemma wf_map_put [simp, intro]: "wf_map m \<Longrightarrow> wf_map (m_put k v m)"
  by (rule distinct_update)

lemma wf_map_del [simp, intro]: "wf_map m \<Longrightarrow> wf_map (m_del k m)"
  by (rule distinct_delete)

lemma m_has_iff: "m_has m k \<longleftrightarrow> k \<in> set (m_keys m)"
  by (auto simp: map_of_eq_None_iff)

lemma length_m_put: "length (m_put k v m) = (if m_has m k then length m else Suc (length m))"
  by (induction m) auto

lemma length_m_del_le: "length (m_del k m) \<le> length m"
  by (rule length_delete_le)

lemma length_m_del:
  "wf_map m \<Longrightarrow> length (m_del k m) = (if m_has m k then length m - 1 else length m)"
proof (induction m)
  case Nil
  then show ?case by simp
next
  case (Cons p m)
  then show ?case
    by (cases p) (auto simp: AList.delete_eq map_of_eq_None_iff filter_id_conv image_iff
        intro!: Suc_pred' dest: length_pos_if_in_set)
qed

lemma set_keys_m_put [simp]: "fst ` set (m_put k v m) = insert k (fst ` set m)"
  by (induction m) auto

lemma set_keys_m_del [simp]: "fst ` set (m_del k m) = fst ` set m - {k}"
  by (force simp: AList.delete_eq)

text \<open>Sums of a weight over a map, as they change under a write.\<close>

definition m_sum :: "('v \<Rightarrow> int) \<Rightarrow> ('k, 'v) gomap \<Rightarrow> int" where
  "m_sum w m = sum_list (map (w \<circ> snd) m)"

lemma m_sum_simps [simp]:
  "m_sum w [] = 0"
  "m_sum w ((k, v) # m) = w v + m_sum w m"
  by (simp_all add: m_sum_def)

lemma m_sum_not_has: "\<not> m_has m k \<Longrightarrow> m_del k m = m"
  by (simp add: map_of_eq_None_iff delete_idem)

lemma m_sum_del:
  "wf_map m \<Longrightarrow> m_sum w (m_del k m) = m_sum w m - (case map_of m k of None \<Rightarrow> 0 | Some v \<Rightarrow> w v)"
proof (induction m)
  case Nil
  then show ?case by simp
next
  case (Cons p m)
  obtain a v where p: "p = (a, v)" by (cases p)
  show ?case
  proof (cases "a = k")
    case True
    with Cons.prems p have "map_of m k = None" by (simp add: map_of_eq_None_iff)
    with Cons True p show ?thesis by simp
  next
    case False
    with Cons p show ?thesis by simp
  qed
qed

lemma m_sum_put:
  "wf_map m \<Longrightarrow>
   m_sum w (m_put k v m) = m_sum w m + w v - (case map_of m k of None \<Rightarrow> 0 | Some u \<Rightarrow> w u)"
proof (induction m)
  case Nil
  then show ?case by simp
next
  case (Cons p m)
  then show ?case by (cases p) auto
qed

lemma m_sum_nonneg: "(\<And>v. 0 \<le> w v) \<Longrightarrow> 0 \<le> m_sum w m"
  by (induction m) (auto simp: m_sum_def)


section \<open>Decimal printing\<close>

text \<open>\<open>show_nat\<close> is the decimal numeral of a natural number, as \<open>fmt\<close>'s \<open>%d\<close> prints it.\<close>

definition digit_char :: "nat \<Rightarrow> char" where
  "digit_char d = char_of (48 + d)"

fun show_nat :: "nat \<Rightarrow> string" where
  "show_nat n = (if n < 10 then [digit_char n] else show_nat (n div 10) @ [digit_char (n mod 10)])"

declare show_nat.simps [simp del]

definition show_int :: "int \<Rightarrow> string" where
  "show_int i = (if i < 0 then CHR ''-'' # show_nat (nat (- i)) else show_nat (nat i))"

fun read_digits :: "nat \<Rightarrow> string \<Rightarrow> nat" where
  "read_digits acc [] = acc"
| "read_digits acc (c # cs) = read_digits (10 * acc + (of_char c - 48)) cs"

lemma read_digits_append: "read_digits a (s @ t) = read_digits (read_digits a s) t"
  by (induction s arbitrary: a) auto

lemma of_char_digit: "d < 10 \<Longrightarrow> of_char (digit_char d) = 48 + d"
  by (simp add: digit_char_def)

lemma read_show_nat: "read_digits 0 (show_nat n) = n"
proof (induction n rule: show_nat.induct)
  case (1 n)
  show ?case
  proof (cases "n < 10")
    case True
    then show ?thesis by (simp add: show_nat.simps of_char_digit)
  next
    case False
    with 1 have "read_digits 0 (show_nat (n div 10)) = n div 10" by simp
    with False show ?thesis
      by (simp add: show_nat.simps [of n] read_digits_append of_char_digit)
  qed
qed

lemma show_nat_inj: "show_nat m = show_nat n \<longleftrightarrow> m = n"
  by (metis read_show_nat)

lemma show_nat_digits: "c \<in> set (show_nat n) \<Longrightarrow> 48 \<le> (of_char c :: nat) \<and> (of_char c :: nat) < 58"
proof (induction n rule: show_nat.induct)
  case (1 n)
  then show ?case
    by (subst (asm) show_nat.simps) (auto simp: of_char_digit split: if_splits)
qed

lemma show_nat_nonempty [simp]: "show_nat n \<noteq> []"
  by (subst show_nat.simps) simp

lemma show_nat_no_underscore: "CHR ''_'' \<notin> set (show_nat n)"
  using show_nat_digits [of "CHR ''_''" n] by auto

lemma append_sep_inj:
  assumes "c \<notin> set s" and "c \<notin> set s'"
  shows "s @ c # t = s' @ c # t' \<longleftrightarrow> s = s' \<and> t = t'"
  using assms
proof (induction s arbitrary: s')
  case Nil
  then show ?case by (cases s') auto
next
  case (Cons a s)
  then show ?case by (cases s') auto
qed

end
