(* ===== verification/Cache_Interface.thy ===== *)
theory Cache_Interface
  imports Prelude
begin

text \<open>
  What a cache promises its client.  A cache may forget (expire, evict) but must not invent: after a
  store the key is there with the new value, the other keys keep their value or are gone; after a
  removal the key is gone and nothing else changed.  Which keys may be stored is the predicate \<open>ok\<close>.  The in-process cache \<open>L1_Cache\<close> and the asset
  cache \<open>Asset_Cache\<close> both interpret this locale on their own definitions.  Inside it, once for both:
  after any sequence of operations the cache holds a part of what a plain map would hold.
\<close>

datatype ('k, 'v) cache_op = Store 'k 'v | Remove 'k

text \<open>The reference: a map that never forgets.\<close>

fun map_step :: "('k, 'v) cache_op \<Rightarrow> ('k \<Rightarrow> 'v option) \<Rightarrow> ('k \<Rightarrow> 'v option)" where
  "map_step (Store k v) m = m(k \<mapsto> v)"
| "map_step (Remove k) m = m(k := None)"

definition map_run :: "('k, 'v) cache_op list \<Rightarrow> ('k \<Rightarrow> 'v option) \<Rightarrow> ('k \<Rightarrow> 'v option)" where
  "map_run ops m = fold map_step ops m"

locale lossy_cache =
  fixes inv :: "'s \<Rightarrow> bool"
    and ok :: "'k \<Rightarrow> bool"
    and view :: "'s \<Rightarrow> 'k \<Rightarrow> 'v option"
    and store :: "'k \<Rightarrow> 'v \<Rightarrow> 's \<Rightarrow> 's"
    and remove :: "'k \<Rightarrow> 's \<Rightarrow> 's"
  assumes inv_store: "inv s \<Longrightarrow> ok k \<Longrightarrow> inv (store k v s)"
    and inv_remove: "inv s \<Longrightarrow> inv (remove k s)"
    and view_store_same: "inv s \<Longrightarrow> ok k \<Longrightarrow> view (store k v s) k = Some v"
    and view_store_other: "inv s \<Longrightarrow> ok k \<Longrightarrow> k' \<noteq> k \<Longrightarrow>
      view (store k v s) k' = view s k' \<or> view (store k v s) k' = None"
    and view_remove: "inv s \<Longrightarrow> view (remove k s) = (view s)(k := None)"
begin

fun cache_step :: "('k, 'v) cache_op \<Rightarrow> 's \<Rightarrow> 's" where
  "cache_step (Store k v) s = store k v s"
| "cache_step (Remove k) s = remove k s"

fun ok_op :: "('k, 'v) cache_op \<Rightarrow> bool" where
  "ok_op (Store k v) = ok k"
| "ok_op (Remove k) = True"

definition cache_run :: "('k, 'v) cache_op list \<Rightarrow> 's \<Rightarrow> 's" where
  "cache_run ops s = fold cache_step ops s"

lemma cache_step_inv: "inv s \<Longrightarrow> ok_op c \<Longrightarrow> inv (cache_step c s)"
  by (cases c) (auto intro: inv_store inv_remove)

lemma cache_run_inv: "inv s \<Longrightarrow> list_all ok_op ops \<Longrightarrow> inv (cache_run ops s)"
  by (induction ops arbitrary: s) (auto simp: cache_run_def cache_step_inv)

lemma cache_step_refines:
  assumes "inv s" and "ok_op c" and "view s \<subseteq>\<^sub>m m"
  shows "view (cache_step c s) \<subseteq>\<^sub>m map_step c m"
proof (cases c)
  case (Store k v)
  with assms(2) have ok: "ok k" by simp
  have "view (store k v s) k' = (m(k \<mapsto> v)) k'" if d: "k' \<in> dom (view (store k v s))" for k'
  proof (cases "k' = k")
    case True
    then show ?thesis by (simp add: view_store_same [OF assms(1) ok])
  next
    case False
    with d view_store_other [OF assms(1) ok False, of v] have "view (store k v s) k' = view s k'" by auto
    moreover from this d have "k' \<in> dom (view s)" by (simp add: dom_def)
    with assms(3) have "view s k' = m k'" unfolding map_le_def by (rule bspec)
    ultimately show ?thesis using False by simp
  qed
  with Store show ?thesis by (simp add: map_le_def)
next
  case (Remove k)
  with assms show ?thesis by (auto simp: view_remove map_le_def)
qed

text \<open>The refinement: a cache run holds a part of the map run.\<close>

lemma cache_run_refines:
  "inv s \<Longrightarrow> list_all ok_op ops \<Longrightarrow> view s \<subseteq>\<^sub>m m \<Longrightarrow> view (cache_run ops s) \<subseteq>\<^sub>m map_run ops m"
proof (induction ops arbitrary: s m)
  case (Cons c ops)
  then show ?case
    using cache_step_inv [of s c] cache_step_refines [of s c m]
    by (simp add: cache_run_def map_run_def)
qed (simp add: cache_run_def map_run_def)

text \<open>So a hit is never stale: it is the value of the last store, not removed since.\<close>

lemma never_stale:
  assumes "inv s" and "list_all ok_op ops" and "view s = Map.empty" and "view (cache_run ops s) k = Some v"
  shows "map_run ops Map.empty k = Some v"
  using cache_run_refines [OF assms(1,2), of Map.empty] assms(3,4) by (force simp: map_le_def)

end

end
