(* ===== verification/L1_Shard.thy ===== *)
theory L1_Shard
  imports Cache_Interface
begin

text \<open>
  One shard of the in-process cache, \<open>l1Shard\<close> of \<open>internal/cache/l1.go\<close>, and the bodies of the
  operations once the shard is chosen and locked: \<open>shard_get\<close>, \<open>shard_set\<close>, \<open>shard_delete\<close>, and the
  eviction loop \<open>evict_from\<close> / \<open>evictOne\<close>.  The shard invariant says that the items respect the
  capacity and that every item's key is among \<open>sh_keys\<close>, which is what makes eviction succeed; the
  loop is shown equal to the reference \<open>victim\<close>: the first live key of the key list read from the
  eviction index onwards.
\<close>

section \<open>State and operations\<close>

record l1_entry =
  e_value :: bytes
  e_expiresAt :: time

record l1_shard =
  sh_items :: "(string, l1_entry) gomap"
  sh_maxSize :: int
  sh_evictIdx :: nat
  sh_keys :: "string list"

definition new_shard :: "int \<Rightarrow> l1_shard" where
  "new_shard perShard = \<lparr>sh_items = [], sh_maxSize = perShard, sh_evictIdx = 0, sh_keys = []\<rparr>"

text \<open>\<open>Get\<close>: the lookup, the expiry check at time \<open>now\<close>, and the lazy deletion of an expired entry.\<close>

definition shard_get :: "time \<Rightarrow> string \<Rightarrow> l1_shard \<Rightarrow> bytes option \<times> l1_shard" where
  "shard_get now key sh =
     (case map_of (sh_items sh) key of
        None \<Rightarrow> (None, sh)
      | Some entry \<Rightarrow>
          if now > e_expiresAt entry then (None, sh\<lparr>sh_items := m_del key (sh_items sh)\<rparr>)
          else (Some (e_value entry), sh))"

text \<open>\<open>evictOne\<close>: the loop over \<open>i\<close>, from \<open>i\<close> on.\<close>

function evict_from :: "nat \<Rightarrow> l1_shard \<Rightarrow> l1_shard" where
  "evict_from i sh =
     (if i < length (sh_keys sh)
      then let idx = (sh_evictIdx sh + i) mod length (sh_keys sh);
               key = sh_keys sh ! idx
           in if m_has (sh_items sh) key
              then sh\<lparr>sh_items := m_del key (sh_items sh),
                      sh_evictIdx := (idx + 1) mod length (sh_keys sh)\<rparr>
              else evict_from (Suc i) sh
      else sh)"
  by pat_completeness auto
termination
  by (relation "measure (\<lambda>(i, sh). length (sh_keys sh) - i)") auto

declare evict_from.simps [simp del]

definition evictOne :: "l1_shard \<Rightarrow> l1_shard" where
  "evictOne sh = evict_from 0 sh"

definition shard_set :: "time \<Rightarrow> duration \<Rightarrow> string \<Rightarrow> bytes \<Rightarrow> l1_shard \<Rightarrow> l1_shard" where
  "shard_set now ttl key value sh =
     (let sh1 = (if sh_maxSize sh \<le> int (length (sh_items sh)) \<and> \<not> m_has (sh_items sh) key
                 then evictOne sh else sh);
          entry = \<lparr>e_value = value, e_expiresAt = now + ttl\<rparr>;
          sh2 = (if m_has (sh_items sh1) key then sh1 else sh1\<lparr>sh_keys := sh_keys sh1 @ [key]\<rparr>)
      in sh2\<lparr>sh_items := m_put key entry (sh_items sh2)\<rparr>)"

definition shard_delete :: "string \<Rightarrow> l1_shard \<Rightarrow> l1_shard" where
  "shard_delete key sh = sh\<lparr>sh_items := m_del key (sh_items sh)\<rparr>"

section \<open>The eviction loop against its reference\<close>

definition victim :: "l1_shard \<Rightarrow> string option" where
  "victim sh = find (\<lambda>k. m_has (sh_items sh) k) (rotate (sh_evictIdx sh) (sh_keys sh))"

lemma evict_from_frame [simp]:
  "sh_keys (evict_from i sh) = sh_keys sh" "sh_maxSize (evict_from i sh) = sh_maxSize sh"
  by (induction i sh rule: evict_from.induct; subst evict_from.simps; simp add: Let_def)+

lemma evict_from_items:
  "sh_items (evict_from i sh) =
     (case find (\<lambda>k. m_has (sh_items sh) k) (drop i (rotate (sh_evictIdx sh) (sh_keys sh))) of
        None \<Rightarrow> sh_items sh | Some k \<Rightarrow> m_del k (sh_items sh))"
proof (induction i sh rule: evict_from.induct)
  case (1 i sh)
  let ?r = "rotate (sh_evictIdx sh) (sh_keys sh)"
  show ?case
  proof (cases "i < length (sh_keys sh)")
    case True
    then have d: "drop i ?r = sh_keys sh ! ((sh_evictIdx sh + i) mod length (sh_keys sh)) # drop (Suc i) ?r"
      by (simp add: nth_rotate flip: Cons_nth_drop_Suc)
    show ?thesis
      using True 1 by (subst evict_from.simps) (simp add: d Let_def)
  next
    case False
    then show ?thesis by (subst evict_from.simps) simp
  qed
qed

lemma evictOne_items:
  "sh_items (evictOne sh) =
     (case victim sh of None \<Rightarrow> sh_items sh | Some k \<Rightarrow> m_del k (sh_items sh))"
  by (simp add: evictOne_def evict_from_items victim_def)

lemma evictOne_frame [simp]:
  "sh_keys (evictOne sh) = sh_keys sh" "sh_maxSize (evictOne sh) = sh_maxSize sh"
  by (simp_all add: evictOne_def)

section \<open>The invariant\<close>

definition shard_inv :: "l1_shard \<Rightarrow> bool" where
  "shard_inv sh \<longleftrightarrow> wf_map (sh_items sh) \<and> set (m_keys (sh_items sh)) \<subseteq> set (sh_keys sh) \<and>
     1 \<le> sh_maxSize sh \<and> int (length (sh_items sh)) \<le> sh_maxSize sh"

lemma new_shard_inv [inv_intros]: "1 \<le> n \<Longrightarrow> shard_inv (new_shard n)"
  by (simp add: shard_inv_def new_shard_def)

lemma victim_Some: "victim sh = Some k \<Longrightarrow> m_has (sh_items sh) k"
  by (auto simp: victim_def find_Some_iff)

lemma victim_exists:
  assumes "shard_inv sh" and "sh_items sh \<noteq> []"
  obtains k where "victim sh = Some k"
proof -
  obtain k where "k \<in> set (m_keys (sh_items sh))" using assms(2) by (cases "sh_items sh") auto
  with assms(1) have "k \<in> set (sh_keys sh)" and "m_has (sh_items sh) k"
    by (auto simp: shard_inv_def m_has_iff)
  then have "victim sh \<noteq> None" by (auto simp: victim_def find_None_iff)
  then show thesis using that by auto
qed

lemma shard_inv_del: "shard_inv sh \<Longrightarrow> shard_inv (sh\<lparr>sh_items := m_del k (sh_items sh)\<rparr>)"
  using length_m_del_le [of k "sh_items sh"] by (auto simp: shard_inv_def)

lemma shard_delete_inv [inv_intros]: "shard_inv sh \<Longrightarrow> shard_inv (shard_delete k sh)"
  by (simp add: shard_delete_def shard_inv_del)

lemma shard_get_inv [inv_intros]: "shard_inv sh \<Longrightarrow> shard_inv (snd (shard_get now k sh))"
  by (auto simp: shard_get_def shard_inv_del split: option.splits)

lemma evictOne_inv [inv_intros]: "shard_inv sh \<Longrightarrow> shard_inv (evictOne sh)"
  using shard_inv_del [of sh] by (auto simp: shard_inv_def evictOne_items split: option.splits)

text \<open>A full shard makes room: one item, the victim, is removed.\<close>

lemma evictOne_length:
  assumes "shard_inv sh" and "sh_items sh \<noteq> []"
  shows "Suc (length (sh_items (evictOne sh))) = length (sh_items sh)"
proof -
  obtain k where k: "victim sh = Some k" using assms by (rule victim_exists)
  have "length (m_del k (sh_items sh)) = length (sh_items sh) - 1"
    using assms(1) victim_Some [OF k] by (simp add: length_m_del shard_inv_def)
  moreover have "0 < length (sh_items sh)" using assms(2) by simp
  ultimately show ?thesis using k by (simp add: evictOne_items)
qed

text \<open>The eviction index moves to the slot after the victim's.\<close>

lemma evict_from_idx:
  assumes "sh_items (evict_from i sh) \<noteq> sh_items sh"
  shows "\<exists>idx < length (sh_keys sh). sh_evictIdx (evict_from i sh) = (idx + 1) mod length (sh_keys sh) \<and>
    sh_items (evict_from i sh) = m_del (sh_keys sh ! idx) (sh_items sh) \<and> m_has (sh_items sh) (sh_keys sh ! idx)"
  using assms
proof (induction i sh rule: evict_from.induct)
  case (1 i sh)
  let ?idx = "(sh_evictIdx sh + i) mod length (sh_keys sh)"
  show ?case
  proof (cases "i < length (sh_keys sh)")
    case True
    then have "?idx < length (sh_keys sh)" by (intro mod_less_divisor) linarith
    with True 1 show ?thesis
      by (cases "m_has (sh_items sh) (sh_keys sh ! ?idx)")
        (auto simp: evict_from.simps [of i sh] Let_def)
  next
    case False
    with "1.prems" show ?thesis by (simp add: evict_from.simps [of i sh])
  qed
qed

lemma evictOne_idx:
  assumes "shard_inv sh" and "victim sh = Some k"
  obtains idx where "idx < length (sh_keys sh)" "sh_keys sh ! idx = k"
    "sh_evictIdx (evictOne sh) = (idx + 1) mod length (sh_keys sh)"
proof -
  have has: "m_has (sh_items sh) k" using assms(2) by (rule victim_Some)
  have del: "sh_items (evictOne sh) = m_del k (sh_items sh)" using assms(2) by (simp add: evictOne_items)
  have ne: "m_del k (sh_items sh) \<noteq> sh_items sh"
  proof
    assume "m_del k (sh_items sh) = sh_items sh"
    then have "map_of (sh_items sh) k = map_of (m_del k (sh_items sh)) k" by simp
    with has show False by (simp add: gomap_simps)
  qed
  obtain idx where i: "idx < length (sh_keys sh)"
      "sh_evictIdx (evictOne sh) = (idx + 1) mod length (sh_keys sh)"
      "sh_items (evictOne sh) = m_del (sh_keys sh ! idx) (sh_items sh)" "m_has (sh_items sh) (sh_keys sh ! idx)"
    using evict_from_idx [of 0 sh] ne del by (auto simp: evictOne_def)
  have "sh_keys sh ! idx = k"
  proof (rule ccontr)
    assume "sh_keys sh ! idx \<noteq> k"
    then have "map_of (m_del (sh_keys sh ! idx) (sh_items sh)) k = map_of (sh_items sh) k"
      by (simp add: gomap_simps)
    moreover have "map_of (m_del (sh_keys sh ! idx) (sh_items sh)) k = None"
      by (simp only: i(3) [symmetric] del map_of_m_del fun_upd_same)
    ultimately show False using has by simp
  qed
  with i show thesis using that by blast
qed

text \<open>The shard that \<open>Set\<close> writes to, after a possible eviction.\<close>

definition make_room :: "string \<Rightarrow> l1_shard \<Rightarrow> l1_shard" where
  "make_room key sh =
     (if sh_maxSize sh \<le> int (length (sh_items sh)) \<and> \<not> m_has (sh_items sh) key
      then evictOne sh else sh)"

lemma make_room_inv: "shard_inv sh \<Longrightarrow> shard_inv (make_room k sh)"
  by (simp add: make_room_def evictOne_inv)

lemma make_room_space:
  assumes "shard_inv sh" and "\<not> m_has (sh_items (make_room k sh)) k"
  shows "int (length (sh_items (make_room k sh))) < sh_maxSize sh"
proof (cases "sh_maxSize sh \<le> int (length (sh_items sh)) \<and> \<not> m_has (sh_items sh) k")
  case True
  with assms(1) have "sh_items sh \<noteq> []" and "int (length (sh_items sh)) = sh_maxSize sh"
    by (auto simp: shard_inv_def)
  with True evictOne_length [OF assms(1)] show ?thesis by (auto simp: make_room_def)
next
  case False
  with assms(2) show ?thesis by (auto simp: make_room_def)
qed

lemma make_room_has:
  "m_has (sh_items (make_room k sh)) k \<longleftrightarrow> m_has (sh_items sh) k"
  by (auto simp: make_room_def evictOne_items gomap_simps split: option.splits)

lemma make_room_frame [simp]:
  "sh_keys (make_room k sh) = sh_keys sh" "sh_maxSize (make_room k sh) = sh_maxSize sh"
  by (simp_all add: make_room_def)

lemma shard_set_items:
  "sh_items (shard_set now ttl k v sh) =
     m_put k \<lparr>e_value = v, e_expiresAt = now + ttl\<rparr> (sh_items (make_room k sh))"
  by (simp add: shard_set_def make_room_def Let_def)

lemma shard_set_keys:
  "sh_keys (shard_set now ttl k v sh) = (if m_has (sh_items sh) k then sh_keys sh else sh_keys sh @ [k])"
  using make_room_has [of k sh] by (auto simp: shard_set_def make_room_def Let_def)

lemma shard_set_maxSize [simp]: "sh_maxSize (shard_set now ttl k v sh) = sh_maxSize sh"
  by (simp add: shard_set_def make_room_def Let_def)

lemma shard_set_inv [inv_intros]: "shard_inv sh \<Longrightarrow> shard_inv (shard_set now ttl k v sh)"
proof -
  assume inv: "shard_inv sh"
  have "int (length (sh_items (shard_set now ttl k v sh))) \<le> sh_maxSize sh"
  proof (cases "m_has (sh_items (make_room k sh)) k")
    case True
    with make_room_inv [OF inv, of k] show ?thesis
      by (simp only: shard_set_items length_m_put shard_inv_def make_room_frame simp_thms if_True)
  next
    case False
    with make_room_space [OF inv, of k] have "int (length (sh_items (make_room k sh))) < sh_maxSize sh" .
    with False show ?thesis by (simp only: shard_set_items length_m_put if_False)
  qed
  then show "shard_inv (shard_set now ttl k v sh)"
    using inv make_room_inv [OF inv, of k] make_room_has [of k sh]
    by (auto simp: shard_inv_def shard_set_items shard_set_keys m_has_iff)
qed

section \<open>Lookups after a write\<close>

lemma shard_set_same:
  "map_of (sh_items (shard_set now ttl k v sh)) k = Some \<lparr>e_value = v, e_expiresAt = now + ttl\<rparr>"
  by (simp add: shard_set_items gomap_simps)

lemma shard_set_other:
  "k' \<noteq> k \<Longrightarrow> map_of (sh_items (shard_set now ttl k v sh)) k' =
     (if victim sh = Some k' \<and> sh_maxSize sh \<le> int (length (sh_items sh)) \<and> \<not> m_has (sh_items sh) k
      then None else map_of (sh_items sh) k')"
  by (auto simp: shard_set_items gomap_simps make_room_def evictOne_items split: option.splits)

lemma shard_delete_lookup: "map_of (sh_items (shard_delete k sh)) = (map_of (sh_items sh))(k := None)"
  by (simp add: shard_delete_def gomap_simps)

interpretation shard: lossy_cache shard_inv "\<lambda>_. True" "\<lambda>sh. map_of (sh_items sh)"
  "\<lambda>k e. shard_set (e_expiresAt e - ttl) ttl k (e_value e)" shard_delete
  for ttl :: duration
  by unfold_locales (auto simp: shard_set_same shard_set_other shard_delete_lookup intro: inv_intros)

end
