(* ===== verification/Float64.thy ===== *)
theory Float64
  imports Complex_Main Prelude
begin

text \<open>
  IEEE 754 binary64: the \<open>Number\<close> of the JavaScript files under \<open>src/sample-assets-small\<close> and the
  \<open>float64\<close> of the Go code (\<open>internal/metrics\<close>).  A finite number is \<open>Fin s m e\<close>, that is
  \<open>(-1)^s * m * 2^e\<close>; \<open>canonical\<close> says which triples are the doubles.  The operations are executable:
  they compute the exact result as a fraction of naturals times a power of two and round it once,
  to nearest with ties to even (\<open>round_frac\<close>), overflow giving an infinity.  The lemmas relate them
  to the real rounding function \<open>rnd\<close>, which is monotone, fixes the doubles and has the usual error
  bound; everything the clients use follows from these three facts.
\<close>

section \<open>The numbers\<close>

datatype float64 = NaN | Inf bool | Fin bool nat int

fun canonical :: "float64 \<Rightarrow> bool" where
  "canonical NaN = True"
| "canonical (Inf s) = True"
| "canonical (Fin s m e) =
     (- 1074 \<le> e \<and> e \<le> 971 \<and> m < 2 ^ 53 \<and> (2 ^ 52 \<le> m \<or> e = - 1074))"

fun is_fin :: "float64 \<Rightarrow> bool" where
  "is_fin (Fin s m e) = True"
| "is_fin NaN = False"
| "is_fin (Inf s) = False"

definition sgn_of :: "bool \<Rightarrow> real" where
  "sgn_of s = (if s then - 1 else 1)"

fun val :: "float64 \<Rightarrow> real" where
  "val (Fin s m e) = sgn_of s * real m * 2 powi e"
| "val NaN = 0"
| "val (Inf s) = 0"

abbreviation f64_zero :: "bool \<Rightarrow> float64" where
  "f64_zero s \<equiv> Fin s 0 (- 1074)"

section \<open>Rounding, as the machine computes it\<close>

fun bit_len :: "nat \<Rightarrow> nat" where
  "bit_len n = (if n = 0 then 0 else Suc (bit_len (n div 2)))"

declare bit_len.simps [simp del]

text \<open>\<open>ilog2 p q\<close> is the floor of the binary logarithm of \<open>p / q\<close>.\<close>

definition ilog2 :: "nat \<Rightarrow> nat \<Rightarrow> int" where
  "ilog2 p q =
     (let k = int (bit_len p) - int (bit_len q)
      in if (if 0 \<le> k then q * 2 ^ nat k \<le> p else q \<le> p * 2 ^ nat (- k)) then k else k - 1)"

text \<open>\<open>round_even a b\<close> is \<open>a / b\<close> rounded to the nearest integer, ties to even.\<close>

definition round_even :: "nat \<Rightarrow> nat \<Rightarrow> nat" where
  "round_even a b =
     (let n = a div b; r = a mod b
      in if 2 * r < b then n else if b < 2 * r then Suc n else if even n then n else Suc n)"

text \<open>\<open>round_frac s p q e\<close> is the double nearest to \<open>(-1)^s * (p / q) * 2^e\<close>.\<close>

definition round_frac :: "bool \<Rightarrow> nat \<Rightarrow> nat \<Rightarrow> int \<Rightarrow> float64" where
  "round_frac s p q e =
     (if p = 0 then f64_zero s
      else let x = max (ilog2 p q + e - 52) (- 1074);
               m = (if x \<le> e then round_even (p * 2 ^ nat (e - x)) q
                    else round_even p (q * 2 ^ nat (x - e)));
               (m', x') = (if m = 2 ^ 53 then (2 ^ 52, x + 1) else (m, x))
           in if 971 < x' then Inf s else Fin s m' x')"

section \<open>Arithmetic and comparison\<close>

definition f64_of_int :: "int \<Rightarrow> float64" where
  "f64_of_int i = round_frac (i < 0) (nat \<bar>i\<bar>) 1 0"

fun f64_neg :: "float64 \<Rightarrow> float64" where
  "f64_neg NaN = NaN"
| "f64_neg (Inf s) = Inf (\<not> s)"
| "f64_neg (Fin s m e) = Fin (\<not> s) m e"

fun f64_mul :: "float64 \<Rightarrow> float64 \<Rightarrow> float64" where
  "f64_mul NaN y = NaN"
| "f64_mul x NaN = NaN"
| "f64_mul (Inf s) (Inf t) = Inf (s \<noteq> t)"
| "f64_mul (Inf s) (Fin t n f) = (if n = 0 then NaN else Inf (s \<noteq> t))"
| "f64_mul (Fin s m e) (Inf t) = (if m = 0 then NaN else Inf (s \<noteq> t))"
| "f64_mul (Fin s m e) (Fin t n f) = round_frac (s \<noteq> t) (m * n) 1 (e + f)"

text \<open>The signed significand of \<open>Fin s m e\<close> in units of \<open>2^x\<close>, for \<open>x \<le> e\<close>.\<close>

definition scaled :: "bool \<Rightarrow> nat \<Rightarrow> int \<Rightarrow> int \<Rightarrow> int" where
  "scaled s m e x = (if s then - 1 else 1) * int m * 2 ^ nat (e - x)"

fun f64_add :: "float64 \<Rightarrow> float64 \<Rightarrow> float64" where
  "f64_add NaN y = NaN"
| "f64_add x NaN = NaN"
| "f64_add (Inf s) (Inf t) = (if s = t then Inf s else NaN)"
| "f64_add (Inf s) (Fin t n f) = Inf s"
| "f64_add (Fin s m e) (Inf t) = Inf t"
| "f64_add (Fin s m e) (Fin t n f) =
     (let x = min e f; c = scaled s m e x + scaled t n f x
      in if c = 0 then f64_zero (s \<and> t) else round_frac (c < 0) (nat \<bar>c\<bar>) 1 x)"

fun f64_div :: "float64 \<Rightarrow> float64 \<Rightarrow> float64" where
  "f64_div NaN y = NaN"
| "f64_div x NaN = NaN"
| "f64_div (Inf s) (Inf t) = NaN"
| "f64_div (Inf s) (Fin t n f) = Inf (s \<noteq> t)"
| "f64_div (Fin s m e) (Inf t) = f64_zero (s \<noteq> t)"
| "f64_div (Fin s m e) (Fin t n f) =
     (if n = 0 then (if m = 0 then NaN else Inf (s \<noteq> t))
      else round_frac (s \<noteq> t) m n (e - f))"

fun f64_le :: "float64 \<Rightarrow> float64 \<Rightarrow> bool" where
  "f64_le NaN y = False"
| "f64_le x NaN = False"
| "f64_le (Inf s) (Inf t) = (s \<or> \<not> t)"
| "f64_le (Inf s) (Fin t n f) = s"
| "f64_le (Fin s m e) (Inf t) = (\<not> t)"
| "f64_le (Fin s m e) (Fin t n f) =
     (let x = min e f in scaled s m e x \<le> scaled t n f x)"

text \<open>Evaluating a closed expression: the simplifier computes with numerals.\<close>

lemmas f64_eval =
  f64_of_int_def round_frac_def ilog2_def bit_len.simps round_even_def scaled_def Let_def

lemma f64_eval_examples:
  "f64_of_int 1 = Fin False (2 ^ 52) (- 52)"
  "f64_div (f64_of_int 1) (f64_of_int 3) = Fin False 6004799503160661 (- 54)"
  "f64_add (f64_of_int (2 ^ 53)) (f64_of_int 1) = f64_of_int (2 ^ 53)"
  by (simp_all add: f64_eval)

section \<open>Rounding on the reals\<close>

text \<open>The exponent of the last place of a double near \<open>v\<close>, and the rounding function itself.\<close>

definition ulp_exp :: "real \<Rightarrow> int" where
  "ulp_exp v = max (\<lfloor>log 2 v\<rfloor> - 52) (- 1074)"

definition rhe :: "real \<Rightarrow> int" where
  "rhe y = (let n = \<lfloor>y\<rfloor>; r = y - of_int n
            in if r < 1 / 2 then n else if 1 / 2 < r then n + 1 else if even n then n else n + 1)"

definition rnd :: "real \<Rightarrow> real" where
  "rnd v = (if v \<le> 0 then 0 else of_int (rhe (v / 2 powi ulp_exp v)) * 2 powi ulp_exp v)"

lemma rhe_cases: "rhe y = \<lfloor>y\<rfloor> \<or> rhe y = \<lfloor>y\<rfloor> + 1"
  by (auto simp: rhe_def Let_def)

lemma rhe_of_int [simp]: "rhe (of_int n) = n"
  by (simp add: rhe_def)

lemma rhe_error: "\<bar>of_int (rhe y) - y\<bar> \<le> 1 / 2"
  unfolding rhe_def Let_def by (auto split: if_splits)

lemma rhe_mono: assumes "y \<le> z" shows "rhe y \<le> rhe z"
proof (cases "\<lfloor>y\<rfloor> = \<lfloor>z\<rfloor>")
  case True
  with assms show ?thesis by (auto simp: rhe_def Let_def)
next
  case False
  with floor_mono [OF assms] have "\<lfloor>y\<rfloor> + 1 \<le> \<lfloor>z\<rfloor>" by linarith
  with rhe_cases [of y] rhe_cases [of z] show ?thesis by linarith
qed

lemma rhe_nonneg: "0 \<le> y \<Longrightarrow> 0 \<le> rhe y"
  using rhe_mono [of 0 y] rhe_of_int [of 0] by simp

lemma rhe_le_of_int: "y \<le> of_int n \<Longrightarrow> rhe y \<le> n"
  using rhe_mono [of y "of_int n"] by simp

lemma rhe_ge_of_int: "of_int n \<le> y \<Longrightarrow> n \<le> rhe y"
  using rhe_mono [of "of_int n" y] by simp

lemma powi2_pos [simp]: "0 < (2::real) powi e"
  by (simp add: zero_less_power_int)

lemma powi2_mono: "e \<le> f \<Longrightarrow> (2::real) powi e \<le> 2 powi f"
  by (rule power_int_increasing) auto

lemma powi2_add: "(2::real) powi (e + f) = 2 powi e * 2 powi f"
  by (simp add: power_int_add)

lemma powi2_split: "x \<le> e \<Longrightarrow> (2::real) powi e = 2 ^ nat (e - x) * 2 powi x"
  by (metis diff_add_cancel diff_ge_0_iff_ge powi2_add power_int_nonneg_exp)

lemma powi2_div: "(2::real) powi e / 2 powi f = 2 powi (e - f)"
  by (simp add: power_int_diff)

text \<open>The floor of the binary logarithm, by its two bounds.\<close>

lemma floor_log2_eq:
  assumes "2 powi k \<le> v" and "v < 2 powi (k + 1)"
  shows "\<lfloor>log 2 v\<rfloor> = k"
proof -
  from assms(1) have v: "0 < v" using powi2_pos [of k] by linarith
  have p: "(2::real) powi j = 2 powr real_of_int j" for j
    by (simp add: powr_real_of_int')
  from assms v have "of_int k \<le> log 2 v" "log 2 v < of_int (k + 1)"
    by (simp_all add: p le_log_iff log_less_iff)
  then show ?thesis by (simp add: floor_eq_iff)
qed

lemma floor_log2_bounds:
  assumes "0 < v"
  shows "2 powi \<lfloor>log 2 v\<rfloor> \<le> v" and "v < 2 powi (\<lfloor>log 2 v\<rfloor> + 1)"
proof -
  have p: "(2::real) powi j = 2 powr real_of_int j" for j
    by (simp add: powr_real_of_int')
  show "2 powi \<lfloor>log 2 v\<rfloor> \<le> v" using assms by (simp add: p flip: le_log_iff)
  show "v < 2 powi (\<lfloor>log 2 v\<rfloor> + 1)"
    using assms floor_correct [of "log 2 v"] unfolding p by (simp only: flip: log_less_iff)
qed

lemma ulp_exp_ge: "- 1074 \<le> ulp_exp v"
  by (simp add: ulp_exp_def)

lemma ulp_exp_mono: "0 < v \<Longrightarrow> v \<le> w \<Longrightarrow> ulp_exp v \<le> ulp_exp w"
proof -
  assume "0 < v" and "v \<le> w"
  then have "\<lfloor>log 2 v\<rfloor> \<le> \<lfloor>log 2 w\<rfloor>" by (intro floor_mono) simp
  then show ?thesis by (simp add: ulp_exp_def max_def)
qed

text \<open>The doubles of the real line, without the bound on the exponent.\<close>

definition representable :: "real \<Rightarrow> bool" where
  "representable v \<longleftrightarrow> (\<exists>m e. v = real m * 2 powi e \<and> m < 2 ^ 53 \<and> - 1074 \<le> e)"

lemma representable_intro: "m < 2 ^ 53 \<Longrightarrow> - 1074 \<le> e \<Longrightarrow> representable (real m * 2 powi e)"
  by (auto simp: representable_def)

lemma rnd_nonneg: "0 \<le> rnd v"
proof (cases "v \<le> 0")
  case False
  then have "0 \<le> rhe (v / 2 powi ulp_exp v)" by (intro rhe_nonneg) (simp add: less_imp_le)
  with False show ?thesis by (simp add: rnd_def)
qed (simp add: rnd_def)

lemma rnd_0 [simp]: "rnd 0 = 0"
  by (simp add: rnd_def)

lemma ulp_exp_le:
  assumes "0 < v" "v < 2 powi (e + 53)" "- 1074 \<le> e"
  shows "ulp_exp v \<le> e"
proof -
  have "2 powi \<lfloor>log 2 v\<rfloor> < (2::real) powi (e + 53)"
    using floor_log2_bounds(1) [OF assms(1)] assms(2) by linarith
  then have "\<lfloor>log 2 v\<rfloor> < e + 53"
    using powi2_mono [of "e + 53" "\<lfloor>log 2 v\<rfloor>"] by linarith
  with assms(3) show ?thesis by (simp add: ulp_exp_def)
qed

lemma rnd_multiple:
  assumes "ulp_exp (of_int n * 2 powi e) \<le> e" and "0 \<le> n"
  shows "rnd (of_int n * 2 powi e) = of_int n * 2 powi e"
proof (cases "n = 0")
  case False
  let ?v = "of_int n * 2 powi e :: real" and ?x = "ulp_exp (of_int n * 2 powi e)"
  from False assms(2) have pos: "0 < ?v" by simp
  have "?v = of_int (n * 2 ^ nat (e - ?x)) * 2 powi ?x"
    using powi2_split [OF assms(1)] by simp
  then have "?v / 2 powi ?x = of_int (n * 2 ^ nat (e - ?x))"
    by (metis nonzero_mult_div_cancel_right powi2_pos less_irrefl)
  then have "rhe (?v / 2 powi ?x) = n * 2 ^ nat (e - ?x)" by (simp only: rhe_of_int)
  with pos powi2_split [OF assms(1)] show ?thesis
    unfolding rnd_def by (simp add: not_le)
qed simp

lemma rnd_representable: assumes "representable v" shows "rnd v = v"
proof -
  from assms obtain m e where v: "v = real m * 2 powi e" "m < 2 ^ 53" "- 1074 \<le> e"
    by (auto simp: representable_def)
  show ?thesis
  proof (cases "m = 0")
    case False
    from v(2) have "real m < 2 ^ 53" by (metis of_nat_less_iff of_nat_numeral of_nat_power)
    then have "v < 2 ^ 53 * 2 powi e" using v(1) by simp
    also have "\<dots> = 2 powi (e + 53)" using powi2_split [of e "e + 53"] by simp
    finally have "ulp_exp v \<le> e" using False v by (intro ulp_exp_le) simp_all
    with v(1) show ?thesis using rnd_multiple [of "int m" e] by simp
  qed (simp add: v)
qed

lemma rnd_mono: assumes "v \<le> w" shows "rnd v \<le> rnd w"
proof (cases "v \<le> 0")
  case True
  then show ?thesis using rnd_nonneg [of w] by (simp add: rnd_def)
next
  case False
  with assms have v: "0 < v" and w: "0 < w" by simp_all
  let ?x = "ulp_exp v" and ?y = "ulp_exp w"
  show ?thesis
  proof (cases "?x = ?y")
    case True
    with assms v w show ?thesis
      by (simp add: rnd_def rhe_mono divide_right_mono mult_right_mono less_imp_le)
  next
    case False
    with ulp_exp_mono [OF v assms] have lt: "?x < ?y" by simp
    with ulp_exp_ge [of v] have y: "?y = \<lfloor>log 2 w\<rfloor> - 52"
      by (auto simp: ulp_exp_def max_def split: if_splits)
    let ?B = "2 powi (?y + 52) :: real"
    have "\<lfloor>log 2 v\<rfloor> + 1 \<le> ?y + 52" using lt by (simp add: ulp_exp_def)
    then have "v \<le> ?B"
      using floor_log2_bounds(2) [OF v] powi2_mono [of "\<lfloor>log 2 v\<rfloor> + 1" "?y + 52"] by linarith
    moreover have B: "?B = of_int (2 ^ nat (?y + 52 - ?x)) * 2 powi ?x"
      using powi2_split [of ?x "?y + 52"] lt by simp
    ultimately have "v / 2 powi ?x \<le> of_int (2 ^ nat (?y + 52 - ?x))"
      by (simp add: pos_divide_le_eq)
    then have "rhe (v / 2 powi ?x) \<le> 2 ^ nat (?y + 52 - ?x)" by (rule rhe_le_of_int)
    then have "real_of_int (rhe (v / 2 powi ?x)) \<le> of_int (2 ^ nat (?y + 52 - ?x))"
      by (simp only: of_int_le_iff)
    with v B have 1: "rnd v \<le> ?B" by (simp add: rnd_def mult_right_mono)
    have "?B \<le> w" using floor_log2_bounds(1) [OF w] y by simp
    moreover have B': "?B = of_int (2 ^ 52) * 2 powi ?y"
      using powi2_split [of ?y "?y + 52"] by simp
    ultimately have "of_int (2 ^ 52) \<le> w / 2 powi ?y" by (simp add: pos_le_divide_eq)
    then have "2 ^ 52 \<le> rhe (w / 2 powi ?y)" by (rule rhe_ge_of_int)
    then have "of_int (2 ^ 52) \<le> real_of_int (rhe (w / 2 powi ?y))" by (simp only: of_int_le_iff)
    with w B' have "?B \<le> rnd w" by (simp add: rnd_def mult_right_mono)
    with 1 show ?thesis by simp
  qed
qed

lemma rnd_le: "v \<le> w \<Longrightarrow> representable w \<Longrightarrow> rnd v \<le> w"
  using rnd_mono [of v w] rnd_representable [of w] by simp

lemma rnd_ge: "w \<le> v \<Longrightarrow> representable w \<Longrightarrow> w \<le> rnd v"
  using rnd_mono [of w v] rnd_representable [of w] by simp

text \<open>The error of one rounding: relative \<open>2^-53\<close>, absolute \<open>2^-1075\<close> in the subnormal range.\<close>

definition rounding_error :: "real \<Rightarrow> real" where
  "rounding_error v = \<bar>v\<bar> * 2 powi (- 53) + 2 powi (- 1075)"

lemma rounding_error_minus [simp]: "rounding_error (- v) = rounding_error v"
  by (simp add: rounding_error_def)

lemma rounding_error_mono: "\<bar>v\<bar> \<le> \<bar>w\<bar> \<Longrightarrow> rounding_error v \<le> rounding_error w"
  by (simp add: rounding_error_def)

lemma rounding_error_nonneg [simp]: "0 \<le> rounding_error v"
  by (simp add: rounding_error_def)

lemma rnd_error:
  assumes "0 \<le> v"
  shows "\<bar>rnd v - v\<bar> \<le> rounding_error v"
proof (cases "v = 0")
  case False
  with assms have v: "0 < v" by simp
  let ?u = "2 powi ulp_exp v :: real"
  have "\<bar>rnd v - v\<bar> = \<bar>of_int (rhe (v / ?u)) - v / ?u\<bar> * ?u"
    using v by (simp add: rnd_def field_simps flip: abs_mult_pos)
  also have "\<dots> \<le> 1 / 2 * ?u" by (intro mult_right_mono rhe_error) simp
  also have "\<dots> = 2 powi (ulp_exp v - 1)" by (simp add: power_int_diff)
  also have "\<dots> \<le> v * 2 powi (- 53) + 2 powi (- 1075)"
  proof (cases "\<lfloor>log 2 v\<rfloor> - 52 \<le> - 1074")
    case True
    then have "ulp_exp v = - 1074" by (simp add: ulp_exp_def)
    with v show ?thesis by simp
  next
    case False
    then have "ulp_exp v - 1 = \<lfloor>log 2 v\<rfloor> + - 53" by (simp add: ulp_exp_def)
    then have "(2::real) powi (ulp_exp v - 1) = 2 powi \<lfloor>log 2 v\<rfloor> * 2 powi (- 53)"
      by (simp only: powi2_add)
    also have "\<dots> \<le> v * 2 powi (- 53)"
      using floor_log2_bounds(1) [OF v] by (intro mult_right_mono) simp_all
    finally show ?thesis using powi2_pos [of "- 1075"] by linarith
  qed
  finally show ?thesis unfolding rounding_error_def abs_of_pos [OF v] .
qed simp

section \<open>The executable rounding computes the real one\<close>

lemma bit_len_bounds: "0 < n \<Longrightarrow> 2 ^ (bit_len n - 1) \<le> n \<and> n < 2 ^ bit_len n \<and> 0 < bit_len n"
proof (induction n rule: bit_len.induct)
  case (1 n)
  show ?case
  proof (cases "n div 2 = 0")
    case True
    with 1(2) have "n = 1" by simp
    moreover have "bit_len 1 = 1" by (simp add: bit_len.simps [of "Suc 0"] bit_len.simps [of 0])
    ultimately show ?thesis by simp
  next
    case False
    define b where "b = bit_len (n div 2)"
    from False 1 have b: "2 ^ (b - 1) \<le> n div 2" "n div 2 < 2 ^ b" "0 < b"
      by (auto simp: b_def)
    have "bit_len n = Suc b" using 1(2) by (simp add: b_def bit_len.simps [of n])
    moreover from b have "2 ^ b \<le> n" by (cases b) auto
    moreover from b have "n < 2 ^ Suc b" by simp
    ultimately show ?thesis by simp
  qed
qed

lemma powi2_nat: "0 \<le> k \<Longrightarrow> (2::real) powi k = real (2 ^ nat k)"
  by (simp add: power_int_def)

lemma ilog2_bounds:
  assumes "0 < p" and "0 < q"
  shows "2 powi ilog2 p q \<le> real p / real q" and "real p / real q < 2 powi (ilog2 p q + 1)"
proof -
  define k where "k = int (bit_len p) - int (bit_len q)"
  note P = bit_len_bounds [OF assms(1)] and Q = bit_len_bounds [OF assms(2)]
  have P1: "2 powi (int (bit_len p) - 1) \<le> real p" and P2: "real p < 2 powi int (bit_len p)"
    using P by (auto simp: powi2_nat nat_diff_distrib simp del: of_nat_power)
  have Q1: "2 powi (int (bit_len q) - 1) \<le> real q" and Q2: "real q < 2 powi int (bit_len q)"
    using Q by (auto simp: powi2_nat nat_diff_distrib simp del: of_nat_power)
  have q: "0 < real q" using assms(2) by simp
  have "2 powi (k - 1) * real q \<le> 2 powi (k - 1) * 2 powi int (bit_len q)"
    using Q2 by (intro mult_left_mono) auto
  also have "\<dots> = 2 powi (int (bit_len p) - 1)" unfolding powi2_add [symmetric] by (simp add: k_def)
  finally have lo: "2 powi (k - 1) \<le> real p / real q" using P1 q by (simp add: pos_le_divide_eq)
  have "(2::real) powi int (bit_len p) = 2 powi (k + 1) * 2 powi (int (bit_len q) - 1)"
    unfolding powi2_add [symmetric] by (simp add: k_def)
  also have "\<dots> \<le> 2 powi (k + 1) * real q" using Q1 by (intro mult_left_mono) auto
  finally have "real p < 2 powi (k + 1) * real q" by (rule less_le_trans [OF P2])
  then have hi: "real p / real q < 2 powi (k + 1)" using q by (simp add: pos_divide_less_eq)
  have test: "(if 0 \<le> k then q * 2 ^ nat k \<le> p else q \<le> p * 2 ^ nat (- k))
      \<longleftrightarrow> 2 powi k \<le> real p / real q"
  proof (cases "0 \<le> k")
    case True
    have "q * 2 ^ nat k \<le> p \<longleftrightarrow> real q * 2 powi k \<le> real p"
      unfolding powi2_nat [OF True] by (metis of_nat_le_iff of_nat_mult)
    with True q show ?thesis by (simp add: pos_le_divide_eq mult.commute)
  next
    case False
    then have "q \<le> p * 2 ^ nat (- k) \<longleftrightarrow> real q \<le> real p * 2 powi (- k)"
      using powi2_nat [of "- k"] by (metis of_nat_le_iff of_nat_mult less_imp_le neg_0_le_iff_le not_le)
    also have "\<dots> \<longleftrightarrow> 2 powi k \<le> real p / real q"
      using q by (simp add: pos_le_divide_eq power_int_minus field_simps)
    finally show ?thesis using False by simp
  qed
  have il: "ilog2 p q = (if 2 powi k \<le> real p / real q then k else k - 1)"
    unfolding ilog2_def Let_def k_def [symmetric] test by simp
  show "2 powi ilog2 p q \<le> real p / real q" using lo by (simp add: il)
  show "real p / real q < 2 powi (ilog2 p q + 1)" using hi by (simp add: il)
qed

lemma round_even_rhe:
  assumes "0 < b"
  shows "rhe (real a / real b) = int (round_even a b)"
proof -
  have fl: "\<lfloor>real a / real b\<rfloor> = int (a div b)" by (simp add: floor_divide_of_nat_eq)
  have "real a = real (a div b) * real b + real (a mod b)"
    by (metis div_mult_mod_eq of_nat_add of_nat_mult)
  then have fr: "real a / real b - real (a div b) = real (a mod b) / real b"
    using assms by (simp add: field_simps)
  have "real (a mod b) / real b < 1 / 2 \<longleftrightarrow> real (2 * (a mod b)) < real b"
    using assms by (simp add: field_simps)
  moreover have "1 / 2 < real (a mod b) / real b \<longleftrightarrow> real b < real (2 * (a mod b))"
    using assms by (simp add: field_simps)
  ultimately show ?thesis
    unfolding rhe_def round_even_def Let_def fl of_int_of_nat_eq fr of_nat_less_iff by simp
qed

text \<open>The exact value that \<open>round_frac\<close> rounds.\<close>

definition frac_val :: "nat \<Rightarrow> nat \<Rightarrow> int \<Rightarrow> real" where
  "frac_val p q e = real p / real q * 2 powi e"

lemma frac_val_log:
  assumes "0 < p" and "0 < q"
  shows "\<lfloor>log 2 (frac_val p q e)\<rfloor> = ilog2 p q + e"
proof (rule floor_log2_eq)
  note B = ilog2_bounds [OF assms]
  show "2 powi (ilog2 p q + e) \<le> frac_val p q e"
    unfolding powi2_add frac_val_def using B(1) by (intro mult_right_mono) auto
  have "frac_val p q e < 2 powi (ilog2 p q + 1) * 2 powi e"
    unfolding frac_val_def using B(2) by (intro mult_strict_right_mono) auto
  then show "frac_val p q e < 2 powi (ilog2 p q + e + 1)"
    unfolding powi2_add [symmetric] by (simp add: algebra_simps)
qed

lemma round_frac_mantissa:
  assumes "0 < q" and x: "x = ulp_exp (frac_val p q e)"
  shows "int (if x \<le> e then round_even (p * 2 ^ nat (e - x)) q
              else round_even p (q * 2 ^ nat (x - e))) = rhe (frac_val p q e / 2 powi x)"
proof (cases "x \<le> e")
  case True
  have "frac_val p q e / 2 powi x = real (p * 2 ^ nat (e - x)) / real q"
    unfolding frac_val_def powi2_split [OF True] by simp
  with True show ?thesis using round_even_rhe [OF assms(1), of "p * 2 ^ nat (e - x)"] by simp
next
  case False
  then have "frac_val p q e / 2 powi x = real p / real (q * 2 ^ nat (x - e))"
    unfolding frac_val_def using powi2_split [of e x] by simp
  with False show ?thesis using round_even_rhe [of "q * 2 ^ nat (x - e)" p] assms(1) by simp
qed

lemma rhe_mantissa_bounds:
  assumes "0 < v"
  shows "rhe (v / 2 powi ulp_exp v) \<le> 2 ^ 53"
    and "- 1074 < ulp_exp v \<Longrightarrow> 2 ^ 52 \<le> rhe (v / 2 powi ulp_exp v)"
proof -
  let ?x = "ulp_exp v"
  have "\<lfloor>log 2 v\<rfloor> + 1 \<le> ?x + 53" by (simp add: ulp_exp_def)
  then have "v \<le> 2 powi (?x + 53)"
    using floor_log2_bounds(2) [OF assms] powi2_mono [of "\<lfloor>log 2 v\<rfloor> + 1" "?x + 53"] by linarith
  then have "v / 2 powi ?x \<le> of_int (2 ^ 53)"
    using powi2_split [of ?x "?x + 53"] by (simp add: pos_divide_le_eq)
  then show "rhe (v / 2 powi ?x) \<le> 2 ^ 53" by (rule rhe_le_of_int)
  assume "- 1074 < ?x"
  then have "?x + 52 = \<lfloor>log 2 v\<rfloor>" by (auto simp: ulp_exp_def max_def split: if_splits)
  then have "2 powi (?x + 52) \<le> v" using floor_log2_bounds(1) [OF assms] by simp
  then have "of_int (2 ^ 52) \<le> v / 2 powi ?x"
    using powi2_split [of ?x "?x + 52"] by (simp add: pos_le_divide_eq)
  then show "2 ^ 52 \<le> rhe (v / 2 powi ?x)" by (rule rhe_ge_of_int)
qed

text \<open>The first power of two above the format, and a double too large against one that fits.\<close>

definition f64_top :: real where
  "f64_top = 2 powi 1024"

lemma f64_top_pos [simp]: "0 < f64_top"
  unfolding f64_top_def by (rule powi2_pos)

lemma fits_iff:
  assumes "m < 2 ^ 53" and "2 ^ 52 \<le> m \<or> x \<le> 971"
  shows "real m * 2 powi x < f64_top \<longleftrightarrow> x \<le> 971"
proof
  assume lt: "real m * 2 powi x < f64_top"
  show "x \<le> 971"
  proof (rule ccontr)
    assume x: "\<not> x \<le> 971"
    with assms(2) have "2 ^ 52 \<le> real m" by (metis of_nat_le_iff of_nat_numeral of_nat_power)
    then have "2 ^ 52 * 2 powi x \<le> real m * 2 powi x" by (intro mult_right_mono) auto
    moreover have "(2::real) ^ 52 * 2 powi x = 2 powi (x + 52)"
      using powi2_split [of x "x + 52"] by simp
    moreover have "f64_top \<le> 2 powi (x + 52)"
      unfolding f64_top_def using x by (intro powi2_mono) simp
    ultimately show False using lt by linarith
  qed
next
  assume "x \<le> 971"
  from assms(1) have "real m < 2 ^ 53" by (metis of_nat_less_iff of_nat_numeral of_nat_power)
  then have "real m * 2 powi x < 2 ^ 53 * 2 powi x" by (intro mult_strict_right_mono) auto
  also have "\<dots> = 2 powi (x + 53)" using powi2_split [of x "x + 53"] by simp
  also have "\<dots> \<le> f64_top"
    unfolding f64_top_def using \<open>x \<le> 971\<close> by (intro powi2_mono) simp
  finally show "real m * 2 powi x < f64_top" .
qed

text \<open>The specification of \<open>round_frac\<close>: the rounded value as a canonical double, or an infinity.\<close>

lemma round_frac_spec:
  assumes "0 < q"
  shows "if rnd (frac_val p q e) < f64_top
         then \<exists>m x. round_frac s p q e = Fin s m x \<and> canonical (Fin s m x) \<and>
                real m * 2 powi x = rnd (frac_val p q e)
         else round_frac s p q e = Inf s"
proof (cases "p = 0")
  case True
  then have "round_frac s p q e = f64_zero s" and "rnd (frac_val p q e) = 0"
    by (simp_all add: round_frac_def frac_val_def)
  then show ?thesis by simp
next
  case False
  define v where "v = frac_val p q e"
  define x where "x = ulp_exp v"
  define m where "m = (if x \<le> e then round_even (p * 2 ^ nat (e - x)) q
                       else round_even p (q * 2 ^ nat (x - e)))"
  from False assms have v: "0 < v" by (simp add: v_def frac_val_def)
  have xm: "max (ilog2 p q + e - 52) (- 1074) = x"
    using False assms unfolding x_def v_def ulp_exp_def by (subst frac_val_log) simp_all
  have m: "int m = rhe (v / 2 powi x)"
    using round_frac_mantissa [OF assms, of x p e] by (simp add: m_def v_def x_def)
  have "rnd v = of_int (rhe (v / 2 powi x)) * 2 powi x" using v by (simp add: rnd_def x_def)
  then have rv: "rnd v = real m * 2 powi x" unfolding m [symmetric] by simp
  from rhe_mantissa_bounds(1) [OF v] m have m53: "m \<le> 2 ^ 53" by (simp add: x_def)
  from rhe_mantissa_bounds(2) [OF v] m have m52: "x = - 1074 \<or> 2 ^ 52 \<le> m"
    using ulp_exp_ge [of v] by (cases "ulp_exp v = - 1074") (auto simp: x_def)
  obtain m' x' where mx: "(if m = 2 ^ 53 then (2 ^ 52, x + 1) else (m, x)) = (m', x')"
    by (rule prod.exhaust)
  have rf: "round_frac s p q e = (if 971 < x' then Inf s else Fin s m' x')"
    using False unfolding round_frac_def Let_def xm m_def [symmetric] mx by simp
  have val': "real m' * 2 powi x' = rnd v"
    using mx powi2_split [of x "x + 1"] by (auto simp: rv split: if_splits)
  have can: "- 1074 \<le> x'" "m' < 2 ^ 53" "2 ^ 52 \<le> m' \<or> x' = - 1074"
    using mx m53 m52 ulp_exp_ge [of v] by (auto simp: x_def split: if_splits)
  then have "rnd v < f64_top \<longleftrightarrow> x' \<le> 971"
    using fits_iff [of m' x'] val' by auto
  with rf can val' show ?thesis by (auto simp: v_def)
qed

lemma frac_val_nonneg: "0 \<le> frac_val p q e"
  by (simp add: frac_val_def)

text \<open>\<open>signed_rnd\<close> rounds a real of either sign, and \<open>f64_range\<close> is where that stays finite.\<close>

definition signed_rnd :: "real \<Rightarrow> real" where
  "signed_rnd v = (if v < 0 then - rnd (- v) else rnd v)"

lemma signed_rnd_mono: "v \<le> w \<Longrightarrow> signed_rnd v \<le> signed_rnd w"
  using rnd_mono [of v w] rnd_mono [of "- w" "- v"] rnd_nonneg [of w] rnd_nonneg [of "- v"]
  by (auto simp: signed_rnd_def)

lemma signed_rnd_error:
  "\<bar>signed_rnd v - v\<bar> \<le> rounding_error v"
proof (cases "v < 0")
  case True
  then have "\<bar>signed_rnd v - v\<bar> = \<bar>rnd (- v) - (- v)\<bar>" by (simp add: signed_rnd_def)
  with True rnd_error [of "- v"] show ?thesis by simp
qed (simp add: signed_rnd_def rnd_error)

lemma abs_signed_rnd: "\<bar>signed_rnd v\<bar> = rnd \<bar>v\<bar>"
  using rnd_nonneg [of v] rnd_nonneg [of "- v"] by (auto simp: signed_rnd_def)

lemma signed_rnd_nonneg: "0 \<le> v \<Longrightarrow> 0 \<le> signed_rnd v"
  by (simp add: signed_rnd_def rnd_nonneg)

lemma sgn_of_simps [simp]: "sgn_of True = - 1" "sgn_of False = 1"
  by (simp_all add: sgn_of_def)

lemma signed_rnd_sgn: "signed_rnd (sgn_of s * v) = sgn_of s * rnd v" if "0 \<le> v"
  using that by (cases s) (auto simp: signed_rnd_def)

lemma canonical_representable:
  "canonical (Fin s m e) \<Longrightarrow> representable (real m * 2 powi e)"
  by (auto simp: representable_def)

lemma signed_rnd_val: "canonical x \<Longrightarrow> signed_rnd (val x) = val x"
  by (cases x) (auto simp: signed_rnd_sgn mult.assoc rnd_representable canonical_representable
      simp del: canonical.simps intro: rnd_0 simp: signed_rnd_def [of 0])

lemma abs_val_lt_top: "canonical x \<Longrightarrow> \<bar>val x\<bar> < f64_top"
proof (cases x)
  case (Fin s m e)
  assume "canonical x"
  with Fin have "real m * 2 powi e < f64_top" using fits_iff [of m e] by auto
  moreover have "\<bar>val x\<bar> = real m * 2 powi e" using Fin by (cases s) (auto simp: abs_mult)
  ultimately show ?thesis by simp
qed simp_all

text \<open>The two faces of \<open>round_frac\<close> that the arithmetic below uses.\<close>

lemma round_frac_fin:
  assumes "0 < q" and "rnd (frac_val p q e) < f64_top"
  shows "is_fin (round_frac s p q e)" and "canonical (round_frac s p q e)"
    and "val (round_frac s p q e) = signed_rnd (sgn_of s * frac_val p q e)"
proof -
  obtain m x where *: "round_frac s p q e = Fin s m x" "canonical (Fin s m x)"
      "real m * 2 powi x = rnd (frac_val p q e)"
    using round_frac_spec [OF assms(1), of p e s] assms(2) by auto
  then show "is_fin (round_frac s p q e)" and "canonical (round_frac s p q e)" by simp_all
  show "val (round_frac s p q e) = signed_rnd (sgn_of s * frac_val p q e)"
    using * by (simp add: signed_rnd_sgn frac_val_nonneg mult.assoc)
qed

lemma round_frac_inf:
  "0 < q \<Longrightarrow> \<not> rnd (frac_val p q e) < f64_top \<Longrightarrow> round_frac s p q e = Inf s"
  using round_frac_spec [of q p e s] by simp

lemma round_frac_canonical: "0 < q \<Longrightarrow> canonical (round_frac s p q e)"
  using round_frac_fin(2) round_frac_inf by (cases "rnd (frac_val p q e) < f64_top") auto

lemma round_frac_not_NaN: "0 < q \<Longrightarrow> round_frac s p q e \<noteq> NaN"
  using round_frac_fin(1) [of q p e s] round_frac_inf [of q p e s] by fastforce

section \<open>Arithmetic and comparison, on the values\<close>

lemma val_eq_scaled:
  assumes "x \<le> e"
  shows "val (Fin s m e) = of_int (scaled s m e x) * 2 powi x"
  using powi2_split [OF assms] by (cases s) (simp_all add: scaled_def)

lemma f64_le_Fin: "f64_le (Fin s m e) (Fin t n f) \<longleftrightarrow> val (Fin s m e) \<le> val (Fin t n f)"
proof -
  let ?x = "min e f"
  have "val (Fin s m e) \<le> val (Fin t n f) \<longleftrightarrow>
      of_int (scaled s m e ?x) * 2 powi ?x \<le> of_int (scaled t n f ?x) * (2::real) powi ?x"
    using val_eq_scaled [of ?x e s m] val_eq_scaled [of ?x f t n] by simp
  also have "\<dots> \<longleftrightarrow> scaled s m e ?x \<le> scaled t n f ?x" by simp
  finally show ?thesis by (simp add: Let_def)
qed

lemma is_fin_cases: "is_fin x \<Longrightarrow> (\<And>s m e. x = Fin s m e \<Longrightarrow> P) \<Longrightarrow> P"
  by (cases x) auto

lemma f64_le_fin: "is_fin x \<Longrightarrow> is_fin y \<Longrightarrow> f64_le x y \<longleftrightarrow> val x \<le> val y"
  by (auto elim!: is_fin_cases simp only: f64_le_Fin)

lemma frac_val_1: "frac_val p 1 e = real p * 2 powi e" "frac_val p (Suc 0) e = real p * 2 powi e"
  by (simp_all add: frac_val_def)

text \<open>
  One lemma per operation: where the rounded exact result stays below \<open>2^1024\<close>, the operation
  returns a canonical finite number whose value is the rounded exact result.
\<close>

lemma f64_mul_fin:
  assumes "is_fin x" and "is_fin y" and "rnd \<bar>val x * val y\<bar> < f64_top"
  shows "is_fin (f64_mul x y)" and "canonical (f64_mul x y)"
    and "val (f64_mul x y) = signed_rnd (val x * val y)"
proof -
  obtain s m e where x: "x = Fin s m e" using assms(1) by (rule is_fin_cases)
  obtain t n f where y: "y = Fin t n f" using assms(2) by (rule is_fin_cases)
  have fv: "frac_val (m * n) 1 (e + f) = (real m * 2 powi e) * (real n * 2 powi f)"
    by (simp add: frac_val_1 powi2_add mult_ac)
  then have v: "val x * val y = sgn_of (s \<noteq> t) * frac_val (m * n) 1 (e + f)"
    using x y by (cases s; cases t) simp_all
  then have "\<bar>val x * val y\<bar> = frac_val (m * n) 1 (e + f)"
    using frac_val_nonneg [of "m * n" 1 "e + f"] by (cases "s \<noteq> t") simp_all
  with assms(3) have "rnd (frac_val (m * n) 1 (e + f)) < f64_top" by simp
  from round_frac_fin [OF zero_less_one this, of "s \<noteq> t"] x y v
  show "is_fin (f64_mul x y)" and "canonical (f64_mul x y)"
    and "val (f64_mul x y) = signed_rnd (val x * val y)" by simp_all
qed

lemma f64_add_fin:
  assumes "is_fin x" and "is_fin y" and "rnd \<bar>val x + val y\<bar> < f64_top"
  shows "is_fin (f64_add x y)" and "canonical (f64_add x y)"
    and "val (f64_add x y) = signed_rnd (val x + val y)"
proof -
  obtain s m e where x: "x = Fin s m e" using assms(1) by (rule is_fin_cases)
  obtain t n f where y: "y = Fin t n f" using assms(2) by (rule is_fin_cases)
  define z where "z = min e f"
  define c where "c = scaled s m e z + scaled t n f z"
  have v: "val x + val y = of_int c * 2 powi z"
    using val_eq_scaled [of z e s m] val_eq_scaled [of z f t n]
    by (simp add: x y c_def z_def distrib_right)
  have fv: "frac_val (nat \<bar>c\<bar>) 1 z = \<bar>val x + val y\<bar>"
    unfolding frac_val_1 v by (simp add: abs_mult)
  have sv: "val x + val y = sgn_of (c < 0) * frac_val (nat \<bar>c\<bar>) 1 z"
    unfolding frac_val_1 v by (cases "c < 0") simp_all
  have r: "f64_add x y = (if c = 0 then f64_zero (s \<and> t) else round_frac (c < 0) (nat \<bar>c\<bar>) 1 z)"
    by (simp add: x y Let_def c_def z_def)
  have "rnd (frac_val (nat \<bar>c\<bar>) 1 z) < f64_top" using assms(3) unfolding fv .
  note R = round_frac_fin [OF zero_less_one this, of "c < 0"]
  show "is_fin (f64_add x y)" and "canonical (f64_add x y)"
    using R by (simp_all add: r)
  show "val (f64_add x y) = signed_rnd (val x + val y)"
  proof (cases "c = 0")
    case True
    then show ?thesis by (simp add: r v signed_rnd_def)
  next
    case False
    from R(3) have "val (round_frac (c < 0) (nat \<bar>c\<bar>) 1 z) = signed_rnd (val x + val y)"
      unfolding sv [symmetric] .
    with False show ?thesis by (simp add: r)
  qed
qed

lemma f64_div_fin:
  assumes "is_fin x" and "is_fin y" and "val y \<noteq> 0" and "rnd \<bar>val x / val y\<bar> < f64_top"
  shows "is_fin (f64_div x y)" and "canonical (f64_div x y)"
    and "val (f64_div x y) = signed_rnd (val x / val y)"
proof -
  obtain s m e where x: "x = Fin s m e" using assms(1) by (rule is_fin_cases)
  obtain t n f where y: "y = Fin t n f" using assms(2) by (rule is_fin_cases)
  from assms(3) y have n: "0 < n" by simp
  have fv: "frac_val m n (e - f) = (real m * 2 powi e) / (real n * 2 powi f)"
    by (simp add: frac_val_def flip: powi2_div)
  then have v: "val x / val y = sgn_of (s \<noteq> t) * frac_val m n (e - f)"
    using x y by (cases s; cases t) simp_all
  then have "\<bar>val x / val y\<bar> = frac_val m n (e - f)"
    using frac_val_nonneg [of m n "e - f"] by (cases "s \<noteq> t") simp_all
  with assms(4) have "rnd (frac_val m n (e - f)) < f64_top" by simp
  from round_frac_fin [OF n this, of "s \<noteq> t"] x y v n
  show "is_fin (f64_div x y)" and "canonical (f64_div x y)"
    and "val (f64_div x y) = signed_rnd (val x / val y)" by simp_all
qed

lemma f64_of_int_fin:
  assumes "rnd (of_int \<bar>i\<bar>) < f64_top"
  shows "is_fin (f64_of_int i)" and "canonical (f64_of_int i)"
    and "val (f64_of_int i) = signed_rnd (of_int i)"
proof -
  have fv: "frac_val (nat \<bar>i\<bar>) 1 0 = of_int \<bar>i\<bar>" by (simp add: frac_val_1)
  then have "sgn_of (i < 0) * frac_val (nat \<bar>i\<bar>) 1 0 = of_int i" by (cases "i < 0") auto
  with round_frac_fin [of 1 "nat \<bar>i\<bar>" 0 "i < 0"] assms fv
  show "is_fin (f64_of_int i)" and "canonical (f64_of_int i)"
    and "val (f64_of_int i) = signed_rnd (of_int i)" by (simp_all add: f64_of_int_def)
qed

lemma f64_mul_canonical: "canonical (f64_mul x y)"
  by (cases x; cases y) (auto intro: round_frac_canonical)

lemma f64_add_canonical: "canonical (f64_add x y)"
  by (cases x; cases y) (auto simp: Let_def intro: round_frac_canonical)

lemma f64_div_canonical: "canonical (f64_div x y)"
  by (cases x; cases y) (auto intro: round_frac_canonical)

lemmas f64_canonical = f64_mul_canonical f64_add_canonical f64_div_canonical

end
