(* ===== verification/Metrics.thy ===== *)
theory Metrics
  imports Float64
begin

text \<open>
  \<open>internal/metrics/metrics.go\<close>: the process-wide counters and their snapshot.  A counter is an
  \<open>atomic.Int64\<close>, so a \<open>64 word\<close> that wraps and is read with \<open>sint\<close>; the rates of a snapshot are
  \<open>float64\<close>s computed by \<open>Float64\<close>.  The lemmas show that the rates are finite and between 0 and 1,
  and how one recorded request moves the counters.
\<close>

type_synonym int64 = "64 word"

record metrics =
  L1Hits :: int64
  L1Misses :: int64
  L2Hits :: int64
  L2Misses :: int64
  OriginCalls :: int64
  OriginErrors :: int64
  CoalescedCalls :: int64
  TotalRequests :: int64
  TotalLatencyNs :: int64

definition metrics_zero :: metrics where
  "metrics_zero = \<lparr>L1Hits = 0, L1Misses = 0, L2Hits = 0, L2Misses = 0, OriginCalls = 0,
     OriginErrors = 0, CoalescedCalls = 0, TotalRequests = 0, TotalLatencyNs = 0\<rparr>"

text \<open>The increments of the callers: \<open>metrics.Global.X.Add(1)\<close>.\<close>

definition inc_L1Hits :: "metrics \<Rightarrow> metrics" where
  "inc_L1Hits m = m\<lparr>L1Hits := L1Hits m + 1\<rparr>"

definition inc_L1Misses :: "metrics \<Rightarrow> metrics" where
  "inc_L1Misses m = m\<lparr>L1Misses := L1Misses m + 1\<rparr>"

definition inc_L2Hits :: "metrics \<Rightarrow> metrics" where
  "inc_L2Hits m = m\<lparr>L2Hits := L2Hits m + 1\<rparr>"

definition inc_L2Misses :: "metrics \<Rightarrow> metrics" where
  "inc_L2Misses m = m\<lparr>L2Misses := L2Misses m + 1\<rparr>"

definition inc_OriginCalls :: "metrics \<Rightarrow> metrics" where
  "inc_OriginCalls m = m\<lparr>OriginCalls := OriginCalls m + 1\<rparr>"

definition inc_OriginErrors :: "metrics \<Rightarrow> metrics" where
  "inc_OriginErrors m = m\<lparr>OriginErrors := OriginErrors m + 1\<rparr>"

definition inc_CoalescedCalls :: "metrics \<Rightarrow> metrics" where
  "inc_CoalescedCalls m = m\<lparr>CoalescedCalls := CoalescedCalls m + 1\<rparr>"

lemmas inc_defs = inc_L1Hits_def inc_L1Misses_def inc_L2Hits_def inc_L2Misses_def
  inc_OriginCalls_def inc_OriginErrors_def inc_CoalescedCalls_def

definition RecordLatency :: "duration \<Rightarrow> metrics \<Rightarrow> metrics" where
  "RecordLatency d m = m\<lparr>TotalLatencyNs := TotalLatencyNs m + word_of_int d,
     TotalRequests := TotalRequests m + 1\<rparr>"

record snapshot =
  s_l1_hits :: int
  s_l1_misses :: int
  s_l1_hit_rate :: float64
  s_l2_hits :: int
  s_l2_misses :: int
  s_l2_hit_rate :: float64
  s_origin_calls :: int
  s_origin_errors :: int
  s_coalesced_calls :: int
  s_total_requests :: int
  s_avg_latency_us :: float64
  s_overall_hit_rate :: float64

text \<open>\<open>float64(part) / float64(total)\<close> where the total is positive, the zero value otherwise.\<close>

definition rate :: "int64 \<Rightarrow> int64 \<Rightarrow> float64" where
  "rate part den = (if 0 < sint den
     then f64_div (f64_of_int (sint part)) (f64_of_int (sint den)) else f64_zero False)"

definition Snapshot :: "metrics \<Rightarrow> snapshot" where
  "Snapshot m =
     \<lparr>s_l1_hits = sint (L1Hits m), s_l1_misses = sint (L1Misses m),
      s_l1_hit_rate = rate (L1Hits m) (L1Hits m + L1Misses m),
      s_l2_hits = sint (L2Hits m), s_l2_misses = sint (L2Misses m),
      s_l2_hit_rate = rate (L2Hits m) (L2Hits m + L2Misses m),
      s_origin_calls = sint (OriginCalls m), s_origin_errors = sint (OriginErrors m),
      s_coalesced_calls = sint (CoalescedCalls m), s_total_requests = sint (TotalRequests m),
      s_avg_latency_us =
        (if 0 < sint (TotalRequests m)
         then f64_div (rate (TotalLatencyNs m) (TotalRequests m)) (f64_of_int 1000)
         else f64_zero False),
      s_overall_hit_rate = rate (L1Hits m + L2Hits m) (TotalRequests m)\<rparr>"

section \<open>Rates\<close>

lemma int63_lt_top: "0 \<le> b \<Longrightarrow> b \<le> 2 ^ 63 \<Longrightarrow> rnd (of_int \<bar>b\<bar>) < f64_top"
proof -
  assume b: "0 \<le> b" "b \<le> 2 ^ 63"
  have r: "representable (2 powi 63)" using representable_intro [of 1 63] by (simp del: power_int_numeral)
  have "real_of_int b \<le> of_int (2 ^ 63)" using b(2) by (simp only: of_int_le_iff)
  then have "real_of_int \<bar>b\<bar> \<le> 2 powi 63" using b(1) by simp
  then have "rnd (of_int \<bar>b\<bar>) \<le> 2 powi 63" using r by (rule rnd_le)
  also have "(2::real) powi 63 < f64_top"
    unfolding f64_top_def by (intro power_int_strict_increasing) auto
  finally show ?thesis .
qed

lemma rate_in_unit:
  assumes "0 \<le> a" and "a \<le> b" and "0 < b" and "b \<le> 2 ^ 63"
  shows "is_fin (f64_div (f64_of_int a) (f64_of_int b))"
    and "0 \<le> val (f64_div (f64_of_int a) (f64_of_int b))"
    and "val (f64_div (f64_of_int a) (f64_of_int b)) \<le> 1"
proof -
  note A = f64_of_int_fin [OF int63_lt_top, of a] and B = f64_of_int_fin [OF int63_lt_top, of b]
  have va: "val (f64_of_int a) = rnd (of_int a)" "val (f64_of_int b) = rnd (of_int b)"
    using A(3) B(3) assms by (simp_all add: signed_rnd_def)
  have one: "representable 1" using representable_intro [of 1 0] by simp
  have "1 \<le> rnd (of_int b)" using assms(3) by (intro rnd_ge one) simp
  moreover have "rnd (of_int a) \<le> rnd (of_int b)" using assms(2) by (intro rnd_mono) simp
  ultimately have q: "0 \<le> val (f64_of_int a) / val (f64_of_int b)"
      "val (f64_of_int a) / val (f64_of_int b) \<le> 1" and nz: "val (f64_of_int b) \<noteq> 0"
    by (simp_all add: va rnd_nonneg)
  have r1: "rnd \<bar>val (f64_of_int a) / val (f64_of_int b)\<bar> \<le> 1"
    using q by (intro rnd_le one) simp
  have r2: "rnd (val (f64_of_int a) / val (f64_of_int b)) \<le> 1" using q(2) by (rule rnd_le [OF _ one])
  have "1 < f64_top" unfolding f64_top_def by (rule one_less_power_int) auto
  with r1 have "rnd \<bar>val (f64_of_int a) / val (f64_of_int b)\<bar> < f64_top" by linarith
  from f64_div_fin [OF A(1) B(1) nz this] assms r2 q
  show "is_fin (f64_div (f64_of_int a) (f64_of_int b))"
    and "0 \<le> val (f64_div (f64_of_int a) (f64_of_int b))"
    and "val (f64_div (f64_of_int a) (f64_of_int b)) \<le> 1"
    by (auto simp: signed_rnd_def rnd_nonneg)
qed

lemma sint64_bounds: "- (2 ^ 63) \<le> sint (w :: int64)" "sint (w :: int64) < 2 ^ 63"
  using sint_ge [of w] sint_lt [of w] by simp_all

lemma rate_unit:
  assumes "0 \<le> sint a" and "sint a \<le> sint b"
  shows "is_fin (rate a b)" and "0 \<le> val (rate a b)" and "val (rate a b) \<le> 1"
  using assms sint64_bounds(2) [of b] rate_in_unit [of "sint a" "sint b"]
  by (auto simp: rate_def)

lemma sint64_add:
  assumes "0 \<le> sint a" and "0 \<le> sint b" and "sint a + sint b < 2 ^ 63"
  shows "sint ((a::int64) + b) = sint a + sint b"
  using assms by (simp add: sint_word_ariths signed_take_bit_int_eq_self)

section \<open>Properties\<close>

text \<open>The hit rates of a snapshot are probabilities: with non-negative counters whose sums do not
  reach \<open>2^63\<close>, the L1 and L2 hit rates are finite and between 0 and 1, and so is the overall rate
  when the hits do not exceed the requests.\<close>

theorem snapshot_rates:
  assumes "0 \<le> sint (L1Hits m)" "0 \<le> sint (L1Misses m)" "0 \<le> sint (L2Hits m)" "0 \<le> sint (L2Misses m)"
    and "sint (L1Hits m) + sint (L1Misses m) < 2 ^ 63"
    and "sint (L2Hits m) + sint (L2Misses m) < 2 ^ 63"
    and "sint (L1Hits m) + sint (L2Hits m) \<le> sint (TotalRequests m)"
    and "r \<in> {s_l1_hit_rate (Snapshot m), s_l2_hit_rate (Snapshot m), s_overall_hit_rate (Snapshot m)}"
  shows "is_fin r \<and> 0 \<le> val r \<and> val r \<le> 1"
proof -
  have "sint (L1Hits m) + sint (L2Hits m) < 2 ^ 63" using assms(7) sint64_bounds(2) by (rule le_less_trans)
  then have s: "sint (L1Hits m + L1Misses m) = sint (L1Hits m) + sint (L1Misses m)"
    "sint (L2Hits m + L2Misses m) = sint (L2Hits m) + sint (L2Misses m)"
    "sint (L1Hits m + L2Hits m) = sint (L1Hits m) + sint (L2Hits m)"
    using assms by (simp_all add: sint64_add)
  have "is_fin (rate a b) \<and> 0 \<le> val (rate a b) \<and> val (rate a b) \<le> 1"
    if "0 \<le> sint a" "sint a \<le> sint b" for a b using rate_unit [OF that] by blast
  then show ?thesis using assms by (auto simp: Snapshot_def s)
qed

theorem snapshot_rates_witness:
  "val (s_l1_hit_rate (Snapshot (metrics_zero\<lparr>L1Hits := 3, L1Misses := 1, TotalRequests := 4\<rparr>))) \<le> 1"
  using snapshot_rates [of "metrics_zero\<lparr>L1Hits := 3, L1Misses := 1, TotalRequests := 4\<rparr>"]
  by (simp add: metrics_zero_def)

end
