(* ===== verification/L1_Cache.thy ===== *)
theory L1_Cache
  imports L1_Shard Metrics
begin

unbundle bit_operations_syntax

text \<open>
  \<open>internal/cache/l1.go\<close>: the cache of 256 shards.  \<open>NewL1\<close>, the FNV-1a routing of \<open>getShard\<close>, and
  the operations \<open>L1_Get\<close> (which also counts a hit or a miss), \<open>L1_Set\<close>, \<open>L1_Delete\<close> and \<open>L1_Stats\<close>
  on the shard of the key.  \<open>l1_inv\<close> holds after \<open>NewL1\<close> and is kept by every operation; \<open>l1_entries\<close>
  is the content as a map, and the cache is a \<open>lossy_cache\<close> on it.
\<close>

section \<open>State and operations\<close>

definition numShards :: nat where
  "numShards = 256"

record l1_cache =
  c_shards :: "l1_shard list"
  c_ttl :: duration

definition perShard_of :: "int \<Rightarrow> int" where
  "perShard_of maxSize = (let perShard = maxSize sdiv 256 in if perShard < 64 then 64 else perShard)"

definition NewL1 :: "int \<Rightarrow> duration \<Rightarrow> l1_cache" where
  "NewL1 maxSize ttl = \<lparr>c_shards = replicate numShards (new_shard (perShard_of maxSize)), c_ttl = ttl\<rparr>"

text \<open>FNV-1a over the bytes of the key, on 32-bit words, then the remainder by the shard count.\<close>

definition fnv1a :: "string \<Rightarrow> 32 word" where
  "fnv1a key = fold (\<lambda>c h. (h XOR of_nat (of_char c)) * 16777619) key 2166136261"

definition shard_index :: "string \<Rightarrow> nat" where
  "shard_index key = unat (fnv1a key mod 256)"

definition getShard :: "l1_cache \<Rightarrow> string \<Rightarrow> l1_shard" where
  "getShard c key = c_shards c ! shard_index key"

definition put_shard :: "string \<Rightarrow> l1_shard \<Rightarrow> l1_cache \<Rightarrow> l1_cache" where
  "put_shard key sh c = c\<lparr>c_shards := (c_shards c)[shard_index key := sh]\<rparr>"

definition L1_Get :: "time \<Rightarrow> string \<Rightarrow> l1_cache \<times> metrics \<Rightarrow> bytes option \<times> l1_cache \<times> metrics" where
  "L1_Get now key cm =
     (let (c, m) = cm; (r, sh) = shard_get now key (getShard c key)
      in (r, put_shard key sh c, (case r of None \<Rightarrow> inc_L1Misses m | Some v \<Rightarrow> inc_L1Hits m)))"

definition L1_Set :: "time \<Rightarrow> string \<Rightarrow> bytes \<Rightarrow> l1_cache \<Rightarrow> l1_cache" where
  "L1_Set now key value c = put_shard key (shard_set now (c_ttl c) key value (getShard c key)) c"

definition L1_Delete :: "string \<Rightarrow> l1_cache \<Rightarrow> l1_cache" where
  "L1_Delete key c = put_shard key (shard_delete key (getShard c key)) c"

definition L1_Stats :: "l1_cache \<Rightarrow> nat" where
  "L1_Stats c = fold (\<lambda>sh total. total + length (sh_items sh)) (c_shards c) 0"

section \<open>Routing\<close>

lemma shard_index_less [simp]: "shard_index key < 256"
proof -
  have "fnv1a key mod 256 < 256" by (rule word_mod_less_divisor) simp
  then show ?thesis by (simp add: shard_index_def word_less_nat_alt)
qed

text \<open>The published test vectors of FNV-1a (32 bit).\<close>

lemma fnv1a_vectors:
  "fnv1a '''' = 0x811C9DC5" "fnv1a ''a'' = 0xE40C292C" "fnv1a ''foobar'' = 0xBF9CF968"
  by (simp_all add: fnv1a_def)

section \<open>The invariant and the content as a map\<close>

definition l1_inv :: "l1_cache \<Rightarrow> bool" where
  "l1_inv c \<longleftrightarrow> length (c_shards c) = 256 \<and> list_all shard_inv (c_shards c)"

definition l1_entries :: "l1_cache \<Rightarrow> string \<Rightarrow> l1_entry option" where
  "l1_entries c key = map_of (sh_items (getShard c key)) key"

text \<open>What a \<open>Get\<close> at time \<open>now\<close> can return: the entries that have not expired.\<close>

definition l1_live :: "time \<Rightarrow> l1_cache \<Rightarrow> string \<Rightarrow> bytes option" where
  "l1_live now c key =
     (case l1_entries c key of
        None \<Rightarrow> None
      | Some e \<Rightarrow> if now > e_expiresAt e then None else Some (e_value e))"

lemma getShard_inv: "l1_inv c \<Longrightarrow> shard_inv (getShard c key)"
  by (simp add: l1_inv_def getShard_def list_all_length)

lemma put_shard_inv: "l1_inv c \<Longrightarrow> shard_inv sh \<Longrightarrow> l1_inv (put_shard key sh c)"
  by (auto simp: l1_inv_def put_shard_def list_all_length nth_list_update)

lemma getShard_put:
  "l1_inv c \<Longrightarrow> getShard (put_shard k sh c) k' = (if shard_index k' = shard_index k then sh else getShard c k')"
  by (simp add: getShard_def put_shard_def l1_inv_def nth_list_update)

lemma put_shard_ttl [simp]: "c_ttl (put_shard k sh c) = c_ttl c"
  by (simp add: put_shard_def)

lemma NewL1_inv: "l1_inv (NewL1 maxSize ttl)"
  by (auto simp: l1_inv_def NewL1_def numShards_def perShard_of_def Let_def list_all_iff
      intro!: new_shard_inv)

lemma NewL1_entries: "l1_entries (NewL1 maxSize ttl) = Map.empty"
  by (rule ext) (simp add: l1_entries_def getShard_def NewL1_def numShards_def new_shard_def)

lemma L1_Set_inv [inv_intros]: "l1_inv c \<Longrightarrow> l1_inv (L1_Set now k v c)"
  by (simp add: L1_Set_def put_shard_inv shard_set_inv getShard_inv)

lemma L1_Delete_inv [inv_intros]: "l1_inv c \<Longrightarrow> l1_inv (L1_Delete k c)"
  by (simp add: L1_Delete_def put_shard_inv shard_delete_inv getShard_inv)

lemma L1_Set_ttl [simp]: "c_ttl (L1_Set now k v c) = c_ttl c"
  by (simp add: L1_Set_def)

lemma L1_Delete_ttl [simp]: "c_ttl (L1_Delete k c) = c_ttl c"
  by (simp add: L1_Delete_def)

text \<open>\<open>Get\<close> in one equation: the live value, the lazy deletion, and the counter.\<close>

lemma put_shard_same: "l1_inv c \<Longrightarrow> put_shard k (getShard c k) c = c"
  by (simp add: put_shard_def getShard_def l1_inv_def)

lemma L1_Get_eq:
  assumes "l1_inv c"
  shows "L1_Get now k (c, m) =
     (l1_live now c k,
      if l1_entries c k \<noteq> None \<and> l1_live now c k = None then L1_Delete k c else c,
      if l1_live now c k = None then inc_L1Misses m else inc_L1Hits m)"
  using put_shard_same [OF assms, of k]
  by (auto simp: L1_Get_def shard_get_def l1_live_def l1_entries_def L1_Delete_def shard_delete_def
      split: option.splits)

lemma L1_Get_inv [inv_intros]: "l1_inv c \<Longrightarrow> l1_inv (fst (snd (L1_Get now k (c, m))))"
  by (simp add: L1_Get_eq L1_Delete_inv)

lemma L1_Set_entries_same:
  "l1_inv c \<Longrightarrow> l1_entries (L1_Set now k v c) k = Some \<lparr>e_value = v, e_expiresAt = now + c_ttl c\<rparr>"
  by (simp add: l1_entries_def L1_Set_def getShard_put shard_set_same)

lemma L1_Set_entries_other:
  assumes "l1_inv c" and "k' \<noteq> k"
  shows "l1_entries (L1_Set now k v c) k' =
    (if shard_index k' = shard_index k \<and> victim (getShard c k) = Some k' \<and>
        sh_maxSize (getShard c k) \<le> int (length (sh_items (getShard c k))) \<and> l1_entries c k = None
     then None else l1_entries c k')"
proof (cases "shard_index k' = shard_index k")
  case True
  then have "getShard c k' = getShard c k" by (simp add: getShard_def)
  with True assms show ?thesis
    by (simp add: l1_entries_def L1_Set_def getShard_put shard_set_other)
next
  case False
  with assms show ?thesis by (simp add: l1_entries_def L1_Set_def getShard_put)
qed

lemma L1_Delete_entries:
  assumes "l1_inv c"
  shows "l1_entries (L1_Delete k c) = (l1_entries c)(k := None)"
proof
  fix k'
  show "l1_entries (L1_Delete k c) k' = ((l1_entries c)(k := None)) k'"
  proof (cases "shard_index k' = shard_index k")
    case True
    then have "getShard c k' = getShard c k" by (simp add: getShard_def)
    with True assms show ?thesis
      by (simp add: l1_entries_def L1_Delete_def getShard_put shard_delete_lookup)
  next
    case False
    with assms have "k' \<noteq> k" by auto
    with False assms show ?thesis by (simp add: l1_entries_def L1_Delete_def getShard_put)
  qed
qed

text \<open>The L1 cache is a lossy cache of entries, an entry being a value with its expiry time.\<close>

interpretation l1: lossy_cache l1_inv "\<lambda>_. True" l1_entries
  "\<lambda>k e c. L1_Set (e_expiresAt e - c_ttl c) k (e_value e) c" L1_Delete
  by unfold_locales (auto simp: L1_Set_entries_same L1_Set_entries_other L1_Delete_entries intro: inv_intros)

section \<open>Sizes\<close>

lemma fold_total: "fold (\<lambda>sh total. total + length (sh_items sh)) shs n
    = n + sum_list (map (\<lambda>sh. length (sh_items sh)) shs)"
  by (induction shs arbitrary: n) auto

lemma sum_list_bound:
  "\<forall>x \<in> set xs. int (f x) \<le> n \<Longrightarrow> int (sum_list (map f xs)) \<le> int (length xs) * n"
  by (induction xs) (auto simp: algebra_simps)

lemma L1_Stats_bound:
  assumes "l1_inv c" and "\<forall>sh \<in> set (c_shards c). sh_maxSize sh = n"
  shows "int (L1_Stats c) \<le> 256 * n"
proof -
  have "\<forall>sh \<in> set (c_shards c). int (length (sh_items sh)) \<le> n"
    using assms by (auto simp: l1_inv_def list_all_iff shard_inv_def)
  from sum_list_bound [OF this] assms(1) show ?thesis
    by (simp add: L1_Stats_def fold_total l1_inv_def)
qed

section \<open>Runs\<close>

datatype l1_op = OpGet time string | OpSet time string bytes | OpDelete string

fun l1_step :: "l1_op \<Rightarrow> l1_cache \<times> metrics \<Rightarrow> l1_cache \<times> metrics" where
  "l1_step (OpGet now k) cm = snd (L1_Get now k cm)"
| "l1_step (OpSet now k v) (c, m) = (L1_Set now k v c, m)"
| "l1_step (OpDelete k) (c, m) = (L1_Delete k c, m)"

definition l1_run :: "l1_op list \<Rightarrow> l1_cache \<times> metrics \<Rightarrow> l1_cache \<times> metrics" where
  "l1_run ops cm = fold l1_step ops cm"

text \<open>The reference: the last write of every key, with its time.\<close>

fun last_write_step :: "l1_op \<Rightarrow> (string \<Rightarrow> (time \<times> bytes) option) \<Rightarrow> (string \<Rightarrow> (time \<times> bytes) option)" where
  "last_write_step (OpGet now k) w = w"
| "last_write_step (OpSet now k v) w = w(k \<mapsto> (now, v))"
| "last_write_step (OpDelete k) w = w(k := None)"

definition last_write :: "l1_op list \<Rightarrow> string \<Rightarrow> (time \<times> bytes) option" where
  "last_write ops = fold last_write_step ops Map.empty"

definition capacity_is :: "int \<Rightarrow> l1_cache \<Rightarrow> bool" where
  "capacity_is n c \<longleftrightarrow> list_all (\<lambda>sh. sh_maxSize sh = n) (c_shards c)"

lemma put_shard_capacity:
  "l1_inv c \<Longrightarrow> capacity_is n c \<Longrightarrow> sh_maxSize sh = sh_maxSize (getShard c k) \<Longrightarrow>
   capacity_is n (put_shard k sh c)"
  by (auto simp: capacity_is_def put_shard_def getShard_def l1_inv_def list_all_length nth_list_update)

lemma shard_get_maxSize [simp]: "sh_maxSize (snd (shard_get now k sh)) = sh_maxSize sh"
  by (auto simp: shard_get_def split: option.splits)

lemma shard_delete_maxSize [simp]: "sh_maxSize (shard_delete k sh) = sh_maxSize sh"
  by (simp add: shard_delete_def)

lemma l1_step_inv:
  assumes "l1_inv (fst cm)"
  shows "l1_inv (fst (l1_step op cm))" and "c_ttl (fst (l1_step op cm)) = c_ttl (fst cm)"
    and "capacity_is n (fst cm) \<Longrightarrow> capacity_is n (fst (l1_step op cm))"
proof -
  obtain c m where cm: "cm = (c, m)" by (cases cm)
  have get: "fst (snd (L1_Get now k (c, m))) = put_shard k (snd (shard_get now k (getShard c k))) c" for now k
    by (simp add: L1_Get_def split_beta Let_def)
  show "l1_inv (fst (l1_step op cm))" and "c_ttl (fst (l1_step op cm)) = c_ttl (fst cm)"
    and "capacity_is n (fst cm) \<Longrightarrow> capacity_is n (fst (l1_step op cm))"
    using assms
    by (cases op; auto simp: cm get L1_Set_def L1_Delete_def getShard_inv
        intro!: put_shard_inv put_shard_capacity inv_intros)+
qed

lemma l1_run_inv:
  "l1_inv (fst cm) \<Longrightarrow> capacity_is n (fst cm) \<Longrightarrow>
   l1_inv (fst (l1_run ops cm)) \<and> capacity_is n (fst (l1_run ops cm)) \<and>
   c_ttl (fst (l1_run ops cm)) = c_ttl (fst cm)"
proof (induction ops arbitrary: cm)
  case (Cons op ops)
  then show ?case using l1_step_inv [where cm = cm and op = op] by (simp add: l1_run_def)
qed (simp add: l1_run_def)

lemma NewL1_capacity: "capacity_is (perShard_of maxSize) (NewL1 maxSize ttl)"
  by (simp add: capacity_is_def NewL1_def new_shard_def list_all_iff)

text \<open>Entries never differ from the last write: the cache is a part of the reference.\<close>

definition as_entry :: "duration \<Rightarrow> time \<times> bytes \<Rightarrow> l1_entry" where
  "as_entry ttl w = \<lparr>e_value = snd w, e_expiresAt = fst w + ttl\<rparr>"

definition ref_entries :: "duration \<Rightarrow> (string \<Rightarrow> (time \<times> bytes) option) \<Rightarrow> string \<Rightarrow> l1_entry option" where
  "ref_entries ttl w k = map_option (as_entry ttl) (w k)"

lemma ref_entries_upd:
  "ref_entries ttl (w(k \<mapsto> x)) = (ref_entries ttl w)(k \<mapsto> as_entry ttl x)"
  "ref_entries ttl (w(k := None)) = (ref_entries ttl w)(k := None)"
  by (auto simp: ref_entries_def)

lemma l1_step_refines:
  assumes "l1_inv (fst cm)" and "c_ttl (fst cm) = ttl"
    and "l1_entries (fst cm) \<subseteq>\<^sub>m ref_entries ttl w"
  shows "l1_entries (fst (l1_step op cm)) \<subseteq>\<^sub>m ref_entries ttl (last_write_step op w)"
proof -
  obtain c m where cm: "cm = (c, m)" by (cases cm)
  show ?thesis
  proof (cases op)
    case (OpGet now k)
    have "l1_entries (fst (l1_step op cm)) \<subseteq>\<^sub>m l1_entries c"
      using assms(1) by (auto simp: OpGet cm L1_Get_eq L1_Delete_entries map_le_def)
    with assms(3) show ?thesis by (auto simp: OpGet cm intro: map_le_trans)
  next
    case (OpSet now k v)
    have "l1_entries (l1.cache_step (Store k (as_entry ttl (now, v))) c)
        \<subseteq>\<^sub>m map_step (Store k (as_entry ttl (now, v))) (ref_entries ttl w)"
      using assms by (intro l1.cache_step_refines) (simp_all add: cm)
    with assms(2) show ?thesis by (simp add: OpSet cm as_entry_def ref_entries_upd)
  next
    case (OpDelete k)
    have "l1_entries (l1.cache_step (Remove k) c) \<subseteq>\<^sub>m map_step (Remove k) (ref_entries ttl w)"
      using assms by (intro l1.cache_step_refines) (simp_all add: cm)
    then show ?thesis by (simp add: OpDelete cm ref_entries_upd)
  qed
qed

lemma l1_run_refines:
  assumes "l1_inv (fst cm)" and "c_ttl (fst cm) = ttl"
    and "l1_entries (fst cm) \<subseteq>\<^sub>m ref_entries ttl w"
  shows "l1_entries (fst (l1_run ops cm)) \<subseteq>\<^sub>m ref_entries ttl (fold last_write_step ops w)"
  using assms
proof (induction ops arbitrary: cm w)
  case (Cons op ops)
  then show ?case
    using l1_step_inv(1,2) [where cm = cm and op = op] l1_step_refines [of cm ttl w op]
    by (simp add: l1_run_def)
qed (simp add: l1_run_def)

end
