(* ===== verification/L1_Properties.thy ===== *)
theory L1_Properties
  imports L1_Cache
begin

text \<open>
  What the L1 cache guarantees and what it does not: the capacity bound over every run, the
  never-stale guarantee, the eviction order, and the two places where the code falls short of its
  comments and tests: the key list grows without bound, and the configured size is not the capacity
  (\<open>TestL1_Eviction\<close> of \<open>l1_test.go\<close>).
\<close>

section \<open>Filling a cache\<close>

definition set_all :: "time \<Rightarrow> bytes \<Rightarrow> string list \<Rightarrow> l1_cache \<Rightarrow> l1_cache" where
  "set_all now v ks c = fold (\<lambda>k c. L1_Set now k v c) ks c"

definition keys_in_shard :: "nat \<Rightarrow> string list \<Rightarrow> string list" where
  "keys_in_shard j ks = filter (\<lambda>k. shard_index k = j) ks"

lemma shard_set_room:
  assumes "\<not> m_has (sh_items sh) k" and "int (length (sh_items sh)) < sh_maxSize sh"
  shows "length (sh_items (shard_set now ttl k v sh)) = Suc (length (sh_items sh))"
    and "set (m_keys (sh_items (shard_set now ttl k v sh))) = insert k (set (m_keys (sh_items sh)))"
proof -
  have "make_room k sh = sh" using assms(2) by (simp add: make_room_def)
  then show "length (sh_items (shard_set now ttl k v sh)) = Suc (length (sh_items sh))"
    and "set (m_keys (sh_items (shard_set now ttl k v sh))) = insert k (set (m_keys (sh_items sh)))"
    using assms(1) by (simp_all only: shard_set_items length_m_put set_map set_keys_m_put if_False)
qed

lemma fill_shards:
  fixes now :: time and v :: bytes and ttl :: duration
  assumes "distinct ks" and "\<And>j. int (length (keys_in_shard j ks)) \<le> perShard_of maxSize"
  defines "c \<equiv> set_all now v ks (NewL1 maxSize ttl)"
  shows "l1_inv c \<and> capacity_is (perShard_of maxSize) c \<and>
    (\<forall>j < 256. set (m_keys (sh_items (c_shards c ! j))) = set (keys_in_shard j ks) \<and>
       length (sh_items (c_shards c ! j)) = length (keys_in_shard j ks))"
  using assms(1,2) unfolding c_def
proof (induction ks rule: rev_induct)
  case Nil
  show ?case
    by (simp add: set_all_def NewL1_inv NewL1_capacity keys_in_shard_def)
      (simp add: NewL1_def numShards_def new_shard_def)
next
  case (snoc k ks)
  let ?c = "set_all now v ks (NewL1 maxSize ttl)" and ?i = "shard_index k"
  have small: "int (length (keys_in_shard j ks)) \<le> perShard_of maxSize" for j
    using snoc.prems(2) [of j] by (simp add: keys_in_shard_def split: if_splits)
  with snoc.IH snoc.prems(1) have inv: "l1_inv ?c" and cap: "capacity_is (perShard_of maxSize) ?c"
    and sh: "\<And>j. j < 256 \<Longrightarrow> set (m_keys (sh_items (c_shards ?c ! j))) = set (keys_in_shard j ks)"
      "\<And>j. j < 256 \<Longrightarrow> length (sh_items (c_shards ?c ! j)) = length (keys_in_shard j ks)"
    by simp_all
  have step: "set_all now v (ks @ [k]) (NewL1 maxSize ttl) = L1_Set now k v ?c"
    by (simp add: set_all_def)
  have max: "sh_maxSize (getShard ?c k) = perShard_of maxSize"
    using cap inv by (simp add: capacity_is_def getShard_def list_all_length l1_inv_def)
  have "k \<notin> set (m_keys (sh_items (getShard ?c k)))"
    using snoc.prems(1) sh(1) [of ?i] by (simp add: getShard_def keys_in_shard_def)
  then have new: "\<not> m_has (sh_items (getShard ?c k)) k" by (simp only: m_has_iff not_False_eq_True)
  have room: "int (length (sh_items (getShard ?c k))) < sh_maxSize (getShard ?c k)"
    using snoc.prems(2) [of ?i] sh(2) [of ?i] max by (simp add: getShard_def keys_in_shard_def)
  note R = shard_set_room [OF new room, of now "c_ttl ?c" v]
  have shards: "c_shards (L1_Set now k v ?c) =
      (c_shards ?c)[?i := shard_set now (c_ttl ?c) k v (getShard ?c k)]"
    by (simp add: L1_Set_def put_shard_def)
  have cap': "capacity_is (perShard_of maxSize) (L1_Set now k v ?c)"
    using inv cap unfolding L1_Set_def by (intro put_shard_capacity) simp_all
  have inv': "l1_inv (L1_Set now k v ?c)" using inv by (rule L1_Set_inv)
  have "length (c_shards ?c) = 256" using inv by (simp add: l1_inv_def)
  then show ?case
    using inv' cap' R sh
    by (auto simp: step shards nth_list_update getShard_def keys_in_shard_def)
qed

lemma sum_filter_length:
  "(\<And>k. f k < n) \<Longrightarrow> sum_list (map (\<lambda>j. length (filter (\<lambda>k. f k = j) ks)) [0..<n]) = length ks"
proof (induction ks)
  case (Cons k ks)
  have "sum_list (map (\<lambda>j. length (filter (\<lambda>k'. f k' = j) (k # ks))) [0..<n])
      = sum_list (map (\<lambda>j. (if f k = j then 1 else 0) + length (filter (\<lambda>k'. f k' = j) ks)) [0..<n])"
    by (intro arg_cong [of _ _ sum_list] map_cong) auto
  also have "\<dots> = sum_list (map (\<lambda>j. if f k = j then 1 else 0) [0..<n]) + length ks"
    using Cons by (simp add: sum_list_addf)
  also have "sum_list (map (\<lambda>j. if f k = j then 1 else (0::nat)) [0..<n]) = 1"
    using Cons.prems [of k] by (simp add: sum_list_sum_nth)
  finally show ?case by simp
qed (simp add: sum_list_replicate map_replicate_const)

lemma fill_size:
  assumes "distinct ks" and "\<And>j. int (length (keys_in_shard j ks)) \<le> perShard_of maxSize"
  shows "L1_Stats (set_all now v ks (NewL1 maxSize ttl)) = length ks"
proof -
  let ?c = "set_all now v ks (NewL1 maxSize ttl)"
  note F = fill_shards [OF assms(1), of maxSize now v ttl, OF assms(2)]
  have len: "length (c_shards ?c) = 256" using F by (simp add: l1_inv_def)
  have "map (\<lambda>sh. length (sh_items sh)) (c_shards ?c) = map (\<lambda>j. length (keys_in_shard j ks)) [0..<256]"
    using F len by (intro nth_equalityI) simp_all
  then show ?thesis
    using sum_filter_length [of shard_index 256 ks]
    by (simp add: L1_Stats_def fold_total keys_in_shard_def)
qed

text \<open>
  Keys that fill the shards evenly: FNV-1a is a bijection in the last byte, modulo 256, because the
  multiplier \<open>16777619\<close> is \<open>147\<close> modulo 256, whose inverse is \<open>155\<close>.
\<close>

lemma fnv1a_snoc: "fnv1a (s @ [c]) = (fnv1a s XOR of_nat (of_char c)) * 16777619"
  by (simp add: fnv1a_def)

lemma ucast8_mult: "(ucast (a * b :: 32 word) :: 8 word) = ucast a * ucast b"
proof -
  have "take_bit 8 (take_bit 32 x * take_bit 32 y) = take_bit 8 (x * y)" for x y :: int
    by (subst take_bit_mult [symmetric]) (simp add: take_bit_mult)
  then show ?thesis by transfer simp
qed

lemma multiplier8: "(ucast (16777619 :: 32 word) :: 8 word) = 147"
  by simp

lemma ucast8_xor: "(ucast (a XOR b :: 32 word) :: 8 word) = ucast a XOR ucast b"
  by transfer simp

lemma ucast8_of_nat: "(ucast (of_nat n :: 32 word) :: 8 word) = of_nat n"
  by transfer simp

lemma xor8_left_cancel: "(a :: 8 word) XOR x = a XOR y \<Longrightarrow> x = y"
  by (metis xor.assoc xor.left_neutral xor_self_eq)

lemma byte_inj: "of_nat (of_char c) = (of_nat (of_char d) :: 8 word) \<Longrightarrow> c = d"
  by (simp add: word_of_nat_eq_iff take_bit_nat_eq_self)

lemma mod256_ucast: "unat ((w :: 32 word) mod 256) = unat (ucast w :: 8 word)"
  by (simp add: unat_mod_distrib unsigned_ucast_eq take_bit_eq_mod)

lemma shard_index_ucast: "shard_index k = unat (ucast (fnv1a k) :: 8 word)"
  unfolding shard_index_def by (rule mod256_ucast)

lemma shard_index_last_inj:
  assumes "shard_index (s @ [c]) = shard_index (s @ [d])"
  shows "c = d"
proof -
  let ?h = "ucast (fnv1a s) :: 8 word"
  have step: "(ucast (fnv1a (s @ [x])) :: 8 word) = (?h XOR of_nat (of_char x)) * 147" for x
    by (simp only: fnv1a_snoc ucast8_mult ucast8_xor ucast8_of_nat multiplier8)
  have "(?h XOR of_nat (of_char c)) * 147 = (?h XOR of_nat (of_char d)) * 147"
    using assms unfolding shard_index_ucast step by (simp only: word_unat_eq_iff)
  then have "(?h XOR of_nat (of_char c)) * (147 * 155) = (?h XOR of_nat (of_char d)) * (147 * 155)"
    by (simp only: mult.assoc [symmetric])
  moreover have "(147 * 155 :: 8 word) = 1" by simp
  ultimately have "?h XOR of_nat (of_char c) = ?h XOR of_nat (of_char d)"
    by (simp only: mult_1_right)
  then have "of_nat (of_char c) = (of_nat (of_char d) :: 8 word)" by (rule xor8_left_cancel)
  then show "c = d" by (rule byte_inj)
qed

definition all_bytes :: "char list" where
  "all_bytes = map char_of [0..<(256::nat)]"

definition two_byte_keys :: "nat \<Rightarrow> string list" where
  "two_byte_keys n = concat (map (\<lambda>a. map (\<lambda>b. [char_of a, b]) all_bytes) [0..<n])"

lemma char_of_inj: "inj_on (char_of :: nat \<Rightarrow> char) {0..<256}"
  by (intro inj_on_inverseI [of _ of_char]) simp

lemma all_bytes_length: "length all_bytes = 256"
  by (simp only: all_bytes_def length_map length_upt)

lemma all_bytes_distinct: "distinct all_bytes"
  unfolding all_bytes_def distinct_map set_upt using char_of_inj by (intro conjI distinct_upt)

lemma two_byte_keys_distinct: "n \<le> 256 \<Longrightarrow> distinct (two_byte_keys n)"
proof (induction n)
  case (Suc n)
  have "inj_on (\<lambda>b. [char_of n, b]) (set all_bytes)" by (rule inj_onI) simp
  moreover have "(char_of n :: char) \<noteq> char_of a" if "a < n" for a
    using inj_onD [OF char_of_inj, of n a] Suc.prems that by auto
  ultimately show ?case
    using Suc by (auto simp: two_byte_keys_def distinct_map all_bytes_distinct)
qed (simp add: two_byte_keys_def)

lemma two_byte_keys_length: "length (two_byte_keys n) = 256 * n"
  by (induction n) (simp_all add: two_byte_keys_def all_bytes_length)

lemma one_per_shard: "distinct bs \<Longrightarrow> length (keys_in_shard j (map (\<lambda>b. [a, b]) bs)) \<le> 1"
proof (induction bs)
  case (Cons b bs)
  show ?case
  proof (cases "shard_index [a, b] = j")
    case True
    have "shard_index [a, b'] \<noteq> j" if "b' \<in> set bs" for b'
    proof
      assume "shard_index [a, b'] = j"
      with True have "shard_index ([a] @ [b']) = shard_index ([a] @ [b])" by simp
      then have "b' = b" by (rule shard_index_last_inj)
      with that Cons.prems show False by simp
    qed
    then have "keys_in_shard j (map (\<lambda>b. [a, b]) bs) = []"
      unfolding keys_in_shard_def by (auto simp: filter_empty_conv)
    with True show ?thesis by (simp add: keys_in_shard_def)
  next
    case False
    with Cons show ?thesis by (simp add: keys_in_shard_def)
  qed
qed (simp add: keys_in_shard_def)

lemma two_byte_keys_spread: "length (keys_in_shard j (two_byte_keys n)) \<le> n"
proof (induction n)
  case (Suc n)
  have "keys_in_shard j (two_byte_keys (Suc n)) =
      keys_in_shard j (two_byte_keys n) @ keys_in_shard j (map (\<lambda>b. [char_of n, b]) all_bytes)"
    by (simp add: two_byte_keys_def keys_in_shard_def)
  with Suc one_per_shard [OF all_bytes_distinct, of j "char_of n"] show ?case by simp
qed (simp add: two_byte_keys_def keys_in_shard_def)

section \<open>Set and Delete over and over\<close>

definition churn :: "time \<Rightarrow> string \<Rightarrow> bytes \<Rightarrow> nat \<Rightarrow> l1_op list" where
  "churn now k v n = concat (replicate n [OpSet now k v, OpDelete k])"

lemma churn_step:
  fixes now :: time and v :: bytes
  assumes "l1_inv c" and "l1_entries c k = None"
  defines "c' \<equiv> L1_Delete k (L1_Set now k v c)"
  shows "l1_inv c'" and "l1_entries c' k = None"
    and "sh_keys (getShard c' k) = sh_keys (getShard c k) @ [k]"
proof -
  have inv: "l1_inv (L1_Set now k v c)" using assms(1) by (rule L1_Set_inv)
  then show "l1_inv c'" unfolding c'_def by (rule L1_Delete_inv)
  show "l1_entries c' k = None" by (simp add: c'_def L1_Delete_entries [OF inv])
  have "getShard c' k = shard_delete k (getShard (L1_Set now k v c) k)"
    unfolding c'_def L1_Delete_def using inv by (simp add: getShard_put)
  moreover have "getShard (L1_Set now k v c) k = shard_set now (c_ttl c) k v (getShard c k)"
    unfolding L1_Set_def using assms(1) by (simp add: getShard_put)
  ultimately show "sh_keys (getShard c' k) = sh_keys (getShard c k) @ [k]"
    using assms(2) by (simp add: shard_delete_def shard_set_keys l1_entries_def)
qed

lemma churn_run:
  "l1_inv c \<Longrightarrow> l1_entries c k = None \<Longrightarrow>
   l1_entries (fst (l1_run (churn now k v n) (c, m))) k = None \<and>
   sh_keys (getShard (fst (l1_run (churn now k v n) (c, m))) k) = sh_keys (getShard c k) @ replicate n k"
proof (induction n arbitrary: c)
  case (Suc n)
  then show ?case
    using churn_step [of c k now v] by (simp add: l1_run_def churn_def)
qed (simp add: l1_run_def churn_def)

section \<open>Properties\<close>

text \<open>C6: over every sequence of operations a cache made by \<open>NewL1\<close> keeps its invariant, and its size
  never exceeds 256 times the shard capacity.\<close>

theorem l1_capacity:
  fixes maxSize :: int and ttl :: duration and m :: metrics and ops :: "l1_op list"
  defines "c \<equiv> fst (l1_run ops (NewL1 maxSize ttl, m))"
  shows "l1_inv c \<and> int (L1_Stats c) \<le> 256 * perShard_of maxSize"
proof -
  have "l1_inv c \<and> capacity_is (perShard_of maxSize) c"
    using l1_run_inv [of "(NewL1 maxSize ttl, m)" "perShard_of maxSize" ops]
    by (simp add: c_def NewL1_inv NewL1_capacity)
  then show ?thesis by (auto simp: capacity_is_def list_all_iff intro!: L1_Stats_bound)
qed

text \<open>C5: a hit is never stale.  Whatever operations ran since \<open>NewL1\<close>, if \<open>Get k\<close> returns \<open>v\<close> then the last
  write of \<open>k\<close> was a \<open>Set\<close> of \<open>v\<close>, with no \<open>Delete\<close> since, and its TTL has not run out.\<close>

theorem l1_never_stale:
  assumes "fst (L1_Get now k (l1_run ops (NewL1 maxSize ttl, m))) = Some v"
  shows "\<exists>t. last_write ops k = Some (t, v) \<and> now \<le> t + ttl"
proof -
  obtain c m' where cm: "l1_run ops (NewL1 maxSize ttl, m) = (c, m')" by (rule prod.exhaust)
  have inv: "l1_inv c"
    using l1_run_inv [of "(NewL1 maxSize ttl, m)" "perShard_of maxSize" ops]
    by (simp add: cm NewL1_inv NewL1_capacity)
  have "l1_entries c \<subseteq>\<^sub>m ref_entries ttl (last_write ops)"
    using l1_run_refines [of "(NewL1 maxSize ttl, m)" ttl Map.empty ops]
    by (simp add: cm NewL1_inv NewL1_entries last_write_def) (simp add: NewL1_def)
  moreover obtain e where e: "l1_entries c k = Some e" "now \<le> e_expiresAt e" "e_value e = v"
    using assms by (auto simp: cm L1_Get_eq [OF inv] l1_live_def split: option.splits if_splits)
  ultimately have "ref_entries ttl (last_write ops) k = Some e"
    by (metis domI map_le_def)
  with e show ?thesis by (auto simp: ref_entries_def as_entry_def)
qed

theorem l1_never_stale_witness:
  "\<exists>t. last_write [OpSet 0 ''a'' ''x'', OpGet 3 ''a'', OpSet 4 ''a'' ''y''] ''a'' = Some (t, ''y'') \<and> 9 \<le> t + 10"
proof (rule l1_never_stale [of 9 "''a''" "[OpSet 0 ''a'' ''x'', OpGet 3 ''a'', OpSet 4 ''a'' ''y'']" 0 10 metrics_zero])
  show "fst (L1_Get 9 ''a'' (l1_run [OpSet 0 ''a'' ''x'', OpGet 3 ''a'', OpSet 4 ''a'' ''y'']
      (NewL1 0 10, metrics_zero))) = Some ''y''"
    by (simp add: l1_run_def L1_Get_eq L1_Set_inv NewL1_inv l1_live_def L1_Set_entries_same)
      (simp add: NewL1_def)
qed

text \<open>A \<open>Set\<close> is visible until its TTL runs out: a \<open>Get\<close> of the key at a later time hits exactly
  while \<open>now' <= now + ttl\<close>, counts the hit or the miss, and drops the entry when it has expired.\<close>

theorem l1_get_after_set:
  assumes "l1_inv c"
  shows "L1_Get now' k (L1_Set now k v c, m) =
    (if now' \<le> now + c_ttl c then (Some v, L1_Set now k v c, inc_L1Hits m)
     else (None, L1_Delete k (L1_Set now k v c), inc_L1Misses m))"
  using assms by (simp add: L1_Get_eq L1_Set_inv l1_live_def L1_Set_entries_same)

theorem l1_get_after_set_witness:
  "fst (L1_Get 10 ''k'' (L1_Set 0 ''k'' ''v'' (NewL1 100 10), metrics_zero)) = Some ''v''
   \<and> fst (L1_Get 11 ''k'' (L1_Set 0 ''k'' ''v'' (NewL1 100 10), metrics_zero)) = None"
  using l1_get_after_set [OF NewL1_inv [of 100 10]] by (simp add: NewL1_def)

text \<open>A \<open>Set\<close> costs at most one other key: every other key keeps its entry, except the victim of the
  eviction, and only when the key is new and its shard full.\<close>

theorem l1_set_frame:
  assumes "l1_inv c" and "k' \<noteq> k"
  shows "l1_entries (L1_Set now k v c) k' =
    (if shard_index k' = shard_index k \<and> victim (getShard c k) = Some k' \<and>
        sh_maxSize (getShard c k) \<le> int (length (sh_items (getShard c k))) \<and> l1_entries c k = None
     then None else l1_entries c k')"
  using assms by (rule L1_Set_entries_other)

theorem l1_set_frame_witness:
  "l1_entries (L1_Set 0 ''b'' ''w'' (L1_Set 0 ''a'' ''v'' (NewL1 0 10))) ''a'' = Some \<lparr>e_value = ''v'', e_expiresAt = 10\<rparr>"
proof -
  let ?c = "L1_Set 0 ''a'' ''v'' (NewL1 0 10)"
  have i: "shard_index ''a'' = 44" "shard_index ''b'' = 229" by (simp_all add: shard_index_def fnv1a_def)
  have "l1_entries (L1_Set 0 ''b'' ''w'' ?c) ''a'' = l1_entries ?c ''a''"
    using l1_set_frame [of ?c "''a''" "''b''" 0 "''w''"] by (simp add: i L1_Set_inv NewL1_inv)
  then show ?thesis by (simp add: L1_Set_entries_same NewL1_inv) (simp add: NewL1_def)
qed

text \<open>C36: the key list of a shard is never shortened.  \<open>n\<close> rounds of \<open>Set k\<close> and \<open>Delete k\<close> leave the cache
  without \<open>k\<close> and the key list with \<open>n\<close> copies of it.\<close>

theorem l1_keys_leak:
  fixes now :: time and v :: bytes and maxSize :: int and ttl :: duration and m :: metrics and n :: nat and k :: string
  defines "c \<equiv> fst (l1_run (churn now k v n) (NewL1 maxSize ttl, m))"
  shows "l1_entries c k = None \<and> sh_keys (getShard c k) = replicate n k"
proof -
  have "sh_keys (getShard (NewL1 maxSize ttl) k) = []"
    by (simp add: getShard_def NewL1_def numShards_def new_shard_def)
  then show ?thesis
    using churn_run [of "NewL1 maxSize ttl" k now v n m] by (simp add: c_def NewL1_inv NewL1_entries)
qed

text \<open>Whatever \<open>maxSize\<close> is configured, a new cache takes \<open>16384 = 256 * 64\<close> keys without evicting
  any: the two-byte keys with first byte below 64 spread evenly over the shards.\<close>

theorem l1_holds_16384:
  "L1_Stats (set_all now v (two_byte_keys 64) (NewL1 maxSize ttl)) = 16384"
proof -
  have "int (length (keys_in_shard j (two_byte_keys 64))) \<le> perShard_of maxSize" for j
    using two_byte_keys_spread [of j 64] by (simp add: perShard_of_def Let_def)
  then have "L1_Stats (set_all now v (two_byte_keys 64) (NewL1 maxSize ttl)) = length (two_byte_keys 64)"
    by (intro fill_size two_byte_keys_distinct) simp_all
  then show ?thesis by (simp add: two_byte_keys_length)
qed

end
