(* ===== verification/L1_Eviction.thy ===== *)
theory L1_Eviction
  imports L1_Cache
begin

text \<open>
  Which item a full shard gives up.  The loop of \<open>evictOne\<close> picks the reference \<open>victim\<close>; for a shard
  filled with distinct keys this is insertion order, first in first out; and a \<open>Get\<close> does not change
  it, so what the comments of \<open>l1.go\<close> call LRU is not.
\<close>

section \<open>Insertion order\<close>

definition fill_shard :: "time \<Rightarrow> duration \<Rightarrow> bytes \<Rightarrow> string list \<Rightarrow> l1_shard \<Rightarrow> l1_shard" where
  "fill_shard now ttl v ks sh = fold (\<lambda>k sh. shard_set now ttl k v sh) ks sh"

lemma find_skip: "\<forall>x \<in> set xs. \<not> P x \<Longrightarrow> find P (xs @ ys) = find P ys"
  by (induction xs) auto

lemma find_oldest:
  assumes "d < length ks" and "e \<le> d" and "distinct ks" and "\<And>k. k \<in> set ks \<Longrightarrow> P k \<longleftrightarrow> k \<in> set (drop d ks)"
  shows "find P (rotate e ks) = Some (ks ! d)"
proof -
  have "rotate e ks = drop e ks @ take e ks" using assms(1,2) by (simp add: rotate_drop_take)
  also have "drop e ks = take (d - e) (drop e ks) @ drop d ks"
    using assms(2) by (metis append_take_drop_id drop_drop le_add_diff_inverse2)
  finally have r: "rotate e ks = take (d - e) (drop e ks) @ (drop d ks @ take e ks)" by simp
  have "set (take (d - e) (drop e ks)) \<subseteq> set (take d ks)"
    using assms(2) by (metis drop_take set_drop_subset)
  moreover have "set (take d ks) \<inter> set (drop d ks) = {}"
    using assms(3) by (intro set_take_disj_set_drop_if_distinct) simp_all
  ultimately have "\<forall>k \<in> set (take (d - e) (drop e ks)). \<not> P k"
    using assms(4) by (metis disjoint_iff in_set_takeD subsetD)
  then have "find P (rotate e ks) = find P (drop d ks @ take e ks)" unfolding r by (rule find_skip)
  moreover have "drop d ks = ks ! d # drop (Suc d) ks" using assms(1) by (rule Cons_nth_drop_Suc [symmetric])
  moreover from this have "P (ks ! d)" using assms(1,4) by simp
  ultimately show ?thesis by simp
qed

lemma fill_shard_fifo:
  fixes now :: time and ttl :: duration and v :: bytes
  assumes "distinct ks" and "1 \<le> n"
  defines "sh \<equiv> \<lambda>ks. fill_shard now ttl v ks (new_shard n)"
  shows "shard_inv (sh ks) \<and> sh_maxSize (sh ks) = n \<and> sh_keys (sh ks) = ks \<and>
    sh_evictIdx (sh ks) \<le> length ks - nat n \<and>
    set (m_keys (sh_items (sh ks))) = set (drop (length ks - nat n) ks)"
  using assms(1)
proof (induction ks rule: rev_induct)
  case Nil
  show ?case using assms(2) new_shard_inv [of n] by (simp add: sh_def fill_shard_def) (simp add: new_shard_def)
next
  case (snoc k ks)
  let ?s = "sh ks" and ?d = "length ks - nat n"
  have step: "sh (ks @ [k]) = shard_set now ttl k v ?s" by (simp add: sh_def fill_shard_def)
  from snoc have inv: "shard_inv ?s" and max: "sh_maxSize ?s = n" and keys: "sh_keys ?s = ks"
    and idx: "sh_evictIdx ?s \<le> ?d" and items: "set (m_keys (sh_items ?s)) = set (drop ?d ks)"
    by simp_all
  have "k \<notin> set (m_keys (sh_items ?s))" using snoc.prems unfolding items by (auto dest: in_set_dropD)
  then have new: "\<not> m_has (sh_items ?s) k" by (simp only: m_has_iff not_False_eq_True)
  have dist: "distinct ks" using snoc.prems by simp
  have len: "length (sh_items ?s) = min (length ks) (nat n)"
  proof -
    have "length (sh_items ?s) = card (set (m_keys (sh_items ?s)))"
      using inv by (metis distinct_card length_map shard_inv_def)
    also have "\<dots> = length (drop ?d ks)" using dist by (simp only: items distinct_card distinct_drop)
    finally show ?thesis using assms(2) by simp
  qed
  have R: "set (m_keys (sh_items (make_room k ?s))) = set (drop (length (ks @ [k]) - nat n) ks) \<and>
      sh_evictIdx (make_room k ?s) \<le> length (ks @ [k]) - nat n"
  proof (cases "length ks < nat n")
    case True
    then have "\<not> n \<le> int (length ks)" by linarith
    with True have "make_room k ?s = ?s" by (simp add: make_room_def max len)
    with True items idx show ?thesis by simp
  next
    case False
    then have full: "make_room k ?s = evictOne ?s"
      using new by (simp add: make_room_def max len)
    have d: "?d < length ks" using False assms(2) by linarith
    have vic: "victim ?s = Some (ks ! ?d)"
      unfolding victim_def keys
      by (rule find_oldest [OF d idx dist]) (simp only: m_has_iff items)
    then have it: "sh_items (evictOne ?s) = m_del (ks ! ?d) (sh_items ?s)" by (simp add: evictOne_items)
    obtain j where j: "j < length ks" "ks ! j = ks ! ?d" "sh_evictIdx (evictOne ?s) = (j + 1) mod length ks"
      using evictOne_idx [OF inv vic] by (metis keys)
    have "j = ?d" using j(1,2) d dist by (simp add: nth_eq_iff_index_eq)
    then have "sh_evictIdx (evictOne ?s) \<le> Suc ?d" using j(3) by (simp add: mod_less_eq_dividend)
    moreover have "drop ?d ks = ks ! ?d # drop (Suc ?d) ks" using d by (rule Cons_nth_drop_Suc [symmetric])
    moreover from this have "distinct (ks ! ?d # drop (Suc ?d) ks)" using dist by (metis distinct_drop)
    ultimately show ?thesis using False it items by (simp add: full Suc_diff_le)
  qed
  have "sh_evictIdx (shard_set now ttl k v ?s) = sh_evictIdx (make_room k ?s)"
    by (simp add: shard_set_def make_room_def Let_def)
  then show ?case
    using inv max keys new R assms(2) unfolding step
    by (simp add: shard_set_inv shard_set_keys) (simp add: shard_set_items)
qed

section \<open>Properties\<close>

text \<open>C30: a non-empty shard always gives up exactly one item, the first live key of the key list read
  circularly from the eviction index, and leaves the index on the slot after it.\<close>

theorem evictOne_spec:
  assumes "shard_inv sh" and "sh_items sh \<noteq> []"
  shows "\<exists>k. victim sh = Some k \<and> m_has (sh_items sh) k \<and>
    sh_items (evictOne sh) = m_del k (sh_items sh) \<and>
    Suc (length (sh_items (evictOne sh))) = length (sh_items sh) \<and>
    (\<exists>i < length (sh_keys sh). sh_keys sh ! i = k \<and>
       sh_evictIdx (evictOne sh) = (i + 1) mod length (sh_keys sh))"
proof -
  obtain k where k: "victim sh = Some k" using assms by (rule victim_exists)
  moreover obtain i where "i < length (sh_keys sh)" "sh_keys sh ! i = k"
    "sh_evictIdx (evictOne sh) = (i + 1) mod length (sh_keys sh)"
    using assms(1) k by (rule evictOne_idx)
  ultimately show ?thesis
    using victim_Some [OF k] evictOne_length [OF assms] by (auto simp: evictOne_items)
qed

text \<open>A shard of capacity 2 holding \<open>a\<close> and \<open>b\<close>, with a stale slot \<open>x\<close> under the eviction index.\<close>

definition sample_shard :: l1_shard where
  "sample_shard = \<lparr>sh_items = [(''a'', \<lparr>e_value = ''1'', e_expiresAt = 9\<rparr>), (''b'', \<lparr>e_value = ''2'', e_expiresAt = 9\<rparr>)],
     sh_maxSize = 2, sh_evictIdx = 1, sh_keys = [''a'', ''x'', ''b'']\<rparr>"

lemma sample_shard_inv: "shard_inv sample_shard"
  by (simp add: shard_inv_def sample_shard_def)

lemma sample_shard_victim: "victim sample_shard = Some ''b''"
  by (simp add: victim_def sample_shard_def)

theorem evictOne_spec_witness:
  "m_keys (sh_items (evictOne sample_shard)) = [''a''] \<and> sh_evictIdx (evictOne sample_shard) = 0"
proof -
  have keys: "sh_keys sample_shard = [''a'', ''x'', ''b'']" and ne: "sh_items sample_shard \<noteq> []"
    and del: "m_keys (m_del ''b'' (sh_items sample_shard)) = [''a'']"
    by (simp_all add: sample_shard_def)
  obtain i where i: "sh_items (evictOne sample_shard) = m_del ''b'' (sh_items sample_shard)"
    "i < length (sh_keys sample_shard)" "sh_keys sample_shard ! i = ''b''"
    "sh_evictIdx (evictOne sample_shard) = (i + 1) mod length (sh_keys sample_shard)"
    using evictOne_spec [OF sample_shard_inv ne] unfolding sample_shard_victim by blast
  then have "i = 2" unfolding keys by (auto simp: less_Suc_eq nth_Cons split: nat.splits)
  with i del show ?thesis by (simp add: keys)
qed

text \<open>C29: eviction is first in first out.  After distinct keys have been set in a new shard of capacity
  \<open>n\<close>, the shard holds exactly the last \<open>n\<close> of them.\<close>

theorem shard_fifo:
  assumes "distinct ks" and "1 \<le> n"
  shows "m_has (sh_items (fill_shard now ttl v ks (new_shard n))) k \<longleftrightarrow> k \<in> set (drop (length ks - nat n) ks)"
  using fill_shard_fifo [OF assms, of now ttl v] by (simp only: m_has_iff)

theorem shard_fifo_witness:
  "\<not> m_has (sh_items (fill_shard 0 10 ''v'' [''a'', ''b'', ''c''] (new_shard 2))) ''a''
   \<and> m_has (sh_items (fill_shard 0 10 ''v'' [''a'', ''b'', ''c''] (new_shard 2))) ''b''"
proof -
  have d: "distinct [''a'', ''b'', ''c'']" and n: "1 \<le> (2 :: int)" by simp_all
  show ?thesis
    using shard_fifo [OF d n, of 0 10 "''v''" "''a''"] shard_fifo [OF d n, of 0 10 "''v''" "''b''"]
    by (simp del: not_None_eq)
qed

text \<open>A hit does not protect a key.  When the next victim is read with a hit and a new key is then set
  in its full shard, the key just read is the one that goes.\<close>

theorem hit_does_not_protect:
  assumes "l1_inv c" and "victim (getShard c k) = Some k'" and "shard_index k' = shard_index k"
    and "sh_maxSize (getShard c k) \<le> int (length (sh_items (getShard c k)))"
    and "l1_entries c k = None" and "L1_Get now k' (c, m) = (Some v, c', m')"
  shows "l1_entries (L1_Set now' k w c') k' = None"
proof -
  have "c' = c" using assms(1,6) by (auto simp: L1_Get_eq split: option.splits)
  moreover have "k' \<noteq> k"
    using victim_Some [OF assms(2)] assms(5) by (auto simp: l1_entries_def)
  ultimately show ?thesis
    using assms by (simp add: L1_Set_entries_other)
qed

text \<open>Two keys of one shard, whose capacity is one.\<close>

definition one_slot_cache :: l1_cache where
  "one_slot_cache = put_shard ''a''
     \<lparr>sh_items = [(''a'', \<lparr>e_value = ''1'', e_expiresAt = 9\<rparr>)], sh_maxSize = 1, sh_evictIdx = 0, sh_keys = [''a'']\<rparr>
     (NewL1 0 10)"

lemma one_slot_index: "shard_index ''vm'' = shard_index ''a''"
  by (simp add: shard_index_def fnv1a_def)

lemma one_slot_inv: "l1_inv one_slot_cache"
  unfolding one_slot_cache_def by (intro put_shard_inv NewL1_inv) (simp add: shard_inv_def)

lemma getShard_same_index: "shard_index k = shard_index k' \<Longrightarrow> getShard c k = getShard c k'"
  by (simp add: getShard_def)

lemma one_slot_shard:
  "getShard one_slot_cache ''vm'' =
     \<lparr>sh_items = [(''a'', \<lparr>e_value = ''1'', e_expiresAt = 9\<rparr>)], sh_maxSize = 1, sh_evictIdx = 0, sh_keys = [''a'']\<rparr>"
  "getShard one_slot_cache ''a'' = getShard one_slot_cache ''vm''"
  unfolding getShard_same_index [OF one_slot_index]
  by (simp_all add: one_slot_cache_def getShard_put NewL1_inv)

theorem hit_does_not_protect_witness:
  "l1_entries (L1_Set 6 ''vm'' ''2'' one_slot_cache) ''a'' = None"
proof (rule hit_does_not_protect [OF one_slot_inv])
  show "victim (getShard one_slot_cache ''vm'') = Some ''a''" by (simp add: one_slot_shard victim_def)
  show "shard_index ''a'' = shard_index ''vm''" by (rule one_slot_index [symmetric])
  show "sh_maxSize (getShard one_slot_cache ''vm'') \<le> int (length (sh_items (getShard one_slot_cache ''vm'')))"
    by (simp add: one_slot_shard)
  show "l1_entries one_slot_cache ''vm'' = None" by (simp add: l1_entries_def one_slot_shard)
  show "L1_Get 5 ''a'' (one_slot_cache, metrics_zero) = (Some ''1'', one_slot_cache, inc_L1Hits metrics_zero)"
    by (simp add: L1_Get_eq [OF one_slot_inv] l1_live_def l1_entries_def one_slot_shard)
qed

end
