(* ===== verification/L1_Concurrent.thy ===== *)
theory L1_Concurrent
  imports L1_Shard
begin

text \<open>
  The in-process cache under concurrency, at the grain of its locks.  In \<open>L1Cache.Get\<close> the lookup (under
  the read lock), the expiry check (under no lock) and the lazy deletion (under the write lock) are
  separate steps of a thread; \<open>Set\<close> and \<open>Delete\<close> hold the write lock throughout and are one step.  The
  clock moves between any two steps.  The relation is on one shard: operations on different shards
  touch different state.  \<open>cc_log\<close> is a history variable: the sets so far, with their time.
\<close>

section \<open>The step relation\<close>

datatype thread_state =
    Idle
  | Looked string "l1_entry option"
  | Expired string
  | Finished string "bytes option"

record conc =
  cc_shard :: l1_shard
  cc_clock :: time
  cc_threads :: "nat \<Rightarrow> thread_state"
  cc_log :: "(string \<times> bytes \<times> time) list"

datatype label = Tick | Lookup nat string | Check nat | LazyDelete nat | Return nat
  | SetKey string bytes | DeleteKey string

definition conc_init :: "int \<Rightarrow> time \<Rightarrow> conc" where
  "conc_init n t0 = \<lparr>cc_shard = new_shard n, cc_clock = t0, cc_threads = (\<lambda>_. Idle), cc_log = []\<rparr>"

abbreviation set_thread :: "nat \<Rightarrow> thread_state \<Rightarrow> conc \<Rightarrow> conc" where
  "set_thread t st s \<equiv> s\<lparr>cc_threads := (cc_threads s)(t := st)\<rparr>"

inductive conc_step :: "duration \<Rightarrow> conc \<Rightarrow> label \<Rightarrow> conc \<Rightarrow> bool" for ttl :: duration where
  tick: "0 \<le> d \<Longrightarrow> conc_step ttl s Tick (s\<lparr>cc_clock := cc_clock s + d\<rparr>)"
| lookup: "cc_threads s t = Idle \<Longrightarrow>
    conc_step ttl s (Lookup t k) (set_thread t (Looked k (map_of (sh_items (cc_shard s)) k)) s)"
| absent: "cc_threads s t = Looked k None \<Longrightarrow> conc_step ttl s (Check t) (set_thread t (Finished k None) s)"
| fresh: "cc_threads s t = Looked k (Some e) \<Longrightarrow> \<not> e_expiresAt e < cc_clock s \<Longrightarrow>
    conc_step ttl s (Check t) (set_thread t (Finished k (Some (e_value e))) s)"
| stale: "cc_threads s t = Looked k (Some e) \<Longrightarrow> e_expiresAt e < cc_clock s \<Longrightarrow>
    conc_step ttl s (Check t) (set_thread t (Expired k) s)"
| lazy: "cc_threads s t = Expired k \<Longrightarrow>
    conc_step ttl s (LazyDelete t)
      ((set_thread t (Finished k None) s)\<lparr>cc_shard := (cc_shard s)\<lparr>sh_items := m_del k (sh_items (cc_shard s))\<rparr>\<rparr>)"
| return: "cc_threads s t = Finished k r \<Longrightarrow> conc_step ttl s (Return t) (set_thread t Idle s)"
| setk: "conc_step ttl s (SetKey k v)
    (s\<lparr>cc_shard := shard_set (cc_clock s) ttl k v (cc_shard s), cc_log := (k, v, cc_clock s) # cc_log s\<rparr>)"
| delk: "conc_step ttl s (DeleteKey k) (s\<lparr>cc_shard := shard_delete k (cc_shard s)\<rparr>)"

inductive conc_reach :: "duration \<Rightarrow> int \<Rightarrow> time \<Rightarrow> conc \<Rightarrow> bool" for ttl :: duration and n :: int and t0 :: time where
  init: "conc_reach ttl n t0 (conc_init n t0)"
| step: "conc_reach ttl n t0 s \<Longrightarrow> conc_step ttl s l s' \<Longrightarrow> conc_reach ttl n t0 s'"

inductive_cases conc_stepE: "conc_step ttl s l s'"

section \<open>The invariant\<close>

definition logged :: "duration \<Rightarrow> conc \<Rightarrow> string \<Rightarrow> l1_entry \<Rightarrow> bool" where
  "logged ttl s k e \<longleftrightarrow> (k, e_value e, e_expiresAt e - ttl) \<in> set (cc_log s)"

definition conc_inv :: "duration \<Rightarrow> conc \<Rightarrow> bool" where
  "conc_inv ttl s \<longleftrightarrow> shard_inv (cc_shard s) \<and>
     (\<forall>k e. map_of (sh_items (cc_shard s)) k = Some e \<longrightarrow> map_of (cc_log s) k = Some (e_value e, e_expiresAt e - ttl)) \<and>
     (\<forall>t k e. cc_threads s t = Looked k (Some e) \<longrightarrow> logged ttl s k e) \<and>
     (\<forall>t k v. cc_threads s t = Finished k (Some v) \<longrightarrow> (\<exists>u. (k, v, u) \<in> set (cc_log s) \<and> u \<le> cc_clock s)) \<and>
     (\<forall>k v u. (k, v, u) \<in> set (cc_log s) \<longrightarrow> u \<le> cc_clock s)"

lemma conc_init_inv: "1 \<le> n \<Longrightarrow> conc_inv ttl (conc_init n t0)"
  by (simp add: conc_inv_def conc_init_def new_shard_inv) (simp add: new_shard_def)

lemma conc_set_inv:
  assumes "conc_inv ttl s"
  shows "conc_inv ttl (s\<lparr>cc_shard := shard_set (cc_clock s) ttl k v (cc_shard s), cc_log := (k, v, cc_clock s) # cc_log s\<rparr>)"
proof -
  let ?m = "map_of (sh_items (shard_set (cc_clock s) ttl k v (cc_shard s)))"
  have put: "map_of ((k, v, cc_clock s) # cc_log s) k' = Some (e_value e, e_expiresAt e - ttl)" if "?m k' = Some e" for k' e
  proof (cases "k' = k")
    case True
    with that show ?thesis by (auto simp: shard_set_same)
  next
    case False
    with that have "map_of (sh_items (cc_shard s)) k' = Some e" by (simp add: shard_set_other split: if_splits)
    with False assms show ?thesis by (simp add: conc_inv_def)
  qed
  have "shard_inv (shard_set (cc_clock s) ttl k v (cc_shard s))"
    using assms by (simp add: conc_inv_def shard_set_inv)
  with put assms show ?thesis
    by (simp add: conc_inv_def logged_def) blast
qed

lemma conc_step_inv:
  assumes "conc_step ttl s l s'" and "conc_inv ttl s"
  shows "conc_inv ttl s'"
  using assms(1)
proof (cases rule: conc_step.cases)
  case (setk k v)
  then show ?thesis using conc_set_inv [OF assms(2)] by simp
next
  case (fresh t k e)
  then have "(k, e_value e, e_expiresAt e - ttl) \<in> set (cc_log s)"
    using assms(2) by (simp add: conc_inv_def logged_def)
  with fresh assms(2) show ?thesis by (fastforce simp: conc_inv_def logged_def)
next
  case (tick d)
  with assms(2) show ?thesis by (fastforce simp: conc_inv_def logged_def)
next
  case (lookup t k)
  with assms(2) map_of_SomeD [of "cc_log s" k] show ?thesis by (auto simp: conc_inv_def logged_def)
next
  case (lazy t k)
  with assms(2) show ?thesis
    by (auto simp: conc_inv_def logged_def shard_inv_del gomap_simps split: if_splits)
next
  case (delk k)
  with assms(2) show ?thesis
    by (auto simp: conc_inv_def logged_def shard_delete_inv shard_delete_lookup split: if_splits)
qed (use assms(2) in \<open>auto simp: conc_inv_def logged_def split: if_splits\<close>)

lemma conc_reach_inv: "conc_reach ttl n t0 s \<Longrightarrow> 1 \<le> n \<Longrightarrow> conc_inv ttl s"
  by (induction rule: conc_reach.induct) (auto intro: conc_init_inv conc_step_inv)

section \<open>Properties\<close>

text \<open>A value is returned only if it has not expired when it is checked.\<close>

lemma check_hit:
  assumes "conc_inv ttl s" and "conc_step ttl s (Check t) s'" and "cc_threads s' t = Finished k (Some v)"
  shows "\<exists>u. (k, v, u) \<in> set (cc_log s) \<and> u \<le> cc_clock s \<and> cc_clock s \<le> u + ttl"
  using assms(2)
proof (cases rule: conc_step.cases)
  case (fresh k' e)
  with assms(3) have e: "k' = k" "e_value e = v" by simp_all
  with fresh assms(1) have "(k, v, e_expiresAt e - ttl) \<in> set (cc_log s)" by (simp add: conc_inv_def logged_def) blast
  with fresh assms(1) show ?thesis by (intro exI [of _ "e_expiresAt e - ttl"]) (auto simp: conc_inv_def)
qed (use assms(3) in auto)

text \<open>C23: in every interleaving the shard keeps its invariant, and what it holds for a key is the newest value set for
  it, with the expiry of that set.  A thread whose check of the expiry makes a hit has a value that was set for its
  key at most the TTL before the check, however long ago it looked; and every hit still to be returned is a value
  that was set for its key.\<close>

theorem concurrent_safe:
  assumes "conc_reach ttl n t0 s" and "1 \<le> n"
  shows "shard_inv (cc_shard s) \<and>
    (\<forall>k e. map_of (sh_items (cc_shard s)) k = Some e \<longrightarrow> map_of (cc_log s) k = Some (e_value e, e_expiresAt e - ttl)) \<and>
    (\<forall>t k v s'. conc_step ttl s (Check t) s' \<and> cc_threads s' t = Finished k (Some v) \<longrightarrow>
      (\<exists>u. (k, v, u) \<in> set (cc_log s) \<and> u \<le> cc_clock s \<and> cc_clock s \<le> u + ttl)) \<and>
    (\<forall>t k v. cc_threads s t = Finished k (Some v) \<longrightarrow> (\<exists>u. (k, v, u) \<in> set (cc_log s) \<and> u \<le> cc_clock s))"
proof -
  note inv = conc_reach_inv [OF assms]
  then have "shard_inv (cc_shard s)"
    "\<forall>k e. map_of (sh_items (cc_shard s)) k = Some e \<longrightarrow> map_of (cc_log s) k = Some (e_value e, e_expiresAt e - ttl)"
    "\<forall>t k v. cc_threads s t = Finished k (Some v) \<longrightarrow> (\<exists>u. (k, v, u) \<in> set (cc_log s) \<and> u \<le> cc_clock s)"
    unfolding conc_inv_def by blast+
  with check_hit [OF inv] show ?thesis by blast
qed

text \<open>A set, a lookup, a deletion, the whole TTL, and then the check: a hit.\<close>

theorem concurrent_safe_witness:
  "\<exists>s s'. conc_reach 10 64 0 s \<and> conc_step 10 s (Check 0) s' \<and> cc_threads s' 0 = Finished ''k'' (Some ''v'') \<and>
    map_of (sh_items (cc_shard s)) ''k'' = None \<and> cc_clock s = 10 \<and>
    (\<exists>u. (''k'', ''v'', u) \<in> set (cc_log s) \<and> 10 \<le> u + 10)"
proof -
  define s1 where "s1 = (conc_init 64 0)\<lparr>cc_shard := shard_set 0 10 ''k'' ''v'' (cc_shard (conc_init 64 0)), cc_log := [(''k'', ''v'', 0)]\<rparr>"
  define s2 where "s2 = set_thread 0 (Looked ''k'' (map_of (sh_items (cc_shard s1)) ''k'')) s1"
  define s3 where "s3 = s2\<lparr>cc_shard := shard_delete ''k'' (cc_shard s2)\<rparr>"
  define s4 where "s4 = s3\<lparr>cc_clock := cc_clock s3 + 10\<rparr>"
  have "conc_step 10 (conc_init 64 0) (SetKey ''k'' ''v'') s1"
    using setk [of 10 "conc_init 64 0" "''k''" "''v''"] by (simp add: s1_def conc_init_def)
  with conc_reach.init have "conc_reach 10 64 0 s1" by (rule conc_reach.step)
  moreover have "conc_step 10 s1 (Lookup 0 ''k'') s2" unfolding s2_def by (rule lookup) (simp add: s1_def conc_init_def)
  ultimately have "conc_reach 10 64 0 s2" by (rule conc_reach.step)
  moreover have "conc_step 10 s2 (DeleteKey ''k'') s3" unfolding s3_def by (rule delk)
  ultimately have "conc_reach 10 64 0 s3" by (rule conc_reach.step)
  moreover have "conc_step 10 s3 Tick s4" unfolding s4_def by (intro tick) simp
  ultimately have s4: "conc_reach 10 64 0 s4" by (rule conc_reach.step)
  have look: "cc_threads s4 0 = Looked ''k'' (Some \<lparr>e_value = ''v'', e_expiresAt = 10\<rparr>)" "cc_clock s4 = 10"
    "map_of (sh_items (cc_shard s4)) ''k'' = None"
    by (simp_all add: s4_def s3_def s2_def s1_def shard_set_same shard_delete_lookup conc_init_def)
  define s5 where "s5 = set_thread 0 (Finished ''k'' (Some ''v'')) s4"
  have check: "conc_step 10 s4 (Check 0) s5" "cc_threads s5 0 = Finished ''k'' (Some ''v'')"
    using fresh [OF look(1), of 10] look(2) by (simp_all add: s5_def)
  with concurrent_safe [OF s4] have "\<exists>u. (''k'', ''v'', u) \<in> set (cc_log s4) \<and> cc_clock s4 \<le> u + 10" by fastforce
  with s4 check look(2,3) show ?thesis by (intro exI [of _ s4] exI [of _ s5]) simp
qed

text \<open>C24: the lazy deletion can remove a fresh entry.  A thread finds the entry of \<open>k\<close> expired; before it
  takes the write lock, \<open>k\<close> is set anew; then its deletion removes the new entry, at the very instant
  it was written.\<close>

theorem lazy_delete_race:
  assumes "0 \<le> ttl"
  shows "\<exists>s s'. conc_reach ttl n t0 s \<and> conc_step ttl s (LazyDelete 0) s' \<and>
    map_of (sh_items (cc_shard s)) k = Some \<lparr>e_value = v2, e_expiresAt = cc_clock s + ttl\<rparr> \<and>
    cc_clock s' = cc_clock s \<and> map_of (sh_items (cc_shard s')) k = None"
proof -
  let ?e = "\<lparr>e_value = v1, e_expiresAt = t0 + ttl\<rparr>"
  let ?s0 = "conc_init n t0"
  define s1 where "s1 = ?s0\<lparr>cc_shard := shard_set (cc_clock ?s0) ttl k v1 (cc_shard ?s0), cc_log := (k, v1, cc_clock ?s0) # cc_log ?s0\<rparr>"
  define s2 where "s2 = set_thread 0 (Looked k (map_of (sh_items (cc_shard s1)) k)) s1"
  define s3 where "s3 = s2\<lparr>cc_clock := cc_clock s2 + (ttl + 1)\<rparr>"
  define s4 where "s4 = set_thread 0 (Expired k) s3"
  define s5 where "s5 = s4\<lparr>cc_shard := shard_set (cc_clock s4) ttl k v2 (cc_shard s4), cc_log := (k, v2, cc_clock s4) # cc_log s4\<rparr>"
  define s6 where "s6 = (set_thread 0 (Finished k None) s5)\<lparr>cc_shard := (cc_shard s5)\<lparr>sh_items := m_del k (sh_items (cc_shard s5))\<rparr>\<rparr>"
  have look: "cc_threads s3 0 = Looked k (Some ?e)" "cc_clock s3 = t0 + (ttl + 1)"
    by (simp_all add: s3_def s2_def s1_def shard_set_same conc_init_def)
  have "conc_step ttl ?s0 (SetKey k v1) s1" unfolding s1_def by (rule setk)
  with conc_reach.init have "conc_reach ttl n t0 s1" by (rule conc_reach.step)
  moreover have "conc_step ttl s1 (Lookup 0 k) s2"
    unfolding s2_def by (rule lookup) (simp add: s1_def conc_init_def)
  ultimately have "conc_reach ttl n t0 s2" by (rule conc_reach.step)
  moreover have "conc_step ttl s2 Tick s3" unfolding s3_def using assms by (intro tick) simp
  ultimately have "conc_reach ttl n t0 s3" by (rule conc_reach.step)
  moreover have "conc_step ttl s3 (Check 0) s4"
    unfolding s4_def by (rule stale [OF look(1)]) (simp add: look(2))
  ultimately have "conc_reach ttl n t0 s4" by (rule conc_reach.step)
  moreover have "conc_step ttl s4 (SetKey k v2) s5" unfolding s5_def by (rule setk)
  ultimately have "conc_reach ttl n t0 s5" by (rule conc_reach.step)

moreover have "conc_step ttl s5 (LazyDelete 0) s6"
    unfolding s6_def by (rule lazy) (simp add: s5_def s4_def)
  ultimately show ?thesis
    by (intro exI [of _ s5] exI [of _ s6])
      (simp add: s6_def gomap_simps, simp add: s5_def shard_set_same)
qed

theorem lazy_delete_race_witness:
  "\<exists>s s'. conc_reach 10 64 0 s \<and> conc_step 10 s (LazyDelete 0) s' \<and>
    map_of (sh_items (cc_shard s)) ''k'' = Some \<lparr>e_value = ''new'', e_expiresAt = cc_clock s + 10\<rparr> \<and>
    map_of (sh_items (cc_shard s')) ''k'' = None"
  using lazy_delete_race [of 10 64 0 "''k''" "''new''"] by auto

end
