(* ===== verification/L2_Cache.thy ===== *)
theory L2_Cache
  imports Metrics "HOL-Library.Multiset"
begin

text \<open>
  \<open>internal/cache/l2.go\<close>: the Redis cache.  The Redis client is not in the repository; it is the
  argument \<open>redis_client\<close>, a record of the commands the code sends, each a function on the unknown
  state \<open>'r\<close> of the server.  What the code relies on, that a written key reads back until it is
  written again, is the hypothesis \<open>redis_laws\<close>; a map satisfies it (\<open>map_redis\<close>).
\<close>

datatype redis_error = RedisNil | RedisFailure string

datatype mget_value = MgetNil | MgetString bytes | MgetOther

record 'r redis_client =
  rd_get :: "string \<Rightarrow> 'r \<Rightarrow> (redis_error + bytes) \<times> 'r"
  rd_set :: "string \<Rightarrow> bytes \<Rightarrow> duration \<Rightarrow> 'r \<Rightarrow> string option \<times> 'r"
  rd_del :: "string \<Rightarrow> 'r \<Rightarrow> string option \<times> 'r"
  rd_mget :: "string list \<Rightarrow> 'r \<Rightarrow> (string + mget_value list) \<times> 'r"
  rd_exec_sets :: "(string \<times> bytes \<times> duration) list \<Rightarrow> 'r \<Rightarrow> string option \<times> 'r"
  rd_pool_stats :: "'r \<Rightarrow> nat \<times> nat \<times> nat"

record 'r l2_cache =
  l2_client :: "'r redis_client"
  l2_ttl :: duration

definition L2_Get :: "'r l2_cache \<Rightarrow> string \<Rightarrow> 'r \<times> metrics \<Rightarrow> bytes option \<times> 'r \<times> metrics" where
  "L2_Get c key rm =
     (let (r, m) = rm in
      case rd_get (l2_client c) key r of
        (Inl err, r') \<Rightarrow> (None, r', inc_L2Misses (if err \<noteq> RedisNil then inc_OriginErrors m else m))
      | (Inr v, r') \<Rightarrow> (Some v, r', inc_L2Hits m))"

definition L2_Set :: "'r l2_cache \<Rightarrow> string \<Rightarrow> bytes \<Rightarrow> 'r \<Rightarrow> string option \<times> 'r" where
  "L2_Set c key value r = rd_set (l2_client c) key value (l2_ttl c) r"

definition L2_Delete :: "'r l2_cache \<Rightarrow> string \<Rightarrow> 'r \<Rightarrow> string option \<times> 'r" where
  "L2_Delete c key r = rd_del (l2_client c) key r"

text \<open>The loop over the values; \<open>keys[i]\<close> past the end of the keys is the panic \<open>None\<close>.\<close>

fun mget_loop :: "string list \<Rightarrow> mget_value list \<Rightarrow> (string, bytes) gomap \<Rightarrow> metrics \<Rightarrow>
    ((string, bytes) gomap \<times> metrics) option" where
  "mget_loop keys [] results m = Some (results, m)"
| "mget_loop keys (MgetNil # vals) results m = mget_loop (tl keys) vals results (inc_L2Misses m)"
| "mget_loop keys (MgetOther # vals) results m = mget_loop (tl keys) vals results m"
| "mget_loop keys (MgetString str # vals) results m =
     (case keys of
        [] \<Rightarrow> None
      | key # rest \<Rightarrow> mget_loop rest vals (m_put key str results) (inc_L2Hits m))"

definition L2_MGet :: "'r l2_cache \<Rightarrow> string list \<Rightarrow> 'r \<times> metrics \<Rightarrow>
    ((string + (string, bytes) gomap) \<times> 'r \<times> metrics) option" where
  "L2_MGet c keys rm =
     (let (r, m) = rm in
      case rd_mget (l2_client c) keys r of
        (Inl err, r') \<Rightarrow> Some (Inl err, r', m)
      | (Inr vals, r') \<Rightarrow>
          (case mget_loop keys vals [] m of
             None \<Rightarrow> None
           | Some (results, m') \<Rightarrow> Some (Inr results, r', m')))"

text \<open>\<open>MSet\<close> ranges over its map: \<open>ord\<close> is the order.\<close>

definition L2_MSet :: "((string \<times> bytes) list \<Rightarrow> (string \<times> bytes) list) \<Rightarrow> 'r l2_cache \<Rightarrow>
    (string, bytes) gomap \<Rightarrow> 'r \<Rightarrow> string option \<times> 'r" where
  "L2_MSet ord c items r = rd_exec_sets (l2_client c) (map (\<lambda>(k, v). (k, v, l2_ttl c)) (ord items)) r"

section \<open>Laws of Redis\<close>

text \<open>What a command has written is what the next lookup reads.  That the value of a \<open>SET\<close> expires after \<open>l2_ttl\<close> is not in
  the laws: they are about the next lookup only, and properties about later ones do not rest on them.\<close>

definition redis_laws :: "'r redis_client \<Rightarrow> bool" where
  "redis_laws rc \<longleftrightarrow>
     (\<forall>k v t r r'. rd_set rc k v t r = (None, r') \<longrightarrow> fst (rd_get rc k r') = Inr v) \<and>
     (\<forall>k r r'. rd_del rc k r = (None, r') \<longrightarrow> fst (rd_get rc k r') = Inl RedisNil)"

definition map_redis :: "(string \<Rightarrow> bytes option) redis_client" where
  "map_redis =
     \<lparr>rd_get = \<lambda>k r. (case r k of None \<Rightarrow> Inl RedisNil | Some v \<Rightarrow> Inr v, r),
      rd_set = \<lambda>k v t r. (None, r(k \<mapsto> v)),
      rd_del = \<lambda>k r. (None, r(k := None)),
      rd_mget = \<lambda>ks r. (Inr (map (\<lambda>k. case r k of None \<Rightarrow> MgetNil | Some v \<Rightarrow> MgetString v) ks), r),
      rd_exec_sets = \<lambda>kvs r. (None, fold (\<lambda>(k, v, t) r. r(k \<mapsto> v)) kvs r),
      rd_pool_stats = \<lambda>r. (0, 0, 0)\<rparr>"

lemma map_redis_laws: "redis_laws map_redis"
  by (simp add: redis_laws_def map_redis_def)

section \<open>Lookups\<close>

lemma L2_Get_eq:
  "L2_Get c key (r, m) =
     (case fst (rd_get (l2_client c) key r) of
        Inl err \<Rightarrow> (None, snd (rd_get (l2_client c) key r),
                    inc_L2Misses (if err \<noteq> RedisNil then inc_OriginErrors m else m))
      | Inr v \<Rightarrow> (Some v, snd (rd_get (l2_client c) key r), inc_L2Hits m))"
  by (simp add: L2_Get_def split_beta split: sum.split)

text \<open>\<open>MGet\<close> against a server that answers one value per key: a map of the found keys, one hit or miss
  counted for each key asked.\<close>

lemma mget_loop_map:
  "mget_loop keys (map (\<lambda>k. case r k of None \<Rightarrow> MgetNil | Some v \<Rightarrow> MgetString v) keys) results m =
     Some (fold (\<lambda>k res. case r k of None \<Rightarrow> res | Some v \<Rightarrow> m_put k v res) keys results,
           fold (\<lambda>k. case r k of None \<Rightarrow> inc_L2Misses | Some v \<Rightarrow> inc_L2Hits) keys m)"
  by (induction keys arbitrary: results m) (simp_all split: option.split)

lemma mget_results:
  "map_of (fold (\<lambda>k res. case r k of None \<Rightarrow> res | Some v \<Rightarrow> m_put k v res) keys results) k =
     (if k \<in> set keys \<and> r k \<noteq> None then r k else map_of results k)"
  by (induction keys arbitrary: results) (auto simp: gomap_simps split: option.split)

lemma mget_counts:
  "L2Hits (fold (\<lambda>k. case r k of None \<Rightarrow> inc_L2Misses | Some v \<Rightarrow> inc_L2Hits) keys m) +
   L2Misses (fold (\<lambda>k. case r k of None \<Rightarrow> inc_L2Misses | Some v \<Rightarrow> inc_L2Hits) keys m) =
   L2Hits m + L2Misses m + of_nat (length keys)"
  by (induction keys arbitrary: m) (simp_all add: inc_defs split: option.split)

text \<open>\<open>MGet\<close> returns exactly the keys the server holds, and counts one hit or miss for every key
  asked, repeated keys included.\<close>

theorem L2_MGet_complete:
  assumes "rd_mget (l2_client c) keys r =
      (Inr (map (\<lambda>k. case content k of None \<Rightarrow> MgetNil | Some v \<Rightarrow> MgetString v) keys), r')"
  shows "\<exists>results m'. L2_MGet c keys (r, m) = Some (Inr results, r', m') \<and>
    (\<forall>k. map_of results k = (if k \<in> set keys then content k else None)) \<and>
    L2Hits m' + L2Misses m' = L2Hits m + L2Misses m + of_nat (length keys)"
  by (simp add: L2_MGet_def assms mget_loop_map mget_results mget_counts)

theorem L2_MGet_complete_witness:
  "\<exists>results m'. L2_MGet \<lparr>l2_client = map_redis, l2_ttl = 5\<rparr> [''a'', ''b''] ([''a'' \<mapsto> ''x''], metrics_zero) =
    Some (Inr results, [''a'' \<mapsto> ''x''], m') \<and> map_of results ''a'' = Some ''x''"
proof -
  have "rd_mget (l2_client \<lparr>l2_client = map_redis, l2_ttl = 5\<rparr>) [''a'', ''b''] [''a'' \<mapsto> ''x''] =
      (Inr (map (\<lambda>k. case [''a'' \<mapsto> ''x''] k of None \<Rightarrow> MgetNil | Some v \<Rightarrow> MgetString v) [''a'', ''b'']), [''a'' \<mapsto> ''x''])"
    by (simp add: map_redis_def)
  from L2_MGet_complete [OF this, of metrics_zero] show ?thesis by force
qed

end
