(* ===== verification/Origin.thy ===== *)
theory Origin
  imports Prelude
begin

text \<open>
  \<open>SimulatedOrigin\<close> of \<open>internal/origin/origin.go\<close>.  A \<open>Fetch\<close> draws a delay, waits, and makes up a
  JSON payload; or the context ends first.  The draws of \<open>math/rand\<close> and the outcome of the
  \<open>select\<close> are arguments.  \<open>rand.Int63n\<close> panics on an argument that is not positive, so a fetch can
  panic; that is a result of its own.
\<close>

datatype go_error = ContextErr string | FetchFailed string go_error | RedisErr string

datatype 'a fetch_result = Fetched 'a | FetchError go_error | FetchPanic

record sim_origin =
  baseLatency :: duration
  jitter :: duration

definition NewSimulated :: "duration \<Rightarrow> sim_origin" where
  "NewSimulated base = \<lparr>baseLatency = base, jitter = base sdiv 4\<rparr>"

text \<open>Reduction to \<open>int64\<close>, for the sum of two durations.\<close>

definition wrap64 :: "int \<Rightarrow> int" where
  "wrap64 i = (i + 2 ^ 63) mod 2 ^ 64 - 2 ^ 63"

text \<open>\<open>rand.Int63n n\<close>: any number below \<open>n\<close>, as \<open>draw\<close> varies; \<open>None\<close> is the panic.\<close>

definition Int63n :: "nat \<Rightarrow> int \<Rightarrow> int option" where
  "Int63n draw n = (if n \<le> 0 then None else Some (int draw mod n))"

definition fetch_delay :: "nat \<Rightarrow> sim_origin \<Rightarrow> duration option" where
  "fetch_delay draw orig = map_option (\<lambda>j. wrap64 (baseLatency orig + j)) (Int63n draw (jitter orig))"

definition payload :: "string \<Rightarrow> nat \<Rightarrow> int \<Rightarrow> bytes" where
  "payload key n ms =
     ''{\"key\":\"'' @ key @ ''\",\"data\":\"payload_'' @ key @ ''_'' @ show_nat n @
     ''\",\"timestamp\":'' @ show_int ms @ '',\"source\":\"origin\",\"ttl\":300}''"

text \<open>\<open>cancelled\<close> is the context's error when its \<open>Done\<close> wins the select; \<open>now\<close> is the clock when the
  timer fires, in nanoseconds.\<close>

definition Fetch :: "nat \<Rightarrow> nat \<Rightarrow> time \<Rightarrow> string option \<Rightarrow> sim_origin \<Rightarrow> string \<Rightarrow> bytes fetch_result" where
  "Fetch draw1 draw2 now cancelled orig key =
     (case fetch_delay draw1 orig of
        None \<Rightarrow> FetchPanic
      | Some delay \<Rightarrow>
          (case cancelled of
             None \<Rightarrow> Fetched (payload key (draw2 mod 1000000) (now div 1000000))
           | Some e \<Rightarrow> FetchError (ContextErr e)))"

section \<open>Properties\<close>

lemma wrap64_id: "- (2 ^ 63) \<le> i \<Longrightarrow> i < 2 ^ 63 \<Longrightarrow> wrap64 i = i"
  by (simp add: wrap64_def)

lemma sdiv4: "0 \<le> (b::int) \<Longrightarrow> b sdiv 4 = b div 4"
  by (cases "b = 0") (simp_all add: signed_divide_int_def)

lemma sdiv4_neg: "(b::int) < 0 \<Longrightarrow> b sdiv 4 \<le> 0"
proof -
  assume "b < 0"
  then have "b sdiv 4 = - ((- b) div 4)" by (simp add: signed_divide_int_def)
  moreover have "0 \<le> (- b) div 4" using \<open>b < 0\<close> by simp
  ultimately show ?thesis by linarith
qed

text \<open>C35: the simulated latency.  For a base of at least 4 ns the delay lies between the base and
  a quarter more; the jitter only ever adds, although the comment in the code says plus or minus.
  For a smaller base every fetch panics.\<close>

theorem fetch_delay_range:
  assumes "base < 2 ^ 62"
  shows "case fetch_delay draw (NewSimulated base) of
      None \<Rightarrow> base < 4
    | Some d \<Rightarrow> 4 \<le> base \<and> base \<le> d \<and> d < base + base div 4"
proof (cases "4 \<le> base")
  case True
  then have q: "1 \<le> base div 4" "base div 4 \<le> base" by linarith+
  let ?j = "int draw mod (base div 4)"
  have j: "0 \<le> ?j" "?j < base div 4" using q(1) by simp_all
  then have "base + ?j < 2 ^ 63" using assms q(2) by simp
  then have "wrap64 (base + ?j) = base + ?j" using True j(1) by (intro wrap64_id) linarith+
  then show ?thesis
    using True j q by (simp add: fetch_delay_def Int63n_def NewSimulated_def sdiv4)
next
  case False
  then have "base sdiv 4 \<le> 0"
    using sdiv4_neg [of base] sdiv4 [of base] by (cases "base < 0") simp_all
  then show ?thesis using False by (simp add: fetch_delay_def Int63n_def NewSimulated_def)
qed

theorem fetch_delay_range_witness:
  "fetch_delay 7 (NewSimulated 3) = None \<and> fetch_delay 7 (NewSimulated 10000000) = Some 10000007"
  using fetch_delay_range [of 3 7] fetch_delay_range [of 10000000 7]
  by (simp add: fetch_delay_def Int63n_def NewSimulated_def sdiv4 wrap64_def)

text \<open>A payload determines its key, as long as keys hold no double quote.\<close>

theorem payload_key_inj:
  assumes "CHR ''\"'' \<notin> set key" and "CHR ''\"'' \<notin> set key'" and "payload key n ms = payload key' n' ms'"
  shows "key = key'"
  using assms by (auto simp: payload_def append_sep_inj)

theorem payload_key_inj_witness:
  "payload ''user:1'' 5 0 \<noteq> payload ''user:2'' 5 0"
  using payload_key_inj [of "''user:1''" "''user:2''" 5 0 5 0] by auto

end
