(* ===== verification/Manager.thy ===== *)
theory Manager
  imports L1_Cache L2_Cache Origin
begin

text \<open>
  \<open>internal/cache/manager.go\<close>: the two-tier cache.  A \<open>Get\<close> asks L1, then Redis, then the origin,
  and fills the layers on the way back; the write of Redis after an origin fetch runs in a goroutine
  of its own, so here it is an entry of \<open>m_pending\<close> until a \<open>background_set\<close> step carries it out.

  Clock readings, the origin's answer and the part of \<open>singleflight.Group\<close> are arguments.  A call of
  \<open>Do\<close> either runs the function, with the flag \<open>shared\<close> saying whether others waited for it, or joins
  the call another goroutine has in flight for the key and gets its result (\<open>flight\<close>); when the
  function panics, so do all of them.
\<close>

section \<open>State and operations\<close>

record 'r manager =
  m_l1 :: l1_cache
  m_redis :: 'r
  m_metrics :: metrics
  m_pending :: "(string \<times> bytes) list"

record 'r manager_config =
  g_l2 :: "'r l2_cache"
  g_useSF :: bool

definition NewManager :: "l1_cache \<Rightarrow> 'r \<Rightarrow> metrics \<Rightarrow> 'r manager" where
  "NewManager l1 r m = \<lparr>m_l1 = l1, m_redis = r, m_metrics = m, m_pending = []\<rparr>"

record clock =
  t_start :: time
  t_l1 :: time
  t_set :: time
  t_end :: time

datatype flight = Runs bool | Joins "bytes fetch_result"

type_synonym origin_fetcher = "string \<Rightarrow> bytes fetch_result"

definition count :: "(metrics \<Rightarrow> metrics) \<Rightarrow> 'r manager \<Rightarrow> 'r manager" where
  "count f s = s\<lparr>m_metrics := f (m_metrics s)\<rparr>"

definition doOriginFetch :: "origin_fetcher \<Rightarrow> time \<Rightarrow> string \<Rightarrow> 'r manager \<Rightarrow> bytes fetch_result \<times> 'r manager" where
  "doOriginFetch orig now key s =
     (let s1 = count inc_OriginCalls s in
      case orig key of
        FetchPanic \<Rightarrow> (FetchPanic, s1)
      | FetchError err \<Rightarrow> (FetchError (FetchFailed key err), count inc_OriginErrors s1)
      | Fetched v \<Rightarrow>
          (Fetched v, s1\<lparr>m_pending := m_pending s1 @ [(key, v)], m_l1 := L1_Set now key v (m_l1 s1)\<rparr>))"

definition fetchFromOrigin :: "bool \<Rightarrow> flight \<Rightarrow> origin_fetcher \<Rightarrow> time \<Rightarrow> string \<Rightarrow> 'r manager \<Rightarrow>
    bytes fetch_result \<times> 'r manager" where
  "fetchFromOrigin useSF fl orig now key s =
     (if \<not> useSF then doOriginFetch orig now key s
      else let (res, shared, s1) =
             (case fl of
                Runs shared \<Rightarrow> (let (res, s1) = doOriginFetch orig now key s in (res, shared, s1))
              | Joins res \<Rightarrow> (res, True, s))
           in if res = FetchPanic then (FetchPanic, s1)
              else (res, if shared then count inc_CoalescedCalls s1 else s1))"

text \<open>The deferred \<open>RecordLatency\<close> also runs when the fetch panics.\<close>

definition Manager_Get :: "'r manager_config \<Rightarrow> clock \<Rightarrow> flight \<Rightarrow> origin_fetcher \<Rightarrow> string \<Rightarrow> 'r manager \<Rightarrow>
    bytes fetch_result \<times> 'r manager" where
  "Manager_Get g clk fl orig key s =
     (let (hit1, c1, met1) = L1_Get (t_l1 clk) key (m_l1 s, m_metrics s);
          s1 = s\<lparr>m_l1 := c1, m_metrics := met1\<rparr>;
          (res, s2) =
            (case hit1 of
               Some v \<Rightarrow> (Fetched v, s1)
             | None \<Rightarrow>
                 (let (hit2, r2, met2) = L2_Get (g_l2 g) key (m_redis s1, m_metrics s1);
                      s2 = s1\<lparr>m_redis := r2, m_metrics := met2\<rparr>
                  in case hit2 of
                       Some v \<Rightarrow> (Fetched v, s2\<lparr>m_l1 := L1_Set (t_set clk) key v (m_l1 s2)\<rparr>)
                     | None \<Rightarrow> fetchFromOrigin (g_useSF g) fl orig (t_set clk) key s2))
      in (res, count (RecordLatency (t_end clk - t_start clk)) s2))"

text \<open>The goroutine of the \<open>i\<close>-th pending write: its error is only logged.\<close>

definition background_set :: "'r manager_config \<Rightarrow> nat \<Rightarrow> 'r manager \<Rightarrow> 'r manager" where
  "background_set g i s =
     (if i < length (m_pending s)
      then let (k, v) = m_pending s ! i; (_, r) = L2_Set (g_l2 g) k v (m_redis s)
           in s\<lparr>m_redis := r, m_pending := take i (m_pending s) @ drop (Suc i) (m_pending s)\<rparr>
      else s)"

definition Manager_Set :: "'r manager_config \<Rightarrow> time \<Rightarrow> string \<Rightarrow> bytes \<Rightarrow> 'r manager \<Rightarrow>
    string option \<times> 'r manager" where
  "Manager_Set g now key value s =
     (let c1 = L1_Set now key value (m_l1 s);
          (err, r) = L2_Set (g_l2 g) key value (m_redis s)
      in (err, s\<lparr>m_l1 := c1, m_redis := r\<rparr>))"

definition Invalidate :: "'r manager_config \<Rightarrow> string \<Rightarrow> 'r manager \<Rightarrow> string option \<times> 'r manager" where
  "Invalidate g key s =
     (let c1 = L1_Delete key (m_l1 s);
          (err, r) = L2_Delete (g_l2 g) key (m_redis s)
      in (err, s\<lparr>m_l1 := c1, m_redis := r\<rparr>))"

record stats =
  st_l1_size :: nat
  st_pool_hits :: nat
  st_pool_misses :: nat
  st_total_conns :: nat
  st_metrics :: snapshot

definition Manager_Stats :: "'r manager_config \<Rightarrow> 'r manager \<Rightarrow> stats" where
  "Manager_Stats g s =
     (let (h, mi, conns) = rd_pool_stats (l2_client (g_l2 g)) (m_redis s)
      in \<lparr>st_l1_size = L1_Stats (m_l1 s), st_pool_hits = h, st_pool_misses = mi,
          st_total_conns = conns, st_metrics = Snapshot (m_metrics s)\<rparr>)"

section \<open>Runs\<close>

datatype manager_op =
    DoGet clock flight origin_fetcher string
  | DoSet time string bytes
  | DoInvalidate string
  | DoBackground nat

fun manager_step :: "'r manager_config \<Rightarrow> manager_op \<Rightarrow> 'r manager \<Rightarrow> 'r manager" where
  "manager_step g (DoGet clk fl orig key) s = snd (Manager_Get g clk fl orig key s)"
| "manager_step g (DoSet now key v) s = snd (Manager_Set g now key v s)"
| "manager_step g (DoInvalidate key) s = snd (Invalidate g key s)"
| "manager_step g (DoBackground i) s = background_set g i s"

definition manager_run :: "'r manager_config \<Rightarrow> manager_op list \<Rightarrow> 'r manager \<Rightarrow> 'r manager" where
  "manager_run g ops s = fold (manager_step g) ops s"

section \<open>The branches of \<open>Get\<close>\<close>

definition origin_result :: "origin_fetcher \<Rightarrow> string \<Rightarrow> bytes fetch_result" where
  "origin_result orig key = (case orig key of FetchError e \<Rightarrow> FetchError (FetchFailed key e) | res \<Rightarrow> res)"

lemma count_sel [simp]:
  "m_l1 (count f s) = m_l1 s" "m_redis (count f s) = m_redis s" "m_pending (count f s) = m_pending s"
  "m_metrics (count f s) = f (m_metrics s)"
  by (simp_all add: count_def)

lemma doOriginFetch_result [simp]: "fst (doOriginFetch orig now key s) = origin_result orig key"
  by (simp add: doOriginFetch_def origin_result_def Let_def split: fetch_result.split)

text \<open>The state after an L1 miss.\<close>

definition l1_missed :: "time \<Rightarrow> string \<Rightarrow> 'r manager \<Rightarrow> 'r manager" where
  "l1_missed now key s = s\<lparr>m_l1 := fst (snd (L1_Get now key (m_l1 s, m_metrics s))),
     m_metrics := inc_L1Misses (m_metrics s)\<rparr>"

lemma l1_missed_sel [simp]:
  "m_redis (l1_missed now key s) = m_redis s" "m_pending (l1_missed now key s) = m_pending s"
  "m_metrics (l1_missed now key s) = inc_L1Misses (m_metrics s)"
  by (simp_all add: l1_missed_def)

lemma l1_missed_inv:
  assumes "l1_inv (m_l1 s)"
  shows "l1_inv (m_l1 (l1_missed now key s))" "c_ttl (m_l1 (l1_missed now key s)) = c_ttl (m_l1 s)"
  using assms by (simp_all add: l1_missed_def L1_Get_eq L1_Delete_inv)

lemma Get_L1_hit:
  assumes "l1_inv (m_l1 s)" and "l1_live (t_l1 clk) (m_l1 s) key = Some v"
  shows "Manager_Get g clk fl orig key s =
    (Fetched v, count (RecordLatency (t_end clk - t_start clk)) (count inc_L1Hits s))"
  using assms by (simp add: Manager_Get_def L1_Get_eq count_def)

lemma Get_L2_hit:
  assumes "l1_inv (m_l1 s)" and "l1_live (t_l1 clk) (m_l1 s) key = None"
    and "rd_get (l2_client (g_l2 g)) key (m_redis s) = (Inr v, r')"
  defines "s1 \<equiv> l1_missed (t_l1 clk) key s"
  shows "Manager_Get g clk fl orig key s =
    (Fetched v, count (RecordLatency (t_end clk - t_start clk))
      (s1\<lparr>m_redis := r', m_metrics := inc_L2Hits (m_metrics s1), m_l1 := L1_Set (t_set clk) key v (m_l1 s1)\<rparr>))"
  using assms by (simp add: Manager_Get_def L1_Get_eq L2_Get_eq l1_missed_def)

lemma Get_origin:
  assumes "l1_inv (m_l1 s)" and "l1_live (t_l1 clk) (m_l1 s) key = None"
    and "rd_get (l2_client (g_l2 g)) key (m_redis s) = (Inl e, r')"
  defines "s2 \<equiv> (l1_missed (t_l1 clk) key s)\<lparr>m_redis := r',
    m_metrics := inc_L2Misses ((if e \<noteq> RedisNil then inc_OriginErrors else id) (inc_L1Misses (m_metrics s)))\<rparr>"
  shows "Manager_Get g clk fl orig key s =
    (let (res, s3) = fetchFromOrigin (g_useSF g) fl orig (t_set clk) key s2
     in (res, count (RecordLatency (t_end clk - t_start clk)) s3))"
  using assms by (simp add: Manager_Get_def L1_Get_eq L2_Get_eq l1_missed_def)

lemma fetchFromOrigin_fst:
  "fst (fetchFromOrigin useSF fl orig now key s) =
     (if useSF then (case fl of Runs _ \<Rightarrow> origin_result orig key | Joins res \<Rightarrow> res) else origin_result orig key)"
  by (auto simp: fetchFromOrigin_def split_beta Let_def split: flight.split)

text \<open>When this caller runs the fetch itself: the state apart from the counters.\<close>

definition runs_fetch :: "'r manager_config \<Rightarrow> flight \<Rightarrow> bool" where
  "runs_fetch g fl \<longleftrightarrow> \<not> g_useSF g \<or> (\<exists>b. fl = Runs b)"

lemma fetchFromOrigin_runs:
  assumes "\<not> useSF \<or> (\<exists>b. fl = Runs b)"
  shows "fst (fetchFromOrigin useSF fl orig now key s) = origin_result orig key"
    and "m_l1 (snd (fetchFromOrigin useSF fl orig now key s)) =
      (case orig key of Fetched v \<Rightarrow> L1_Set now key v (m_l1 s) | _ \<Rightarrow> m_l1 s)"
    and "m_redis (snd (fetchFromOrigin useSF fl orig now key s)) = m_redis s"
    and "m_pending (snd (fetchFromOrigin useSF fl orig now key s)) =
      (case orig key of Fetched v \<Rightarrow> m_pending s @ [(key, v)] | _ \<Rightarrow> m_pending s)"
    and "OriginErrors (m_metrics (snd (fetchFromOrigin useSF fl orig now key s))) =
      OriginErrors (m_metrics s) + (case orig key of FetchError _ \<Rightarrow> 1 | _ \<Rightarrow> 0)"
    and "OriginCalls (m_metrics (snd (fetchFromOrigin useSF fl orig now key s))) = OriginCalls (m_metrics s) + 1"
  using assms
  by (auto simp: fetchFromOrigin_def doOriginFetch_def origin_result_def split_beta Let_def inc_defs
      split: fetch_result.split)

section \<open>The invariant and the counters over runs\<close>

definition counters_ok :: "'r manager_config \<Rightarrow> metrics \<Rightarrow> bool" where
  "counters_ok g m \<longleftrightarrow> TotalRequests m = L1Hits m + L1Misses m \<and> L1Misses m = L2Hits m + L2Misses m \<and>
     (\<not> g_useSF g \<longrightarrow> OriginCalls m = L2Misses m \<and> CoalescedCalls m = 0)"

lemma fetchFromOrigin_counters:
  "L1Hits (m_metrics (snd (fetchFromOrigin useSF fl orig now key s))) = L1Hits (m_metrics s)"
  "L1Misses (m_metrics (snd (fetchFromOrigin useSF fl orig now key s))) = L1Misses (m_metrics s)"
  "L2Hits (m_metrics (snd (fetchFromOrigin useSF fl orig now key s))) = L2Hits (m_metrics s)"
  "L2Misses (m_metrics (snd (fetchFromOrigin useSF fl orig now key s))) = L2Misses (m_metrics s)"
  "TotalRequests (m_metrics (snd (fetchFromOrigin useSF fl orig now key s))) = TotalRequests (m_metrics s)"
  "\<not> useSF \<Longrightarrow> OriginCalls (m_metrics (snd (fetchFromOrigin useSF fl orig now key s))) = OriginCalls (m_metrics s) + 1"
  "\<not> useSF \<Longrightarrow> CoalescedCalls (m_metrics (snd (fetchFromOrigin useSF fl orig now key s))) = CoalescedCalls (m_metrics s)"
  by (auto simp: fetchFromOrigin_def doOriginFetch_def split_beta Let_def inc_defs
      split: fetch_result.split flight.split)

lemma fetchFromOrigin_inv:
  "l1_inv (m_l1 s) \<Longrightarrow> l1_inv (m_l1 (snd (fetchFromOrigin useSF fl orig now key s)))"
  by (auto simp: fetchFromOrigin_def doOriginFetch_def split_beta Let_def L1_Set_inv
      split: fetch_result.split flight.split)

lemma Get_cases:
  assumes "l1_inv (m_l1 s)"
  obtains (l1) v where "l1_live (t_l1 clk) (m_l1 s) key = Some v"
    | (l2) v r' where "l1_live (t_l1 clk) (m_l1 s) key = None"
        "rd_get (l2_client (g_l2 g)) key (m_redis s) = (Inr v, r')"
    | (origin) e r' where "l1_live (t_l1 clk) (m_l1 s) key = None"
        "rd_get (l2_client (g_l2 g)) key (m_redis s) = (Inl e, r')"
proof (cases "l1_live (t_l1 clk) (m_l1 s) key")
  case None
  then show thesis
    using l2 origin by (cases "rd_get (l2_client (g_l2 g)) key (m_redis s)"; cases "fst (rd_get (l2_client (g_l2 g)) key (m_redis s))") auto
qed (rule l1)

lemma Get_inv:
  assumes "l1_inv (m_l1 s)"
  shows "l1_inv (m_l1 (snd (Manager_Get g clk fl orig key s)))"
  using assms
proof (cases rule: Get_cases [where s = s and clk = clk and key = key and g = g])
  case (origin e r')
  then show ?thesis
    using assms l1_missed_inv(1) [OF assms] by (simp add: Get_origin split_beta fetchFromOrigin_inv)
qed (simp_all add: assms Get_L1_hit Get_L2_hit l1_missed_inv L1_Set_inv)

lemma Get_counters:
  assumes "l1_inv (m_l1 s)" and "counters_ok g (m_metrics s)"
  shows "counters_ok g (m_metrics (snd (Manager_Get g clk fl orig key s)))"
  using assms(1)
proof (cases rule: Get_cases [where s = s and clk = clk and key = key and g = g])
  case (l1 v)
  with assms show ?thesis
    by (simp add: Get_L1_hit counters_ok_def RecordLatency_def inc_defs algebra_simps)
next
  case (l2 v r')
  with assms show ?thesis
    by (simp add: Get_L2_hit counters_ok_def RecordLatency_def inc_defs algebra_simps)
next
  case (origin e r')
  with assms show ?thesis
    by (cases "e = RedisNil"; simp add: Get_origin counters_ok_def RecordLatency_def split_beta fetchFromOrigin_counters;
        simp add: inc_defs algebra_simps)
qed

lemma manager_step_ok:
  assumes "l1_inv (m_l1 s)" and "counters_ok g (m_metrics s)"
  shows "l1_inv (m_l1 (manager_step g op s)) \<and> counters_ok g (m_metrics (manager_step g op s))"
  using assms
  by (cases op) (auto simp: Get_inv Get_counters Manager_Set_def Invalidate_def background_set_def
      Let_def split_beta L1_Set_inv L1_Delete_inv)

lemma manager_run_ok:
  "l1_inv (m_l1 s) \<Longrightarrow> counters_ok g (m_metrics s) \<Longrightarrow>
   l1_inv (m_l1 (manager_run g ops s)) \<and> counters_ok g (m_metrics (manager_run g ops s))"
proof (induction ops arbitrary: s)
  case (Cons op ops)
  then show ?case using manager_step_ok [of s g op] by (simp add: manager_run_def)
qed (simp add: manager_run_def)

section \<open>A concrete manager for the witnesses\<close>

definition demo_config :: "(string \<Rightarrow> bytes option) manager_config" where
  "demo_config = \<lparr>g_l2 = \<lparr>l2_client = map_redis, l2_ttl = 300\<rparr>, g_useSF = False\<rparr>"

definition broken_config :: "(string \<Rightarrow> bytes option) manager_config" where
  "broken_config = \<lparr>g_l2 = \<lparr>l2_client = map_redis\<lparr>rd_get := \<lambda>k r. (Inl (RedisFailure ''io''), r),
      rd_set := \<lambda>k v t r. (Some ''io'', r)\<rparr>, l2_ttl = 300\<rparr>, g_useSF = False\<rparr>"

definition demo_manager :: "(string \<Rightarrow> bytes option) manager" where
  "demo_manager = NewManager (NewL1 0 10) Map.empty metrics_zero"

definition at_time :: "time \<Rightarrow> clock" where
  "at_time t = \<lparr>t_start = t, t_l1 = t, t_set = t, t_end = t\<rparr>"

lemma at_time_sel [simp]: "t_start (at_time t) = t" "t_l1 (at_time t) = t" "t_set (at_time t) = t" "t_end (at_time t) = t"
  by (simp_all add: at_time_def)

lemma demo_inv: "l1_inv (m_l1 demo_manager)"
  and demo_live: "l1_live t (m_l1 demo_manager) k = None"
  and demo_ttl: "c_ttl (m_l1 demo_manager) = 10"
  and demo_redis: "m_redis demo_manager = Map.empty" "m_pending demo_manager = []"
    "rd_get (l2_client (g_l2 demo_config)) k Map.empty = (Inl RedisNil, Map.empty)"
    "rd_get (l2_client (g_l2 broken_config)) k r = (Inl (RedisFailure ''io''), r)"
  and demo_laws: "redis_laws (l2_client (g_l2 demo_config))"
  and demo_runs: "runs_fetch demo_config fl" "runs_fetch broken_config fl"
  by (simp_all add: demo_manager_def NewManager_def NewL1_inv l1_live_def NewL1_entries demo_config_def
      broken_config_def map_redis_laws runs_fetch_def) (simp_all add: NewL1_def map_redis_def)

lemma demo_get: "fst (Manager_Get demo_config (at_time 0) (Runs False) orig k demo_manager) = origin_result orig k"
proof -
  have rd: "rd_get (l2_client (g_l2 demo_config)) k (m_redis demo_manager) = (Inl RedisNil, Map.empty)"
    by (simp add: demo_redis)
  show ?thesis by (simp add: Get_origin [OF demo_inv demo_live rd] split_beta fetchFromOrigin_fst)
qed

section \<open>Properties\<close>

text \<open>What a \<open>Get\<close> returns: the live L1 entry, or else what Redis holds, or else the origin's
  answer, got by this call or by the one it joins.\<close>

theorem Manager_Get_result:
  assumes "l1_inv (m_l1 s)"
  shows "fst (Manager_Get g clk fl orig key s) =
    (case l1_live (t_l1 clk) (m_l1 s) key of
       Some v \<Rightarrow> Fetched v
     | None \<Rightarrow>
         (case fst (rd_get (l2_client (g_l2 g)) key (m_redis s)) of
            Inr v \<Rightarrow> Fetched v
          | Inl _ \<Rightarrow> if g_useSF g then (case fl of Runs _ \<Rightarrow> origin_result orig key | Joins res \<Rightarrow> res)
                     else origin_result orig key))"
  using assms
proof (cases rule: Get_cases [where s = s and clk = clk and key = key and g = g])
  case (origin e r')
  with assms show ?thesis by (simp add: Get_origin split_beta fetchFromOrigin_fst)
qed (simp_all add: assms Get_L1_hit Get_L2_hit)

theorem Manager_Get_result_witness:
  "fst (Manager_Get demo_config (at_time 0) (Runs False) (\<lambda>k. Fetched ''v'') ''k'' demo_manager) = Fetched ''v''"
  using Manager_Get_result [OF demo_inv, of demo_config "at_time 0" "Runs False" "\<lambda>k. Fetched ''v''" "''k''"]
  by (simp add: demo_live demo_redis demo_config_def origin_result_def) (simp add: map_redis_def origin_result_def)

text \<open>Write-through.  After \<open>Set\<close>, even one that Redis refused and that returned an error, a \<open>Get\<close> of
  the key within the TTL returns the value from L1, without Redis or the origin.\<close>

theorem set_then_get:
  assumes "l1_inv (m_l1 s)" and "Manager_Set g now key v s = (err, s')" and "t_l1 clk \<le> now + c_ttl (m_l1 s)"
  shows "fst (Manager_Get g clk fl orig key s') = Fetched v \<and>
    m_redis (snd (Manager_Get g clk fl orig key s')) = m_redis s' \<and>
    m_pending (snd (Manager_Get g clk fl orig key s')) = m_pending s'"
proof -
  have l1: "m_l1 s' = L1_Set now key v (m_l1 s)"
    using assms(2) by (auto simp: Manager_Set_def Let_def split_beta)
  then have "l1_inv (m_l1 s')" and "l1_live (t_l1 clk) (m_l1 s') key = Some v"
    using assms(1,3) by (simp_all add: L1_Set_inv l1_live_def L1_Set_entries_same)
  then show ?thesis by (simp add: Get_L1_hit)
qed

theorem set_then_get_witness:
  "\<exists>s'. Manager_Set broken_config 0 ''k'' ''v'' demo_manager = (Some ''io'', s') \<and>
    fst (Manager_Get broken_config (at_time 10) (Runs False) (\<lambda>k. FetchPanic) ''k'' s') = Fetched ''v''"
proof -
  obtain s' where s': "Manager_Set broken_config 0 ''k'' ''v'' demo_manager = (Some ''io'', s')"
    by (simp add: Manager_Set_def L2_Set_def broken_config_def)
  then show ?thesis
    using set_then_get [OF demo_inv s', of "at_time 10" "Runs False" "\<lambda>k. FetchPanic"]
    by (simp add: demo_ttl)
qed

text \<open>A fetched value is cached.  When a \<open>Get\<close> that missed L1 returns a value it did not get by joining
  another call, the next \<open>Get\<close> of the key within the TTL returns it from L1.\<close>

theorem get_then_get:
  assumes "l1_inv (m_l1 s)" and "l1_live (t_l1 clk) (m_l1 s) key = None" and "runs_fetch g fl"
    and "Manager_Get g clk fl orig key s = (Fetched v, s')" and "t_l1 clk' \<le> t_set clk + c_ttl (m_l1 s)"
  shows "fst (Manager_Get g clk' fl' orig' key s') = Fetched v \<and>
    m_redis (snd (Manager_Get g clk' fl' orig' key s')) = m_redis s'"
proof -
  note inv1 = l1_missed_inv [OF assms(1), of "t_l1 clk" key]
  have "m_l1 s' = L1_Set (t_set clk) key v (m_l1 (l1_missed (t_l1 clk) key s))"
    using assms(1)
  proof (cases rule: Get_cases [where s = s and clk = clk and key = key and g = g])
    case (l1 w)
    with assms(2) show ?thesis by simp
  next
    case (l2 w r')
    with assms show ?thesis by (auto simp: Get_L2_hit)
  next
    case (origin e r')
    note F = fetchFromOrigin_runs [OF assms(3) [unfolded runs_fetch_def]]
    from origin assms(1,4) show ?thesis
      by (auto simp: Get_origin split_beta F origin_result_def split: fetch_result.splits)
  qed
  then have "l1_inv (m_l1 s')" and "l1_live (t_l1 clk') (m_l1 s') key = Some v"
    using assms(5) inv1 by (simp_all add: L1_Set_inv l1_live_def L1_Set_entries_same)
  then show ?thesis by (simp add: Get_L1_hit)
qed

theorem get_then_get_witness:
  "\<exists>s'. Manager_Get demo_config (at_time 0) (Runs False) (\<lambda>k. Fetched ''v'') ''k'' demo_manager = (Fetched ''v'', s') \<and>
    fst (Manager_Get demo_config (at_time 10) (Runs False) (\<lambda>k. FetchPanic) ''k'' s') = Fetched ''v''"
proof -
  obtain s' where s': "Manager_Get demo_config (at_time 0) (Runs False) (\<lambda>k. Fetched ''v'') ''k'' demo_manager = (Fetched ''v'', s')"
  proof
    show "Manager_Get demo_config (at_time 0) (Runs False) (\<lambda>k. Fetched ''v'') ''k'' demo_manager =
        (Fetched ''v'', snd (Manager_Get demo_config (at_time 0) (Runs False) (\<lambda>k. Fetched ''v'') ''k'' demo_manager))"
      by (simp add: prod_eq_iff demo_get origin_result_def)
  qed
  then show ?thesis
    using get_then_get [OF demo_inv demo_live demo_runs(1) s', of "at_time 10" "Runs False" "\<lambda>k. FetchPanic"]
    by (simp add: demo_ttl)
qed

text \<open>C7: invalidation can be undone.  A \<open>Get\<close> fetches \<open>v\<close> from the origin and leaves the write of Redis to
  a goroutine; \<open>Invalidate\<close> then clears both layers without an error; when the goroutine runs after
  it, Redis holds \<open>v\<close> again and the next \<open>Get\<close> returns it, though the origin has moved on.\<close>

theorem invalidate_undone:
  assumes "l1_inv (m_l1 s)" and "l1_live (t_l1 clk) (m_l1 s) key = None" and "runs_fetch g fl"
    and "fst (rd_get (l2_client (g_l2 g)) key (m_redis s)) = Inl RedisNil" and "orig key = Fetched v"
    and "redis_laws (l2_client (g_l2 g))"
    and "Invalidate g key (snd (Manager_Get g clk fl orig key s)) = (None, s2)"
    and "L2_Set (g_l2 g) key v (m_redis s2) = (None, r3)"
  shows "l1_entries (m_l1 s2) key = None \<and> fst (rd_get (l2_client (g_l2 g)) key (m_redis s2)) = Inl RedisNil \<and>
    fst (Manager_Get g clk' fl' orig' key (background_set g (length (m_pending s)) s2)) = Fetched v"
proof -
  let ?s1 = "snd (Manager_Get g clk fl orig key s)"
  obtain r' where rd: "rd_get (l2_client (g_l2 g)) key (m_redis s) = (Inl RedisNil, r')"
    using assms(4) by (metis prod.collapse)
  note F = fetchFromOrigin_runs [OF assms(3) [unfolded runs_fetch_def]]
  have pend: "m_pending ?s1 = m_pending s @ [(key, v)]"
    by (simp add: Get_origin [OF assms(1,2) rd] split_beta F assms(5))
  have inv1: "l1_inv (m_l1 ?s1)" using assms(1) by (rule Get_inv)
  have s2: "m_l1 s2 = L1_Delete key (m_l1 ?s1)" "m_pending s2 = m_pending ?s1"
      "rd_del (l2_client (g_l2 g)) key (m_redis ?s1) = (None, m_redis s2)"
    using assms(7) by (auto simp: Invalidate_def Let_def split_beta L2_Delete_def prod_eq_iff)
  have gone: "l1_entries (m_l1 s2) key = None" using inv1 by (simp add: s2 L1_Delete_entries)
  have inv2: "l1_inv (m_l1 s2)" using inv1 by (simp add: s2 L1_Delete_inv)
  have nil: "fst (rd_get (l2_client (g_l2 g)) key (m_redis s2)) = Inl RedisNil"
    using assms(6) s2(3) by (auto simp: redis_laws_def)
  let ?s3 = "background_set g (length (m_pending s)) s2"
  have s3: "m_l1 ?s3 = m_l1 s2" "m_redis ?s3 = r3"
    using assms(8) by (simp_all add: background_set_def s2(2) pend)
  have "fst (rd_get (l2_client (g_l2 g)) key r3) = Inr v"
    using assms(6,8) by (auto simp: redis_laws_def L2_Set_def)
  then have "fst (Manager_Get g clk' fl' orig' key ?s3) = Fetched v"
    using inv2 gone s3 by (simp add: Manager_Get_result l1_live_def)
  with gone nil show ?thesis by blast
qed

theorem invalidate_undone_witness:
  "\<exists>s2. Invalidate demo_config ''k'' (snd (Manager_Get demo_config (at_time 0) (Runs False) (\<lambda>k. Fetched ''v'') ''k'' demo_manager)) = (None, s2) \<and>
    fst (Manager_Get demo_config (at_time 2) (Runs False) (\<lambda>k. Fetched ''new'') ''k'' (background_set demo_config 0 s2)) = Fetched ''v''"
proof -
  let ?s1 = "snd (Manager_Get demo_config (at_time 0) (Runs False) (\<lambda>k. Fetched ''v'') ''k'' demo_manager)"
  obtain s2 where s2: "Invalidate demo_config ''k'' ?s1 = (None, s2)"
    by (simp add: Invalidate_def L2_Delete_def demo_config_def map_redis_def)
  have set: "L2_Set (g_l2 demo_config) ''k'' ''v'' (m_redis s2) = (None, (m_redis s2)(''k'' \<mapsto> ''v''))"
    by (simp add: L2_Set_def demo_config_def map_redis_def)
  show ?thesis
    using invalidate_undone [OF demo_inv demo_live demo_runs(1) _ _ demo_laws s2 set, of "at_time 2" "Runs False" "\<lambda>k. Fetched ''new''"] s2
    by (simp add: demo_redis)
qed

text \<open>The counters balance.  Over any run of gets, sets, invalidations and background writes on a new
  cache, every request is one L1 hit or miss and every L1 miss one L2 hit or miss; without
  singleflight, every L2 miss is one origin call.  The equations are on the 64-bit counters.\<close>

theorem manager_counters:
  "counters_ok g (m_metrics (manager_run g ops (NewManager (NewL1 maxSize ttl) r metrics_zero)))"
  by (rule conjunct2 [OF manager_run_ok])
    (simp_all add: NewManager_def NewL1_inv counters_ok_def metrics_zero_def)

text \<open>An origin error caches nothing: the \<open>Get\<close> returns the wrapped error, counts it, and leaves no
  entry for the key in L1 and no pending write.\<close>

theorem origin_error_not_cached:
  assumes "l1_inv (m_l1 s)" and "l1_live (t_l1 clk) (m_l1 s) key = None" and "runs_fetch g fl"
    and "rd_get (l2_client (g_l2 g)) key (m_redis s) = (Inl RedisNil, r')" and "orig key = FetchError e"
    and "Manager_Get g clk fl orig key s = (res, s')"
  shows "res = FetchError (FetchFailed key e) \<and> l1_entries (m_l1 s') key = None \<and> m_pending s' = m_pending s \<and>
    OriginErrors (m_metrics s') = OriginErrors (m_metrics s) + 1"
proof -
  note F = fetchFromOrigin_runs [OF assms(3) [unfolded runs_fetch_def]]
  have "l1_entries (m_l1 (l1_missed (t_l1 clk) key s)) key = None"
    using assms(1,2) by (auto simp: l1_missed_def L1_Get_eq L1_Delete_entries)
  then show ?thesis
    using assms(6) unfolding Get_origin [OF assms(1,2,4)]
    by (auto simp: assms(5) split_beta F origin_result_def RecordLatency_def inc_defs)
qed

theorem origin_error_not_cached_witness:
  "fst (Manager_Get demo_config (at_time 0) (Runs False) (\<lambda>k. FetchError (ContextErr ''timeout'')) ''k'' demo_manager) =
    FetchError (FetchFailed ''k'' (ContextErr ''timeout''))"
  using origin_error_not_cached [OF demo_inv demo_live demo_runs(1) _ _ prod.collapse [symmetric],
      of "''k''" Map.empty "\<lambda>k. FetchError (ContextErr ''timeout'')" "ContextErr ''timeout''" "at_time 0" "Runs False"]
  by (simp add: demo_redis)

text \<open>A Redis failure is counted as an origin error, although the origin answered: the \<open>Get\<close> succeeds
  and \<open>OriginErrors\<close> has gone up.\<close>

theorem redis_failure_counts_as_origin_error:
  assumes "l1_inv (m_l1 s)" and "l1_live (t_l1 clk) (m_l1 s) key = None" and "runs_fetch g fl"
    and "rd_get (l2_client (g_l2 g)) key (m_redis s) = (Inl (RedisFailure msg), r')" and "orig key = Fetched v"
    and "Manager_Get g clk fl orig key s = (res, s')"
  shows "res = Fetched v \<and> OriginErrors (m_metrics s') = OriginErrors (m_metrics s) + 1"
proof -
  note F = fetchFromOrigin_runs [OF assms(3) [unfolded runs_fetch_def]]
  show ?thesis
    using assms(6) unfolding Get_origin [OF assms(1,2,4)]
    by (auto simp: assms(5) split_beta F origin_result_def RecordLatency_def inc_defs)
qed

theorem redis_failure_counts_as_origin_error_witness:
  "fst (Manager_Get broken_config (at_time 0) (Runs False) (\<lambda>k. Fetched ''v'') ''k'' demo_manager) = Fetched ''v''"
  using redis_failure_counts_as_origin_error [OF demo_inv demo_live demo_runs(2) demo_redis(4) _ prod.collapse [symmetric],
      where orig = "\<lambda>k. Fetched ''v''" and key = "''k''" and clk = "at_time 0" and fl = "Runs False"]
  by simp

end
