(* ===== verification/Coalescing.thy ===== *)
theory Coalescing
  imports Manager
begin

text \<open>
  Concurrent \<open>Get\<close>s of the manager (\<open>internal/cache/manager.go\<close>), one goroutine each, at the grain of the
  operations of \<open>Get\<close>, \<open>fetchFromOrigin\<close> and \<open>doOriginFetch\<close>: an access to L1, to Redis or to the origin is one
  step, and any goroutine may move next.  \<open>Set\<close>, \<open>Invalidate\<close> and the background writes happen between the
  steps.

  \<open>singleflight.Group\<close> is not in the repository.  Which call of \<open>Do\<close> runs its function is the argument \<open>runs\<close>,
  and what its documentation says of it is the hypothesis \<open>single_flight\<close>: a call for a key runs the
  function exactly when no execution for the key is in flight; otherwise it waits.  That it gets the result of that execution when it
  lands is built into the step of the landing (\<open>deliver\<close>), as are the flag \<open>shared\<close> and the panic that goes to all
  of them.
\<close>

section \<open>Goroutines\<close>

text \<open>Where a goroutine is in \<open>Get\<close>, with the key.  \<open>Landed\<close> is the return of the function that \<open>Do\<close> runs,
  \<open>Delivered\<close> the return of \<open>Do\<close> with the flag \<open>shared\<close>, \<open>Answered\<close> the return of \<open>Get\<close> before its deferred
  function.\<close>

datatype get_pc =
    AtL1 string
  | AtL2 string
  | FillL1 string bytes
  | AtOrigin string
  | Waiting string
  | Calling string
  | Filling string bytes
  | Landed string "bytes fetch_result"
  | Delivered string "bytes fetch_result" bool
  | Answered string "bytes fetch_result"
  | Done string "bytes fetch_result"

record 'r herd =
  h_mgr :: "'r manager"
  h_threads :: "get_pc list"

fun in_flight :: "string \<Rightarrow> get_pc \<Rightarrow> bool" where
  "in_flight k (Calling k') \<longleftrightarrow> k' = k"
| "in_flight k (Filling k' v) \<longleftrightarrow> k' = k"
| "in_flight k (Landed k' res) \<longleftrightarrow> k' = k"
| "in_flight k _ \<longleftrightarrow> False"

type_synonym flight_rule = "get_pc list \<Rightarrow> string \<Rightarrow> bool"

definition single_flight :: "flight_rule \<Rightarrow> bool" where
  "single_flight runs \<longleftrightarrow> (\<forall>ths k. runs ths k \<longleftrightarrow> \<not> list_ex (in_flight k) ths)"

section \<open>Steps\<close>

definition go :: "nat \<Rightarrow> get_pc \<Rightarrow> 'r manager \<Rightarrow> 'r herd \<Rightarrow> 'r herd" where
  "go t pc m s = s\<lparr>h_mgr := m, h_threads := (h_threads s)[t := pc]\<rparr>"

text \<open>\<open>Do\<close> returns to the goroutine that ran the function and to all that wait for it.\<close>

definition deliver :: "string \<Rightarrow> bytes fetch_result \<Rightarrow> get_pc list \<Rightarrow> get_pc list" where
  "deliver k res ths = map (\<lambda>pc. if pc = Waiting k then Delivered k res True else pc) ths"

text \<open>A step of goroutine \<open>t\<close> at the time \<open>now\<close>; \<open>ans\<close> is the answer of the origin if this is its return, and
  \<open>d\<close> the latency if this is the end of \<open>Get\<close>.  \<open>None\<close>: the goroutine is blocked or has ended.\<close>

definition get_step :: "'r manager_config \<Rightarrow> flight_rule \<Rightarrow> time \<Rightarrow> bytes fetch_result \<Rightarrow> duration \<Rightarrow> nat \<Rightarrow>
    'r herd \<Rightarrow> 'r herd option" where
  "get_step g runs now ans d t s =
    (if length (h_threads s) \<le> t then None
     else let m = h_mgr s in
     case h_threads s ! t of
       AtL1 k \<Rightarrow>
         (let (hit, c, met) = L1_Get now k (m_l1 m, m_metrics m); m1 = m\<lparr>m_l1 := c, m_metrics := met\<rparr>
          in Some (go t (case hit of Some v \<Rightarrow> Answered k (Fetched v) | None \<Rightarrow> AtL2 k) m1 s))
     | AtL2 k \<Rightarrow>
         (let (hit, r, met) = L2_Get (g_l2 g) k (m_redis m, m_metrics m); m1 = m\<lparr>m_redis := r, m_metrics := met\<rparr>
          in Some (go t (case hit of Some v \<Rightarrow> FillL1 k v | None \<Rightarrow> AtOrigin k) m1 s))
     | FillL1 k v \<Rightarrow> Some (go t (Answered k (Fetched v)) (m\<lparr>m_l1 := L1_Set now k v (m_l1 m)\<rparr>) s)
     | AtOrigin k \<Rightarrow>
         (if g_useSF g \<and> \<not> runs (h_threads s) k then Some (go t (Waiting k) m s)
          else Some (go t (Calling k) (count inc_OriginCalls m) s))
     | Waiting k \<Rightarrow> None
     | Calling k \<Rightarrow>
         (case ans of
            FetchPanic \<Rightarrow> Some (go t (Landed k FetchPanic) m s)
          | FetchError err \<Rightarrow> Some (go t (Landed k (FetchError (FetchFailed k err))) (count inc_OriginErrors m) s)
          | Fetched v \<Rightarrow> Some (go t (Filling k v) (m\<lparr>m_pending := m_pending m @ [(k, v)]\<rparr>) s))
     | Filling k v \<Rightarrow> Some (go t (Landed k (Fetched v)) (m\<lparr>m_l1 := L1_Set now k v (m_l1 m)\<rparr>) s)
     | Landed k res \<Rightarrow>
         (if g_useSF g
          then Some (s\<lparr>h_threads := (deliver k res (h_threads s))[t := Delivered k res (Waiting k \<in> set (h_threads s))]\<rparr>)
          else Some (go t (Answered k res) m s))
     | Delivered k res shared \<Rightarrow>
         Some (go t (Answered k res) (if shared \<and> res \<noteq> FetchPanic then count inc_CoalescedCalls m else m) s)
     | Answered k res \<Rightarrow> Some (go t (Done k res) (count (RecordLatency d) m) s)
     | Done k res \<Rightarrow> None)"

text \<open>What else happens to the manager between the steps.\<close>

datatype herd_op =
    Moves nat time "bytes fetch_result" duration
  | Sets time string bytes
  | Invalidates string
  | Writes nat

definition herd_step :: "'r manager_config \<Rightarrow> flight_rule \<Rightarrow> herd_op \<Rightarrow> 'r herd \<Rightarrow> 'r herd option" where
  "herd_step g runs p s =
     (case p of
        Moves t now ans d \<Rightarrow> get_step g runs now ans d t s
      | Sets now k v \<Rightarrow> Some (s\<lparr>h_mgr := snd (Manager_Set g now k v (h_mgr s))\<rparr>)
      | Invalidates k \<Rightarrow> Some (s\<lparr>h_mgr := snd (Invalidate g k (h_mgr s))\<rparr>)
      | Writes i \<Rightarrow> Some (s\<lparr>h_mgr := background_set g i (h_mgr s)\<rparr>))"

fun herd_run :: "'r manager_config \<Rightarrow> flight_rule \<Rightarrow> herd_op list \<Rightarrow> 'r herd \<Rightarrow> 'r herd option" where
  "herd_run g runs [] s = Some s"
| "herd_run g runs (p # ps) s =
     (case herd_step g runs p s of None \<Rightarrow> None | Some s' \<Rightarrow> herd_run g runs ps s')"

text \<open>\<open>Get\<close>s of the given keys, about to begin.\<close>

definition herd_init :: "'r manager \<Rightarrow> string list \<Rightarrow> 'r herd" where
  "herd_init m keys = \<lparr>h_mgr = m, h_threads = map AtL1 keys\<rparr>"

section \<open>At most one call in flight\<close>

definition flights :: "string \<Rightarrow> get_pc list \<Rightarrow> nat" where
  "flights k ths = sum_list (map (\<lambda>pc. of_bool (in_flight k pc)) ths)"

text \<open>For every key at most one goroutine is in the function that \<open>Do\<close> runs, and when one waits, there is one.\<close>

definition herd_inv :: "get_pc list \<Rightarrow> bool" where
  "herd_inv ths \<longleftrightarrow> (\<forall>k. flights k ths \<le> 1 \<and> (Waiting k \<in> set ths \<longrightarrow> flights k ths = 1))"

lemma flights_0: "flights k ths = 0 \<longleftrightarrow> \<not> list_ex (in_flight k) ths"
  by (induction ths) (auto simp: flights_def)

lemma flights_update:
  "t < length ths \<Longrightarrow> flights k (ths[t := pc]) = flights k ths + of_bool (in_flight k pc) - of_bool (in_flight k (ths ! t))"
  by (simp add: flights_def map_update sum_list_update)

lemma flights_at: "t < length ths \<Longrightarrow> in_flight k (ths ! t) \<Longrightarrow> 1 \<le> flights k ths"
  using elem_le_sum_list [of t "map (\<lambda>pc. of_bool (in_flight k pc)) ths"] by (simp add: flights_def del: One_nat_def)

lemma flights_deliver [simp]: "flights k (deliver k' res ths) = flights k ths"
  by (induction ths) (auto simp: flights_def deliver_def)

lemma deliver_length [simp]: "length (deliver k res ths) = length ths"
  by (simp add: deliver_def)

lemma deliver_nth: "t < length ths \<Longrightarrow> deliver k res ths ! t = (if ths ! t = Waiting k then Delivered k res True else ths ! t)"
  by (simp add: deliver_def)

lemma deliver_Waiting: "Waiting k' \<in> set (deliver k res ths) \<longleftrightarrow> k' \<noteq> k \<and> Waiting k' \<in> set ths"
  by (auto simp: deliver_def)

lemma go_sel [simp]: "h_mgr (go t pc m s) = m" "h_threads (go t pc m s) = (h_threads s)[t := pc]"
  by (simp_all add: go_def)

text \<open>The ways a goroutine moves, as far as the other goroutines see it.\<close>

fun pc_key :: "get_pc \<Rightarrow> string" where
  "pc_key (AtL1 k) = k" | "pc_key (AtL2 k) = k" | "pc_key (FillL1 k v) = k" | "pc_key (AtOrigin k) = k"
| "pc_key (Waiting k) = k" | "pc_key (Calling k) = k" | "pc_key (Filling k v) = k" | "pc_key (Landed k res) = k"
| "pc_key (Delivered k res b) = k" | "pc_key (Answered k res) = k" | "pc_key (Done k res) = k"

fun outside :: "get_pc \<Rightarrow> bool" where
  "outside (Waiting k) \<longleftrightarrow> False" | "outside (Calling k) \<longleftrightarrow> False" | "outside (Filling k v) \<longleftrightarrow> False"
| "outside (Landed k res) \<longleftrightarrow> False" | "outside _ \<longleftrightarrow> True"

lemma outside_not_in_flight [simp]: "outside pc \<Longrightarrow> \<not> in_flight k pc"
  by (cases pc) auto

lemma in_flight_key: "in_flight k pc \<Longrightarrow> pc_key pc = k"
  by (cases pc) auto

text \<open>How much is left to do.\<close>

fun work :: "get_pc \<Rightarrow> nat" where
  "work (AtL1 k) = 8" | "work (AtL2 k) = 7" | "work (AtOrigin k) = 6" | "work (Calling k) = 5" | "work (Filling k v) = 4"
| "work (Landed k res) = 3" | "work (Waiting k) = 3" | "work (Delivered k res b) = 2" | "work (FillL1 k v) = 2"
| "work (Answered k res) = 1" | "work (Done k res) = 0"

lemma get_step_bound: "get_step g runs now ans d t s = Some s' \<Longrightarrow> t < length (h_threads s)"
  by (simp add: get_step_def split: if_splits)

lemma get_step_moves:
  assumes "get_step g runs now ans d t s = Some s'" and "h_threads s ! t = pc"
  defines "pc' \<equiv> h_threads s' ! t"
  shows "work pc' < work pc \<and>
    (h_threads s' = (h_threads s)[t := pc'] \<and>
       (outside pc \<and> outside pc' \<or>
        (\<exists>k. pc = AtOrigin k \<and> pc' = (if g_useSF g \<and> \<not> runs (h_threads s) k then Waiting k else Calling k)) \<or>
        in_flight (pc_key pc) pc \<and> (in_flight (pc_key pc) pc' \<or> \<not> g_useSF g \<and> outside pc')) \<or>
     (\<exists>k res. pc = Landed k res \<and> g_useSF g \<and> pc' = Delivered k res (Waiting k \<in> set (h_threads s)) \<and>
        h_threads s' = (deliver k res (h_threads s))[t := pc']))"
  using assms(1,2) get_step_bound [OF assms(1)] unfolding pc'_def
  by (cases pc) (auto simp: get_step_def Let_def split: if_splits prod.splits option.splits fetch_result.splits)

lemma get_step_cases:
  assumes "get_step g runs now ans d t s = Some s'" and "h_threads s ! t = pc"
  obtains
    (outside) pc' where "outside pc" "outside pc'" "h_threads s' = (h_threads s)[t := pc']"
  | (enters) k where "pc = AtOrigin k" "g_useSF g \<longrightarrow> runs (h_threads s) k" "h_threads s' = (h_threads s)[t := Calling k]"
  | (joins) k where "pc = AtOrigin k" "g_useSF g" "\<not> runs (h_threads s) k" "h_threads s' = (h_threads s)[t := Waiting k]"
  | (flies) k pc' where "in_flight k pc" "in_flight k pc'" "h_threads s' = (h_threads s)[t := pc']"
  | (lands) k res where "pc = Landed k res" "g_useSF g"
      "h_threads s' = (deliver k res (h_threads s))[t := Delivered k res (Waiting k \<in> set (h_threads s))]"
  | (leaves) k pc' where "in_flight k pc" "outside pc'" "\<not> g_useSF g" "h_threads s' = (h_threads s)[t := pc']"
  using get_step_moves [OF assms] by (auto split: if_splits)

section \<open>Safety\<close>

lemma get_step_inv:
  assumes "get_step g runs now ans d t s = Some s'" and "g_useSF g" and "single_flight runs" and "herd_inv (h_threads s)"
  shows "herd_inv (h_threads s')"
proof -
  let ?ths = "h_threads s"
  note t = get_step_bound [OF assms(1)]
  have runs: "runs ?ths k \<longleftrightarrow> flights k ?ths = 0" for k
    using assms(3) by (simp add: single_flight_def flights_0)
  have W: "Waiting k \<in> set (?ths[t := pc]) \<Longrightarrow> Waiting k \<in> set ?ths \<or> pc = Waiting k" for k pc
    using set_update_subset_insert [of ?ths t pc] by auto
  have L: "flights k (?ths[t := pc]) = flights k ?ths + of_bool (in_flight k pc) - of_bool (in_flight k (?ths ! t))" for k pc
    by (rule flights_update [OF t])
  have I: "flights k ?ths \<le> 1" "Waiting k \<in> set ?ths \<Longrightarrow> flights k ?ths = 1" for k
    using assms(4) by (simp_all add: herd_inv_def)
  show ?thesis using assms(1) refl
  proof (cases rule: get_step_cases [where pc = "?ths ! t"])
    case (outside pc')
    then have "pc' \<noteq> Waiting k" for k by auto
    with outside W [of _ pc'] I L show ?thesis by (auto simp: herd_inv_def)
  next
    case (enters k)
    with assms(2) runs have "flights k ?ths = 0" by simp
    with enters W [of _ "Calling k"] I L show ?thesis by (auto simp: herd_inv_def)
  next
    case (joins k)
    with runs I [of k] have "flights k ?ths = 1" by (metis le_neq_implies_less less_one)
    with joins W [of _ "Waiting k"] I L show ?thesis by (auto simp: herd_inv_def)
  next
    case (flies k pc')
    then have "in_flight k' pc' \<longleftrightarrow> in_flight k' (?ths ! t)" for k' using in_flight_key by metis
    moreover have "pc' \<noteq> Waiting k'" for k' using flies(2) by auto
    moreover have "of_bool (in_flight k' (?ths ! t)) \<le> flights k' ?ths" for k' using flights_at [OF t] by auto
    ultimately show ?thesis using W [of _ pc'] I L flies(3) by (auto simp: herd_inv_def)
  next
    case (lands k res)
    let ?pc = "Delivered k res (Waiting k \<in> set ?ths)"
    have "flights k ?ths = 1" using flights_at [OF t, of k] I(1) [of k] lands(1) by simp
    then have F: "flights k' (h_threads s') = (if k' = k then 0 else flights k' ?ths)" for k'
      unfolding lands(3) using t lands(1) by (simp add: flights_update deliver_nth)
    have "Waiting k' \<in> set (h_threads s') \<Longrightarrow> k' \<noteq> k \<and> Waiting k' \<in> set ?ths" for k'
      unfolding lands(3) using set_update_subset_insert [of "deliver k res ?ths" t ?pc] deliver_Waiting [of k' k res ?ths] by auto
    with F I show ?thesis by (auto simp: herd_inv_def)
  next
    case (leaves k pc')
    with assms(2) show ?thesis by simp
  qed
qed

fun is_move :: "herd_op \<Rightarrow> bool" where
  "is_move (Moves t now ans d) \<longleftrightarrow> True"
| "is_move _ \<longleftrightarrow> False"

lemma herd_step_threads: "herd_step g runs p s = Some s' \<Longrightarrow> \<not> is_move p \<Longrightarrow> h_threads s' = h_threads s"
  by (cases p) (auto simp: herd_step_def)

lemma herd_step_inv:
  assumes "herd_step g runs p s = Some s'" and "g_useSF g" and "single_flight runs" and "herd_inv (h_threads s)"
  shows "herd_inv (h_threads s')"
proof (cases p)
  case (Moves t now ans d)
  with assms show ?thesis by (auto simp: herd_step_def intro: get_step_inv)
qed (use assms herd_step_threads [OF assms(1)] in auto)

lemma herd_run_inv:
  "herd_run g runs ps s = Some s' \<Longrightarrow> g_useSF g \<Longrightarrow> single_flight runs \<Longrightarrow> herd_inv (h_threads s) \<Longrightarrow> herd_inv (h_threads s')"
  by (induction ps arbitrary: s) (auto split: option.splits intro: herd_step_inv)

lemma herd_init_inv: "herd_inv (h_threads (herd_init m keys))"
proof -
  have "flights k (map AtL1 keys) = 0" for k by (induction keys) (simp_all add: flights_def)
  then show ?thesis by (auto simp: herd_inv_def herd_init_def)
qed

section \<open>Progress\<close>

definition herd_work :: "'r herd \<Rightarrow> nat" where
  "herd_work s = sum_list (map work (h_threads s))"

lemma work_update: "t < length ths \<Longrightarrow> sum_list (map work (ths[t := pc])) + work (ths ! t) = sum_list (map work ths) + work pc"
  using elem_le_sum_list [of t "map work ths"] by (simp add: map_update sum_list_update)

lemma work_deliver: "sum_list (map work (deliver k res ths)) \<le> sum_list (map work ths)"
  by (simp add: deliver_def comp_def sum_list_mono)

lemma get_step_work:
  assumes "get_step g runs now ans d t s = Some s'"
  shows "herd_work s' < herd_work s"
proof -
  let ?pc' = "h_threads s' ! t"
  note t = get_step_bound [OF assms]
  from get_step_moves [OF assms refl] have less: "work ?pc' < work (h_threads s ! t)" by blast
  from get_step_moves [OF assms refl] consider "h_threads s' = (h_threads s)[t := ?pc']"
    | k res where "h_threads s' = (deliver k res (h_threads s))[t := ?pc']" "h_threads s ! t = Landed k res" by blast
  then show ?thesis
  proof cases
    case 1
    with work_update [OF t, of ?pc'] less show ?thesis by (simp add: herd_work_def)
  next
    case (2 k res)
    with work_update [of t "deliver k res (h_threads s)" ?pc'] work_deliver [of k res "h_threads s"] t less
    show ?thesis by (simp add: herd_work_def deliver_nth)
  qed
qed

lemma herd_run_work:
  "herd_run g runs ps s = Some s' \<Longrightarrow> length (filter is_move ps) + herd_work s' \<le> herd_work s"
proof (induction ps arbitrary: s)
  case (Cons p ps)
  then obtain s1 where s1: "herd_step g runs p s = Some s1" "herd_run g runs ps s1 = Some s'"
    by (auto split: option.splits)
  have "of_bool (is_move p) + herd_work s1 \<le> herd_work s"
  proof (cases "is_move p")
    case True
    then obtain t now ans d where "p = Moves t now ans d" by (cases p) auto
    with s1(1) have "herd_work s1 < herd_work s" by (auto simp: herd_step_def intro: get_step_work)
    then show ?thesis by simp
  next
    case False
    with herd_step_threads [OF s1(1)] show ?thesis by (simp add: herd_work_def)
  qed
  with Cons.IH [OF s1(2)] show ?case by (cases "is_move p") simp_all
qed simp

lemma get_step_enabled:
  assumes "t < length (h_threads s)" and "\<And>k. h_threads s ! t \<noteq> Waiting k" and "\<And>k res. h_threads s ! t \<noteq> Done k res"
  shows "get_step g runs now ans d t s \<noteq> None"
  using assms
  by (cases "h_threads s ! t") (auto simp: get_step_def Let_def split: prod.splits option.splits fetch_result.splits)

text \<open>Without \<open>singleflight\<close> no goroutine ever waits.\<close>

lemma no_waiting:
  assumes "herd_run g runs ps s = Some s'" and "\<not> g_useSF g" and "\<forall>k. Waiting k \<notin> set (h_threads s)"
  shows "\<forall>k. Waiting k \<notin> set (h_threads s')"
  using assms(1,3)
proof (induction ps arbitrary: s)
  case (Cons p ps)
  then obtain s1 where s1: "herd_step g runs p s = Some s1" "herd_run g runs ps s1 = Some s'"
    by (auto split: option.splits)
  have "\<forall>k. Waiting k \<notin> set (h_threads s1)"
  proof (cases p)
    case (Moves t now ans d)
    with s1(1) have step: "get_step g runs now ans d t s = Some s1" by (simp add: herd_step_def)
    have "h_threads s1 = (h_threads s)[t := h_threads s1 ! t]" "\<And>k. h_threads s1 ! t \<noteq> Waiting k"
      using get_step_moves [OF step refl] assms(2) by auto
    with set_update_subset_insert [of "h_threads s" t "h_threads s1 ! t"] Cons.prems(2) show ?thesis by (metis insertE subsetD)
  qed (use s1(1) Cons.prems(2) in \<open>auto simp: herd_step_def\<close>)
  from Cons.IH [OF s1(2) this] show ?case .
qed simp

lemma blocked_all_done:
  assumes "\<forall>k. Waiting k \<in> set (h_threads s) \<longrightarrow> flights k (h_threads s) = 1"
    and "\<And>t. t < length (h_threads s) \<Longrightarrow> get_step g runs now ans d t s = None"
  shows "\<forall>pc\<in>set (h_threads s). \<exists>k res. pc = Done k res"
proof -
  have stuck: "(\<exists>k. pc = Waiting k) \<or> (\<exists>k res. pc = Done k res)" if "pc \<in> set (h_threads s)" for pc
  proof -
    from that obtain t where t: "t < length (h_threads s)" "h_threads s ! t = pc" by (auto simp: in_set_conv_nth)
    with assms(2) [OF t(1)] get_step_enabled [of t s g runs now ans d] show ?thesis by auto
  qed
  have "\<not> list_ex (in_flight k) (h_threads s)" for k using stuck by (fastforce simp: list_ex_iff)
  then have "flights k (h_threads s) = 0" for k by (simp add: flights_0)
  with assms(1) have "Waiting k \<notin> set (h_threads s)" for k by (metis zero_neq_one)
  with stuck show ?thesis by metis
qed

text \<open>Every step keeps the invariant of L1.\<close>

lemma get_step_l1_inv:
  "get_step g runs now ans d t s = Some s' \<Longrightarrow> l1_inv (m_l1 (h_mgr s)) \<Longrightarrow> l1_inv (m_l1 (h_mgr s'))"
  using L1_Get_inv [of "m_l1 (h_mgr s)" now _ "m_metrics (h_mgr s)"]
  by (cases "h_threads s ! t") (auto simp: get_step_def Let_def split_beta L1_Set_inv split: if_splits fetch_result.splits)

lemma herd_run_l1_inv:
  "herd_run g runs ps s = Some s' \<Longrightarrow> l1_inv (m_l1 (h_mgr s)) \<Longrightarrow> l1_inv (m_l1 (h_mgr s'))"
proof (induction ps arbitrary: s)
  case (Cons p ps)
  then obtain s1 where s1: "herd_step g runs p s = Some s1" "herd_run g runs ps s1 = Some s'" by (auto split: option.splits)
  have "l1_inv (m_l1 (h_mgr s1))"
    using s1(1) Cons.prems(2)
    by (cases p) (auto simp: herd_step_def Manager_Set_def Invalidate_def background_set_def Let_def split_beta
        L1_Set_inv L1_Delete_inv intro: get_step_l1_inv)
  with Cons.IH [OF s1(2)] show ?case by blast
qed simp

section \<open>A herd of goroutines\<close>

lemma herd_run_append:
  "herd_run g runs (ps @ qs) s = (case herd_run g runs ps s of None \<Rightarrow> None | Some s' \<Rightarrow> herd_run g runs qs s')"
  by (induction ps arbitrary: s) (auto split: option.splits)

lemma herd_run_seq: "herd_run g runs ps s = Some s1 \<Longrightarrow> herd_run g runs qs s1 = r \<Longrightarrow> herd_run g runs (ps @ qs) s = r"
  by (simp add: herd_run_append)

definition put_all :: "get_pc \<Rightarrow> nat list \<Rightarrow> get_pc list \<Rightarrow> get_pc list" where
  "put_all pc ts ths = fold (\<lambda>t ths. ths[t := pc]) ts ths"

lemma put_all_nth: "i < length ths \<Longrightarrow> put_all pc ts ths ! i = (if i \<in> set ts then pc else ths ! i)"
  by (induction ts arbitrary: ths) (auto simp: put_all_def nth_list_update)

lemma put_all_length [simp]: "length (put_all pc ts ths) = length ths"
  by (induction ts arbitrary: ths) (simp_all add: put_all_def)

lemma put_all_full: "set ts = {..<length ths} \<Longrightarrow> put_all pc ts ths = replicate (length ths) pc"
  by (rule nth_equalityI) (simp_all add: put_all_nth)

text \<open>One step of each goroutine of \<open>ts\<close>, from \<open>pc\<close> to \<open>pc'\<close>.\<close>

lemma run_phase:
  assumes "\<And>t s. P s \<Longrightarrow> t < length (h_threads s) \<Longrightarrow> h_threads s ! t = pc \<Longrightarrow>
      herd_step g runs (op t) s = Some (go t pc' (f t (h_mgr s)) s) \<and> P (go t pc' (f t (h_mgr s)) s)"
  shows "P s \<Longrightarrow> distinct ts \<Longrightarrow> \<forall>t\<in>set ts. t < length (h_threads s) \<and> h_threads s ! t = pc \<Longrightarrow>
    herd_run g runs (map op ts) s = Some (s\<lparr>h_mgr := fold f ts (h_mgr s), h_threads := put_all pc' ts (h_threads s)\<rparr>) \<and>
    P (s\<lparr>h_mgr := fold f ts (h_mgr s), h_threads := put_all pc' ts (h_threads s)\<rparr>)"
proof (induction ts arbitrary: s)
  case Nil
  then show ?case by (simp add: put_all_def)
next
  case (Cons t ts)
  let ?s = "go t pc' (f t (h_mgr s)) s"
  from Cons.prems have step: "herd_step g runs (op t) s = Some ?s" "P ?s" using assms [of s t] by auto
  have "\<forall>u\<in>set ts. u < length (h_threads ?s) \<and> h_threads ?s ! u = pc"
    using Cons.prems by (auto simp: nth_list_update)
  with Cons.IH [OF step(2)] Cons.prems(2) step(1) show ?case by (simp add: go_def put_all_def)
qed

lemma fold_counts:
  "m_metrics (fold (\<lambda>t. count (f t)) ts m) = fold f ts (m_metrics m)" "m_l1 (fold (\<lambda>t. count (f t)) ts m) = m_l1 m"
  "m_pending (fold (\<lambda>t. count (f t)) ts m) = m_pending m"
  by (induction ts arbitrary: m) simp_all

lemma fold_coalesced:
  "CoalescedCalls (fold (\<lambda>_. inc_CoalescedCalls) ts met) = CoalescedCalls met + of_nat (length ts)"
  "OriginCalls (fold (\<lambda>_. inc_CoalescedCalls) ts met) = OriginCalls met"
  by (induction ts arbitrary: met) (simp_all add: inc_defs)

lemma fold_latency:
  "CoalescedCalls (fold (\<lambda>t. RecordLatency (d t)) ts met) = CoalescedCalls met"
  "OriginCalls (fold (\<lambda>t. RecordLatency (d t)) ts met) = OriginCalls met"
  by (induction ts arbitrary: met) (simp_all add: RecordLatency_def)

text \<open>\<open>n\<close> goroutines that missed call \<open>Do\<close> in the order \<open>ts\<close>: the first calls the origin, the others wait.\<close>

lemma herd_arrives:
  assumes "single_flight runs" and "g_useSF g" and "h_threads s = replicate n (AtOrigin k)"
    and "distinct (t # ts)" and "set (t # ts) = {..<n}" and "\<And>t. op t = Moves t (now t) (a t) (d t)"
  shows "herd_run g runs (map op (t # ts)) s =
    Some (s\<lparr>h_mgr := count inc_OriginCalls (h_mgr s), h_threads := (replicate n (Waiting k))[t := Calling k]\<rparr>)"
proof -
  have t: "t < n" "t \<notin> set ts" "set ts = {..<n} - {t}" using assms(4,5) by auto
  have zero: "flights k' (replicate n (AtOrigin k)) = 0" for k' by (simp add: flights_def sum_list_replicate)
  let ?s = "go t (Calling k) (count inc_OriginCalls (h_mgr s)) s"
  have first: "herd_step g runs (op t) s = Some ?s"
    using assms(1,3,6) t(1) zero [of k] by (simp add: herd_step_def get_step_def Let_def single_flight_def flights_0)
  have one: "flights k (h_threads ?s) = 1" using t(1) by (simp add: assms(3) flights_update zero)
  let ?rest = "?s\<lparr>h_mgr := fold (\<lambda>_ m. m) ts (h_mgr ?s), h_threads := put_all (Waiting k) ts (h_threads ?s)\<rparr>"
  have others: "herd_run g runs (map op ts) ?s = Some ?rest \<and> flights k (h_threads ?rest) = 1"
  proof (rule run_phase [where P = "\<lambda>s. flights k (h_threads s) = 1" and pc = "AtOrigin k"])
    fix u and u_s :: "'a herd"
    assume u: "flights k (h_threads u_s) = 1" "u < length (h_threads u_s)" "h_threads u_s ! u = AtOrigin k"
    then have "\<not> runs (h_threads u_s) k" using assms(1) by (simp add: single_flight_def flights_0 [symmetric])
    with u assms(2,6) show "herd_step g runs (op u) u_s = Some (go u (Waiting k) (h_mgr u_s) u_s) \<and>
        flights k (h_threads (go u (Waiting k) (h_mgr u_s) u_s)) = 1"
      by (simp add: herd_step_def get_step_def Let_def flights_update)
  next
    show "\<forall>u\<in>set ts. u < length (h_threads ?s) \<and> h_threads ?s ! u = AtOrigin k"
      using t assms(3) by (auto simp: nth_list_update)
  qed (use one assms(4) in auto)
  have "put_all (Waiting k) ts (h_threads ?s) = (replicate n (Waiting k))[t := Calling k]"
    by (rule nth_equalityI) (auto simp: put_all_nth assms(3) t(3) nth_list_update)
  moreover have "fold (\<lambda>_ m. m) ts (h_mgr ?s) = h_mgr ?s" by (induction ts) simp_all
  ultimately show ?thesis using first others by (simp add: go_def)
qed

text \<open>The origin answers \<open>v\<close>, and \<open>Do\<close> returns it to all of them.\<close>

lemma herd_lands:
  assumes "g_useSF g" and "h_threads s = (replicate n (Waiting k))[t := Calling k]" and "t < n" and "2 \<le> n"
  shows "herd_run g runs [Moves t now1 (Fetched v) d1, Moves t now2 a2 d2, Moves t now3 a3 d3] s =
    Some (s\<lparr>h_mgr := (h_mgr s)\<lparr>m_pending := m_pending (h_mgr s) @ [(k, v)], m_l1 := L1_Set now2 k v (m_l1 (h_mgr s))\<rparr>,
      h_threads := replicate n (Delivered k (Fetched v) True)\<rparr>)"
proof -
  have w: "Waiting k \<in> set ((replicate n (Waiting k))[t := Landed k (Fetched v)])"
  proof -
    obtain u where "u < n" "u \<noteq> t" using assms(4) by (metis One_nat_def Suc_1 Suc_le_eq less_trans lessI not_less_eq zero_less_Suc)
    then have "(replicate n (Waiting k))[t := Landed k (Fetched v)] ! u = Waiting k" by (simp add: nth_list_update)
    with \<open>u < n\<close> show ?thesis by (metis length_list_update length_replicate nth_mem)
  qed
  have "(deliver k (Fetched v) ((replicate n (Waiting k))[t := Landed k (Fetched v)]))[t := Delivered k (Fetched v) True] =
      replicate n (Delivered k (Fetched v) True)"
    using assms(3) by (intro nth_equalityI) (auto simp: deliver_nth nth_list_update)
  with w assms show ?thesis by (simp add: herd_step_def get_step_def Let_def go_def)
qed

text \<open>The last steps, in any order.\<close>

lemma herd_returns:
  assumes "h_threads s = replicate n (Delivered k (Fetched v) True)"
    and "distinct us" "set us = {..<n}" "distinct ws" "set ws = {..<n}" and "\<And>t. op t = Moves t (now t) (a t) (d t)"
  shows "herd_run g runs (map op us @ map op ws) s =
    Some (s\<lparr>h_mgr := fold (\<lambda>t. count (RecordLatency (d t))) ws (fold (\<lambda>_. count inc_CoalescedCalls) us (h_mgr s)),
      h_threads := replicate n (Done k (Fetched v))\<rparr>)"
proof -
  let ?m = "fold (\<lambda>_. count inc_CoalescedCalls) us (h_mgr s)"
  let ?s = "s\<lparr>h_mgr := ?m, h_threads := put_all (Answered k (Fetched v)) us (h_threads s)\<rparr>"
  have one: "herd_run g runs (map op us) s = Some ?s"
    by (rule run_phase [where P = "\<lambda>_. True" and pc = "Delivered k (Fetched v) True", THEN conjunct1])
      (use assms in \<open>auto simp: herd_step_def get_step_def Let_def\<close>)
  have ths: "h_threads ?s = replicate n (Answered k (Fetched v))"
    using put_all_full [of us "h_threads s"] assms(1,3) by simp
  have "herd_run g runs (map op ws) ?s = Some (?s\<lparr>h_mgr := fold (\<lambda>t. count (RecordLatency (d t))) ws (h_mgr ?s),
      h_threads := put_all (Done k (Fetched v)) ws (h_threads ?s)\<rparr>)"
    by (rule run_phase [where P = "\<lambda>_. True" and pc = "Answered k (Fetched v)", THEN conjunct1])
      (use assms ths in \<open>auto simp: herd_step_def get_step_def Let_def\<close>)
  moreover have "put_all (Done k (Fetched v)) ws (h_threads ?s) = replicate n (Done k (Fetched v))"
    using put_all_full [of ws "h_threads ?s"] assms(5) ths by simp
  ultimately show ?thesis using one by (simp add: herd_run_append)
qed

section \<open>A goroutine on its own\<close>

lemma go_go [simp]: "go t pc' m' (go t pc m s) = go t pc' m' s"
  by (simp add: go_def)

lemma deliver_none: "Waiting k \<notin> set ths \<Longrightarrow> deliver k res ths = ths"
  by (auto simp: deliver_def intro!: map_idI)

text \<open>The steps of \<open>fetchFromOrigin\<close>, when no other goroutine is at the key.\<close>

definition fetch_ops :: "nat \<Rightarrow> clock \<Rightarrow> bytes fetch_result \<Rightarrow> bool \<Rightarrow> herd_op list" where
  "fetch_ops t clk ans useSF =
     (let p = Moves t (t_set clk) ans (t_end clk - t_start clk)
      in [p, p] @ (case ans of Fetched v \<Rightarrow> [p] | _ \<Rightarrow> []) @ [p] @ (if useSF then [p] else []) @ [p])"

lemma fetch_alone:
  assumes "single_flight runs" and "t < length (h_threads s)" and "h_threads s ! t = AtOrigin k"
    and "flights k (h_threads s) = 0" and "Waiting k \<notin> set (h_threads s)"
    and "fetchFromOrigin (g_useSF g) (Runs False) orig (t_set clk) k (h_mgr s) = (res, m')"
  shows "herd_run g runs (fetch_ops t clk (orig k) (g_useSF g)) s =
    Some (go t (Done k res) (count (RecordLatency (t_end clk - t_start clk)) m') s)"
proof -
  have runs: "runs (h_threads s) k" using assms(1,4) by (simp add: single_flight_def flights_0)
  have W: "Waiting k \<in> set ((h_threads s)[t := pc]) \<longleftrightarrow> pc = Waiting k" for pc
    using assms(2,5) set_update_subset_insert [of "h_threads s" t pc] by (auto simp: set_update_memI)
  have D: "(deliver k r ((h_threads s)[t := Landed k r]))[t := pc] = (h_threads s)[t := pc]" for r pc
    by (simp add: deliver_none W)
  obtain ans where ans: "orig k = ans" by simp
  show ?thesis
    using assms(2,3,6) runs unfolding ans
    by (cases ans; cases "g_useSF g")
      (auto simp: fetch_ops_def herd_step_def get_step_def Let_def W D fetchFromOrigin_def doOriginFetch_def go_def ans)
qed

section \<open>What the origin is asked\<close>

text \<open>The traffic with the origin that a run causes: a call for the key, and the answer that comes back.\<close>

datatype origin_event = Called string | Replied string "bytes fetch_result"

fun event_key :: "origin_event \<Rightarrow> string" where
  "event_key (Called k) = k"
| "event_key (Replied k ans) = k"

fun is_call :: "origin_event \<Rightarrow> bool" where
  "is_call (Called k) \<longleftrightarrow> True"
| "is_call (Replied k ans) \<longleftrightarrow> False"

definition origin_event :: "'r manager_config \<Rightarrow> flight_rule \<Rightarrow> herd_op \<Rightarrow> 'r herd \<Rightarrow> origin_event list" where
  "origin_event g runs p s =
     (case p of
        Moves t now ans d \<Rightarrow>
          (case h_threads s ! t of
             AtOrigin k \<Rightarrow> if g_useSF g \<and> \<not> runs (h_threads s) k then [] else [Called k]
           | Calling k \<Rightarrow> [Replied k ans]
           | _ \<Rightarrow> [])
      | _ \<Rightarrow> [])"

fun origin_log :: "'r manager_config \<Rightarrow> flight_rule \<Rightarrow> herd_op list \<Rightarrow> 'r herd \<Rightarrow> origin_event list" where
  "origin_log g runs [] s = []"
| "origin_log g runs (p # ps) s = origin_event g runs p s @
     (case herd_step g runs p s of None \<Rightarrow> [] | Some s' \<Rightarrow> origin_log g runs ps s')"

abbreviation log_of :: "string \<Rightarrow> origin_event list \<Rightarrow> origin_event list" where
  "log_of k \<equiv> filter (\<lambda>e. event_key e = k)"

text \<open>The result a goroutine has from \<open>Do\<close>, and one on its way to it.\<close>

fun returned :: "get_pc \<Rightarrow> bytes fetch_result option" where
  "returned (Delivered k res b) = Some res"
| "returned (Answered k res) = Some res"
| "returned (Done k res) = Some res"
| "returned _ = None"

fun carries :: "string \<Rightarrow> bytes fetch_result \<Rightarrow> get_pc \<Rightarrow> bool" where
  "carries k res (Filling k' v) \<longleftrightarrow> k' = k \<and> res = Fetched v"
| "carries k res (Landed k' r) \<longleftrightarrow> k' = k \<and> r = res"
| "carries k res _ \<longleftrightarrow> False"

lemma returned_outside: "returned pc \<noteq> None \<Longrightarrow> pc \<noteq> Waiting k \<and> \<not> in_flight k pc"
  by (cases pc) auto

lemma in_do: "pc_key pc = k \<longrightarrow> pc = Waiting k \<or> in_flight k pc \<Longrightarrow> pc \<noteq> AtOrigin k"
  by (cases pc) auto

lemma L1_metrics: "OriginCalls (snd (snd (L1_Get now k (c, met)))) = OriginCalls met"
  by (simp add: L1_Get_def split_beta Let_def inc_defs split: prod.splits option.splits)

text \<open>The counter of origin calls counts the calls of the log.\<close>

lemma get_step_calls:
  assumes "get_step g runs now ans d t s = Some s'"
  shows "OriginCalls (m_metrics (h_mgr s')) = OriginCalls (m_metrics (h_mgr s)) +
    of_nat (length (filter is_call (origin_event g runs (Moves t now ans d) s)))"
  using assms L1_metrics [of now _ "m_l1 (h_mgr s)" "m_metrics (h_mgr s)"]
  by (cases "h_threads s ! t")
    (auto simp: get_step_def origin_event_def Let_def split_beta L2_Get_def inc_defs RecordLatency_def
      split: if_splits fetch_result.splits sum.splits)

lemma origin_log_calls:
  "herd_run g runs ps s = Some s' \<Longrightarrow> OriginCalls (m_metrics (h_mgr s')) = OriginCalls (m_metrics (h_mgr s)) +
    of_nat (length (filter is_call (origin_log g runs ps s)))"
proof (induction ps arbitrary: s)
  case (Cons p ps)
  then obtain s1 where s1: "herd_step g runs p s = Some s1" "herd_run g runs ps s1 = Some s'" by (auto split: option.splits)
  have "OriginCalls (m_metrics (h_mgr s1)) = OriginCalls (m_metrics (h_mgr s)) +
      of_nat (length (filter is_call (origin_event g runs p s)))"
  proof (cases p)
    case (Moves t now ans d)
    with s1(1) show ?thesis using get_step_calls [of g runs now ans d t s s1] by (simp add: herd_step_def)
  qed (use s1(1) in \<open>auto simp: herd_step_def origin_event_def Manager_Set_def Invalidate_def background_set_def Let_def split_beta\<close>)
  with Cons.IH [OF s1(2)] s1(1) show ?case by simp
qed simp

lemma origin_log_append:
  "herd_run g runs ps s = Some s1 \<Longrightarrow> origin_log g runs (ps @ qs) s = origin_log g runs ps s @ origin_log g runs qs s1"
  by (induction ps arbitrary: s) (auto split: option.splits)

text \<open>One goroutine's step, as the others see it.\<close>

lemma get_step_frame:
  assumes "get_step g runs now ans d t s = Some s'"
  shows "length (h_threads s') = length (h_threads s)" "pc_key (h_threads s' ! t) = pc_key (h_threads s ! t)"
    and "u < length (h_threads s) \<Longrightarrow> u \<noteq> t \<Longrightarrow> h_threads s' ! u =
      (case h_threads s ! t of
         Landed k res \<Rightarrow> if g_useSF g \<and> h_threads s ! u = Waiting k then Delivered k res True else h_threads s ! u
       | _ \<Rightarrow> h_threads s ! u)"
  using assms get_step_bound [OF assms]
  by (cases "h_threads s ! t";
      auto simp: get_step_def Let_def go_def deliver_nth split: if_splits prod.splits option.splits fetch_result.splits)+

lemma get_step_returned:
  assumes "get_step g runs now ans d t s = Some s'" and "returned (h_threads s ! u) = Some res" and "u < length (h_threads s)"
  shows "returned (h_threads s' ! u) = Some res \<and> pc_key (h_threads s' ! u) = pc_key (h_threads s ! u)"
proof (cases "u = t")
  case True
  with assms show ?thesis
    by (cases "h_threads s ! t") (auto simp: get_step_def Let_def go_def split: if_splits)
next
  case False
  with assms(2) get_step_frame(3) [OF assms(1,3)] show ?thesis by (auto split: get_pc.splits)
qed

text \<open>A call of the origin for \<open>k\<close> is under way, and the other goroutines at \<open>k\<close> are in \<open>W\<close>; or it has landed.\<close>

definition flying :: "string \<Rightarrow> get_pc set \<Rightarrow> origin_event list \<Rightarrow> get_pc list \<Rightarrow> bool" where
  "flying k W L ths \<longleftrightarrow> (\<exists>t<length ths. (\<forall>u<length ths. u \<noteq> t \<and> pc_key (ths ! u) = k \<longrightarrow> ths ! u \<in> W) \<and>
     (L = [Called k] \<and> ths ! t = Calling k \<or>
      (\<exists>ans. L = [Called k, Replied k ans] \<and> carries k (origin_result (\<lambda>_. ans) k) (ths ! t))))"

definition someone_has :: "string \<Rightarrow> get_pc list \<Rightarrow> bool" where
  "someone_has k ths \<longleftrightarrow> (\<exists>t<length ths. pc_key (ths ! t) = k \<and> returned (ths ! t) \<noteq> None)"

definition all_have :: "string \<Rightarrow> origin_event list \<Rightarrow> get_pc list \<Rightarrow> bool" where
  "all_have k L ths \<longleftrightarrow> (\<exists>ans. L = [Called k, Replied k ans] \<and>
     (\<forall>t<length ths. pc_key (ths ! t) = k \<longrightarrow> returned (ths ! t) = Some (origin_result (\<lambda>_. ans) k)))"

lemma origin_event_other:
  "pc_key (h_threads s ! t) \<noteq> k \<Longrightarrow> log_of k (origin_event g runs (Moves t now ans d) s) = []"
  by (cases "h_threads s ! t") (auto simp: origin_event_def)

lemma carries_key: "carries k res pc \<Longrightarrow> pc_key pc = k \<and> in_flight k pc"
  by (cases pc) auto

lemma flying_step_self:
  assumes "get_step g runs now ans d t s = Some s'" and "g_useSF g" and "W \<subseteq> {AtOrigin k, Waiting k}"
    and others: "\<forall>u<length (h_threads s). u \<noteq> t \<and> pc_key (h_threads s ! u) = k \<longrightarrow> h_threads s ! u \<in> W"
    and pc: "L = [Called k] \<and> h_threads s ! t = Calling k \<or>
      (\<exists>a. L = [Called k, Replied k a] \<and> carries k (origin_result (\<lambda>_. a) k) (h_threads s ! t))"
  shows "flying k W (L @ log_of k (origin_event g runs (Moves t now ans d) s)) (h_threads s') \<or>
    someone_has k (h_threads s') \<and>
    (W \<subseteq> {Waiting k} \<longrightarrow> all_have k (L @ log_of k (origin_event g runs (Moves t now ans d) s)) (h_threads s'))"
    (is "flying k W ?L' ?ths' \<or> _")
proof -
  let ?ths = "h_threads s"
  note t = get_step_bound [OF assms(1)] and len = get_step_frame(1) [OF assms(1)] and fr = get_step_frame(3) [OF assms(1)]
  have stay: "flying k W ?L' ?ths'"
    if "\<nexists>res. ?ths ! t = Landed k res" and "\<exists>a. ?L' = [Called k, Replied k a] \<and> carries k (origin_result (\<lambda>_. a) k) (?ths' ! t)"
  proof -
    have "pc_key (?ths ! t) = k" using pc carries_key by auto
    with that(1) have same: "u < length ?ths \<Longrightarrow> u \<noteq> t \<Longrightarrow> ?ths' ! u = ?ths ! u" for u using fr [of u] by (auto split: get_pc.splits)
    show ?thesis unfolding flying_def len
      by (intro exI [of _ t] conjI t disjI2 that(2)) (use others same in auto)
  qed
  consider (call) "L = [Called k]" "?ths ! t = Calling k"
    | (fill) a v where "L = [Called k, Replied k a]" "?ths ! t = Filling k v" "origin_result (\<lambda>_. a) k = Fetched v"
    | (land) a where "L = [Called k, Replied k a]" "?ths ! t = Landed k (origin_result (\<lambda>_. a) k)"
    using pc by (cases "?ths ! t") auto
  then show ?thesis
  proof cases
    case call
    with assms(1) t have "?L' = [Called k, Replied k ans] \<and> carries k (origin_result (\<lambda>_. ans) k) (?ths' ! t)"
      by (auto simp: get_step_def origin_event_def origin_result_def Let_def split: fetch_result.splits)
    with stay call show ?thesis by auto
  next
    case (fill a v)
    with assms(1) t have "?L' = [Called k, Replied k a] \<and> carries k (origin_result (\<lambda>_. a) k) (?ths' ! t)"
      by (auto simp: get_step_def origin_event_def Let_def)
    with stay fill show ?thesis by auto
  next
    case (land a)
    have L': "?L' = [Called k, Replied k a]" using land by (simp add: origin_event_def)
    have self: "returned (?ths' ! t) = Some (origin_result (\<lambda>_. a) k)" "pc_key (?ths' ! t) = k"
      using assms(1,2) t land(2) by (auto simp: get_step_def Let_def)
    have "W \<subseteq> {Waiting k} \<longrightarrow> all_have k ?L' ?ths'"
    proof
      assume W: "W \<subseteq> {Waiting k}"
      have "returned (?ths' ! u) = Some (origin_result (\<lambda>_. a) k)" if "u < length ?ths'" "pc_key (?ths' ! u) = k" for u
      proof (cases "u = t")
        case False
        with that len fr [of u] land(2) assms(2)
        have new: "?ths' ! u = (if ?ths ! u = Waiting k then Delivered k (origin_result (\<lambda>_. a) k) True else ?ths ! u)" by simp
        with that have "pc_key (?ths ! u) = k" by (auto split: if_splits)
        with others W that(1) False len have "?ths ! u = Waiting k" by auto
        with new show ?thesis by simp
      qed (use self in simp)
      with L' show "all_have k ?L' ?ths'" by (auto simp: all_have_def)
    qed
    moreover have "someone_has k ?ths'" using self t len by (auto simp: someone_has_def)
    ultimately show ?thesis by blast
  qed
qed

lemma flying_step:
  assumes "get_step g runs now ans d t s = Some s'" and "g_useSF g" and "single_flight runs" and "W = {AtOrigin k, Waiting k} \<or> W = {Waiting k}"
    and "flying k W L (h_threads s)"
  shows "flying k W (L @ log_of k (origin_event g runs (Moves t now ans d) s)) (h_threads s') \<or>
    someone_has k (h_threads s') \<and>
    (W = {Waiting k} \<longrightarrow> all_have k (L @ log_of k (origin_event g runs (Moves t now ans d) s)) (h_threads s'))"
proof -
  let ?ths = "h_threads s" and ?ths' = "h_threads s'" and ?e = "log_of k (origin_event g runs (Moves t now ans d) s)"
  note t = get_step_bound [OF assms(1)] and len = get_step_frame(1) [OF assms(1)]
  from assms(5) obtain t0 where t0: "t0 < length ?ths"
      "\<forall>u<length ?ths. u \<noteq> t0 \<and> pc_key (?ths ! u) = k \<longrightarrow> ?ths ! u \<in> W"
      "L = [Called k] \<and> ?ths ! t0 = Calling k \<or>
        (\<exists>a. L = [Called k, Replied k a] \<and> carries k (origin_result (\<lambda>_. a) k) (?ths ! t0))"
    by (auto simp: flying_def)
  have key0: "pc_key (?ths ! t0) = k \<and> in_flight k (?ths ! t0)" using t0(3) carries_key by auto
  show ?thesis
  proof (cases "t = t0")
    case True
    with flying_step_self [OF assms(1,2), of W k L] t0 assms(4) show ?thesis by auto
  next
    case False
    have "list_ex (in_flight k) ?ths" using key0 t0(1) by (auto simp: list_ex_iff)
    then have busy: "\<not> runs ?ths k" using assms(3) by (simp add: single_flight_def)
    have "?e = [] \<and> (pc_key (?ths' ! t) = k \<longrightarrow> ?ths' ! t \<in> W) \<and> (\<nexists>res. ?ths ! t = Landed k res)"
    proof (cases "pc_key (?ths ! t) = k")
      case True
      with t0(2) t False have "?ths ! t \<in> W" by auto
      with assms(4) have "?ths ! t = AtOrigin k \<and> AtOrigin k \<in> W \<or> ?ths ! t = Waiting k" by auto
      then show ?thesis
      proof
        assume at: "?ths ! t = AtOrigin k \<and> AtOrigin k \<in> W"
        with assms(1,2) busy t have "?ths' = ?ths[t := Waiting k]" by (auto simp: get_step_def Let_def)
        moreover have "Waiting k \<in> W" using assms(4) by auto
        ultimately show ?thesis using at t busy assms(2) by (simp add: origin_event_def)
      next
        assume "?ths ! t = Waiting k"
        with assms(1) t show ?thesis by (simp add: get_step_def)
      qed
    next
      case False
      with get_step_frame(2) [OF assms(1)] origin_event_other [OF False] show ?thesis by auto
    qed
    moreover from this have same: "?ths' ! u = ?ths ! u" if "u < length ?ths" "u \<noteq> t" "pc_key (?ths ! u) = k" for u
      using get_step_frame(3) [OF assms(1) that(1,2)] that(3) by (auto split: get_pc.splits if_splits)
    moreover have "pc_key (?ths' ! u) = k \<longleftrightarrow> pc_key (?ths ! u) = k" if "u < length ?ths" "u \<noteq> t" for u
      using get_step_frame(3) [OF assms(1) that] by (auto split: get_pc.splits if_splits)
    ultimately have "flying k W (L @ ?e) ?ths'"
      unfolding flying_def len using t0 key0 False by (intro exI [of _ t0]) (metis append_Nil2)
    then show ?thesis ..
  qed
qed

lemma someone_step:
  "get_step g runs now ans d t s = Some s' \<Longrightarrow> someone_has k (h_threads s) \<Longrightarrow> someone_has k (h_threads s')"
  unfolding someone_has_def by (metis get_step_frame(1) get_step_returned not_None_eq)

lemma all_have_step:
  assumes "get_step g runs now ans d t s = Some s'" and "all_have k L (h_threads s)"
  shows "all_have k (L @ log_of k (origin_event g runs (Moves t now ans d) s)) (h_threads s')"
proof -
  note t = get_step_bound [OF assms(1)] and len = get_step_frame(1) [OF assms(1)]
  obtain a where a: "L = [Called k, Replied k a]"
    "\<And>u. u < length (h_threads s) \<Longrightarrow> pc_key (h_threads s ! u) = k \<Longrightarrow>
      returned (h_threads s ! u) = Some (origin_result (\<lambda>_. a) k)"
    using assms(2) by (auto simp: all_have_def)
  have "log_of k (origin_event g runs (Moves t now ans d) s) = []"
  proof (cases "pc_key (h_threads s ! t) = k")
    case True
    with a(2) [OF t] show ?thesis by (cases "h_threads s ! t") (auto simp: origin_event_def)
  qed (rule origin_event_other)
  moreover have "returned (h_threads s' ! u) = Some (origin_result (\<lambda>_. a) k)"
    if u: "u < length (h_threads s)" "pc_key (h_threads s' ! u) = k" for u
  proof -
    have "pc_key (h_threads s ! u) = k"
      using u get_step_frame(2) [OF assms(1)] get_step_frame(3) [OF assms(1) u(1)]
      by (cases "u = t") (auto split: get_pc.splits if_splits)
    with a(2) u get_step_returned [OF assms(1)] show ?thesis by blast
  qed
  ultimately show ?thesis using a(1) len by (auto simp: all_have_def)
qed

text \<open>Before the first of the goroutines at \<open>k\<close> returns from \<open>Do\<close>.\<close>

definition early :: "string \<Rightarrow> origin_event list \<Rightarrow> get_pc list \<Rightarrow> bool" where
  "early k L ths \<longleftrightarrow> L = [] \<and> (\<forall>pc\<in>set ths. pc_key pc = k \<longrightarrow> pc = AtOrigin k) \<or>
     flying k {AtOrigin k, Waiting k} L ths \<or> someone_has k ths"

lemma early_step:
  assumes "get_step g runs now ans d t s = Some s'" and "g_useSF g" and "single_flight runs" and "early k L (h_threads s)"
  shows "early k (L @ log_of k (origin_event g runs (Moves t now ans d) s)) (h_threads s')"
proof -
  let ?ths = "h_threads s"
  note t = get_step_bound [OF assms(1)] and len = get_step_frame(1) [OF assms(1)]
  from assms(4) consider (none) "L = []" "\<forall>pc\<in>set ?ths. pc_key pc = k \<longrightarrow> pc = AtOrigin k"
    | (flying) "flying k {AtOrigin k, Waiting k} L ?ths" | (someone) "someone_has k ?ths"
    by (auto simp: early_def)
  then show ?thesis
  proof cases
    case none
    then have at: "u < length ?ths \<Longrightarrow> pc_key (?ths ! u) = k \<Longrightarrow> ?ths ! u = AtOrigin k" for u by simp
    show ?thesis
    proof (cases "pc_key (?ths ! t) = k")
      case True
      with at t have pc: "?ths ! t = AtOrigin k" by simp
      have "\<not> list_ex (in_flight k) ?ths" using none(2) in_flight_key by (fastforce simp: list_ex_iff)
      then have "runs ?ths k" using assms(3) by (simp add: single_flight_def)
      with pc assms(1) t have "h_threads s' = ?ths[t := Calling k]"
        "origin_event g runs (Moves t now ans d) s = [Called k]"
        by (auto simp: get_step_def origin_event_def Let_def)
      with none at t have "flying k {AtOrigin k, Waiting k} (L @ log_of k (origin_event g runs (Moves t now ans d) s)) (h_threads s')"
        unfolding flying_def by (intro exI [of _ t]) auto
      then show ?thesis by (simp add: early_def)
    next
      case False
      have "pc = AtOrigin k" if "pc \<in> set (h_threads s')" "pc_key pc = k" for pc
      proof -
        from that(1) obtain u where u: "u < length ?ths" "h_threads s' ! u = pc" by (metis in_set_conv_nth len)
        with False that(2) get_step_frame(2) [OF assms(1)] have "u \<noteq> t" by auto
        from get_step_frame(3) [OF assms(1) u(1) this] u at that(2) False show ?thesis
          by (auto split: get_pc.splits if_splits)
      qed
      with none(1) origin_event_other [OF False] show ?thesis by (simp add: early_def)
    qed
  next
    case flying
    with flying_step [OF assms(1-3) _ flying] show ?thesis by (auto simp: early_def)
  next
    case someone
    with someone_step [OF assms(1)] show ?thesis by (simp add: early_def)
  qed
qed

lemma late_step:
  assumes "get_step g runs now ans d t s = Some s'" and "g_useSF g" and "single_flight runs"
    and "flying k {Waiting k} L (h_threads s) \<or> all_have k L (h_threads s)"
  shows "flying k {Waiting k} (L @ log_of k (origin_event g runs (Moves t now ans d) s)) (h_threads s') \<or>
    all_have k (L @ log_of k (origin_event g runs (Moves t now ans d) s)) (h_threads s')"
  using assms(4) all_have_step [OF assms(1)] flying_step [OF assms(1-3), of "{Waiting k}" k L] by blast

text \<open>What every goroutine's step keeps, every run keeps.\<close>

lemma herd_run_keeps:
  assumes "\<And>t now ans d s s' L. get_step g runs now ans d t s = Some s' \<Longrightarrow> P L (h_threads s) \<Longrightarrow>
      P (L @ log_of k (origin_event g runs (Moves t now ans d) s)) (h_threads s')"
  shows "herd_run g runs ps s = Some s' \<Longrightarrow> P L (h_threads s) \<Longrightarrow> P (L @ log_of k (origin_log g runs ps s)) (h_threads s')"
proof (induction ps arbitrary: s L)
  case (Cons p ps)
  then obtain s1 where s1: "herd_step g runs p s = Some s1" "herd_run g runs ps s1 = Some s'" by (auto split: option.splits)
  have "P (L @ log_of k (origin_event g runs p s)) (h_threads s1)"
  proof (cases p)
    case (Moves t now ans d)
    with s1(1) assms Cons.prems(2) show ?thesis by (simp add: herd_step_def)
  qed (use s1(1) Cons.prems(2) in \<open>auto simp: herd_step_def origin_event_def\<close>)
  from Cons.IH [OF s1(2) this] s1(1) show ?case by simp
qed simp

lemma herd_run_keys: "herd_run g runs ps s = Some s' \<Longrightarrow> map pc_key (h_threads s') = map pc_key (h_threads s)"
proof (induction ps arbitrary: s)
  case (Cons p ps)
  then obtain s1 where s1: "herd_step g runs p s = Some s1" "herd_run g runs ps s1 = Some s'" by (auto split: option.splits)
  have "map pc_key (h_threads s1) = map pc_key (h_threads s)"
  proof (cases p)
    case (Moves t now ans d)
    with s1(1) have step: "get_step g runs now ans d t s = Some s1" by (simp add: herd_step_def)
    show ?thesis
    proof (rule nth_equalityI)
      fix u assume "u < length (map pc_key (h_threads s1))"
      then have u: "u < length (h_threads s)" "u < length (h_threads s1)" using get_step_frame(1) [OF step] by simp_all
      show "map pc_key (h_threads s1) ! u = map pc_key (h_threads s) ! u"
        using u get_step_frame(2) [OF step] get_step_frame(3) [OF step u(1)]
        by (cases "u = t") (auto split: get_pc.splits)
    qed (simp add: get_step_frame(1) [OF step])
  qed (use herd_step_threads [OF s1(1)] in simp_all)
  with Cons.IH [OF s1(2)] show ?case by simp
qed simp

lemma flying_no_late:
  assumes "flying k {AtOrigin k, Waiting k} L ths" and "\<forall>pc\<in>set ths. pc \<noteq> AtOrigin k"
  shows "flying k {Waiting k} L ths"
proof -
  from assms(1) obtain t where t: "t < length ths"
    "\<forall>u<length ths. u \<noteq> t \<and> pc_key (ths ! u) = k \<longrightarrow> ths ! u \<in> {AtOrigin k, Waiting k}"
    "L = [Called k] \<and> ths ! t = Calling k \<or> (\<exists>ans. L = [Called k, Replied k ans] \<and> carries k (origin_result (\<lambda>_. ans) k) (ths ! t))"
    unfolding flying_def by blast
  with assms(2) have "\<forall>u<length ths. u \<noteq> t \<and> pc_key (ths ! u) = k \<longrightarrow> ths ! u \<in> {Waiting k}" by simp
  with t show ?thesis unfolding flying_def by blast
qed

lemma late_result:
  assumes "flying k {Waiting k} L ths \<or> all_have k L ths"
  shows "\<exists>ans. L \<in> {[Called k], [Called k, Replied k ans]} \<and>
    (\<forall>pc\<in>set ths. pc_key pc = k \<and> returned pc \<noteq> None \<longrightarrow>
       L = [Called k, Replied k ans] \<and> returned pc = Some (origin_result (\<lambda>_. ans) k))"
  using assms
proof
  assume "flying k {Waiting k} L ths"
  then obtain t where t: "\<forall>u<length ths. u \<noteq> t \<and> pc_key (ths ! u) = k \<longrightarrow> ths ! u = Waiting k"
    "L = [Called k] \<and> ths ! t = Calling k \<or> (\<exists>a. L = [Called k, Replied k a] \<and> carries k (origin_result (\<lambda>_. a) k) (ths ! t))"
    by (auto simp: flying_def)
  have "returned (ths ! t) = None" using t(2) by (cases "ths ! t") auto
  have "\<not> (pc_key (ths ! u) = k \<and> returned (ths ! u) \<noteq> None)" if u: "u < length ths" for u
  proof
    assume r: "pc_key (ths ! u) = k \<and> returned (ths ! u) \<noteq> None"
    with \<open>returned (ths ! t) = None\<close> have "u \<noteq> t" by auto
    with t(1) u r have "ths ! u = Waiting k" by blast
    with r show False by simp
  qed
  then have "\<forall>pc\<in>set ths. \<not> (pc_key pc = k \<and> returned pc \<noteq> None)" by (metis in_set_conv_nth)
  with t(2) show ?thesis by auto
next
  assume "all_have k L ths"
  then show ?thesis by (fastforce simp: all_have_def in_set_conv_nth)
qed

lemma one_call_logged:
  assumes "flying k {Waiting k} L ths \<or> all_have k L ths"
  shows "length (filter is_call L) = 1"
  using assms by (auto simp: flying_def all_have_def)

lemma calls_split:
  "length (filter is_call L) = length (filter is_call (log_of k L)) + length (filter (\<lambda>e. is_call e \<and> event_key e \<noteq> k) L)"
  by (induction L) auto

section \<open>Properties\<close>

text \<open>C11: With \<open>singleflight\<close> on, whatever the interleaving of any number of \<open>Get\<close>s with writes, invalidations and
  background writes, at most one origin call is in flight for a key, and whoever waits for a key waits for
  a call that is in flight.\<close>

theorem one_call_in_flight:
  assumes "single_flight runs" and "g_useSF g" and "herd_run g runs ps (herd_init m keys) = Some s"
  shows "flights k (h_threads s) \<le> 1 \<and> (Waiting k \<in> set (h_threads s) \<longrightarrow> flights k (h_threads s) = 1)"
  using herd_run_inv [OF assms(3,2,1) herd_init_inv] by (simp add: herd_inv_def)

text \<open>C10: Every \<open>Get\<close> ends, in every interleaving: \<open>n\<close> \<open>Get\<close>s make at most \<open>8 n\<close> steps in all, and when none of
  them can make a step, all have returned; so no schedule that keeps moving them can starve or block one.\<close>

theorem gets_finish:
  assumes "single_flight runs" and "herd_run g runs ps (herd_init m keys) = Some s"
  shows "length (filter is_move ps) \<le> 8 * length keys \<and>
    ((\<forall>t. get_step g runs now ans d t s = None) \<longrightarrow> (\<forall>pc\<in>set (h_threads s). \<exists>k res. pc = Done k res))"
proof -
  have "herd_work (herd_init m keys) = 8 * length keys"
    by (simp add: herd_work_def herd_init_def comp_def sum_list_triv)
  then have "length (filter is_move ps) \<le> 8 * length keys" using herd_run_work [OF assms(2)] by simp
  moreover have "\<forall>k. Waiting k \<in> set (h_threads s) \<longrightarrow> flights k (h_threads s) = 1"
  proof (cases "g_useSF g")
    case True
    from herd_run_inv [OF assms(2) True assms(1) herd_init_inv] show ?thesis by (simp add: herd_inv_def)
  next
    case False
    from no_waiting [OF assms(2) False] show ?thesis by (auto simp: herd_init_def)
  qed
  ultimately show ?thesis using blocked_all_done [of s g runs now ans d] by blast
qed

text \<open>The plain schedule for \<open>n\<close> goroutines, in any order: all arrive, the origin answers, all return.  All \<open>n\<close>
  count as coalesced, the one that called the origin included, and L1 and the pending writes get the
  value once.\<close>

lemma herd_schedule:
  assumes "single_flight runs" and "g_useSF g" and "h_threads s = replicate n (AtOrigin k)" and "2 \<le> n"
    and "distinct (t # ts)" "set (t # ts) = {..<n}" and "distinct us" "set us = {..<n}" and "distinct ws" "set ws = {..<n}"
    and "\<And>t. op t = Moves t (now t) (a t) (d t)"
  shows "\<exists>s'. herd_run g runs (map op (t # ts) @ [Moves t now1 (Fetched v) d1, Moves t now2 a2 d2, Moves t now3 a3 d3] @
      map op us @ map op ws) s = Some s' \<and>
    h_threads s' = replicate n (Done k (Fetched v)) \<and>
    OriginCalls (m_metrics (h_mgr s')) = OriginCalls (m_metrics (h_mgr s)) + 1 \<and>
    CoalescedCalls (m_metrics (h_mgr s')) = CoalescedCalls (m_metrics (h_mgr s)) + of_nat n \<and>
    m_l1 (h_mgr s') = L1_Set now2 k v (m_l1 (h_mgr s)) \<and> m_pending (h_mgr s') = m_pending (h_mgr s) @ [(k, v)]"
proof -
  note A = herd_arrives [OF assms(1-3,5,6,11)]
  let ?s1 = "s\<lparr>h_mgr := count inc_OriginCalls (h_mgr s), h_threads := (replicate n (Waiting k))[t := Calling k]\<rparr>"
  have "t < n" using assms(6) by auto
  let ?s2 = "?s1\<lparr>h_mgr := (h_mgr ?s1)\<lparr>m_pending := m_pending (h_mgr ?s1) @ [(k, v)], m_l1 := L1_Set now2 k v (m_l1 (h_mgr ?s1))\<rparr>,
      h_threads := replicate n (Delivered k (Fetched v) True)\<rparr>"
  have B: "herd_run g runs [Moves t now1 (Fetched v) d1, Moves t now2 a2 d2, Moves t now3 a3 d3] ?s1 = Some ?s2"
    by (subst herd_lands [OF assms(2) _ \<open>t < n\<close> assms(4)]) simp_all
  have C: "herd_run g runs (map op us @ map op ws) ?s2 =
    Some (?s2\<lparr>h_mgr := fold (\<lambda>t. count (RecordLatency (d t))) ws (fold (\<lambda>_. count inc_CoalescedCalls) us (h_mgr ?s2)),
      h_threads := replicate n (Done k (Fetched v))\<rparr>)"
    by (rule herd_returns [OF _ assms(7-11)]) simp
  have n: "length us = n" using assms(7,8) by (metis distinct_card card_lessThan)
  show ?thesis
    by (intro exI conjI, rule herd_run_seq [OF A herd_run_seq [OF B C]])
      (simp_all add: fold_counts fold_coalesced fold_latency inc_defs n)
qed

text \<open>C9: A thundering herd costs one origin call.  Any number of goroutines missed both layers for a key and are
  about to call \<open>Do\<close>; goroutines for other keys may be anywhere.  In every interleaving, with sets,
  invalidations and background writes in between, in which all of them have called \<open>Do\<close> before the first
  of them returns from it, whether the origin has answered by then or not: the origin is called for the
  key exactly once in the whole run, it answers at most once, and every goroutine that has returned from
  \<open>Do\<close> has the result of that one answer.  The counter \<open>OriginCalls\<close> has gone up by this one call and those
  for other keys.\<close>

theorem herd_one_call:
  assumes "single_flight runs" and "g_useSF g" and "\<exists>pc\<in>set (h_threads s). pc_key pc = k"
    and "\<forall>pc\<in>set (h_threads s). pc_key pc = k \<longrightarrow> pc = AtOrigin k"
    and "herd_run g runs ps1 s = Some s1" and "\<forall>pc\<in>set (h_threads s1). pc_key pc = k \<longrightarrow> pc = Waiting k \<or> in_flight k pc"
    and "herd_run g runs ps2 s1 = Some s2"
  shows "\<exists>ans. log_of k (origin_log g runs (ps1 @ ps2) s) \<in> {[Called k], [Called k, Replied k ans]} \<and>
    (\<forall>pc\<in>set (h_threads s2). pc_key pc = k \<and> returned pc \<noteq> None \<longrightarrow>
       log_of k (origin_log g runs (ps1 @ ps2) s) = [Called k, Replied k ans] \<and>
       returned pc = Some (origin_result (\<lambda>_. ans) k)) \<and>
    OriginCalls (m_metrics (h_mgr s2)) = OriginCalls (m_metrics (h_mgr s)) + 1 +
      of_nat (length (filter (\<lambda>e. is_call e \<and> event_key e \<noteq> k) (origin_log g runs (ps1 @ ps2) s)))"
proof -
  let ?L1 = "log_of k (origin_log g runs ps1 s)" and ?log = "origin_log g runs (ps1 @ ps2) s"
  have none: "early k [] (h_threads s)" using assms(4) by (simp add: early_def)
  have "early k ([] @ ?L1) (h_threads s1)"
    by (rule herd_run_keeps [where P = "early k", OF _ assms(5) none]) (rule early_step [OF _ assms(2,1)])
  moreover have ex: "\<exists>pc\<in>set (h_threads s1). pc_key pc = k"
  proof -
    have "k \<in> set (map pc_key (h_threads s1))" unfolding herd_run_keys [OF assms(5)] using assms(3) by auto
    then show ?thesis by auto
  qed
  moreover have "\<not> someone_has k (h_threads s1)"
  proof
    assume "someone_has k (h_threads s1)"
    then obtain t where t: "t < length (h_threads s1)" "pc_key (h_threads s1 ! t) = k" "returned (h_threads s1 ! t) \<noteq> None"
      by (auto simp: someone_has_def)
    with assms(6) have "h_threads s1 ! t = Waiting k \<or> in_flight k (h_threads s1 ! t)" by simp
    with returned_outside [OF t(3), of k] show False by blast
  qed
  moreover have "\<not> (\<forall>pc\<in>set (h_threads s1). pc_key pc = k \<longrightarrow> pc = AtOrigin k)"
  proof -
    from ex obtain pc where pc: "pc \<in> set (h_threads s1)" "pc_key pc = k" by blast
    with assms(6) have "pc \<noteq> AtOrigin k" by (intro in_do) blast
    with pc show ?thesis by blast
  qed
  ultimately have "flying k {AtOrigin k, Waiting k} ?L1 (h_threads s1)" by (auto simp: early_def)
  then have late: "flying k {Waiting k} ?L1 (h_threads s1) \<or> all_have k ?L1 (h_threads s1)"
    by (intro disjI1 flying_no_late) (use assms(6) in_do in blast)+
  have "flying k {Waiting k} (?L1 @ log_of k (origin_log g runs ps2 s1)) (h_threads s2) \<or>
      all_have k (?L1 @ log_of k (origin_log g runs ps2 s1)) (h_threads s2)"
    by (rule herd_run_keeps [where P = "\<lambda>L ths. flying k {Waiting k} L ths \<or> all_have k L ths", OF _ assms(7) late])
      (rule late_step [OF _ assms(2,1)])
  then have final: "flying k {Waiting k} (log_of k ?log) (h_threads s2) \<or> all_have k (log_of k ?log) (h_threads s2)"
    by (simp add: origin_log_append [OF assms(5)])
  have "length (filter is_call (log_of k ?log)) = 1" by (rule one_call_logged [OF final])
  moreover have "herd_run g runs (ps1 @ ps2) s = Some s2" using assms(5,7) by (rule herd_run_seq)
  ultimately have "OriginCalls (m_metrics (h_mgr s2)) = OriginCalls (m_metrics (h_mgr s)) + 1 +
      of_nat (length (filter (\<lambda>e. is_call e \<and> event_key e \<noteq> k) ?log))"
    using origin_log_calls [of g runs "ps1 @ ps2" s s2] calls_split [of ?log k] by (simp del: filter_filter)
  with late_result [OF final] show ?thesis by blast
qed

text \<open>C20: The sequential \<open>Get\<close> of \<open>Manager\<close> is what a goroutine does when it is not interrupted: from every state in
  which no other goroutine is at the key's call, it can make its steps one after the other, and then the
  manager and the answer are those of \<open>Manager_Get\<close>, and the other goroutines are where they were.\<close>

theorem uninterrupted_get:
  assumes "single_flight runs" and "t < length (h_threads s)" and "h_threads s ! t = AtL1 k"
    and "flights k (h_threads s) = 0" and "Waiting k \<notin> set (h_threads s)"
    and "Manager_Get g clk (Runs False) orig k (h_mgr s) = (res, m')"
  shows "\<exists>ops. (\<forall>p\<in>set ops. \<exists>now ans. p = Moves t now ans (t_end clk - t_start clk)) \<and>
    herd_run g runs ops s = Some (go t (Done k res) m' s)"
proof -
  let ?d = "t_end clk - t_start clk"
  obtain hit1 c1 met1 where l1: "L1_Get (t_l1 clk) k (m_l1 (h_mgr s), m_metrics (h_mgr s)) = (hit1, c1, met1)"
    by (rule prod_cases3)
  let ?m1 = "(h_mgr s)\<lparr>m_l1 := c1, m_metrics := met1\<rparr>"
  obtain hit2 r2 met2 where l2: "L2_Get (g_l2 g) k (m_redis ?m1, m_metrics ?m1) = (hit2, r2, met2)"
    by (rule prod_cases3)
  let ?m2 = "?m1\<lparr>m_redis := r2, m_metrics := met2\<rparr>" and ?s2 = "go t (AtOrigin k) (?m1\<lparr>m_redis := r2, m_metrics := met2\<rparr>) s"
  let ?look = "Moves t (t_l1 clk) FetchPanic ?d" and ?fill = "Moves t (t_set clk) FetchPanic ?d"
  note step = herd_step_def get_step_def Let_def
  consider (hit1) v where "hit1 = Some v" | (hit2) v where "hit1 = None" "hit2 = Some v" | (miss) "hit1 = None" "hit2 = None"
    by (cases hit1; cases hit2) auto
  then show ?thesis
  proof cases
    case (hit1 v)
    with assms(2,3,6) l1 show ?thesis
      by (intro exI [of _ "[?look, ?fill]"]) (auto simp: step Manager_Get_def)
  next
    case (hit2 v)
    with assms(2,3,6) l1 l2 show ?thesis
      by (intro exI [of _ "[?look, ?look, ?fill, ?fill]"]) (auto simp: step Manager_Get_def)
  next
    case miss
    have sets: "set (h_threads ?s2) \<subseteq> insert (AtOrigin k) (set (h_threads s))"
      by (simp add: set_update_subset_insert)
    obtain r m3 where f: "fetchFromOrigin (g_useSF g) (Runs False) orig (t_set clk) k ?m2 = (r, m3)" by (rule prod.exhaust)
    have "herd_run g runs (fetch_ops t clk (orig k) (g_useSF g)) ?s2 =
        Some (go t (Done k r) (count (RecordLatency ?d) m3) ?s2)"
      by (rule fetch_alone [OF assms(1)]) (use assms(2-5) f sets in \<open>auto simp: flights_update\<close>)
    moreover have "herd_run g runs [?look, ?look] s = Some ?s2"
      using assms(2,3) l1 l2 miss by (simp add: step)
    moreover have "res = r" "m' = count (RecordLatency ?d) m3"
      using assms(6) l1 l2 miss f by (simp_all add: Manager_Get_def)
    moreover have "\<forall>p\<in>set (fetch_ops t clk (orig k) (g_useSF g)). \<exists>now ans. p = Moves t now ans ?d"
      by (auto simp: fetch_ops_def Let_def split: fetch_result.splits if_splits)
    ultimately show ?thesis
      by (intro exI [of _ "[?look, ?look] @ fetch_ops t clk (orig k) (g_useSF g)"]) (simp only: herd_run_append, auto)
  qed
qed

text \<open>C22: A \<open>Get\<close> that calls \<open>Do\<close> after another's call has landed asks the origin again.  Two \<open>Get\<close>s of a key have
  both missed L1 and Redis and are about to call \<open>Do\<close>; the first makes all its steps, up to its return;
  then the second makes its own.  When the second begins, L1 holds the value the first has put there, not
  expired, and still the second's steps are those of a fetch: it calls the origin again and answers the new
  value, and no call is counted as coalesced.  Neither \<open>fetchFromOrigin\<close> nor the function it runs looks
  into L1 once more.\<close>

theorem late_get_calls_again:
  assumes "single_flight runs" and "h_threads s = [AtOrigin k, AtOrigin k]" and "l1_inv (m_l1 (h_mgr s))"
    and "t_set clk2 \<le> t_set clk1 + c_ttl (m_l1 (h_mgr s))"
  shows "\<exists>s1 s2. herd_run g runs (fetch_ops 0 clk1 (Fetched v1) (g_useSF g)) s = Some s1 \<and>
    h_threads s1 = [Done k (Fetched v1), AtOrigin k] \<and> l1_live (t_set clk2) (m_l1 (h_mgr s1)) k = Some v1 \<and>
    OriginCalls (m_metrics (h_mgr s1)) = OriginCalls (m_metrics (h_mgr s)) + 1 \<and>
    herd_run g runs (fetch_ops 1 clk2 (Fetched v2) (g_useSF g)) s1 = Some s2 \<and>
    h_threads s2 = [Done k (Fetched v1), Done k (Fetched v2)] \<and>
    OriginCalls (m_metrics (h_mgr s2)) = OriginCalls (m_metrics (h_mgr s)) + 2 \<and>
    CoalescedCalls (m_metrics (h_mgr s2)) = CoalescedCalls (m_metrics (h_mgr s))"
proof -
  let ?set = "\<lambda>clk v (m :: 'a manager). m\<lparr>m_pending := m_pending m @ [(k, v)], m_l1 := L1_Set (t_set clk) k v (m_l1 m)\<rparr>"
  have fetch: "fetchFromOrigin (g_useSF g) (Runs False) (\<lambda>_. Fetched v) (t_set clk) k m = (Fetched v, ?set clk v (count inc_OriginCalls m))" for clk v m
    by (simp add: fetchFromOrigin_def doOriginFetch_def Let_def)
  let ?go = "\<lambda>t clk v (s :: 'a herd). go t (Done k (Fetched v)) (count (RecordLatency (t_end clk - t_start clk)) (?set clk v (count inc_OriginCalls (h_mgr s)))) s"
  let ?s1 = "?go 0 clk1 v1 s"
  have one: "herd_run g runs (fetch_ops 0 clk1 (Fetched v1) (g_useSF g)) s = Some ?s1"
    using fetch_alone [OF assms(1) _ _ _ _ fetch, of 0 s] assms(2) by (simp add: flights_def)
  have two: "herd_run g runs (fetch_ops 1 clk2 (Fetched v2) (g_useSF g)) ?s1 = Some (?go 1 clk2 v2 ?s1)"
    using fetch_alone [OF assms(1) _ _ _ _ fetch, of 1 ?s1] assms(2) by (simp add: flights_def)
  let ?s2 = "?go 1 clk2 v2 ?s1"
  have "l1_live (t_set clk2) (m_l1 (h_mgr ?s1)) k = Some v1"
    using assms(3,4) by (simp add: l1_live_def L1_Set_entries_same)
  moreover have "h_threads ?s1 = [Done k (Fetched v1), AtOrigin k]" "h_threads ?s2 = [Done k (Fetched v1), Done k (Fetched v2)]"
    by (simp_all add: assms(2))
  moreover have "OriginCalls (m_metrics (h_mgr ?s1)) = OriginCalls (m_metrics (h_mgr s)) + 1"
    "OriginCalls (m_metrics (h_mgr ?s2)) = OriginCalls (m_metrics (h_mgr s)) + 2"
    "CoalescedCalls (m_metrics (h_mgr ?s2)) = CoalescedCalls (m_metrics (h_mgr s))"
    by (simp_all add: inc_defs RecordLatency_def)
  ultimately show ?thesis using one two by blast
qed

text \<open>As long as the entry has not expired, \<open>Get\<close>s of its key leave L1 as it is.\<close>

lemma l1_hits_stay:
  assumes "l1_inv (m_l1 m)" and "l1_entries (m_l1 m) k = Some e"
  shows "\<forall>(clk, fl, orig)\<in>set gets. t_l1 clk \<le> e_expiresAt e \<Longrightarrow>
    m_l1 (manager_run g (map (\<lambda>(clk, fl, orig). DoGet clk fl orig k) gets) m) = m_l1 m"
  using assms
proof (induction gets arbitrary: m)
  case (Cons q gets)
  obtain clk fl orig where q: "q = (clk, fl, orig)" by (rule prod_cases3)
  let ?m = "snd (Manager_Get g clk fl orig k m)"
  have "l1_live (t_l1 clk) (m_l1 m) k = Some (e_value e)" using Cons.prems q by (simp add: l1_live_def)
  then have "m_l1 ?m = m_l1 m" using Cons.prems(2) by (simp add: Get_L1_hit)
  with Cons.IH [of ?m] Cons.prems q show ?case by (simp add: manager_run_def)
qed (simp add: manager_run_def)

text \<open>C8: A \<open>Set\<close> can be overwritten by a \<open>Get\<close> that began before it.  The \<open>Get\<close> has the old value from the origin and
  is about to fill L1; the \<open>Set\<close> of a new value succeeds on both layers; then the \<open>Get\<close> fills L1 and its
  background write reaches Redis.  Redis holds the old value again, and so does L1: however many \<open>Get\<close>s of the
  key follow, as long as none is later than the TTL of L1 after the \<open>Get\<close>'s fill, the next one answers the old
  value.\<close>

theorem set_overwritten:
  assumes "l1_inv (m_l1 (h_mgr s))" and "redis_laws (l2_client (g_l2 g))"
    and "t < length (h_threads s)" and "h_threads s ! t = Filling k old"
    and "i < length (m_pending (h_mgr s))" and "m_pending (h_mgr s) ! i = (k, old)"
    and "Manager_Set g now k new (h_mgr s) = (None, m1)" and "L2_Set (g_l2 g) k old (m_redis m1) = (None, r2)"
    and "\<forall>(clk', fl', orig')\<in>set gets. t_l1 clk' \<le> now2 + c_ttl (m_l1 (h_mgr s))"
    and "t_l1 clk \<le> now2 + c_ttl (m_l1 (h_mgr s))"
  shows "\<exists>s'. herd_run g runs [Sets now k new, Moves t now2 ans d, Writes i] s = Some s' \<and>
    l1_entries (m_l1 m1) k = Some \<lparr>e_value = new, e_expiresAt = now + c_ttl (m_l1 (h_mgr s))\<rparr> \<and>
    fst (rd_get (l2_client (g_l2 g)) k (m_redis m1)) = Inr new \<and>
    fst (rd_get (l2_client (g_l2 g)) k (m_redis (h_mgr s'))) = Inr old \<and>
    fst (Manager_Get g clk fl orig k
      (manager_run g (map (\<lambda>(clk', fl', orig'). DoGet clk' fl' orig' k) gets) (h_mgr s'))) = Fetched old"
proof -
  let ?rc = "l2_client (g_l2 g)"
  have m1: "m_l1 m1 = L1_Set now k new (m_l1 (h_mgr s))" "m_pending m1 = m_pending (h_mgr s)"
      "rd_set ?rc k new (l2_ttl (g_l2 g)) (m_redis (h_mgr s)) = (None, m_redis m1)"
    using assms(7) by (auto simp: Manager_Set_def Let_def split_beta L2_Set_def prod_eq_iff)
  let ?m2 = "m1\<lparr>m_l1 := L1_Set now2 k old (m_l1 m1)\<rparr>"
  let ?m3 = "background_set g i ?m2"
  have m3: "m_l1 ?m3 = L1_Set now2 k old (m_l1 m1)" "m_redis ?m3 = r2"
    using assms(5,6,8) by (simp_all add: background_set_def m1(2))
  have run: "herd_run g runs [Sets now k new, Moves t now2 ans d, Writes i] s =
      Some ((go t (Landed k (Fetched old)) ?m2 (s\<lparr>h_mgr := m1\<rparr>))\<lparr>h_mgr := ?m3\<rparr>)"
    using assms(3,4,7) by (simp add: herd_step_def get_step_def Let_def)
  have inv: "l1_inv (m_l1 m1)" using assms(1) by (simp add: m1 L1_Set_inv)
  have new: "l1_entries (m_l1 m1) k = Some \<lparr>e_value = new, e_expiresAt = now + c_ttl (m_l1 (h_mgr s))\<rparr>"
    using assms(1) by (simp add: m1 L1_Set_entries_same)
  have redis: "fst (rd_get ?rc k (m_redis m1)) = Inr new" using assms(2) m1(3) by (auto simp: redis_laws_def)
  have stale: "fst (rd_get ?rc k r2) = Inr old" using assms(2,8) by (auto simp: redis_laws_def L2_Set_def)
  have inv3: "l1_inv (m_l1 ?m3)" using inv by (simp add: m3 L1_Set_inv)
  have entry: "l1_entries (m_l1 ?m3) k = Some \<lparr>e_value = old, e_expiresAt = now2 + c_ttl (m_l1 (h_mgr s))\<rparr>"
    unfolding m3(1) using inv by (simp add: m1(1) L1_Set_entries_same)
  let ?m4 = "manager_run g (map (\<lambda>(clk', fl', orig'). DoGet clk' fl' orig' k) gets) ?m3"
  have stay: "m_l1 ?m4 = m_l1 ?m3" using l1_hits_stay [OF inv3 entry, of gets g] assms(9) by simp
  have "l1_inv (m_l1 ?m4)" "l1_live (t_l1 clk) (m_l1 ?m4) k = Some old"
    unfolding stay l1_live_def entry using inv3 assms(10) by simp_all
  then have "fst (Manager_Get g clk fl orig k ?m4) = Fetched old" by (simp add: Get_L1_hit)
  then show ?thesis by (simp add: run new redis stale m3(2) del: herd_run.simps)
qed

section \<open>Witnesses\<close>

definition free_flight :: flight_rule where
  "free_flight ths k \<longleftrightarrow> \<not> list_ex (in_flight k) ths"

lemma free_flight: "single_flight free_flight"
  by (simp add: single_flight_def free_flight_def)

definition sf_config :: "(string \<Rightarrow> bytes option) manager_config" where
  "sf_config = demo_config\<lparr>g_useSF := True\<rparr>"

abbreviation demo_ops :: "herd_op list" where
  "demo_ops \<equiv> map (\<lambda>t. Moves t 5 FetchPanic 0) [0, 1, 1, 0, 1, 0]"

lemma demo_herd:
  "map_option h_threads (herd_run sf_config free_flight demo_ops (herd_init demo_manager [''k'', ''k''])) =
   Some [Waiting ''k'', Calling ''k'']"
  by code_simp

theorem one_call_in_flight_witness:
  "\<exists>s. herd_run sf_config free_flight demo_ops (herd_init demo_manager [''k'', ''k'']) = Some s \<and>
    Waiting ''k'' \<in> set (h_threads s) \<and> flights ''k'' (h_threads s) = 1"
proof -
  from demo_herd obtain s where s: "herd_run sf_config free_flight demo_ops (herd_init demo_manager [''k'', ''k'']) = Some s"
    "h_threads s = [Waiting ''k'', Calling ''k'']" by (auto simp del: herd_run.simps)
  have "g_useSF sf_config" by (simp add: sf_config_def)
  from one_call_in_flight [OF free_flight this s(1), of "''k''"] s show ?thesis by (intro exI [of _ s]) simp
qed

theorem gets_finish_witness:
  "\<exists>s. herd_run sf_config free_flight demo_ops (herd_init demo_manager [''k'', ''k'']) = Some s \<and>
    length (filter is_move demo_ops) \<le> 8 * length [''k'', ''k''] \<and>
    \<not> (\<forall>t. get_step sf_config free_flight 0 FetchPanic 0 t s = None)"
proof -
  from demo_herd obtain s where s: "herd_run sf_config free_flight demo_ops (herd_init demo_manager [''k'', ''k'']) = Some s"
    "h_threads s = [Waiting ''k'', Calling ''k'']" by (auto simp del: herd_run.simps)
  from gets_finish [OF free_flight s(1), of 0 FetchPanic 0] s show ?thesis by (intro exI [of _ s]) auto
qed

text \<open>Three goroutines for one key and one for another; the third arrives when the origin has answered, after a \<open>Set\<close>
  of the key.\<close>

abbreviation demo_herd3 :: "(string \<Rightarrow> bytes option) herd" where
  "demo_herd3 \<equiv> \<lparr>h_mgr = demo_manager, h_threads = [AtOrigin ''k'', AtOrigin ''k'', AtL1 ''a'', AtOrigin ''k'']\<rparr>"

abbreviation demo_ops1 :: "herd_op list" where
  "demo_ops1 \<equiv> [Moves 1 5 FetchPanic 0, Moves 0 5 FetchPanic 0, Moves 1 6 (Fetched ''v'') 0, Sets 6 ''k'' ''w'', Moves 3 7 FetchPanic 0]"

abbreviation demo_ops2 :: "herd_op list" where
  "demo_ops2 \<equiv> [Moves 1 7 FetchPanic 0, Moves 2 7 FetchPanic 0, Invalidates ''k'', Moves 1 7 FetchPanic 0, Moves 0 8 FetchPanic 0,
     Moves 2 8 FetchPanic 0, Moves 2 8 FetchPanic 0, Moves 3 9 FetchPanic 0]"

lemma demo_herd3:
  "map_option h_threads (herd_run sf_config free_flight demo_ops1 demo_herd3) =
   Some [Waiting ''k'', Filling ''k'' ''v'', AtL1 ''a'', Waiting ''k'']"
  "map_option h_threads (herd_run sf_config free_flight (demo_ops1 @ demo_ops2) demo_herd3) =
   Some [Answered ''k'' (Fetched ''v''), Delivered ''k'' (Fetched ''v'') True, Calling ''a'', Answered ''k'' (Fetched ''v'')]"
  "origin_log sf_config free_flight (demo_ops1 @ demo_ops2) demo_herd3 = [Called ''k'', Replied ''k'' (Fetched ''v''), Called ''a'']"
  by code_simp+

theorem herd_one_call_witness:
  "\<exists>s2. herd_run sf_config free_flight (demo_ops1 @ demo_ops2) demo_herd3 = Some s2 \<and>
    h_threads s2 = [Answered ''k'' (Fetched ''v''), Delivered ''k'' (Fetched ''v'') True, Calling ''a'', Answered ''k'' (Fetched ''v'')] \<and>
    OriginCalls (m_metrics (h_mgr s2)) = 2"
proof -
  have sf: "g_useSF sf_config" by (simp add: sf_config_def)
  obtain s1 where s1: "herd_run sf_config free_flight demo_ops1 demo_herd3 = Some s1"
    "h_threads s1 = [Waiting ''k'', Filling ''k'' ''v'', AtL1 ''a'', Waiting ''k'']"
    using demo_herd3(1) by (auto simp del: herd_run.simps)
  obtain s2 where s2: "herd_run sf_config free_flight (demo_ops1 @ demo_ops2) demo_herd3 = Some s2"
    "h_threads s2 = [Answered ''k'' (Fetched ''v''), Delivered ''k'' (Fetched ''v'') True, Calling ''a'', Answered ''k'' (Fetched ''v'')]"
    using demo_herd3(2) by (auto simp del: herd_run.simps)
  have "herd_run sf_config free_flight demo_ops2 s1 = Some s2"
    using s2(1) s1(1) by (simp only: herd_run_append option.case)
  moreover have "\<exists>pc\<in>set (h_threads demo_herd3). pc_key pc = ''k''" "\<forall>pc\<in>set (h_threads demo_herd3). pc_key pc = ''k'' \<longrightarrow> pc = AtOrigin ''k''"
    "\<forall>pc\<in>set (h_threads s1). pc_key pc = ''k'' \<longrightarrow> pc = Waiting ''k'' \<or> in_flight ''k'' pc"
    by (simp_all add: s1(2))
  ultimately have "OriginCalls (m_metrics (h_mgr s2)) = OriginCalls (m_metrics (h_mgr demo_herd3)) + 1 +
      of_nat (length (filter (\<lambda>e. is_call e \<and> event_key e \<noteq> ''k'') (origin_log sf_config free_flight (demo_ops1 @ demo_ops2) demo_herd3)))"
    using herd_one_call [OF free_flight sf _ _ s1(1), of "''k''" demo_ops2 s2] by blast
  then have "OriginCalls (m_metrics (h_mgr s2)) = OriginCalls (m_metrics demo_manager) + 1 + 1"
    unfolding demo_herd3(3) by simp
  also have "OriginCalls (m_metrics demo_manager) = 0" by (simp add: demo_manager_def NewManager_def metrics_zero_def)
  finally have "OriginCalls (m_metrics (h_mgr s2)) = 2" by simp
  with s2 show ?thesis by blast
qed

theorem uninterrupted_get_witness:
  "\<exists>ops s'. herd_run demo_config free_flight ops (herd_init demo_manager [''a'', ''k'']) = Some s' \<and>
    h_threads s' = [AtL1 ''a'', Done ''k'' (Fetched ''v'')]"
proof -
  obtain res m' where get: "Manager_Get demo_config (at_time 5) (Runs False) (\<lambda>_. Fetched ''v'') ''k'' demo_manager = (res, m')"
    by (rule prod.exhaust)
  then have "res = Fetched ''v''"
    using Get_origin [OF demo_inv demo_live, of demo_config "''k''" RedisNil Map.empty "at_time 5" "Runs False" "\<lambda>_. Fetched ''v''"]
    by (simp add: demo_redis split_beta fetchFromOrigin_fst origin_result_def split: if_splits)
  with get uninterrupted_get [OF free_flight, of 1 "herd_init demo_manager [''a'', ''k'']" "''k''" demo_config "at_time 5" "\<lambda>_. Fetched ''v''" res m']
  obtain ops where "herd_run demo_config free_flight ops (herd_init demo_manager [''a'', ''k'']) =
      Some (go 1 (Done ''k'' (Fetched ''v'')) m' (herd_init demo_manager [''a'', ''k'']))"
    by (auto simp: herd_init_def flights_def simp del: herd_run.simps)
  then show ?thesis
    by (intro exI [of _ ops] exI [of _ "go 1 (Done ''k'' (Fetched ''v'')) m' (herd_init demo_manager [''a'', ''k''])"])
      (simp add: herd_init_def)
qed

theorem late_get_calls_again_witness:
  "\<exists>s1 s2. herd_run sf_config free_flight (fetch_ops 0 (at_time 5) (Fetched ''1'') True)
      \<lparr>h_mgr = demo_manager, h_threads = [AtOrigin ''k'', AtOrigin ''k'']\<rparr> = Some s1 \<and>
    herd_run sf_config free_flight (fetch_ops 1 (at_time 7) (Fetched ''2'') True) s1 = Some s2 \<and>
    l1_live 7 (m_l1 (h_mgr s1)) ''k'' = Some ''1'' \<and> h_threads s2 = [Done ''k'' (Fetched ''1''), Done ''k'' (Fetched ''2'')]"
proof -
  have sf: "g_useSF sf_config = True" by (simp add: sf_config_def)
  have at: "t_set (at_time 7) = 7" "t_set (at_time 7) \<le> t_set (at_time 5) + c_ttl (m_l1 demo_manager)"
    by (simp_all add: demo_ttl)
  from late_get_calls_again [OF free_flight, of "\<lparr>h_mgr = demo_manager, h_threads = [AtOrigin ''k'', AtOrigin ''k'']\<rparr>" "''k''"
      "at_time 7" "at_time 5" sf_config "''1''" "''2''"]
  show ?thesis unfolding sf at(1) using at(2) demo_inv by (auto simp del: herd_run.simps)
qed

theorem set_overwritten_witness:
  "\<exists>ops s'. herd_run sf_config free_flight ops (herd_init demo_manager [''k'']) = Some s' \<and>
    Sets 7 ''k'' ''new'' \<in> set ops \<and>
    fst (Manager_Get sf_config (at_time 18) (Runs False) (\<lambda>k. Fetched ''new'') ''k''
      (manager_run sf_config [DoGet (at_time 12) (Runs False) (\<lambda>k. Fetched ''new'') ''k''] (h_mgr s'))) = Fetched ''old''"
proof -
  let ?ops = "[Moves 0 5 FetchPanic 0, Moves 0 5 FetchPanic 0, Moves 0 5 FetchPanic 0, Moves 0 6 (Fetched ''old'') 0]"
  have "map_option (\<lambda>s. (h_threads s, m_pending (h_mgr s), c_ttl (m_l1 (h_mgr s))))
      (herd_run sf_config free_flight ?ops (herd_init demo_manager [''k''])) =
      Some ([Filling ''k'' ''old''], [(''k'', ''old'')], 10)" by code_simp
  then obtain s where s: "herd_run sf_config free_flight ?ops (herd_init demo_manager [''k'']) = Some s"
    "h_threads s = [Filling ''k'' ''old'']" "m_pending (h_mgr s) = [(''k'', ''old'')]"
    "c_ttl (m_l1 (h_mgr s)) = 10" by (auto simp del: herd_run.simps)
  have inv: "l1_inv (m_l1 (h_mgr s))" by (rule herd_run_l1_inv [OF s(1)]) (simp add: herd_init_def demo_inv)
  have laws: "redis_laws (l2_client (g_l2 sf_config))" using demo_laws by (simp add: sf_config_def)
  obtain m1 where m1: "Manager_Set sf_config 7 ''k'' ''new'' (h_mgr s) = (None, m1)"
    by (simp add: Manager_Set_def L2_Set_def sf_config_def demo_config_def map_redis_def Let_def)
  obtain r2 where r2: "L2_Set (g_l2 sf_config) ''k'' ''old'' (m_redis m1) = (None, r2)"
    by (simp add: L2_Set_def sf_config_def demo_config_def map_redis_def)
  from set_overwritten [OF inv laws _ _ _ _ m1 r2, of 0 0 "[(at_time 12, Runs False, \<lambda>k. Fetched ''new'')]" 8 "at_time 18" free_flight
      FetchPanic 0 "Runs False" "\<lambda>k. Fetched ''new''"] s
  obtain s' where "herd_run sf_config free_flight [Sets 7 ''k'' ''new'', Moves 0 8 FetchPanic 0, Writes 0] s = Some s'"
    "fst (Manager_Get sf_config (at_time 18) (Runs False) (\<lambda>k. Fetched ''new'') ''k''
      (manager_run sf_config [DoGet (at_time 12) (Runs False) (\<lambda>k. Fetched ''new'') ''k''] (h_mgr s'))) = Fetched ''old''"
    by (auto simp del: herd_run.simps)
  with herd_run_seq [OF s(1) this(1)] show ?thesis by (intro exI [of _ "?ops @ [Sets 7 ''k'' ''new'', Moves 0 8 FetchPanic 0, Writes 0]"]) auto
qed

end
