(* ===== verification/Asset_Cache.thy ===== *)
theory Asset_Cache
  imports Cache_Interface "HOL-Library.Multiset"

begin

text \<open>
  The in-memory cache of binary assets, \<open>cachedAsset\<close> and \<open>assetCache\<close> of
  \<open>internal/binaryhandler/handler.go\<close>.  A \<open>set\<close> evicts the oldest assets until the new one fits.
  The scan for the oldest ranges over a Go map, so the order of each round \<open>i\<close> is an argument
  \<open>ord i\<close>; the lemmas hold for every order that visits exactly the entries (\<open>range_order\<close>).  The
  eviction loop need not end when the empty key is cached, since the scan uses the empty string for
  ``none yet''; \<open>evict_loop\<close> is a partial function whose result is \<open>None\<close> when the loop does not end,
  and it is shown to end for the keys the handlers let through.
\<close>

section \<open>State and operations\<close>

record cached_asset =
  a_data :: bytes
  a_contentType :: string
  a_size :: int
  a_cachedAt :: time

record asset_cache =
  ac_items :: "(string, cached_asset) gomap"
  ac_maxBytes :: int
  ac_curBytes :: int
  ac_hits :: "64 word"
  ac_misses :: "64 word"

type_synonym asset_order = "(string \<times> cached_asset) list \<Rightarrow> (string \<times> cached_asset) list"

definition newAssetCache :: "int \<Rightarrow> asset_cache" where
  "newAssetCache maxBytes =
     \<lparr>ac_items = [], ac_maxBytes = maxBytes, ac_curBytes = 0, ac_hits = 0, ac_misses = 0\<rparr>"

definition asset_get :: "string \<Rightarrow> asset_cache \<Rightarrow> cached_asset option \<times> asset_cache" where
  "asset_get key c =
     (case map_of (ac_items c) key of
        Some item \<Rightarrow> (Some item, c\<lparr>ac_hits := ac_hits c + 1\<rparr>)
      | None \<Rightarrow> (None, c\<lparr>ac_misses := ac_misses c + 1\<rparr>))"

abbreviation data_size :: "cached_asset \<Rightarrow> int" where
  "data_size a \<equiv> int (length (a_data a))"

text \<open>The inner loop of \<open>set\<close>: \<open>oldestKey\<close> and \<open>oldestTime\<close> over the entries in the order visited.
  The initial time is never compared.\<close>

fun scan_step :: "string \<times> cached_asset \<Rightarrow> string \<times> time \<Rightarrow> string \<times> time" where
  "scan_step (k, v) (oldestKey, oldestTime) =
     (if oldestKey = '''' \<or> a_cachedAt v < oldestTime then (k, a_cachedAt v) else (oldestKey, oldestTime))"

definition scan_oldest :: "(string \<times> cached_asset) list \<Rightarrow> string \<times> time" where
  "scan_oldest kvs = fold scan_step kvs ('''', 0)"

text \<open>One round of the eviction loop.  The oldest key is always one of the map
  (\<open>scan_oldest_in\<close>), so the lookup cannot fail.\<close>

definition evict_oldest :: "asset_order \<Rightarrow> asset_cache \<Rightarrow> asset_cache" where
  "evict_oldest ord c =
     (let oldestKey = fst (scan_oldest (ord (ac_items c)))
      in if oldestKey \<noteq> ''''
         then (case map_of (ac_items c) oldestKey of
                 Some old \<Rightarrow> c\<lparr>ac_curBytes := ac_curBytes c - data_size old,
                              ac_items := m_del oldestKey (ac_items c)\<rparr>
               | None \<Rightarrow> c)
         else c)"

partial_function (option) evict_loop ::
    "(nat \<Rightarrow> asset_order) \<Rightarrow> nat \<Rightarrow> int \<Rightarrow> asset_cache \<Rightarrow> asset_cache option" where
  "evict_loop ord i newSize c =
     (if ac_maxBytes c < ac_curBytes c + newSize \<and> 0 < length (ac_items c)
      then evict_loop ord (Suc i) newSize (evict_oldest (ord i) c)
      else Some c)"

definition asset_set :: "(nat \<Rightarrow> asset_order) \<Rightarrow> string \<Rightarrow> cached_asset \<Rightarrow> asset_cache \<Rightarrow> asset_cache option" where
  "asset_set ord key asset c =
     (let c1 = (case map_of (ac_items c) key of
                  Some old \<Rightarrow> c\<lparr>ac_curBytes := ac_curBytes c - data_size old\<rparr>
                | None \<Rightarrow> c);
          newSize = data_size asset
      in case evict_loop ord 0 newSize c1 of
           None \<Rightarrow> None
         | Some c2 \<Rightarrow> Some (c2\<lparr>ac_items := m_put key asset (ac_items c2),
                             ac_curBytes := ac_curBytes c2 + newSize\<rparr>))"

definition asset_remove :: "string \<Rightarrow> asset_cache \<Rightarrow> asset_cache" where
  "asset_remove key c =
     (case map_of (ac_items c) key of
        Some item \<Rightarrow> c\<lparr>ac_curBytes := ac_curBytes c - data_size item, ac_items := m_del key (ac_items c)\<rparr>
      | None \<Rightarrow> c)"

section \<open>The scan for the oldest\<close>

definition range_order :: "(nat \<Rightarrow> asset_order) \<Rightarrow> bool" where
  "range_order ord \<longleftrightarrow> (\<forall>i m. mset (ord i m) = mset m)"

lemma range_order_set: "range_order ord \<Longrightarrow> set (ord i m) = set m"
  unfolding range_order_def by (metis set_mset_mset)

definition asset_inv :: "asset_cache \<Rightarrow> bool" where
  "asset_inv c \<longleftrightarrow> wf_map (ac_items c) \<and> '''' \<notin> set (m_keys (ac_items c))"

lemma scan_fold:
  assumes "'''' \<notin> fst ` set kvs" and "k \<noteq> ''''"
  shows "fst (fold scan_step kvs (k, t)) \<noteq> ''''" (is ?key)
    and "snd (fold scan_step kvs (k, t)) \<le> t \<and>
      (\<forall>v \<in> snd ` set kvs. snd (fold scan_step kvs (k, t)) \<le> a_cachedAt v)" (is ?min)
    and "fold scan_step kvs (k, t) = (k, t) \<or>
      (\<exists>v. (fst (fold scan_step kvs (k, t)), v) \<in> set kvs \<and>
        snd (fold scan_step kvs (k, t)) = a_cachedAt v)" (is ?mem)
proof -
  have "?key \<and> ?min \<and> ?mem"
    using assms
  proof (induction kvs arbitrary: k t)
    case (Cons p kvs)
    obtain k' v where p: "p = (k', v)" by (cases p)
    show ?case
    proof (cases "a_cachedAt v < t")
      case True
      with Cons.prems p Cons.IH [of k' "a_cachedAt v"] show ?thesis by fastforce
    next
      case False
      with Cons.prems p Cons.IH [of k t] show ?thesis by fastforce
    qed
  qed simp
  then show ?key ?min ?mem by simp_all
qed

text \<open>In a non-empty map without the empty key, the scan finds an entry that is not younger than any.\<close>

lemma scan_oldest_in:
  assumes "kvs \<noteq> []" and "'''' \<notin> fst ` set kvs"
  obtains k v where "(k, v) \<in> set kvs" "scan_oldest kvs = (k, a_cachedAt v)" "k \<noteq> ''''"
    "\<And>v'. v' \<in> snd ` set kvs \<Longrightarrow> a_cachedAt v \<le> a_cachedAt v'"
proof -
  obtain k v rest where kvs: "kvs = (k, v) # rest" using assms(1) by (cases kvs) auto
  with assms(2) have k: "k \<noteq> ''''" and rest: "'''' \<notin> fst ` set rest" by auto
  let ?r = "scan_oldest kvs"
  have r: "?r = fold scan_step rest (k, a_cachedAt v)" by (simp add: scan_oldest_def kvs)
  note F = scan_fold [OF rest k, of "a_cachedAt v", folded r]
  have min: "a_cachedAt v' \<ge> snd ?r" if "v' \<in> snd ` set kvs" for v'
    using that F(2) by (auto simp: kvs)
  obtain v' where "(fst ?r, v') \<in> set kvs" "snd ?r = a_cachedAt v'"
  proof (cases "?r = (k, a_cachedAt v)")
    case True
    then show thesis using that [of v] by (simp add: kvs)
  next
    case False
    then show thesis using that F(3) by (auto simp: kvs)
  qed
  then show thesis using that [of "fst ?r" v'] min F(1) by (metis prod.collapse)
qed

section \<open>The eviction loop\<close>

abbreviation asset_bytes :: "asset_cache \<Rightarrow> int" where
  "asset_bytes c \<equiv> m_sum data_size (ac_items c)"

lemma evict_oldest_spec:
  assumes "asset_inv c" and "ac_items c \<noteq> []" and "set (ord (ac_items c)) = set (ac_items c)"
  obtains k v where "map_of (ac_items c) k = Some v" "k \<noteq> ''''"
    "evict_oldest ord c = c\<lparr>ac_curBytes := ac_curBytes c - data_size v, ac_items := m_del k (ac_items c)\<rparr>"
    "\<And>k' v'. map_of (ac_items c) k' = Some v' \<Longrightarrow> a_cachedAt v \<le> a_cachedAt v'"
proof -
  let ?o = "ord (ac_items c)"
  have ne: "?o \<noteq> []" using assms(2,3) by auto
  have keys: "'''' \<notin> fst ` set ?o" using assms(1,3) by (simp add: asset_inv_def)
  obtain k v where kv: "(k, v) \<in> set ?o" "scan_oldest ?o = (k, a_cachedAt v)" "k \<noteq> ''''"
    and min: "\<And>v'. v' \<in> snd ` set ?o \<Longrightarrow> a_cachedAt v \<le> a_cachedAt v'"
    using scan_oldest_in [OF ne keys] by metis
  have at: "map_of (ac_items c) k = Some v"
    using kv(1) assms(1,3) by (simp add: asset_inv_def)
  moreover have "a_cachedAt v \<le> a_cachedAt v'" if "map_of (ac_items c) k' = Some v'" for k' v'
    using min [of v'] map_of_SomeD [OF that] assms(3) by force
  ultimately show thesis
    using that [of k v] kv(2,3) by (simp add: evict_oldest_def)
qed

text \<open>The loop ends, and what it leaves: a part of the items, the oldest gone first, the byte count
  lowered by the bytes removed, and either room for the new asset or nothing.\<close>

definition evicts_to :: "int \<Rightarrow> asset_cache \<Rightarrow> asset_cache \<Rightarrow> bool" where
  "evicts_to newSize c c2 \<longleftrightarrow> asset_inv c2 \<and>
     c2 = c\<lparr>ac_items := ac_items c2, ac_curBytes := ac_curBytes c - (asset_bytes c - asset_bytes c2)\<rparr> \<and>
     map_of (ac_items c2) \<subseteq>\<^sub>m map_of (ac_items c) \<and>
     (ac_curBytes c2 + newSize \<le> ac_maxBytes c \<or> ac_items c2 = []) \<and>
     (\<forall>k v k' v'. map_of (ac_items c) k = Some v \<longrightarrow> map_of (ac_items c2) k = None \<longrightarrow>
        map_of (ac_items c2) k' = Some v' \<longrightarrow> a_cachedAt v \<le> a_cachedAt v')"

lemma evicts_to_step:
  assumes "evicts_to newSize c' c2"
    and "c' = c\<lparr>ac_curBytes := ac_curBytes c - data_size v, ac_items := m_del k (ac_items c)\<rparr>"
    and "map_of (ac_items c) k = Some v"
    and min: "\<And>k' v'. map_of (ac_items c) k' = Some v' \<Longrightarrow> a_cachedAt v \<le> a_cachedAt v'"
    and "asset_bytes c' = asset_bytes c - data_size v"
  shows "evicts_to newSize c c2"
proof -
  have sub: "map_of (ac_items c') \<subseteq>\<^sub>m map_of (ac_items c)" by (simp add: assms(2) gomap_simps map_le_def)
  have sub2: "map_of (ac_items c2) \<subseteq>\<^sub>m map_of (ac_items c')" using assms(1) by (simp add: evicts_to_def)
  have old: "a_cachedAt v1 \<le> a_cachedAt v'"
    if "map_of (ac_items c) k1 = Some v1" "map_of (ac_items c2) k1 = None" "map_of (ac_items c2) k' = Some v'"
    for k1 v1 k' v'
  proof (cases "k1 = k")
    case True
    have "map_of (ac_items c) k' = Some v'"
      using map_le_trans [OF sub2 sub] that(3) unfolding map_le_def by (metis domI)
    with min [of k' v'] True that(1) assms(3) show ?thesis by simp
  next
    case False
    then have "map_of (ac_items c') k1 = Some v1" using that(1) by (simp add: assms(2) gomap_simps)
    with that(2,3) assms(1) show ?thesis unfolding evicts_to_def by blast
  qed
  have "c2 = c'\<lparr>ac_items := ac_items c2, ac_curBytes := ac_curBytes c' - (asset_bytes c' - asset_bytes c2)\<rparr>"
    using assms(1) unfolding evicts_to_def by blast
  also have "\<dots> = c\<lparr>ac_items := ac_items c2, ac_curBytes := ac_curBytes c - (asset_bytes c - asset_bytes c2)\<rparr>"
    unfolding assms(5) by (simp add: assms(2))
  finally show ?thesis
    using assms(1) map_le_trans [OF sub2 sub] old unfolding evicts_to_def by (simp add: assms(2))
qed

lemma evict_loop_evicts:
  assumes "asset_inv c" and "range_order ord"
  shows "\<exists>c2. evict_loop ord i newSize c = Some c2 \<and> evicts_to newSize c c2"
  using assms(1)
proof (induction "length (ac_items c)" arbitrary: i c)
  case 0
  then show ?case
    by (subst evict_loop.simps) (simp add: evicts_to_def)
next
  case (Suc n)
  show ?case
  proof (cases "ac_maxBytes c < ac_curBytes c + newSize")
    case False
    with Suc.prems show ?thesis by (subst evict_loop.simps) (simp add: evicts_to_def)
  next
    case True
    have ne: "ac_items c \<noteq> []" using Suc.hyps(2) by auto
    have ord: "set (ord i (ac_items c)) = set (ac_items c)" using assms(2) by (rule range_order_set)
    obtain k v where kv: "map_of (ac_items c) k = Some v" "k \<noteq> ''''"
      and ev: "evict_oldest (ord i) c =
        c\<lparr>ac_curBytes := ac_curBytes c - data_size v, ac_items := m_del k (ac_items c)\<rparr>"
      and min: "\<And>k' v'. map_of (ac_items c) k' = Some v' \<Longrightarrow> a_cachedAt v \<le> a_cachedAt v'"
      using evict_oldest_spec [where ord = "ord i", OF Suc.prems ne ord] by metis
    let ?c = "evict_oldest (ord i) c"
    have inv: "asset_inv ?c" using Suc.prems by (simp add: ev asset_inv_def)
    have wf: "wf_map (ac_items c)" using Suc.prems by (simp add: asset_inv_def)
    have len: "n = length (ac_items ?c)"
      using Suc.hyps(2) kv(1) wf by (simp add: ev length_m_del)
    have bytes: "asset_bytes ?c = asset_bytes c - data_size v"
      using wf kv(1) by (simp add: ev m_sum_del)
    obtain c2 where c2: "evict_loop ord (Suc i) newSize ?c = Some c2" "evicts_to newSize ?c c2"
      using Suc.hyps(1) [OF len inv] by blast
    have "evict_loop ord i newSize c = Some c2"
      using True ne c2(1) by (subst evict_loop.simps) simp
    moreover have "evicts_to newSize c c2"
      by (rule evicts_to_step [OF c2(2) ev kv(1) min bytes])
    ultimately show ?thesis by blast
  qed
qed

lemma evicts_to_keeps:
  "evicts_to newSize c c2 \<Longrightarrow> map_of (ac_items c2) k = map_of (ac_items c) k \<or> map_of (ac_items c2) k = None"
  unfolding evicts_to_def map_le_def by (metis domIff)

text \<open>When the asset fits, nothing is evicted.\<close>

lemma evict_loop_fits: "ac_curBytes c + newSize \<le> ac_maxBytes c \<Longrightarrow> evict_loop ord i newSize c = Some c"
  by (subst evict_loop.simps) simp

section \<open>\<open>set\<close> and \<open>remove\<close>\<close>

definition drop_old_size :: "string \<Rightarrow> asset_cache \<Rightarrow> asset_cache" where
  "drop_old_size key c =
     (case map_of (ac_items c) key of
        Some old \<Rightarrow> c\<lparr>ac_curBytes := ac_curBytes c - data_size old\<rparr>
      | None \<Rightarrow> c)"

lemma drop_old_size_frame [simp]:
  "ac_items (drop_old_size key c) = ac_items c" "ac_maxBytes (drop_old_size key c) = ac_maxBytes c"
  "asset_inv (drop_old_size key c) = asset_inv c"
  by (simp_all add: drop_old_size_def asset_inv_def split: option.splits)

lemma asset_set_cases:
  assumes "asset_inv c" and "range_order ord"
  obtains c2 where "evicts_to (data_size a) (drop_old_size key c) c2"
    "evict_loop ord 0 (data_size a) (drop_old_size key c) = Some c2"
    "asset_set ord key a c =
       Some (c2\<lparr>ac_items := m_put key a (ac_items c2), ac_curBytes := ac_curBytes c2 + data_size a\<rparr>)"
  using evict_loop_evicts [of "drop_old_size key c" ord 0 "data_size a"] assms
  by (auto simp: asset_set_def drop_old_size_def [symmetric] Let_def)

lemma asset_set_Some:
  assumes "asset_inv c" and "range_order ord" and "key \<noteq> ''''"
  obtains c' where "asset_set ord key a c = Some c'" "asset_inv c'" "map_of (ac_items c') key = Some a"
    "\<And>k. k \<noteq> key \<Longrightarrow> map_of (ac_items c') k = map_of (ac_items c) k \<or> map_of (ac_items c') k = None"
proof -
  obtain c2 where c2: "evicts_to (data_size a) (drop_old_size key c) c2"
    and set: "asset_set ord key a c =
       Some (c2\<lparr>ac_items := m_put key a (ac_items c2), ac_curBytes := ac_curBytes c2 + data_size a\<rparr>)"
    using asset_set_cases [OF assms(1,2)] by metis
  have "asset_inv c2" using c2 by (simp add: evicts_to_def)
  with evicts_to_keeps [OF c2] show thesis
    using that [OF set] assms(3) by (auto simp: asset_inv_def gomap_simps)
qed

lemma asset_remove_inv [inv_intros]: "asset_inv c \<Longrightarrow> asset_inv (asset_remove key c)"
  by (simp add: asset_remove_def asset_inv_def split: option.split)

lemma asset_remove_items: "map_of (ac_items (asset_remove key c)) = (map_of (ac_items c))(key := None)"
  by (auto simp: asset_remove_def gomap_simps split: option.split)

lemma asset_get_items [simp]: "ac_items (snd (asset_get key c)) = ac_items c"
  by (simp add: asset_get_def split: option.split)

lemma asset_get_result [simp]: "fst (asset_get key c) = map_of (ac_items c) key"
  by (simp add: asset_get_def split: option.split)

text \<open>The cache is a lossy cache for every range order, over the non-empty keys.\<close>

definition asset_store :: "(nat \<Rightarrow> asset_order) \<Rightarrow> string \<Rightarrow> cached_asset \<Rightarrow> asset_cache \<Rightarrow> asset_cache" where
  "asset_store ord key a c = the (asset_set ord key a c)"

lemma asset_store_spec:
  assumes "asset_inv c" and "range_order ord" and "key \<noteq> ''''"
  shows "asset_inv (asset_store ord key a c)" and "map_of (ac_items (asset_store ord key a c)) key = Some a"
    and "k \<noteq> key \<Longrightarrow> map_of (ac_items (asset_store ord key a c)) k = map_of (ac_items c) k \<or>
      map_of (ac_items (asset_store ord key a c)) k = None"
  by (rule asset_set_Some [OF assms, of a]; simp add: asset_store_def)+

interpretation asset: lossy_cache "\<lambda>c. asset_inv c \<and> range_order ord" "\<lambda>key. key \<noteq> ''''"
  "\<lambda>c. map_of (ac_items c)" "asset_store ord" asset_remove
  for ord :: "nat \<Rightarrow> asset_order"
  by unfold_locales (auto simp: asset_store_spec asset_remove_items intro: inv_intros)

section \<open>A concrete cache for the witnesses\<close>

text \<open>An asset of \<open>n\<close> bytes cached at \<open>t\<close>, and a cache filled by two of them.\<close>

definition blob :: "nat \<Rightarrow> time \<Rightarrow> cached_asset" where
  "blob n t = \<lparr>a_data = replicate n CHR ''x'', a_contentType = ''image/png'', a_size = int n, a_cachedAt = t\<rparr>"

lemma blob_simps [simp]: "length (a_data (blob n t)) = n" "a_cachedAt (blob n t) = t"
  by (simp_all add: blob_def)

definition full_cache :: asset_cache where
  "full_cache = \<lparr>ac_items = [(''a'', blob 2 0), (''b'', blob 2 1)], ac_maxBytes = 4, ac_curBytes = 4,
     ac_hits = 0, ac_misses = 0\<rparr>"

lemma full_cache_inv: "asset_inv full_cache"
  by (simp add: asset_inv_def full_cache_def)

lemma same_order: "range_order (\<lambda>i m. m)"
  by (simp add: range_order_def)

lemma full_evict: "evict_oldest (\<lambda>m. m) (full_cache\<lparr>ac_curBytes := x\<rparr>) =
    full_cache\<lparr>ac_items := [(''b'', blob 2 1)], ac_curBytes := x - 2\<rparr>"
  by (simp add: full_cache_def evict_oldest_def scan_oldest_def)

lemma full_loop:
  assumes "4 < x + n" and "x - 2 + n \<le> 4"
  shows "evict_loop (\<lambda>i m. m) 0 n (full_cache\<lparr>ac_curBytes := x\<rparr>) =
    Some (full_cache\<lparr>ac_items := [(''b'', blob 2 1)], ac_curBytes := x - 2\<rparr>)"
proof -
  have "evict_loop (\<lambda>i m. m) 0 n (full_cache\<lparr>ac_curBytes := x\<rparr>) =
      evict_loop (\<lambda>i m. m) (Suc 0) n (evict_oldest (\<lambda>m. m) (full_cache\<lparr>ac_curBytes := x\<rparr>))"
    using assms(1) by (subst evict_loop.simps) (simp add: full_cache_def)
  also have "\<dots> = Some (evict_oldest (\<lambda>m. m) (full_cache\<lparr>ac_curBytes := x\<rparr>))"
    using assms(2) unfolding full_evict by (intro evict_loop_fits) (simp add: full_cache_def)
  finally show ?thesis unfolding full_evict .
qed

lemma full_drop:
  "drop_old_size ''c'' full_cache = full_cache\<lparr>ac_curBytes := 4\<rparr>"
  "drop_old_size ''a'' full_cache = full_cache\<lparr>ac_curBytes := 2\<rparr>"
  by (simp_all add: drop_old_size_def full_cache_def)

definition full_cache_c :: asset_cache where
  "full_cache_c = full_cache\<lparr>ac_items := [(''b'', blob 2 1), (''c'', blob 2 2)]\<rparr>"

lemma full_set_c: "asset_set (\<lambda>i m. m) ''c'' (blob 2 2) full_cache = Some full_cache_c"
  unfolding asset_set_def Let_def drop_old_size_def [symmetric] full_drop
  by (simp add: full_loop full_cache_c_def) (simp add: full_cache_def)

definition full_cache_a :: asset_cache where
  "full_cache_a = full_cache\<lparr>ac_items := [(''b'', blob 2 1), (''a'', blob 3 2)], ac_curBytes := 3\<rparr>"

lemma full_set_a: "asset_set (\<lambda>i m. m) ''a'' (blob 3 2) full_cache = Some full_cache_a"
  unfolding asset_set_def Let_def drop_old_size_def [symmetric] full_drop
  by (simp add: full_loop full_cache_a_def)

section \<open>Properties\<close>

text \<open>C16: \<open>set\<close> of a non-empty key ends, whatever order the map is ranged in, keeps the invariant, makes
  the asset readable, and changes no other key except by evicting it.\<close>

theorem asset_set_ok:
  assumes "asset_inv c" and "range_order ord" and "key \<noteq> ''''"
  shows "\<exists>c'. asset_set ord key a c = Some c' \<and> asset_inv c' \<and> fst (asset_get key c') = Some a \<and>
    (\<forall>k. k \<noteq> key \<longrightarrow> fst (asset_get k c') = fst (asset_get k c) \<or> fst (asset_get k c') = None)"
  by (rule asset_set_Some [OF assms, of a]) auto

theorem asset_set_ok_witness:
  "fst (asset_get ''c'' full_cache_c) = Some (blob 2 2)"
  using asset_set_ok [OF full_cache_inv same_order, of "''c''" "blob 2 2"] by (simp add: full_set_c del: asset_get_result)

text \<open>C17: exact accounting.  \<open>curBytes\<close> falls behind the bytes held by the size of the old asset of the
  key, exactly when the key was there and the eviction took it; otherwise the gap is unchanged.\<close>

theorem asset_set_accounting:
  assumes "asset_inv c" and "range_order ord" and "asset_set ord key a c = Some c'"
    and "evict_loop ord 0 (data_size a) (drop_old_size key c) = Some c2"
  shows "asset_bytes c' - ac_curBytes c' = asset_bytes c - ac_curBytes c +
    (case map_of (ac_items c) key of
       None \<Rightarrow> 0
     | Some old \<Rightarrow> if map_of (ac_items c2) key = None then data_size old else 0)"
proof -
  have ev: "evicts_to (data_size a) (drop_old_size key c) c2"
    and c': "c' = c2\<lparr>ac_items := m_put key a (ac_items c2), ac_curBytes := ac_curBytes c2 + data_size a\<rparr>"
    using asset_set_cases [OF assms(1,2), where key = key and a = a] assms(3,4) by (metis option.inject)+
  have inv: "asset_inv c2" using ev by (simp add: evicts_to_def)
  have cur: "ac_curBytes c2 = ac_curBytes (drop_old_size key c) - (asset_bytes c - asset_bytes c2)"
    using ev unfolding evicts_to_def by (metis asset_cache.select_convs(3) asset_cache.surjective asset_cache.update_convs(1,3) drop_old_size_frame(1))
  have wf: "wf_map (ac_items c2)" using inv by (simp add: asset_inv_def)
  show ?thesis
    using evicts_to_keeps [OF ev, of key] m_sum_put [OF wf, of data_size key a]
    by (auto simp: c' cur drop_old_size_def split: option.splits)
qed

theorem asset_set_accounting_witness:
  "asset_bytes full_cache_a - ac_curBytes full_cache_a = 2"
  using asset_set_accounting [OF full_cache_inv same_order full_set_a, unfolded full_drop, OF full_loop]
  by (simp add: full_cache_def)

lemma evicts_to_cur:
  assumes "evicts_to newSize c c2"
  shows "ac_curBytes c2 = ac_curBytes c - (asset_bytes c - asset_bytes c2)"
    and "ac_maxBytes c2 = ac_maxBytes c"
proof -
  have "c2 = c\<lparr>ac_items := ac_items c2, ac_curBytes := ac_curBytes c - (asset_bytes c - asset_bytes c2)\<rparr>"
    using assms unfolding evicts_to_def by blast
  then show "ac_curBytes c2 = ac_curBytes c - (asset_bytes c - asset_bytes c2)"
    and "ac_maxBytes c2 = ac_maxBytes c"
    by (metis asset_cache.select_convs(2,3) asset_cache.surjective asset_cache.update_convs(1,3))+
qed

text \<open>As long as keys are new the budget holds.  From a cache whose count is right, setting a new key
  leaves the count right and the bytes held within the budget, unless the asset alone exceeds it; then
  the cache holds that asset and nothing else.\<close>

theorem asset_set_budget:
  assumes "asset_inv c" and "range_order ord" and "ac_curBytes c = asset_bytes c"
    and "fst (asset_get key c) = None" and "asset_set ord key a c = Some c'"
  shows "ac_curBytes c' = asset_bytes c' \<and>
    (asset_bytes c' \<le> ac_maxBytes c \<or> ac_items c' = [(key, a)] \<and> ac_maxBytes c < data_size a)"
proof -
  obtain c2 where ev: "evicts_to (data_size a) (drop_old_size key c) c2"
    and c': "c' = c2\<lparr>ac_items := m_put key a (ac_items c2), ac_curBytes := ac_curBytes c2 + data_size a\<rparr>"
    using asset_set_cases [OF assms(1,2), where key = key and a = a] assms(5) by (metis option.inject)
  have new: "map_of (ac_items c) key = None" using assms(4) by simp
  have same: "drop_old_size key c = c" by (simp add: drop_old_size_def new)
  have new2: "map_of (ac_items c2) key = None" using evicts_to_keeps [OF ev, of key] new same by auto
  have "wf_map (ac_items c2)" using ev by (simp add: evicts_to_def asset_inv_def)
  then have bytes: "asset_bytes c' = asset_bytes c2 + data_size a"
    using new2 by (simp add: c' m_sum_put)
  have cur: "ac_curBytes c2 = asset_bytes c2" using evicts_to_cur [OF ev] assms(3) same by simp
  have "ac_curBytes c2 + data_size a \<le> ac_maxBytes c \<or> ac_items c2 = []"
    using ev same by (simp add: evicts_to_def)
  then show ?thesis using bytes cur by (auto simp: c')
qed

theorem asset_set_budget_witness:
  "ac_curBytes full_cache_c = asset_bytes full_cache_c"
  using asset_set_budget [OF full_cache_inv same_order _ _ full_set_c] by (simp add: full_cache_def)

text \<open>The oldest goes first.  An asset that \<open>set\<close> evicts is not younger than any other asset that
  stays.\<close>

theorem asset_set_oldest_first:
  assumes "asset_inv c" and "range_order ord" and "asset_set ord key a c = Some c'"
    and "fst (asset_get k c) = Some gone" and "fst (asset_get k c') = None"
    and "fst (asset_get k' c') = Some kept" and "k' \<noteq> key"
  shows "a_cachedAt gone \<le> a_cachedAt kept"
proof -
  obtain c2 where ev: "evicts_to (data_size a) (drop_old_size key c) c2"
    and c': "c' = c2\<lparr>ac_items := m_put key a (ac_items c2), ac_curBytes := ac_curBytes c2 + data_size a\<rparr>"
    using asset_set_cases [OF assms(1,2), where key = key and a = a] assms(3) by (metis option.inject)
  have "map_of (ac_items c2) k = None" using assms(5) by (auto simp: c' gomap_simps split: if_splits)
  moreover have "map_of (ac_items c2) k' = Some kept" using assms(6,7) by (simp add: c' gomap_simps)
  moreover have "map_of (ac_items (drop_old_size key c)) k = Some gone" using assms(4) by simp
  ultimately show ?thesis using ev unfolding evicts_to_def by blast
qed

theorem asset_set_oldest_first_witness:
  "a_cachedAt (blob 2 0) \<le> a_cachedAt (blob 2 1)"
  by (rule asset_set_oldest_first [OF full_cache_inv same_order full_set_c, of "''a''" _ "''b''"])
    (simp_all add: full_cache_def full_cache_c_def)

section \<open>The double subtraction\<close>

text \<open>Three calls of \<open>set\<close>: \<open>a\<close> and \<open>b\<close> of \<open>n\<close> bytes each fill
  a budget of \<open>2 * n\<close>; then \<open>a\<close> is set again, one byte longer.\<close>

definition reupload :: "(nat \<Rightarrow> asset_order) \<Rightarrow> nat \<Rightarrow> asset_cache option" where
  "reupload ord n =
     (case asset_set ord ''a'' (blob n 0) (newAssetCache (2 * int n)) of
        None \<Rightarrow> None
      | Some c1 \<Rightarrow>
          (case asset_set ord ''b'' (blob n 1) c1 of
             None \<Rightarrow> None
           | Some c2 \<Rightarrow> asset_set ord ''a'' (blob (Suc n) 2) c2))"

lemma newAssetCache_sel [simp]:
  "ac_items (newAssetCache m) = []" "ac_maxBytes (newAssetCache m) = m" "ac_curBytes (newAssetCache m) = 0"
  by (simp_all add: newAssetCache_def)

lemma asset_set_fits:
  assumes "ac_curBytes (drop_old_size key c) + data_size a \<le> ac_maxBytes c"
  shows "asset_set ord key a c =
     Some ((drop_old_size key c)\<lparr>ac_items := m_put key a (ac_items c),
             ac_curBytes := ac_curBytes (drop_old_size key c) + data_size a\<rparr>)"
proof -
  have "evict_loop ord 0 (data_size a) (drop_old_size key c) = Some (drop_old_size key c)"
    using assms by (intro evict_loop_fits) simp
  then show ?thesis unfolding asset_set_def Let_def drop_old_size_def [symmetric] by simp
qed

lemma scan_two:
  assumes "set kvs = {(''a'', blob n 0), (''b'', blob n 1)}"
  shows "fst (scan_oldest kvs) = ''a''"
proof -
  have ne: "kvs \<noteq> []" using assms by (metis empty_not_insert list.set(1))
  have keys: "'''' \<notin> fst ` set kvs" by (simp add: assms)

obtain k v where "(k, v) \<in> set kvs" "scan_oldest kvs = (k, a_cachedAt v)"
    "\<And>v'. v' \<in> snd ` set kvs \<Longrightarrow> a_cachedAt v \<le> a_cachedAt v'"
    using scan_oldest_in [OF ne keys] by metis
  with assms show ?thesis by fastforce
qed

text \<open>Re-uploading can break the budget.  The old size of \<open>a\<close> is subtracted when \<open>set\<close> finds the key
  and again when the eviction takes it, so after the third call the cache holds \<open>2 * n + 1\<close> bytes,
  more than its budget, and counts \<open>n + 1\<close>.\<close>

theorem reupload_breaks_budget:
  assumes "range_order ord" and "1 \<le> n"
  shows "\<exists>c. reupload ord n = Some c \<and> ac_maxBytes c = 2 * int n \<and>
    asset_bytes c = 2 * int n + 1 \<and> ac_curBytes c = int n + 1"
proof -
  let ?c0 = "newAssetCache (2 * int n)"
  let ?c1 = "?c0\<lparr>ac_items := [(''a'', blob n 0)], ac_curBytes := int n\<rparr>"
  let ?c2 = "?c0\<lparr>ac_items := [(''a'', blob n 0), (''b'', blob n 1)], ac_curBytes := 2 * int n\<rparr>"
  let ?d = "?c2\<lparr>ac_curBytes := int n\<rparr>" and ?e = "?c0\<lparr>ac_items := [(''b'', blob n 1)], ac_curBytes := 0\<rparr>"
  have 1: "asset_set ord ''a'' (blob n 0) ?c0 = Some ?c1"
    by (subst asset_set_fits) (simp_all add: drop_old_size_def)
  have 2: "asset_set ord ''b'' (blob n 1) ?c1 = Some ?c2"
    by (subst asset_set_fits) (simp_all add: drop_old_size_def)
  have d: "drop_old_size ''a'' ?c2 = ?d" by (simp add: drop_old_size_def)
  have "set (ord 0 (ac_items ?d)) = {(''a'', blob n 0), (''b'', blob n 1)}"
    using assms(1) by (simp add: range_order_set range_order_def)
  then have "fst (scan_oldest (ord 0 (ac_items ?d))) = ''a''" by (rule scan_two)
  then have e: "evict_oldest (ord 0) ?d = ?e" by (simp add: evict_oldest_def)
  have "evict_loop ord 0 (int (Suc n)) ?d = evict_loop ord (Suc 0) (int (Suc n)) (evict_oldest (ord 0) ?d)"
    by (subst evict_loop.simps) simp
  also have "\<dots> = Some ?e"
    unfolding e using assms(2) by (intro evict_loop_fits) simp
  finally have "asset_set ord ''a'' (blob (Suc n) 2) ?c2 = Some (?e\<lparr>ac_items := m_put ''a'' (blob (Suc n) 2) (ac_items ?e),
      ac_curBytes := ac_curBytes ?e + int (Suc n)\<rparr>)"
    unfolding asset_set_def Let_def drop_old_size_def [symmetric] d by simp
  then show ?thesis unfolding reupload_def by (simp add: 1 2)
qed

theorem reupload_breaks_budget_witness:
  "\<exists>c. reupload (\<lambda>i m. m) 5 = Some c \<and> ac_maxBytes c < asset_bytes c"
  using reupload_breaks_budget [of "\<lambda>i m. m" 5] by (force simp: range_order_def)

lemma evict_empty_key: "ac_items c = [('''', v)] \<Longrightarrow> ord [('''', v)] = [('''', v)] \<Longrightarrow> evict_oldest ord c = c"
  by (simp add: evict_oldest_def scan_oldest_def)

lemma evict_loop_empty_key:
  assumes "evict_loop ord i newSize c = Some c'"
  shows "(\<forall>i. ord i [('''', v)] = [('''', v)]) \<longrightarrow> ac_items c = [('''', v)] \<longrightarrow>
    \<not> ac_maxBytes c < ac_curBytes c + newSize"
  by (rule evict_loop.raw_induct [OF _ assms]) (auto simp: evict_empty_key split: if_splits)

text \<open>The empty key hangs the cache.  With the empty key alone in the cache, a \<open>set\<close> that does not
  fit never returns: the scan finds no oldest key and the loop condition stays true.\<close>

theorem empty_key_hangs:
  assumes "range_order ord" and "ac_items c = [('''', v)]" and "key \<noteq> ''''"
    and "ac_maxBytes c < ac_curBytes c + data_size a"
  shows "asset_set ord key a c = None"
proof -
  have "ord i [('''', v)] = [('''', v)]" for i
  proof -
    have "mset (ord i [('''', v)]) = {#('''', v)#}" using assms(1) by (simp add: range_order_def)
    then show ?thesis by simp
  qed
  then have "evict_loop ord 0 (data_size a) c = None"
    using evict_loop_empty_key [of ord 0 "data_size a" c _ v] assms(2,4) by (metis not_None_eq)
  moreover have "drop_old_size key c = c" using assms(2,3) by (simp add: drop_old_size_def)
  ultimately show ?thesis unfolding asset_set_def Let_def drop_old_size_def [symmetric] by simp
qed

theorem empty_key_hangs_witness:
  "asset_set (\<lambda>i m. m) ''k'' (blob 3 7)
     \<lparr>ac_items = [('''', blob 2 1)], ac_maxBytes = 4, ac_curBytes = 2, ac_hits = 0, ac_misses = 0\<rparr> = None"
  by (rule empty_key_hangs [where v = "blob 2 1"]) (simp_all add: range_order_def)

end

