(* ===== verification/Content_Type.thy ===== *)
theory Content_Type
  imports Prelude
begin

text \<open>
  \<open>detectContentType\<close> of \<open>internal/binaryhandler/handler.go\<close>, with the two library functions it
  rests on: \<open>filepath.Ext\<close> (Unix) and \<open>strings.ToLower\<close> on UTF-8.  Of the runes outside ASCII only
  U+0130 and U+212A have an ASCII lower case (\<open>i\<close> and \<open>k\<close>); the other ones stay outside ASCII, so
  they are left as they are: no extension of the table contains any.
\<close>

section \<open>The library functions\<close>

fun ext_scan :: "string \<Rightarrow> string \<Rightarrow> string" where
  "ext_scan acc [] = []"
| "ext_scan acc (c # rest) =
     (if c = CHR ''/'' then [] else if c = CHR ''.'' then CHR ''.'' # acc else ext_scan (c # acc) rest)"

text \<open>From the end of the path back to the last dot, if it comes before a slash.\<close>

definition file_ext :: "string \<Rightarrow> string" where
  "file_ext path = ext_scan [] (rev path)"

definition lower_char :: "char \<Rightarrow> char" where
  "lower_char c = (let n = (of_char c :: nat) in if 65 \<le> n \<and> n \<le> 90 then char_of (n + 32) else c)"

fun to_lower :: "string \<Rightarrow> string" where
  "to_lower (c1 # c2 # c3 # s) =
     (if c1 = CHR 0xC4 \<and> c2 = CHR 0xB0 then CHR ''i'' # to_lower (c3 # s)
      else if c1 = CHR 0xE2 \<and> c2 = CHR 0x84 \<and> c3 = CHR 0xAA then CHR ''k'' # to_lower s
      else lower_char c1 # to_lower (c2 # c3 # s))"
| "to_lower [c1, c2] = (if c1 = CHR 0xC4 \<and> c2 = CHR 0xB0 then ''i'' else [lower_char c1, lower_char c2])"
| "to_lower [c] = [lower_char c]"
| "to_lower [] = []"

section \<open>The table\<close>

definition mime_table :: "(string \<times> string) list" where
  "mime_table =
     [(''.png'', ''image/png''), (''.jpg'', ''image/jpeg''), (''.jpeg'', ''image/jpeg''),
      (''.gif'', ''image/gif''), (''.webp'', ''image/webp''), (''.svg'', ''image/svg+xml''),
      (''.mp4'', ''video/mp4''), (''.ts'', ''video/mp2t''), (''.m3u8'', ''application/vnd.apple.mpegurl''),
      (''.webm'', ''video/webm''), (''.mov'', ''video/quicktime''), (''.avif'', ''image/avif''),
      (''.ico'', ''image/x-icon''), (''.woff2'', ''font/woff2''), (''.woff'', ''font/woff''),
      (''.ttf'', ''font/ttf''), (''.css'', ''text/css''), (''.js'', ''application/javascript'')]"

definition detectContentType :: "string \<Rightarrow> string" where
  "detectContentType filename =
     (case map_of mime_table (to_lower (file_ext filename)) of
        Some t \<Rightarrow> t
      | None \<Rightarrow> ''application/octet-stream'')"

section \<open>Lemmas\<close>

lemma ext_scan_dot: "CHR ''.'' \<notin> set s \<Longrightarrow> CHR ''/'' \<notin> set s \<Longrightarrow>
    ext_scan acc (s @ CHR ''.'' # t) = CHR ''.'' # rev s @ acc"
  by (induction s arbitrary: acc) auto

lemma ext_scan_none: "CHR ''.'' \<notin> set s \<Longrightarrow> CHR ''/'' \<notin> set s \<Longrightarrow>
    ext_scan acc (s @ t) = ext_scan (rev s @ acc) t"
  by (induction s arbitrary: acc) auto

lemma file_ext_dot:
  assumes "CHR ''.'' \<notin> set e" and "CHR ''/'' \<notin> set e"
  shows "file_ext (base @ CHR ''.'' # e) = CHR ''.'' # e"
  using assms by (simp add: file_ext_def ext_scan_dot)

lemma file_ext_no_dot: "CHR ''.'' \<notin> set s \<Longrightarrow> CHR ''/'' \<notin> set s \<Longrightarrow> file_ext (d @ CHR ''/'' # s) = []"
  by (simp add: file_ext_def ext_scan_none)

lemma file_ext_no_dot_plain: "CHR ''.'' \<notin> set s \<Longrightarrow> CHR ''/'' \<notin> set s \<Longrightarrow> file_ext s = []"
  using ext_scan_none [of "rev s" "[]" "[]"] by (simp add: file_ext_def)

definition ascii :: "string \<Rightarrow> bool" where
  "ascii s \<longleftrightarrow> list_all (\<lambda>c. (of_char c :: nat) < 128) s"

lemma to_lower_ascii: "ascii s \<Longrightarrow> to_lower s = map lower_char s"
  by (induction s rule: to_lower.induct) (auto simp: ascii_def)

definition upper_char :: "char \<Rightarrow> char" where
  "upper_char c = (let n = (of_char c :: nat) in if 97 \<le> n \<and> n \<le> 122 then char_of (n - 32) else c)"

lemma lower_upper: "lower_char (upper_char c) = lower_char c"
  by (cases "97 \<le> (of_char c :: nat) \<and> (of_char c :: nat) \<le> 122")
    (auto simp: lower_char_def upper_char_def Let_def)

lemma of_char_upper:
  "(of_char (upper_char c) :: nat) =
     (if 97 \<le> (of_char c :: nat) \<and> (of_char c :: nat) \<le> 122 then of_char c - 32 else of_char c)"
proof -
  have "(of_char c :: nat) \<le> 122 \<Longrightarrow> (of_char c - 32) mod 256 = (of_char c - 32 :: nat)"
    by (intro mod_less) simp
  then show ?thesis by (auto simp: upper_char_def Let_def)
qed

lemma upper_ascii: "(of_char c :: nat) < 128 \<Longrightarrow> (of_char (upper_char c) :: nat) < 128"
  by (auto simp: of_char_upper)

lemma upper_separators: "d \<in> {CHR ''.'', CHR ''/''} \<Longrightarrow> upper_char c = d \<longleftrightarrow> c = d"
proof -
  assume d: "d \<in> {CHR ''.'', CHR ''/''}"
  then have n: "(of_char d :: nat) < 65" by auto
  have "upper_char c = d \<longleftrightarrow> (of_char (upper_char c) :: nat) = of_char d" by (simp only: of_char_eq_iff)
  also have "\<dots> \<longleftrightarrow> (of_char c :: nat) = of_char d" using n by (auto simp: of_char_upper)
  finally show ?thesis by (simp only: of_char_eq_iff)
qed

lemma upper_no_sep:
  assumes "d \<in> {CHR ''.'', CHR ''/''}" and "d \<notin> set e"
  shows "d \<notin> set (map upper_char e)"
proof
  assume "d \<in> set (map upper_char e)"
  then obtain c where "c \<in> set e" "upper_char c = d" by (metis imageE list.set_map)
  then show False using upper_separators [OF assms(1), of c] assms(2) by simp
qed

lemma lower_comp_upper: "lower_char \<circ> upper_char = lower_char"
  by (rule ext) (simp add: lower_upper)

section \<open>Properties\<close>

text \<open>The type depends on the last extension alone, whatever stands before it, and not on its case.\<close>

theorem content_type_by_extension:
  assumes "ascii e" and "CHR ''.'' \<notin> set e" and "CHR ''/'' \<notin> set e"
  shows "detectContentType (base @ CHR ''.'' # map upper_char e) = detectContentType (CHR ''.'' # e)"
proof -
  have "file_ext (base @ CHR ''.'' # map upper_char e) = CHR ''.'' # map upper_char e"
    using assms upper_no_sep by (intro file_ext_dot) simp_all
  moreover have "file_ext (CHR ''.'' # e) = CHR ''.'' # e"
    using file_ext_dot [OF assms(2,3), of "[]"] by simp
  moreover have "ascii (CHR ''.'' # e)" and "ascii (CHR ''.'' # map upper_char e)"
    using assms(1) upper_ascii by (auto simp: ascii_def list_all_iff)
  ultimately show ?thesis
    by (simp add: detectContentType_def to_lower_ascii lower_comp_upper)

qed

theorem content_type_by_extension_witness:
  "detectContentType ''v1.2/clip.M3U8'' = ''application/vnd.apple.mpegurl''"
proof -
  have "map upper_char ''m3u8'' = ''M3U8''"
    and "detectContentType ''.m3u8'' = ''application/vnd.apple.mpegurl''"
    by code_simp+
  then show ?thesis
    using content_type_by_extension [of "''m3u8''" "''v1.2/clip''"] by (simp add: ascii_def)
qed

end

