(* ===== verification/Http.thy ===== *)
theory Http
  imports Prelude
begin

text \<open>
  The part of \<open>net/http\<close> the handlers use, and the middleware of \<open>internal/handler/handler.go\<close>.  A
  \<open>writer\<close> is a \<open>ResponseWriter\<close>: headers set before the first write go out with it, the first
  status wins, a write without a status sends 200.  A handler turns a request, the server's state and
  a writer into an \<open>outcome\<close>: it returns or it panics, with the state and writer it leaves either
  way, or it never comes back.  The last section composes the middleware as \<open>main\<close> does.
\<close>

section \<open>Writers\<close>

type_synonym headers = "(string, string) gomap"

record writer =
  w_header :: headers
  w_sent :: "(nat \<times> headers) option"
  w_body :: bytes

definition new_writer :: writer where
  "new_writer = \<lparr>w_header = [], w_sent = None, w_body = []\<rparr>"

definition header_set :: "string \<Rightarrow> string \<Rightarrow> writer \<Rightarrow> writer" where
  "header_set k v w = w\<lparr>w_header := m_put k v (w_header w)\<rparr>"

definition write_header :: "nat \<Rightarrow> writer \<Rightarrow> writer" where
  "write_header code w = (case w_sent w of None \<Rightarrow> w\<lparr>w_sent := Some (code, w_header w)\<rparr> | Some _ \<Rightarrow> w)"

definition write_body :: "bytes \<Rightarrow> writer \<Rightarrow> writer" where
  "write_body data w = (let w' = write_header 200 w in w'\<lparr>w_body := w_body w' @ data\<rparr>)"

text \<open>\<open>http.Error\<close> of Go 1.22: the text is plain whatever content type was set before.\<close>

definition http_error :: "string \<Rightarrow> nat \<Rightarrow> writer \<Rightarrow> writer" where
  "http_error msg code w =
     write_body (msg @ ''\<newline>'')
       (write_header code
         (header_set ''X-Content-Type-Options'' ''nosniff''
           (header_set ''Content-Type'' ''text/plain; charset=utf-8'' w)))"

text \<open>What the client sees: the status and headers that went out; a handler that never writes sends
  200 when it returns.\<close>

definition response_of :: "writer \<Rightarrow> nat \<times> headers \<times> bytes" where
  "response_of w = (case w_sent w of None \<Rightarrow> (200, w_header w, w_body w)
                                   | Some (code, hs) \<Rightarrow> (code, hs, w_body w))"

abbreviation status_of :: "writer \<Rightarrow> nat" where
  "status_of w \<equiv> fst (response_of w)"

abbreviation header_of :: "writer \<Rightarrow> string \<Rightarrow> string option" where
  "header_of w \<equiv> map_of (fst (snd (response_of w)))"

section \<open>Requests and handlers\<close>

text \<open>\<open>rq_value\<close> is the path value of the route's wildcard, \<open>rq_body\<close> the bytes the body delivers
  before it ends or fails.\<close>

record request =
  rq_method :: string
  rq_path :: string
  rq_value :: string
  rq_content_type :: string
  rq_body :: bytes
  rq_body_fails :: bool

datatype 's outcome = Returned 's writer | Panicked 's writer | Hangs

type_synonym 's handler = "request \<Rightarrow> 's \<Rightarrow> writer \<Rightarrow> 's outcome"

section \<open>Middleware\<close>

definition CORSMiddleware :: "'s handler \<Rightarrow> 's handler" where
  "CORSMiddleware next_h r s w =
     (let w1 = header_set ''Access-Control-Allow-Headers'' ''Content-Type''
                (header_set ''Access-Control-Allow-Methods'' ''GET, PUT, POST, DELETE, OPTIONS''
                  (header_set ''Access-Control-Allow-Origin'' ''*'' w))
      in if rq_method r = ''OPTIONS'' then Returned s (write_header 204 w1) else next_h r s w1)"

text \<open>Logging has no effect on the response.\<close>

definition LoggingMiddleware :: "'s handler \<Rightarrow> 's handler" where
  "LoggingMiddleware next_h r s w = next_h r s w"

definition RecoveryMiddleware :: "'s handler \<Rightarrow> 's handler" where
  "RecoveryMiddleware next_h r s w =
     (case next_h r s w of
        Returned s' w' \<Rightarrow> Returned s' w'
      | Panicked s' w' \<Rightarrow>
          Returned s' (http_error ''{\"error\":\"internal server error\"}'' 500
                        (header_set ''Content-Type'' ''application/json'' w'))
      | Hangs \<Rightarrow> Hangs)"

text \<open>The stack of \<open>main\<close>.\<close>

definition http_stack :: "'s handler \<Rightarrow> 's handler" where
  "http_stack mux = LoggingMiddleware (CORSMiddleware (RecoveryMiddleware mux))"

section \<open>Lemmas\<close>

named_theorems writer_simps \<open>reading a writer after the operations\<close>

lemma header_set_sel [writer_simps]:
  "w_sent (header_set k v w) = w_sent w" "w_body (header_set k v w) = w_body w"
  "map_of (w_header (header_set k v w)) = (map_of (w_header w))(k \<mapsto> v)"
  by (simp_all add: header_set_def gomap_simps)

lemma write_header_sel [writer_simps]:
  "w_header (write_header c w) = w_header w" "w_body (write_header c w) = w_body w"
  "w_sent (write_header c w) = (case w_sent w of None \<Rightarrow> Some (c, w_header w) | Some x \<Rightarrow> Some x)"
  by (simp_all add: write_header_def split: option.split)

lemma write_body_sel [writer_simps]:
  "w_header (write_body d w) = w_header w" "w_body (write_body d w) = w_body w @ d"
  "w_sent (write_body d w) = (case w_sent w of None \<Rightarrow> Some (200, w_header w) | Some x \<Rightarrow> Some x)"
  by (simp_all add: write_body_def Let_def writer_simps)

lemma new_writer_sel [writer_simps]:
  "w_header new_writer = []" "w_sent new_writer = None" "w_body new_writer = []"
  by (simp_all add: new_writer_def)

lemma http_error_fresh [writer_simps]:
  "w_sent w = None \<Longrightarrow> status_of (http_error msg code w) = code"
  "w_sent w = None \<Longrightarrow> header_of (http_error msg code w) ''Content-Type'' = Some ''text/plain; charset=utf-8''"
  by (simp_all add: http_error_def response_of_def writer_simps)

section \<open>Properties\<close>

text \<open>The stack passes on what the routes return, and turns a panic into an answer, a 500 if nothing was sent
  before.  That answer is typed as plain text: the JSON type that \<open>RecoveryMiddleware\<close> sets first is
  overwritten by \<open>http.Error\<close>.\<close>

theorem stack_recovers:
  assumes "rq_method r \<noteq> ''OPTIONS''" and "w_sent w = None"
  shows "case mux r s (header_set ''Access-Control-Allow-Headers'' ''Content-Type''
        (header_set ''Access-Control-Allow-Methods'' ''GET, PUT, POST, DELETE, OPTIONS''
          (header_set ''Access-Control-Allow-Origin'' ''*'' w))) of
      Returned s1 w1 \<Rightarrow> http_stack mux r s w = Returned s1 w1
    | Panicked s1 w1 \<Rightarrow> (\<exists>w'. http_stack mux r s w = Returned s1 w' \<and>
        (w_sent w1 = None \<longrightarrow>
          status_of w' = 500 \<and> header_of w' ''Content-Type'' = Some ''text/plain; charset=utf-8''))
    | Hangs \<Rightarrow> http_stack mux r s w = Hangs"
  using assms
  by (auto simp: http_stack_def LoggingMiddleware_def CORSMiddleware_def RecoveryMiddleware_def Let_def
      http_error_fresh header_set_sel split: outcome.split)

theorem stack_recovers_witness:
  "\<exists>w'. http_stack (\<lambda>r s w. Panicked s w)
      \<lparr>rq_method = ''GET'', rq_path = ''/'', rq_value = '''', rq_content_type = '''', rq_body = '''', rq_body_fails = False\<rparr>
      (0::nat) new_writer = Returned 0 w' \<and> status_of w' = 500"
  using stack_recovers [of "\<lparr>rq_method = ''GET'', rq_path = ''/'', rq_value = '''', rq_content_type = '''', rq_body = '''', rq_body_fails = False\<rparr>"
      new_writer "\<lambda>r s w. Panicked s w" "0::nat"]
  by (auto simp: writer_simps)

text \<open>A preflight request never reaches the routes: it is answered 204 with the three CORS headers,
  and the state is as before.\<close>

theorem preflight_answered:
  assumes "rq_method r = ''OPTIONS''"
  shows "\<exists>w'. http_stack mux r s new_writer = Returned s w' \<and> status_of w' = 204 \<and>
    header_of w' ''Access-Control-Allow-Origin'' = Some ''*'' \<and>
    header_of w' ''Access-Control-Allow-Methods'' = Some ''GET, PUT, POST, DELETE, OPTIONS'' \<and>
    header_of w' ''Access-Control-Allow-Headers'' = Some ''Content-Type''"
  using assms
  by (simp add: http_stack_def LoggingMiddleware_def CORSMiddleware_def Let_def response_of_def writer_simps)

theorem preflight_answered_witness:
  "\<exists>w'. http_stack (\<lambda>r s w. Panicked s w)
      \<lparr>rq_method = ''OPTIONS'', rq_path = ''/'', rq_value = '''', rq_content_type = '''', rq_body = '''', rq_body_fails = False\<rparr>
      (0::nat) new_writer = Returned 0 w' \<and> status_of w' = 204"
  using preflight_answered [of "\<lparr>rq_method = ''OPTIONS'', rq_path = ''/'', rq_value = '''', rq_content_type = '''', rq_body = '''', rq_body_fails = False\<rparr>"
      "\<lambda>r s w. Panicked s w" "0::nat"] by auto

end
