(* ===== verification/Binary_Handler.thy ===== *)
theory Binary_Handler
  imports Asset_Cache Content_Type Http
begin

text \<open>
  \<open>BinaryHandler\<close> of \<open>internal/binaryhandler/handler.go\<close>: upload, serve, metadata, delete and list.
  The object store (MinIO) and the metadata store (Redis) are not in the repository: they are the
  argument \<open>backend\<close>, a record of the calls the handlers make, each a function on an unknown world
  \<open>'w\<close> that returns what the client library returns.  A handler that does not return is \<open>Hangs\<close>,
  which only the eviction loop of the cache can cause.
\<close>

section \<open>The stores\<close>

datatype object_result = GetFails | StatFails | ReadFails | Object bytes string int

record 'w backend =
  put_object :: "string \<Rightarrow> string \<Rightarrow> bytes \<Rightarrow> string \<Rightarrow> 'w \<Rightarrow> (string + int) \<times> 'w"
  get_object :: "string \<Rightarrow> string \<Rightarrow> 'w \<Rightarrow> object_result \<times> 'w"
  remove_object :: "string \<Rightarrow> string \<Rightarrow> 'w \<Rightarrow> bool \<times> 'w"
  redis_hset :: "string \<Rightarrow> (string \<times> string) list \<Rightarrow> 'w \<Rightarrow> bool \<times> 'w"
  redis_sadd :: "string \<Rightarrow> string \<Rightarrow> 'w \<Rightarrow> bool \<times> 'w"
  redis_hgetall :: "string \<Rightarrow> 'w \<Rightarrow> (string \<times> string) list option \<times> 'w"
  redis_del_key :: "string \<Rightarrow> 'w \<Rightarrow> bool \<times> 'w"
  redis_srem :: "string \<Rightarrow> string \<Rightarrow> 'w \<Rightarrow> bool \<times> 'w"
  redis_smembers :: "string \<Rightarrow> 'w \<Rightarrow> string list option \<times> 'w"

text \<open>The handler's fields that do not change: whether the two clients are there, and the bucket.\<close>

record 'w binary_handler =
  has_minio :: bool
  has_redis :: bool
  minioBucket :: string
  stores :: "'w backend"

record 'w binary_state =
  bs_cache :: asset_cache
  bs_world :: 'w

definition ready :: "'w binary_handler \<Rightarrow> bool" where
  "ready h \<longleftrightarrow> has_minio h \<and> has_redis h"

definition max_upload :: nat where
  "max_upload = 100 * 1024 * 1024"

text \<open>\<open>io.ReadAll(io.LimitReader(body, max_upload))\<close>: a body that fails after the limit has been read
  is not noticed, and neither is a longer body.\<close>

definition read_limited :: "request \<Rightarrow> bytes option" where
  "read_limited r =
     (if rq_body_fails r \<and> length (rq_body r) < max_upload then None else Some (take max_upload (rq_body r)))"

definition upload_type :: "request \<Rightarrow> string" where
  "upload_type r =
     (if rq_content_type r = '''' \<or> rq_content_type r = ''application/octet-stream''
      then detectContentType (rq_value r) else rq_content_type r)"

section \<open>The handlers\<close>

definition unavailable :: "writer \<Rightarrow> writer" where
  "unavailable = http_error ''{\"error\":\"binary storage backend unavailable\"}'' 503"

definition json_header :: "writer \<Rightarrow> writer" where
  "json_header = header_set ''Content-Type'' ''application/json''"

definition upload :: "'w binary_handler \<Rightarrow> (nat \<Rightarrow> asset_order) \<Rightarrow> time \<Rightarrow> time \<Rightarrow>
    request \<Rightarrow> 'w binary_state \<Rightarrow> writer \<Rightarrow> 'w binary_state outcome" where
  "upload h ord t_meta t_cache r s w =
    (if \<not> ready h then Returned s (unavailable w)
     else if rq_value r = '''' then Returned s (http_error ''{\"error\":\"filename required\"}'' 400 w)
     else case read_limited r of
       None \<Rightarrow> Returned s (http_error ''{\"error\":\"failed to read body\"}'' 400 w)
     | Some body \<Rightarrow>
         (let key = rq_value r; contentType = upload_type r; assetURL = ''/assets/'' @ key
          in case put_object (stores h) (minioBucket h) key body contentType (bs_world s) of
            (Inl err, w1) \<Rightarrow>
              Returned (s\<lparr>bs_world := w1\<rparr>)
                (http_error (''{\"error\":\"storage upload failed: '' @ err @ ''\"}'') 502 w)
          | (Inr sz, w1) \<Rightarrow>
              (let (_, w2) = redis_hset (stores h) (''asset:'' @ key)
                     [(''content_type'', contentType), (''size'', show_int sz), (''url'', assetURL),
                      (''uploaded_at'', show_int (t_meta div 1000000000))] w1;
                   (_, w3) = redis_sadd (stores h) ''assets:index'' key w2
               in case asset_set ord key \<lparr>a_data = body, a_contentType = contentType,
                         a_size = int (length body), a_cachedAt = t_cache\<rparr> (bs_cache s) of
                    None \<Rightarrow> Hangs
                  | Some cache \<Rightarrow>
                      Returned (s\<lparr>bs_cache := cache, bs_world := w3\<rparr>)
                        (write_body (''{\"status\":\"uploaded\",\"key\":\"'' @ key @ ''\",\"url\":\"'' @ assetURL @
                            ''\",\"size\":'' @ show_int sz @ '',\"content_type\":\"'' @ contentType @ ''\"}'')
                          (write_header 201 (json_header w))))))"

definition asset_headers :: "string \<Rightarrow> int \<Rightarrow> string \<Rightarrow> writer \<Rightarrow> writer" where
  "asset_headers contentType sz status w =
     header_set ''X-Cache-Status'' status
       (header_set ''Cache-Control'' ''public, max-age=86400''
         (header_set ''Content-Length'' (show_int sz)
           (header_set ''Content-Type'' contentType w)))"

definition serveAsset :: "'w binary_handler \<Rightarrow> (nat \<Rightarrow> asset_order) \<Rightarrow> time \<Rightarrow>
    request \<Rightarrow> 'w binary_state \<Rightarrow> writer \<Rightarrow> 'w binary_state outcome" where
  "serveAsset h ord t_cache r s w =
    (if \<not> ready h then Returned s (unavailable w)
     else if rq_value r = '''' then Returned s (http_error ''{\"error\":\"filename required\"}'' 400 w)
     else let filename = rq_value r; (cached, cache1) = asset_get filename (bs_cache s); s1 = s\<lparr>bs_cache := cache1\<rparr>
       in case cached of
         Some a \<Rightarrow> Returned s1 (write_body (a_data a) (asset_headers (a_contentType a) (a_size a) ''HIT'' w))
       | None \<Rightarrow>
           (let (obj, w1) = get_object (stores h) (minioBucket h) filename (bs_world s1); s2 = s1\<lparr>bs_world := w1\<rparr>
            in case obj of
              GetFails \<Rightarrow> Returned s2 (http_error ''{\"error\":\"not found\"}'' 404 w)
            | StatFails \<Rightarrow> Returned s2 (http_error ''{\"error\":\"not found\"}'' 404 w)
            | ReadFails \<Rightarrow> Returned s2 (http_error ''{\"error\":\"read failed\"}'' 500 w)
            | Object data ct sz \<Rightarrow>
                (case asset_set ord filename \<lparr>a_data = data, a_contentType = ct, a_size = sz,
                        a_cachedAt = t_cache\<rparr> (bs_cache s2) of
                   None \<Rightarrow> Hangs
                 | Some cache2 \<Rightarrow>
                     Returned (s2\<lparr>bs_cache := cache2\<rparr>)
                       (write_body data (asset_headers ct sz ''MISS'' w)))))"

definition field :: "string \<Rightarrow> (string \<times> string) list \<Rightarrow> string" where
  "field k m = (case map_of m k of None \<Rightarrow> '''' | Some v \<Rightarrow> v)"

definition getMeta :: "'w binary_handler \<Rightarrow> request \<Rightarrow> 'w binary_state \<Rightarrow> writer \<Rightarrow> 'w binary_state outcome" where
  "getMeta h r s w =
    (if \<not> has_redis h then Returned s (http_error ''{\"error\":\"metadata backend unavailable\"}'' 503 w)
     else if rq_value r = '''' then Returned s (http_error ''{\"error\":\"key required\"}'' 400 w)
     else case redis_hgetall (stores h) (''asset:'' @ rq_value r) (bs_world s) of
       (Some (f # fs), w1) \<Rightarrow>
         (let m = f # fs
          in Returned (s\<lparr>bs_world := w1\<rparr>)
            (write_body (''{\"key\":\"'' @ rq_value r @ ''\",\"content_type\":\"'' @ field ''content_type'' m @
                ''\",\"size\":'' @ field ''size'' m @ '',\"url\":\"'' @ field ''url'' m @
                ''\",\"uploaded_at\":'' @ field ''uploaded_at'' m @ ''}'')
              (json_header w)))
     | (_, w1) \<Rightarrow> Returned (s\<lparr>bs_world := w1\<rparr>) (http_error ''{\"error\":\"not found\"}'' 404 w))"

definition deleteAsset :: "'w binary_handler \<Rightarrow> request \<Rightarrow> 'w binary_state \<Rightarrow> writer \<Rightarrow> 'w binary_state outcome" where
  "deleteAsset h r s w =
    (if \<not> ready h then Returned s (unavailable w)
     else if rq_value r = '''' then Returned s (http_error ''{\"error\":\"key required\"}'' 400 w)
     else let key = rq_value r;
              (_, w1) = remove_object (stores h) (minioBucket h) key (bs_world s);
              (_, w2) = redis_del_key (stores h) (''asset:'' @ key) w1;
              (_, w3) = redis_srem (stores h) ''assets:index'' key w2
          in Returned (s\<lparr>bs_cache := asset_remove key (bs_cache s), bs_world := w3\<rparr>)
               (write_body (''{\"status\":\"deleted\",\"key\":\"'' @ key @ ''\"}'') (json_header w)))"

fun list_items :: "nat \<Rightarrow> string list \<Rightarrow> writer \<Rightarrow> writer" where
  "list_items i [] w = w"
| "list_items i (key # keys) w =
     list_items (Suc i) keys (write_body (''\"'' @ key @ ''\"'') (if 0 < i then write_body '','' w else w))"

definition listAssets :: "'w binary_handler \<Rightarrow> 'w binary_state \<Rightarrow> writer \<Rightarrow> 'w binary_state outcome" where
  "listAssets h s w =
    (if \<not> has_redis h then Returned s (http_error ''{\"error\":\"metadata backend unavailable\"}'' 503 w)
     else case redis_smembers (stores h) ''assets:index'' (bs_world s) of
       (None, w1) \<Rightarrow> Returned (s\<lparr>bs_world := w1\<rparr>) (http_error ''{\"error\":\"failed to list\"}'' 500 w)
     | (Some keys, w1) \<Rightarrow> Returned (s\<lparr>bs_world := w1\<rparr>)
         (write_body '']}'' (list_items 0 keys
           (write_body (''{\"count\":'' @ show_nat (length keys) @ '',\"assets\":['') (json_header w)))))"

section \<open>Lemmas\<close>

lemma asset_headers_sel [writer_simps]:
  "w_sent (asset_headers ct n st w) = w_sent w" "w_body (asset_headers ct n st w) = w_body w"
  "map_of (w_header (asset_headers ct n st w)) ''Content-Type'' = Some ct"
  "map_of (w_header (asset_headers ct n st w)) ''Content-Length'' = Some (show_int n)"
  "map_of (w_header (asset_headers ct n st w)) ''X-Cache-Status'' = Some st"
  by (simp_all add: asset_headers_def writer_simps)

definition served :: "writer \<Rightarrow> bytes \<Rightarrow> string \<Rightarrow> string \<Rightarrow> bool" where
  "served w data ct status \<longleftrightarrow> status_of w = 200 \<and> w_body w = data \<and>
     header_of w ''Content-Type'' = Some ct \<and> header_of w ''X-Cache-Status'' = Some status"

lemma served_fresh:
  "w_sent w = None \<Longrightarrow> w_body w = [] \<Longrightarrow> served (write_body data (asset_headers ct n st w)) data ct st"
  by (simp add: served_def response_of_def writer_simps)

lemmas served_new = served_fresh [OF new_writer_sel(2,3)]

lemma asset_get_cache [simp]:
  "asset_inv (snd (asset_get k c)) = asset_inv c" "fst (asset_get k' (snd (asset_get k c))) = fst (asset_get k' c)"
  by (simp_all add: asset_inv_def)

lemma serve_hit:
  assumes "ready h" and "rq_value r \<noteq> ''''" and "fst (asset_get (rq_value r) (bs_cache s)) = Some a"
  shows "serveAsset h ord t r s w =
    Returned (s\<lparr>bs_cache := snd (asset_get (rq_value r) (bs_cache s))\<rparr>)
      (write_body (a_data a) (asset_headers (a_contentType a) (a_size a) ''HIT'' w))"
  using assms by (simp add: serveAsset_def Let_def split_beta)

lemma serve_miss:
  assumes "ready h" and "rq_value r \<noteq> ''''" and "fst (asset_get (rq_value r) (bs_cache s)) = None"
    and "get_object (stores h) (minioBucket h) (rq_value r) (bs_world s) = (Object data ct n, w1)"
    and "asset_inv (bs_cache s)" and "range_order ord"
  obtains s' where "serveAsset h ord t r s w =
      Returned s' (write_body data (asset_headers ct n ''MISS'' w))"
    "bs_world s' = w1" "asset_inv (bs_cache s')"
    "fst (asset_get (rq_value r) (bs_cache s')) =
      Some \<lparr>a_data = data, a_contentType = ct, a_size = n, a_cachedAt = t\<rparr>"
proof -
  let ?a = "\<lparr>a_data = data, a_contentType = ct, a_size = n, a_cachedAt = t\<rparr>"
  let ?c = "snd (asset_get (rq_value r) (bs_cache s))"
  have "asset_inv ?c" using assms(5) by simp
  then obtain c' where "asset_set ord (rq_value r) ?a ?c = Some c'" "asset_inv c'"
    "map_of (ac_items c') (rq_value r) = Some ?a"
    using assms(6,2) by (rule asset_set_Some)
  then show thesis
    using assms(1-4) that [of "s\<lparr>bs_cache := c', bs_world := w1\<rparr>"]
    by (simp add: serveAsset_def Let_def split_beta)
qed

lemma upload_ok:
  assumes "ready h" and "rq_value r \<noteq> ''''" and "read_limited r = Some body"
    and "put_object (stores h) (minioBucket h) (rq_value r) body (upload_type r) (bs_world s) = (Inr n, w1)"
    and "asset_inv (bs_cache s)" and "range_order ord" and "w_sent w = None"
  obtains s' w' where "upload h ord t1 t2 r s w = Returned s' w'" "status_of w' = 201"
    "asset_inv (bs_cache s')"
    "fst (asset_get (rq_value r) (bs_cache s')) =
      Some \<lparr>a_data = body, a_contentType = upload_type r, a_size = int (length body), a_cachedAt = t2\<rparr>"
proof -
  let ?a = "\<lparr>a_data = body, a_contentType = upload_type r, a_size = int (length body), a_cachedAt = t2\<rparr>"
  obtain c' where c': "asset_set ord (rq_value r) ?a (bs_cache s) = Some c'" "asset_inv c'"
    "map_of (ac_items c') (rq_value r) = Some ?a"
    using assms(5,6,2) by (rule asset_set_Some)
  obtain s' w' where "upload h ord t1 t2 r s w = Returned s' w'" "bs_cache s' = c'"
    "status_of w' = 201"
    using assms(1-4,7) c'(1)
    by (auto simp: upload_def Let_def split_beta json_header_def response_of_def writer_simps)
  with c' show thesis using that by simp
qed

section \<open>Stores for the witnesses\<close>

text \<open>An object store that is a map, whose removal works or not, and a metadata store without data.\<close>

definition mem_backend :: "bool \<Rightarrow> (string \<Rightarrow> (bytes \<times> string) option) backend" where
  "mem_backend removes =
     \<lparr>put_object = \<lambda>b k d ct m. (Inr (int (length d)), m(k \<mapsto> (d, ct))),
      get_object = \<lambda>b k m. (case m k of None \<Rightarrow> StatFails | Some (d, ct) \<Rightarrow> Object d ct (int (length d)), m),
      remove_object = \<lambda>b k m. if removes then (True, m(k := None)) else (False, m),
      redis_hset = \<lambda>k fs m. (True, m), redis_sadd = \<lambda>k x m. (True, m),
      redis_hgetall = \<lambda>k m. (None, m), redis_del_key = \<lambda>k m. (True, m),
      redis_srem = \<lambda>k x m. (True, m), redis_smembers = \<lambda>k m. (Some [], m)\<rparr>"

definition mem_handler :: "bool \<Rightarrow> (string \<Rightarrow> (bytes \<times> string) option) binary_handler" where
  "mem_handler removes = \<lparr>has_minio = True, has_redis = True, minioBucket = ''assets'', stores = mem_backend removes\<rparr>"

definition empty_state :: "(string \<Rightarrow> (bytes \<times> string) option) \<Rightarrow> (string \<Rightarrow> (bytes \<times> string) option) binary_state" where
  "empty_state m = \<lparr>bs_cache = newAssetCache 9, bs_world = m\<rparr>"

definition file_request :: "bytes \<Rightarrow> request" where
  "file_request body = \<lparr>rq_method = ''POST'', rq_path = ''/upload/f.js'', rq_value = ''f.js'', rq_content_type = '''',
     rq_body = body, rq_body_fails = False\<rparr>"

lemma mem_handler_ready: "ready (mem_handler b)" "rq_value (file_request body) = ''f.js''"
  "rq_value (file_request body) \<noteq> ''''"
  by (simp_all add: ready_def mem_handler_def file_request_def)

lemma empty_state_inv: "asset_inv (bs_cache (empty_state m))"
  "fst (asset_get k (bs_cache (empty_state m))) = None" "bs_world (empty_state m) = m"
  by (simp_all add: empty_state_def asset_inv_def)

lemma mem_put: "put_object (stores (mem_handler b)) bk k d ct m = (Inr (int (length d)), m(k \<mapsto> (d, ct)))"
  and mem_get: "m k = Some (d, ct) \<Longrightarrow>
    get_object (stores (mem_handler b)) bk k m = (Object d ct (int (length d)), m)"
  by (simp_all add: mem_handler_def mem_backend_def)

lemma file_type: "upload_type (file_request body) = ''application/javascript''"
  unfolding upload_type_def by (simp add: file_request_def) code_simp

lemma file_read: "length body \<le> max_upload \<Longrightarrow> read_limited (file_request body) = Some body"
  by (simp add: read_limited_def file_request_def)

section \<open>Properties\<close>

text \<open>Upload, then serve.  Once the object store has taken the body, the upload answers 201 and the
  next serve of the name answers 200 from memory, with the body read, the type decided at the upload,
  and no call to the stores; whatever the stores do.\<close>

theorem upload_then_serve:
  assumes "ready h" and "rq_value r \<noteq> ''''" and "read_limited r = Some body"
    and "put_object (stores h) (minioBucket h) (rq_value r) body (upload_type r) (bs_world s) = (Inr n, w1)"
    and "asset_inv (bs_cache s)" and "range_order ord" and "rq_value r' = rq_value r"
  shows "\<exists>s' w' s'' w''. upload h ord t1 t2 r s new_writer = Returned s' w' \<and> status_of w' = 201 \<and>
    serveAsset h ord' t3 r' s' new_writer = Returned s'' w'' \<and>
    served w'' body (upload_type r) ''HIT'' \<and> bs_world s'' = bs_world s'"
proof (rule upload_ok [OF assms(1-6) new_writer_sel(2), of t1 t2])
  fix s' w'
  assume up: "upload h ord t1 t2 r s new_writer = Returned s' w'" "status_of w' = 201"
    and get: "fst (asset_get (rq_value r) (bs_cache s')) =
      Some \<lparr>a_data = body, a_contentType = upload_type r, a_size = int (length body), a_cachedAt = t2\<rparr>"
  have ne: "rq_value r' \<noteq> ''''" using assms(2,7) by simp
  show ?thesis
    using up serve_hit [OF assms(1) ne, where s = s' and ord = ord' and t = t3 and w = new_writer] get assms(7)
    by (auto simp: served_new)
qed

theorem upload_then_serve_witness:
  "\<exists>s' w' s'' w''. upload (mem_handler True) (\<lambda>i m. m) 1 2 (file_request ''alert(1)'') (empty_state Map.empty) new_writer = Returned s' w' \<and>
    status_of w' = 201 \<and>
    serveAsset (mem_handler True) (\<lambda>i m. m) 3 (file_request []) s' new_writer = Returned s'' w'' \<and>
    served w'' ''alert(1)'' ''application/javascript'' ''HIT'' \<and> bs_world s'' = bs_world s'"
proof -
  have read: "read_limited (file_request ''alert(1)'') = Some ''alert(1)''"
    by (rule file_read) (simp add: max_upload_def)
  show ?thesis
    using upload_then_serve [OF mem_handler_ready(1) _ read mem_put empty_state_inv(1) same_order,
        where r' = "file_request []" and ?t1.0 = 1 and ?t2.0 = 2 and ord' = "\<lambda>i m. m" and ?t3.0 = 3] by (simp add: mem_handler_ready(2) file_type)
qed

text \<open>A miss fills the cache.  When the object store delivers the object, serve answers with it and
  \<open>MISS\<close>, and the next serve of the name answers the same with \<open>HIT\<close>, without asking the store.\<close>

theorem serve_twice:
  assumes "ready h" and "rq_value r \<noteq> ''''" and "fst (asset_get (rq_value r) (bs_cache s)) = None"
    and "get_object (stores h) (minioBucket h) (rq_value r) (bs_world s) = (Object data ct n, w1)"
    and "asset_inv (bs_cache s)" and "range_order ord"
  shows "\<exists>s' w' s'' w''. serveAsset h ord t r s new_writer = Returned s' w' \<and> served w' data ct ''MISS'' \<and>
    serveAsset h ord' t' r s' new_writer = Returned s'' w'' \<and> served w'' data ct ''HIT'' \<and>
    bs_world s'' = bs_world s'"
proof (rule serve_miss [OF assms, of t new_writer])
  fix s'
  assume miss: "serveAsset h ord t r s new_writer =
      Returned s' (write_body data (asset_headers ct n ''MISS'' new_writer))"
    and get: "fst (asset_get (rq_value r) (bs_cache s')) =
      Some \<lparr>a_data = data, a_contentType = ct, a_size = n, a_cachedAt = t\<rparr>"
  from serve_hit [OF assms(1,2) get, of ord' t' new_writer] miss show ?thesis
    by (auto simp: served_new)
qed

theorem serve_twice_witness:
  "\<exists>s' w'. serveAsset (mem_handler True) (\<lambda>i m. m) 1 (file_request []) (empty_state [''f.js'' \<mapsto> (''x'', ''t'')]) new_writer = Returned s' w' \<and>
    served w' ''x'' ''t'' ''MISS''"
proof -
  let ?m = "[''f.js'' \<mapsto> (''x'', ''t'')]"
  have g: "get_object (stores (mem_handler True)) (minioBucket (mem_handler True)) (rq_value (file_request []))
      (bs_world (empty_state ?m)) = (Object ''x'' ''t'' 1, ?m)"
    by (simp add: mem_get mem_handler_ready empty_state_inv)
  show ?thesis
    using serve_twice [OF mem_handler_ready(1) _ empty_state_inv(2) g empty_state_inv(1) same_order,
        where t = 1 and t' = 2 and ord' = "\<lambda>i m. m"]
    by (auto simp: mem_handler_ready(2))
qed

text \<open>\<open>deleteAsset\<close> answers \<open>deleted\<close> even when the object store refuses.  If the object is still
  there, the next serve brings it back, into the cache too.\<close>

theorem delete_can_resurrect:
  assumes "ready h" and "rq_value r \<noteq> ''''" and "asset_inv (bs_cache s)" and "range_order ord"
    and "deleteAsset h r s new_writer = Returned s' w'"
    and "get_object (stores h) (minioBucket h) (rq_value r) (bs_world s') = (Object data ct n, w1)"
  shows "status_of w' = 200 \<and> w_body w' = ''{\"status\":\"deleted\",\"key\":\"'' @ rq_value r @ ''\"}'' \<and>
    fst (asset_get (rq_value r) (bs_cache s')) = None \<and>
    (\<exists>s'' w''. serveAsset h ord t r s' new_writer = Returned s'' w'' \<and> served w'' data ct ''MISS'' \<and>
      fst (asset_get (rq_value r) (bs_cache s'')) = Some \<lparr>a_data = data, a_contentType = ct, a_size = n, a_cachedAt = t\<rparr>)"
proof -
  have cache: "bs_cache s' = asset_remove (rq_value r) (bs_cache s)"
    and resp: "status_of w' = 200" "w_body w' = ''{\"status\":\"deleted\",\"key\":\"'' @ rq_value r @ ''\"}''"
    using assms(1,2,5)
    by (auto simp: deleteAsset_def Let_def split_beta json_header_def response_of_def writer_simps)
  have none: "fst (asset_get (rq_value r) (bs_cache s')) = None" by (simp add: cache asset_remove_items)
  have inv: "asset_inv (bs_cache s')" using assms(3) by (simp add: cache asset_remove_inv)
  obtain s'' where "serveAsset h ord t r s' new_writer =
      Returned s'' (write_body data (asset_headers ct n ''MISS'' new_writer))"
    "fst (asset_get (rq_value r) (bs_cache s'')) = Some \<lparr>a_data = data, a_contentType = ct, a_size = n, a_cachedAt = t\<rparr>"
    using serve_miss [OF assms(1,2) none assms(6) inv assms(4)] by metis
  with resp none show ?thesis by (auto simp: served_new)
qed

theorem delete_can_resurrect_witness:
  "\<exists>s' w' s'' w''. deleteAsset (mem_handler False) (file_request []) (empty_state [''f.js'' \<mapsto> (''x'', ''t'')]) new_writer = Returned s' w' \<and>
    status_of w' = 200 \<and>
    serveAsset (mem_handler False) (\<lambda>i m. m) 1 (file_request []) s' new_writer = Returned s'' w'' \<and>
    served w'' ''x'' ''t'' ''MISS''"
proof -
  let ?s = "empty_state [''f.js'' \<mapsto> (''x'', ''t'')]"
  obtain s' w' where d: "deleteAsset (mem_handler False) (file_request []) ?s new_writer = Returned s' w'"
    and "bs_world s' = [''f.js'' \<mapsto> (''x'', ''t'')]"
    by (simp add: deleteAsset_def mem_handler_ready empty_state_inv)
      (simp add: mem_handler_def mem_backend_def Let_def)
  then have g: "get_object (stores (mem_handler False)) (minioBucket (mem_handler False)) (rq_value (file_request []))
      (bs_world s') = (Object ''x'' ''t'' 1, [''f.js'' \<mapsto> (''x'', ''t'')])"
    by (simp add: mem_get mem_handler_ready)
  show ?thesis
    using delete_can_resurrect [OF mem_handler_ready(1) _ empty_state_inv(1) same_order d g, of 1] d
    by (auto simp: mem_handler_ready(2))
qed

text \<open>The handlers return.  From a cache that keeps its invariant, upload and serve return, without
  a panic, and keep it, whatever the stores answer and the request holds.\<close>

theorem handlers_return:
  assumes "asset_inv (bs_cache s)" and "range_order ord"
  shows "(\<exists>s' w'. upload h ord t1 t2 r s w = Returned s' w' \<and> asset_inv (bs_cache s')) \<and>
    (\<exists>s' w'. serveAsset h ord t2 r s w = Returned s' w' \<and> asset_inv (bs_cache s'))"
proof
  have set: "\<exists>c'. asset_set ord (rq_value r) a c = Some c' \<and> asset_inv c'"
    if "rq_value r \<noteq> ''''" "asset_inv c" for a c
    using asset_set_Some [OF that(2) assms(2) that(1)] by metis
  show "\<exists>s' w'. upload h ord t1 t2 r s w = Returned s' w' \<and> asset_inv (bs_cache s')"
    using set [OF _ assms(1)] assms(1)
    by (auto simp: upload_def Let_def split_beta split: option.split sum.split) (metis option.distinct(1) option.inject)+
  show "\<exists>s' w'. serveAsset h ord t2 r s w = Returned s' w' \<and> asset_inv (bs_cache s')"
    using set [of "snd (asset_get (rq_value r) (bs_cache s))"] assms(1)
    by (auto simp: serveAsset_def Let_def split_beta split: option.split object_result.split) (metis option.distinct(1) option.inject)+
qed

theorem handlers_return_witness:
  "\<exists>s' w'. serveAsset (mem_handler True) (\<lambda>i m. m) 1 (file_request []) (empty_state Map.empty) new_writer = Returned s' w'"
  using handlers_return [OF empty_state_inv(1) same_order] by metis

text \<open>An upload larger than 100 MiB is cut off silently: the first 100 MiB are stored and cached, and
  the client is told 201.\<close>

theorem upload_truncates:
  assumes "ready h" and "rq_value r \<noteq> ''''" and "max_upload < length (rq_body r)"
    and "put_object (stores h) (minioBucket h) (rq_value r) (take max_upload (rq_body r)) (upload_type r) (bs_world s) = (Inr n, w1)"
    and "asset_inv (bs_cache s)" and "range_order ord"
  shows "\<exists>s' w' a. upload h ord t1 t2 r s new_writer = Returned s' w' \<and> status_of w' = 201 \<and>
    fst (asset_get (rq_value r) (bs_cache s')) = Some a \<and> a_data a = take max_upload (rq_body r) \<and>
    a_size a < int (length (rq_body r))"
proof -
  have "read_limited r = Some (take max_upload (rq_body r))" using assms(3) by (simp add: read_limited_def)
  from upload_ok [OF assms(1,2) this assms(4-6) new_writer_sel(2), of t1 t2] assms(3) show ?thesis
    by (metis cached_asset.select_convs(1,3) length_take min.absorb2 nless_le of_nat_less_iff)
qed

theorem upload_truncates_witness:
  "\<exists>s' w'. upload (mem_handler True) (\<lambda>i m. m) 1 2 (file_request (replicate (Suc max_upload) CHR ''x'')) (empty_state Map.empty) new_writer = Returned s' w' \<and>
    status_of w' = 201"
proof -
  let ?r = "file_request (replicate (Suc max_upload) CHR ''x'')"
  have "max_upload < length (rq_body ?r)" by (simp add: file_request_def)
  from upload_truncates [OF mem_handler_ready(1) mem_handler_ready(3) this mem_put empty_state_inv(1) same_order,
      where ?t1.0 = 1 and ?t2.0 = 2, of True Map.empty]
  show ?thesis
    unfolding mem_handler_ready(2) by (elim exE conjE) (intro exI conjI)
qed

end
