(* ===== verification/Asset_Concurrent.thy ===== *)
theory Asset_Concurrent
  imports Binary_Handler
begin

text \<open>
  Concurrent requests to the asset handlers of \<open>internal/binaryhandler/handler.go\<close>: \<open>upload\<close>, \<open>serveAsset\<close> and
  \<open>deleteAsset\<close> as goroutines.  An operation of the asset cache runs under its lock and is one step; so is each
  call of a store, whose inner order is not the program's; any goroutine may move next.  The sequential
  handlers of \<open>Binary_Handler\<close> are the goroutines that are not interrupted.
\<close>

section \<open>Goroutines\<close>

datatype asset_call = CallUpload | CallServe | CallDelete

text \<open>Where a goroutine is: before the call that the name of the constructor says.\<close>

datatype asset_pc =
    Begin asset_call
  | PutObject bytes
  | HSetMeta bytes int
  | SAddIndex bytes int
  | CacheUpload bytes int
  | CacheLookup
  | GetObject
  | CacheFill bytes string int
  | RemoveObject
  | DelMeta
  | SRemIndex
  | CacheRemove
  | Replied writer

record 'w asset_herd =
  ah_state :: "'w binary_state"
  ah_threads :: "(request \<times> asset_pc) list"

definition ah_go :: "nat \<Rightarrow> asset_pc \<Rightarrow> 'w binary_state \<Rightarrow> 'w asset_herd \<Rightarrow> 'w asset_herd" where
  "ah_go t pc b s = s\<lparr>ah_state := b, ah_threads := (ah_threads s)[t := (fst (ah_threads s ! t), pc)]\<rparr>"

section \<open>Steps\<close>

text \<open>The checks before the first call.\<close>

definition asset_begin :: "'w binary_handler \<Rightarrow> asset_call \<Rightarrow> request \<Rightarrow> writer \<Rightarrow> asset_pc" where
  "asset_begin h c r w =
     (if \<not> ready h then Replied (unavailable w)
      else case c of
        CallUpload \<Rightarrow>
          if rq_value r = '''' then Replied (http_error ''{\"error\":\"filename required\"}'' 400 w)
          else (case read_limited r of
                  None \<Rightarrow> Replied (http_error ''{\"error\":\"failed to read body\"}'' 400 w)
                | Some body \<Rightarrow> PutObject body)
      | CallServe \<Rightarrow>
          if rq_value r = '''' then Replied (http_error ''{\"error\":\"filename required\"}'' 400 w) else CacheLookup
      | CallDelete \<Rightarrow>
          if rq_value r = '''' then Replied (http_error ''{\"error\":\"key required\"}'' 400 w) else RemoveObject)"

text \<open>A step of goroutine \<open>t\<close> at the time \<open>now\<close>, in the order \<open>ord\<close> of the map; its answers go to writers in the
  state \<open>w\<close>.  \<open>None\<close>: it has replied, or its eviction loop does not end.\<close>

definition asset_step :: "'w binary_handler \<Rightarrow> (nat \<Rightarrow> asset_order) \<Rightarrow> time \<Rightarrow> writer \<Rightarrow> nat \<Rightarrow> 'w asset_herd \<Rightarrow> 'w asset_herd option" where
  "asset_step h ord now w t s =
    (if length (ah_threads s) \<le> t then None
     else let (r, pc) = ah_threads s ! t; key = rq_value r; b = ah_state s; url = ''/assets/'' @ key in
     case pc of
       Begin c \<Rightarrow> Some (ah_go t (asset_begin h c r w) b s)
     | PutObject body \<Rightarrow>
         (case put_object (stores h) (minioBucket h) key body (upload_type r) (bs_world b) of
            (Inl err, w1) \<Rightarrow> Some (ah_go t (Replied (http_error (''{\"error\":\"storage upload failed: '' @ err @ ''\"}'') 502 w)) (b\<lparr>bs_world := w1\<rparr>) s)
          | (Inr sz, w1) \<Rightarrow> Some (ah_go t (HSetMeta body sz) (b\<lparr>bs_world := w1\<rparr>) s))
     | HSetMeta body sz \<Rightarrow>
         (let (_, w1) = redis_hset (stores h) (''asset:'' @ key)
                [(''content_type'', upload_type r), (''size'', show_int sz), (''url'', url), (''uploaded_at'', show_int (now div 1000000000))] (bs_world b)
          in Some (ah_go t (SAddIndex body sz) (b\<lparr>bs_world := w1\<rparr>) s))
     | SAddIndex body sz \<Rightarrow>
         (let (_, w1) = redis_sadd (stores h) ''assets:index'' key (bs_world b)
          in Some (ah_go t (CacheUpload body sz) (b\<lparr>bs_world := w1\<rparr>) s))
     | CacheUpload body sz \<Rightarrow>
         (case asset_set ord key \<lparr>a_data = body, a_contentType = upload_type r, a_size = int (length body), a_cachedAt = now\<rparr> (bs_cache b) of
            None \<Rightarrow> None
          | Some cache \<Rightarrow> Some (ah_go t
              (Replied (write_body (''{\"status\":\"uploaded\",\"key\":\"'' @ key @ ''\",\"url\":\"'' @ url @
                  ''\",\"size\":'' @ show_int sz @ '',\"content_type\":\"'' @ upload_type r @ ''\"}'')
                (write_header 201 (json_header w)))) (b\<lparr>bs_cache := cache\<rparr>) s))
     | CacheLookup \<Rightarrow>
         (let (cached, cache) = asset_get key (bs_cache b)
          in Some (ah_go t (case cached of
                Some a \<Rightarrow> Replied (write_body (a_data a) (asset_headers (a_contentType a) (a_size a) ''HIT'' w))
              | None \<Rightarrow> GetObject) (b\<lparr>bs_cache := cache\<rparr>) s))
     | GetObject \<Rightarrow>
         (let (obj, w1) = get_object (stores h) (minioBucket h) key (bs_world b)
          in Some (ah_go t (case obj of
                GetFails \<Rightarrow> Replied (http_error ''{\"error\":\"not found\"}'' 404 w)
              | StatFails \<Rightarrow> Replied (http_error ''{\"error\":\"not found\"}'' 404 w)
              | ReadFails \<Rightarrow> Replied (http_error ''{\"error\":\"read failed\"}'' 500 w)
              | Object data ct sz \<Rightarrow> CacheFill data ct sz) (b\<lparr>bs_world := w1\<rparr>) s))
     | CacheFill data ct sz \<Rightarrow>
         (case asset_set ord key \<lparr>a_data = data, a_contentType = ct, a_size = sz, a_cachedAt = now\<rparr> (bs_cache b) of
            None \<Rightarrow> None
          | Some cache \<Rightarrow> Some (ah_go t (Replied (write_body data (asset_headers ct sz ''MISS'' w))) (b\<lparr>bs_cache := cache\<rparr>) s))
     | RemoveObject \<Rightarrow>
         (let (_, w1) = remove_object (stores h) (minioBucket h) key (bs_world b)
          in Some (ah_go t DelMeta (b\<lparr>bs_world := w1\<rparr>) s))
     | DelMeta \<Rightarrow>
         (let (_, w1) = redis_del_key (stores h) (''asset:'' @ key) (bs_world b)
          in Some (ah_go t SRemIndex (b\<lparr>bs_world := w1\<rparr>) s))
     | SRemIndex \<Rightarrow>
         (let (_, w1) = redis_srem (stores h) ''assets:index'' key (bs_world b)
          in Some (ah_go t CacheRemove (b\<lparr>bs_world := w1\<rparr>) s))
     | CacheRemove \<Rightarrow>
         Some (ah_go t (Replied (write_body (''{\"status\":\"deleted\",\"key\":\"'' @ key @ ''\"}'') (json_header w)))
           (b\<lparr>bs_cache := asset_remove key (bs_cache b)\<rparr>) s)
     | Replied w' \<Rightarrow> None)"

text \<open>A schedule: which goroutine moves, when, and the order of the map.\<close>

fun asset_run :: "'w binary_handler \<Rightarrow> writer \<Rightarrow> (nat \<times> time \<times> (nat \<Rightarrow> asset_order)) list \<Rightarrow> 'w asset_herd \<Rightarrow> 'w asset_herd option" where
  "asset_run h w [] s = Some s"
| "asset_run h w ((t, now, ord) # ops) s =
     (case asset_step h ord now w t s of None \<Rightarrow> None | Some s' \<Rightarrow> asset_run h w ops s')"

definition asset_herd_init :: "'w binary_state \<Rightarrow> (request \<times> asset_call) list \<Rightarrow> 'w asset_herd" where
  "asset_herd_init b calls = \<lparr>ah_state = b, ah_threads = map (\<lambda>(r, c). (r, Begin c)) calls\<rparr>"

lemma ah_go_sel [simp]:
  "ah_state (ah_go t pc b s) = b" "length (ah_threads (ah_go t pc b s)) = length (ah_threads s)"
  "t < length (ah_threads s) \<Longrightarrow> ah_threads (ah_go t pc b s) ! t = (fst (ah_threads s ! t), pc)"
  "u \<noteq> t \<Longrightarrow> ah_threads (ah_go t pc b s) ! u = ah_threads s ! u"
  by (simp_all add: ah_go_def)

lemma ah_go_go [simp]: "t < length (ah_threads s) \<Longrightarrow> ah_go t pc' b' (ah_go t pc b s) = ah_go t pc' b' s"
  by (simp add: ah_go_def)

lemma asset_run_append:
  "asset_run h w (xs @ ys) s = (case asset_run h w xs s of None \<Rightarrow> None | Some s' \<Rightarrow> asset_run h w ys s')"
  by (induction xs arbitrary: s) (auto split: option.splits)

lemma binary_state_swap: "b\<lparr>bs_world := x, bs_cache := c\<rparr> = b\<lparr>bs_cache := c, bs_world := x\<rparr>"
  by simp

section \<open>A goroutine on its own\<close>

definition sequential :: "'w binary_handler \<Rightarrow> (nat \<Rightarrow> asset_order) \<Rightarrow> time \<Rightarrow> time \<Rightarrow> asset_call \<Rightarrow> request \<Rightarrow> 'w binary_state \<Rightarrow> writer \<Rightarrow>
    'w binary_state outcome" where
  "sequential h ord t_meta t_cache c r b w =
     (case c of CallUpload \<Rightarrow> upload h ord t_meta t_cache r b w | CallServe \<Rightarrow> serveAsset h ord t_cache r b w
        | CallDelete \<Rightarrow> deleteAsset h r b w)"

text \<open>The goroutines of the three handlers past their checks.\<close>

lemma asset_begin_cases:
  assumes "asset_begin h c r w = pc"
  shows "(\<exists>w'. pc = Replied w') \<or> ready h \<and> rq_value r \<noteq> '''' \<and>
    (c = CallUpload \<and> (\<exists>body. read_limited r = Some body \<and> pc = PutObject body) \<or> c = CallServe \<and> pc = CacheLookup \<or>
     c = CallDelete \<and> pc = RemoveObject)"
  using assms by (auto simp: asset_begin_def split: if_splits asset_call.splits option.splits)

lemma upload_alone:
  assumes "t < length (ah_threads s)" and "ah_threads s ! t = (r, PutObject body)"
    and "ready h" and "rq_value r \<noteq> ''''" and "read_limited r = Some body"
    and "upload h ord t_meta t_cache r (ah_state s) w = Returned b' w'"
  shows "\<exists>nows. asset_run h w (map (\<lambda>now. (t, now, ord)) nows) s = Some (ah_go t (Replied w') b' s)"
proof -
  note step = binary_state_swap asset_step_def upload_def Let_def split_beta
  obtain res w1 where put: "put_object (stores h) (minioBucket h) (rq_value r) body (upload_type r) (bs_world (ah_state s)) = (res, w1)"
    by (rule prod.exhaust)
  show ?thesis
  proof (cases res)
    case (Inl err)
    with assms put show ?thesis by (intro exI [of _ "[t_cache]"]) (auto simp: step)
  next
    case (Inr sz)
    with assms put obtain cache where "asset_set ord (rq_value r)
        \<lparr>a_data = body, a_contentType = upload_type r, a_size = int (length body), a_cachedAt = t_cache\<rparr> (bs_cache (ah_state s)) = Some cache"
      by (auto simp: step split: option.splits)
    with assms put Inr show ?thesis
      by (intro exI [of _ "[t_meta, t_meta, t_meta, t_cache]"]) (auto simp: step)
  qed
qed

lemma serve_alone:
  assumes "t < length (ah_threads s)" and "ah_threads s ! t = (r, CacheLookup)" and "ready h" and "rq_value r \<noteq> ''''"
    and "serveAsset h ord t_cache r (ah_state s) w = Returned b' w'"
  shows "\<exists>nows. asset_run h w (map (\<lambda>now. (t, now, ord)) nows) s = Some (ah_go t (Replied w') b' s)"
proof -
  note step = binary_state_swap asset_step_def serveAsset_def Let_def split_beta
  obtain obj w1 where get: "get_object (stores h) (minioBucket h) (rq_value r) (bs_world (ah_state s)) = (obj, w1)"
    by (rule prod.exhaust)
  show ?thesis
  proof (cases "fst (asset_get (rq_value r) (bs_cache (ah_state s)))")
    case (Some a)
    with assms show ?thesis by (intro exI [of _ "[t_cache]"]) (auto simp: step)
  next
    case None
    show ?thesis
    proof (cases "\<exists>data ct sz. obj = Object data ct sz")
      case True
      with assms None get show ?thesis
        by (intro exI [of _ "[t_cache, t_cache, t_cache]"]) (auto simp: step split: option.splits)
    next
      case False
      with assms None get show ?thesis
        by (intro exI [of _ "[t_cache, t_cache]"]) (cases obj; auto simp: step)
    qed
  qed
qed

lemma delete_alone:
  assumes "t < length (ah_threads s)" and "ah_threads s ! t = (r, RemoveObject)" and "ready h" and "rq_value r \<noteq> ''''"
    and "deleteAsset h r (ah_state s) w = Returned b' w'"
  shows "\<exists>nows. asset_run h w (map (\<lambda>now. (t, now, ord)) nows) s = Some (ah_go t (Replied w') b' s)"
  using assms by (intro exI [of _ "[0, 0, 0, 0]"]) (auto simp: binary_state_swap asset_step_def deleteAsset_def Let_def split_beta)

text \<open>C21: The sequential handlers of \<open>Binary_Handler\<close> are what a goroutine does when it is not interrupted: its steps,
  one after the other, take the state and the reply to what the handler returns, and leave the other
  goroutines where they were.\<close>

theorem uninterrupted_asset:
  assumes "t < length (ah_threads s)" and "ah_threads s ! t = (r, Begin c)"
    and "sequential h ord t_meta t_cache c r (ah_state s) w = Returned b' w'"
  shows "\<exists>nows. asset_run h w (map (\<lambda>now. (t, now, ord)) nows) s = Some (ah_go t (Replied w') b' s)"
proof -
  let ?pc = "asset_begin h c r w"
  define s1 where "s1 = ah_go t ?pc (ah_state s) s"
  have start: "asset_step h ord now w t s = Some s1" for now using assms(1,2) by (simp add: asset_step_def s1_def)
  have s1: "t < length (ah_threads s1)" "ah_threads s1 ! t = (r, ?pc)" "ah_state s1 = ah_state s"
    "ah_go t (Replied w') b' s1 = ah_go t (Replied w') b' s" using assms(1,2) by (simp_all add: s1_def)
  have "\<exists>nows. asset_run h w (map (\<lambda>now. (t, now, ord)) nows) s1 = Some (ah_go t (Replied w') b' s1)"
    using asset_begin_cases [of h c r w ?pc, OF refl]
  proof (elim disjE exE conjE)
    fix w1 assume "?pc = Replied w1"
    with assms(3) have "w' = w1 \<and> b' = ah_state s"
      by (auto simp: asset_begin_def sequential_def upload_def serveAsset_def deleteAsset_def split: if_splits asset_call.splits option.splits)
    with \<open>?pc = Replied w1\<close> show ?thesis using assms(1) by (intro exI [of _ "[]"]) (simp add: s1_def)
  next
    fix body assume "c = CallUpload" "ready h" "rq_value r \<noteq> ''''" "read_limited r = Some body" "?pc = PutObject body"
    with assms(3) s1 show ?thesis by (intro upload_alone [where body = body]) (simp_all add: sequential_def)
  next
    assume "c = CallServe" "ready h" "rq_value r \<noteq> ''''" "?pc = CacheLookup"
    with assms(3) s1 show ?thesis by (intro serve_alone) (simp_all add: sequential_def)
  next
    assume "c = CallDelete" "ready h" "rq_value r \<noteq> ''''" "?pc = RemoveObject"
    with assms(3) s1 show ?thesis by (intro delete_alone) (simp_all add: sequential_def)
  qed
  then obtain nows where "asset_run h w (map (\<lambda>now. (t, now, ord)) nows) s1 = Some (ah_go t (Replied w') b' s)" using s1(4) by auto
  then show ?thesis by (intro exI [of _ "t_cache # nows"]) (simp add: start)
qed

section \<open>Invariant and progress\<close>

fun asset_work :: "asset_pc \<Rightarrow> nat" where
  "asset_work (Begin c) = 5" | "asset_work (PutObject body) = 4" | "asset_work (HSetMeta body n) = 3" | "asset_work (SAddIndex body n) = 2"
| "asset_work (CacheUpload body n) = 1" | "asset_work CacheLookup = 3" | "asset_work GetObject = 2" | "asset_work (CacheFill d ct n) = 1"
| "asset_work RemoveObject = 4" | "asset_work DelMeta = 3" | "asset_work SRemIndex = 2" | "asset_work CacheRemove = 1"
| "asset_work (Replied w) = 0"

text \<open>Past the checks, a goroutine has a key.\<close>

fun thread_ok :: "request \<times> asset_pc \<Rightarrow> bool" where
  "thread_ok (r, Begin c) \<longleftrightarrow> True"
| "thread_ok (r, Replied w) \<longleftrightarrow> True"
| "thread_ok (r, _) \<longleftrightarrow> rq_value r \<noteq> ''''"

definition herd_ok :: "'w asset_herd \<Rightarrow> bool" where
  "herd_ok s \<longleftrightarrow> asset_inv (bs_cache (ah_state s)) \<and> list_all thread_ok (ah_threads s)"

definition asset_work_left :: "'w asset_herd \<Rightarrow> nat" where
  "asset_work_left s = sum_list (map (asset_work \<circ> snd) (ah_threads s))"

lemma asset_begin_ok: "thread_ok (r, asset_begin h c r w)" "asset_work (asset_begin h c r w) < asset_work (Begin c)"
  by (auto simp: asset_begin_def split: asset_call.split option.split)

lemma asset_step_moves:
  assumes "asset_step h ord now w t s = Some s'" and "ah_threads s ! t = (r, pc)" and "herd_ok s" and "range_order ord"
  obtains pc' where "s' = ah_go t pc' (ah_state s') s" "thread_ok (r, pc')" "asset_work pc' < asset_work pc"
    "asset_inv (bs_cache (ah_state s'))" "t < length (ah_threads s)"
proof -
  have t: "t < length (ah_threads s)" using assms(1) by (simp add: asset_step_def split: if_splits)
  with assms(2,3) have ok: "thread_ok (r, pc)" "asset_inv (bs_cache (ah_state s))" by (auto simp: herd_ok_def list_all_length)
  have set: "asset_inv c'" if "asset_set ord (rq_value r) a (bs_cache (ah_state s)) = Some c'" "rq_value r \<noteq> ''''" for a c'
    using asset_set_Some [OF ok(2) assms(4) that(2), of a] that(1) by auto
  have get: "asset_inv (snd (asset_get (rq_value r) (bs_cache (ah_state s))))" using ok(2) by simp
  have "\<exists>pc'. s' = ah_go t pc' (ah_state s') s \<and> thread_ok (r, pc') \<and> asset_work pc' < asset_work pc \<and> asset_inv (bs_cache (ah_state s'))"
    using assms(1,2) t ok set get asset_begin_ok [where r = r and h = h]
    by (cases pc) (auto simp: asset_step_def Let_def split_beta asset_remove_inv
        split: if_splits sum.splits prod.splits option.splits object_result.splits)
  with that t show thesis by blast
qed

lemma ah_go_threads:
  "s' = ah_go t pc' b s \<Longrightarrow> ah_threads s ! t = (r, pc) \<Longrightarrow> ah_threads s' = (ah_threads s)[t := (r, pc')]"
  by (simp add: ah_go_def)

lemma asset_step_ok:
  assumes "asset_step h ord now w t s = Some s'" and "herd_ok s" and "range_order ord"
  shows "herd_ok s'" and "asset_work_left s' < asset_work_left s" and "length (ah_threads s') = length (ah_threads s)"
proof -
  obtain r pc where pc: "ah_threads s ! t = (r, pc)" by (rule prod.exhaust)
  from asset_step_moves [OF assms(1) pc assms(2,3)] obtain pc' where step: "s' = ah_go t pc' (ah_state s') s"
    "thread_ok (r, pc')" "asset_work pc' < asset_work pc" "asset_inv (bs_cache (ah_state s'))" "t < length (ah_threads s)" by blast
  have ths: "ah_threads s' = (ah_threads s)[t := (r, pc')]" using step(1) pc by (rule ah_go_threads)
  have "list_all thread_ok (ah_threads s')"
    using assms(2) step(2,5) by (auto simp: ths herd_ok_def list_all_length nth_list_update)
  with step(4) show "herd_ok s'" by (simp add: herd_ok_def)
  have "asset_work pc \<le> asset_work_left s"
    using elem_le_sum_list [of t "map (asset_work \<circ> snd) (ah_threads s)"] step(5) pc by (simp add: asset_work_left_def)
  then show "asset_work_left s' < asset_work_left s"
    using step(3,5) pc by (simp add: asset_work_left_def ths map_update sum_list_update)
  show "length (ah_threads s') = length (ah_threads s)" by (simp add: ths)
qed

lemma asset_run_ok:
  assumes "asset_run h w ops s = Some s'" and "herd_ok s" and "list_all (\<lambda>(t, now, ord). range_order ord) ops"
  shows "herd_ok s' \<and> length ops + asset_work_left s' \<le> asset_work_left s \<and> length (ah_threads s') = length (ah_threads s)"
  using assms
proof (induction ops arbitrary: s)
  case (Cons op ops)
  obtain t now ord where op: "op = (t, now, ord)" by (rule prod_cases3)
  with Cons.prems obtain s1 where s1: "asset_step h ord now w t s = Some s1" "asset_run h w ops s1 = Some s'" "range_order ord"
    by (auto split: option.splits)
  note ok = asset_step_ok [OF s1(1) Cons.prems(2) s1(3)]
  with Cons.IH [OF s1(2) ok(1)] Cons.prems(3) show ?case by simp
qed simp

lemma asset_step_enabled:
  assumes "herd_ok s" and "range_order ord" and "t < length (ah_threads s)" and "\<And>r w'. ah_threads s ! t \<noteq> (r, Replied w')"
  shows "asset_step h ord now w t s \<noteq> None"
proof -
  obtain r pc where pc: "ah_threads s ! t = (r, pc)" by (rule prod.exhaust)
  have ok: "thread_ok (r, pc)" "asset_inv (bs_cache (ah_state s))"
    using assms(1,3) pc by (auto simp: herd_ok_def list_all_length)
  have "asset_set ord (rq_value r) a (bs_cache (ah_state s)) \<noteq> None" if "rq_value r \<noteq> ''''" for a
    using asset_set_Some [OF ok(2) assms(2) that, of a] by auto
  with pc ok(1) assms(3,4) show ?thesis
    by (cases pc) (auto simp: asset_step_def Let_def split_beta split: sum.split prod.split option.split object_result.split)
qed

text \<open>The steps of one goroutine, whatever the others do.\<close>

lemma asset_step_others:
  assumes "asset_step h ord now w t s = Some s'" and "herd_ok s" and "range_order ord"
  shows "asset_work (snd (ah_threads s' ! u)) + of_bool (t = u) \<le> asset_work (snd (ah_threads s ! u))"
proof -
  obtain r pc where pc: "ah_threads s ! t = (r, pc)" by (rule prod.exhaust)
  from asset_step_moves [OF assms(1) pc assms(2,3)] obtain pc' where step: "s' = ah_go t pc' (ah_state s') s"
    "asset_work pc' < asset_work pc" "t < length (ah_threads s)" by blast
  have "ah_threads s' = (ah_threads s)[t := (r, pc')]" using step(1) pc by (rule ah_go_threads)
  with pc step(2,3) show ?thesis by (cases "t = u") simp_all
qed

lemma asset_run_steps:
  assumes "asset_run h w ops s = Some s'" and "herd_ok s" and "list_all (\<lambda>(t, now, ord). range_order ord) ops"
  shows "length (filter (\<lambda>(u, now, ord). u = t) ops) \<le> (if t < length (ah_threads s) then asset_work (snd (ah_threads s ! t)) else 0)"
  using assms
proof (induction ops arbitrary: s)
  case (Cons p ops)
  obtain u now ord where p: "p = (u, now, ord)" by (rule prod_cases3)
  with Cons.prems obtain s1 where s1: "asset_step h ord now w u s = Some s1" "asset_run h w ops s1 = Some s'" "range_order ord"
    by (auto split: option.splits)
  have "u < length (ah_threads s)" using s1(1) by (simp add: asset_step_def split: if_splits)
  with Cons.IH [OF s1(2) asset_step_ok(1) [OF s1(1) Cons.prems(2) s1(3)]] Cons.prems(3)
    asset_step_ok(3) [OF s1(1) Cons.prems(2) s1(3)] asset_step_others [OF s1(1) Cons.prems(2) s1(3), of t] p
  show ?case by (cases "u = t") (auto split: if_splits)
qed simp

section \<open>Properties\<close>

text \<open>C15: Any number of concurrent uploads, requests and deletions of assets end: in every interleaving each of them
  makes at most five steps, none of them is ever blocked or caught in the eviction loop before it has replied,
  and the asset cache keeps its invariant.\<close>

theorem assets_finish:
  assumes "asset_inv (bs_cache b)" and "asset_run h w ops (asset_herd_init b calls) = Some s"
    and "list_all (\<lambda>(t, now, ord). range_order ord) ops"
  shows "asset_inv (bs_cache (ah_state s)) \<and> (\<forall>t. length (filter (\<lambda>(u, now, ord). u = t) ops) \<le> 5) \<and>
    (\<forall>t ord now. range_order ord \<longrightarrow> t < length calls \<longrightarrow>
      asset_step h ord now w t s \<noteq> None \<or> (\<exists>r w'. ah_threads s ! t = (r, Replied w')))"
proof -
  have init: "herd_ok (asset_herd_init b calls)"
    using assms(1) by (auto simp: herd_ok_def asset_herd_init_def list_all_length split: prod.split)
  have "length (filter (\<lambda>(u, now, ord). u = t) ops) \<le> 5" for t
  proof (cases "t < length calls")
    case True
    then have "asset_work (snd (ah_threads (asset_herd_init b calls) ! t)) = 5"
      by (simp add: asset_herd_init_def split: prod.split)
    with asset_run_steps [OF assms(2) init assms(3), of t] True show ?thesis by (simp add: asset_herd_init_def)
  next
    case False
    with asset_run_steps [OF assms(2) init assms(3), of t] show ?thesis by (simp add: asset_herd_init_def)
  qed
  then show ?thesis
    using asset_run_ok [OF assms(2) init assms(3)] asset_step_enabled [of s]
    by (auto simp: herd_ok_def asset_herd_init_def)
qed

text \<open>C13: A deleted asset can stay.  A request that has read the object from the store and is about to fill the cache
  lets a deletion of the same name run to its end: the store and Redis have been told, the cache was
  cleared, the client got 200.  Then the request fills the cache, and every later request of the name is
  answered with the deleted bytes from memory, the store not asked; nothing expires.\<close>

theorem deleted_asset_served:
  assumes "asset_inv (bs_cache (ah_state s))" and "range_order ord" and "ready h" and "rq_value r \<noteq> ''''"
    and "t < length (ah_threads s)" and "u < length (ah_threads s)"
    and "ah_threads s ! t = (r, CacheFill data ct n)" and "ah_threads s ! u = (r', RemoveObject)" and "rq_value r' = rq_value r"
    and "rq_value r2 = rq_value r"
  shows "\<exists>s' w'. asset_run h new_writer [(u, now, ord), (u, now, ord), (u, now, ord), (u, now, ord), (t, now, ord)] s = Some s' \<and>
    ah_threads s' ! u = (r', Replied w') \<and> status_of w' = 200 \<and>
    bs_world (ah_state s') =
      snd (redis_srem (stores h) ''assets:index'' (rq_value r)
        (snd (redis_del_key (stores h) (''asset:'' @ rq_value r)
          (snd (remove_object (stores h) (minioBucket h) (rq_value r) (bs_world (ah_state s))))))) \<and>
    (\<exists>b w2. serveAsset h ord2 now2 r2 (ah_state s') new_writer = Returned b w2 \<and> served w2 data ct ''HIT'' \<and>
      bs_world b = bs_world (ah_state s'))"
proof -
  let ?k = "rq_value r" and ?a = "\<lparr>a_data = data, a_contentType = ct, a_size = n, a_cachedAt = now\<rparr>"
  have tu: "t \<noteq> u" using assms(7,8) by auto
  have "asset_inv (asset_remove ?k (bs_cache (ah_state s)))" using assms(1) by (rule asset_remove_inv)
  then obtain c where c: "asset_set ord ?k ?a (asset_remove ?k (bs_cache (ah_state s))) = Some c" "map_of (ac_items c) ?k = Some ?a"
    using assms(2,4) by (rule asset_set_Some)
  let ?w = "snd (redis_srem (stores h) ''assets:index'' ?k
        (snd (redis_del_key (stores h) (''asset:'' @ ?k) (snd (remove_object (stores h) (minioBucket h) ?k (bs_world (ah_state s)))))))"
  let ?wr = "write_body (''{\"status\":\"deleted\",\"key\":\"'' @ ?k @ ''\"}'') (json_header new_writer)"
  let ?b = "(ah_state s)\<lparr>bs_cache := asset_remove ?k (bs_cache (ah_state s)), bs_world := ?w\<rparr>"
  let ?s1 = "ah_go u (Replied ?wr) ?b s"
  let ?s2 = "ah_go t (Replied (write_body data (asset_headers ct n ''MISS'' new_writer))) (?b\<lparr>bs_cache := c\<rparr>) ?s1"
  have one: "asset_run h new_writer [(u, now, ord), (u, now, ord), (u, now, ord), (u, now, ord)] s = Some ?s1"
    using assms(6,8,9) by (simp add: asset_step_def Let_def split_beta binary_state_swap)
  have "asset_step h ord now new_writer t ?s1 = Some ?s2"
    using assms(5,7) tu c(1) by (simp add: asset_step_def Let_def)
  then have run: "asset_run h new_writer ([(u, now, ord), (u, now, ord), (u, now, ord), (u, now, ord)] @ [(t, now, ord)]) s = Some ?s2"
    unfolding asset_run_append one by simp
  have rep: "ah_threads ?s2 ! u = (r', Replied ?wr)" using assms(6,8) tu by simp
  have "status_of ?wr = 200" by (simp add: json_header_def response_of_def writer_simps)
  moreover have "fst (asset_get (rq_value r2) (bs_cache (ah_state ?s2))) = Some ?a" using c(2) assms(10) by simp
  then have "\<exists>b w2. serveAsset h ord2 now2 r2 (ah_state ?s2) new_writer = Returned b w2 \<and> served w2 data ct ''HIT'' \<and>
      bs_world b = bs_world (ah_state ?s2)"
    using serve_hit [OF assms(3), of r2 "ah_state ?s2"] assms(4,10) by (auto simp: served_new)
  ultimately show ?thesis using run rep by (intro exI [of _ ?s2] exI [of _ ?wr]) simp
qed

text \<open>What the race of two uploads needs of the stores: an object that was put is read back, and the
  metadata is kept elsewhere.\<close>

definition object_laws :: "'w binary_handler \<Rightarrow> bool" where
  "object_laws h \<longleftrightarrow>
     (\<forall>k d ct w n w'. put_object (stores h) (minioBucket h) k d ct w = (Inr n, w') \<longrightarrow>
        (\<exists>sz. fst (get_object (stores h) (minioBucket h) k w') = Object d ct sz)) \<and>
     (\<forall>k k' fs w. fst (get_object (stores h) (minioBucket h) k (snd (redis_hset (stores h) k' fs w))) = fst (get_object (stores h) (minioBucket h) k w)) \<and>
     (\<forall>k k' x w. fst (get_object (stores h) (minioBucket h) k (snd (redis_sadd (stores h) k' x w))) = fst (get_object (stores h) (minioBucket h) k w))"

text \<open>C14: Two uploads of one name can leave the cache and the store apart: the second puts its object last, but the
  first fills the cache last.  Both are told 201; from then on requests are answered with the bytes of the
  first from memory, while the store holds those of the second.\<close>

theorem uploads_diverge:
  assumes "asset_inv (bs_cache (ah_state s))" and "range_order ord" and "ready h" and "rq_value r \<noteq> ''''" and "object_laws h"
    and "t < length (ah_threads s)" and "u < length (ah_threads s)" and "t \<noteq> u"
    and "ah_threads s ! t = (r, PutObject body)" and "ah_threads s ! u = (r', PutObject body')" and "rq_value r' = rq_value r"
    and "put_object (stores h) (minioBucket h) (rq_value r) body (upload_type r) (bs_world (ah_state s)) = (Inr n, w1)"
    and "put_object (stores h) (minioBucket h) (rq_value r) body' (upload_type r') w1 = (Inr n', w2)"
    and "rq_value r2 = rq_value r"
  shows "\<exists>s' wr wr'. asset_run h new_writer (map (\<lambda>i. (i, now, ord)) [t, u, u, u, u, t, t, t]) s = Some s' \<and>
    ah_threads s' ! t = (r, Replied wr) \<and> ah_threads s' ! u = (r', Replied wr') \<and> status_of wr = 201 \<and> status_of wr' = 201 \<and>
    (\<exists>sz. fst (get_object (stores h) (minioBucket h) (rq_value r) (bs_world (ah_state s'))) = Object body' (upload_type r') sz) \<and>
    (\<exists>b w2. serveAsset h ord2 now2 r2 (ah_state s') new_writer = Returned b w2 \<and> served w2 body (upload_type r) ''HIT'')"
proof -
  let ?k = "rq_value r" and ?S = "stores h" and ?c = "bs_cache (ah_state s)"
  let ?a = "\<lparr>a_data = body, a_contentType = upload_type r, a_size = int (length body), a_cachedAt = now\<rparr>"
  let ?a' = "\<lparr>a_data = body', a_contentType = upload_type r', a_size = int (length body'), a_cachedAt = now\<rparr>"
  obtain c1 where c1: "asset_set ord ?k ?a' ?c = Some c1" "asset_inv c1"
    using assms(1,2,4) by (rule asset_set_Some)
  obtain c2 where c2: "asset_set ord ?k ?a c1 = Some c2" "map_of (ac_items c2) ?k = Some ?a"
    using c1(2) assms(2,4) by (rule asset_set_Some)
  define meta where "meta r n w = snd (redis_sadd ?S ''assets:index'' ?k (snd (redis_hset ?S (''asset:'' @ ?k)
      [(''content_type'', upload_type r), (''size'', show_int n), (''url'', ''/assets/'' @ ?k), (''uploaded_at'', show_int (now div 1000000000))] w)))"
    for r n w
  define reply where "reply r n = write_body (''{\"status\":\"uploaded\",\"key\":\"'' @ ?k @ ''\",\"url\":\"'' @ (''/assets/'' @ ?k) @
      ''\",\"size\":'' @ show_int n @ '',\"content_type\":\"'' @ upload_type r @ ''\"}'') (write_header 201 (json_header new_writer))"
    for r n
  have meta: "fst (get_object ?S (minioBucket h) k (meta r n w)) = fst (get_object ?S (minioBucket h) k w)" for k r n w
    using assms(5) unfolding object_laws_def meta_def by simp
  let ?s1 = "ah_go t (HSetMeta body n) ((ah_state s)\<lparr>bs_world := w1\<rparr>) s"
  let ?s2 = "ah_go u (Replied (reply r' n')) ((ah_state s)\<lparr>bs_cache := c1, bs_world := meta r' n' w2\<rparr>) ?s1"
  let ?s3 = "ah_go t (Replied (reply r n)) ((ah_state s)\<lparr>bs_cache := c2, bs_world := meta r n (meta r' n' w2)\<rparr>) ?s2"
  note step = asset_step_def Let_def split_beta binary_state_swap
  have one: "asset_run h new_writer (map (\<lambda>i. (i, now, ord)) [t]) s = Some ?s1"
    using assms(6,9,12) by (simp add: step)
  have two: "asset_run h new_writer (map (\<lambda>i. (i, now, ord)) [u, u, u, u]) ?s1 = Some ?s2"
    using assms(7,8,10,11,13) c1(1) by (simp add: step meta_def reply_def)
  have three: "asset_run h new_writer (map (\<lambda>i. (i, now, ord)) [t, t, t]) ?s2 = Some ?s3"
    using assms(6,8,9) c2(1) by (simp add: step meta_def reply_def)
  have run: "asset_run h new_writer (map (\<lambda>i. (i, now, ord)) [t, u, u, u, u, t, t, t]) s = Some ?s3"
    using one two three asset_run_append [of h new_writer "map (\<lambda>i. (i, now, ord)) [t]" "map (\<lambda>i. (i, now, ord)) [u, u, u, u, t, t, t]" s]
      asset_run_append [of h new_writer "map (\<lambda>i. (i, now, ord)) [u, u, u, u]" "map (\<lambda>i. (i, now, ord)) [t, t, t]" ?s1]
    by (simp del: asset_run.simps)
  have ths: "ah_threads ?s3 ! t = (r, Replied (reply r n))" "ah_threads ?s3 ! u = (r', Replied (reply r' n'))"
    using assms(6-10) by simp_all
  have codes: "status_of (reply r n) = 201" for r n by (simp add: reply_def json_header_def response_of_def writer_simps)
  obtain sz where "fst (get_object ?S (minioBucket h) ?k w2) = Object body' (upload_type r') sz"
    using assms(5,13) unfolding object_laws_def by blast
  then have obj: "fst (get_object ?S (minioBucket h) ?k (bs_world (ah_state ?s3))) = Object body' (upload_type r') sz"
    by (simp add: meta)
  have "fst (asset_get (rq_value r2) (bs_cache (ah_state ?s3))) = Some ?a" using c2(2) assms(14) by simp
  then have "\<exists>b w2. serveAsset h ord2 now2 r2 (ah_state ?s3) new_writer = Returned b w2 \<and> served w2 body (upload_type r) ''HIT''"
    using serve_hit [OF assms(3), of r2 "ah_state ?s3"] assms(4,14) by (auto simp: served_new)
  with run ths codes obj show ?thesis by (intro exI [of _ ?s3] exI [of _ "reply r n"] exI [of _ "reply r' n'"]) blast
qed

section \<open>Witnesses\<close>

abbreviation by_key :: "nat \<Rightarrow> asset_order" where
  "by_key \<equiv> \<lambda>i m. m"

abbreviation stored :: "string \<Rightarrow> (bytes \<times> string) option" where
  "stored \<equiv> [''f.js'' \<mapsto> (''x'', ''t'')]"

theorem uninterrupted_asset_witness:
  "\<exists>nows s' w'. asset_run (mem_handler True) new_writer (map (\<lambda>now. (1, now, by_key)) nows)
      (asset_herd_init (empty_state stored) [(file_request ''y'', CallUpload), (file_request [], CallServe)]) = Some s' \<and>
    ah_threads s' = [(file_request ''y'', Begin CallUpload), (file_request [], Replied w')] \<and> served w' ''x'' ''t'' ''MISS''"
proof -
  let ?s = "asset_herd_init (empty_state stored) [(file_request ''y'', CallUpload), (file_request [], CallServe)]"
  have g: "get_object (stores (mem_handler True)) (minioBucket (mem_handler True)) (rq_value (file_request [])) (bs_world (empty_state stored)) =
      (Object ''x'' ''t'' 1, stored)"
    by (simp add: mem_get mem_handler_ready empty_state_inv)
  have state: "ah_state ?s = empty_state stored" by (simp add: asset_herd_init_def)
  from serve_miss [OF mem_handler_ready(1) mem_handler_ready(3) empty_state_inv(2) g empty_state_inv(1) same_order, of 5 new_writer]
  obtain b' where "sequential (mem_handler True) by_key 5 5 CallServe (file_request []) (ah_state ?s) new_writer =
      Returned b' (write_body ''x'' (asset_headers ''t'' 1 ''MISS'' new_writer))"
    unfolding state sequential_def by auto
  from uninterrupted_asset [OF _ _ this, of 1] obtain nows where
    "asset_run (mem_handler True) new_writer (map (\<lambda>now. (1, now, by_key)) nows) ?s =
      Some (ah_go 1 (Replied (write_body ''x'' (asset_headers ''t'' 1 ''MISS'' new_writer))) b' ?s)"
    by (auto simp: asset_herd_init_def)
  moreover have "ah_threads (ah_go 1 (Replied w') b' ?s) = [(file_request ''y'', Begin CallUpload), (file_request [], Replied w')]" for w'
    by (simp add: ah_go_def asset_herd_init_def)
  ultimately show ?thesis using served_new by blast
qed

lemma demo_schedule:
  "map_option ah_threads (asset_run (mem_handler True) new_writer [(0, 1, by_key), (0, 1, by_key), (0, 1, by_key), (1, 2, by_key)]
     (asset_herd_init (empty_state stored) [(file_request [], CallServe), (file_request [], CallDelete)])) =
   Some [(file_request [], CacheFill ''x'' ''t'' 1), (file_request [], RemoveObject)]"
  by code_simp

lemma demo_schedule_state:
  obtains s where "asset_run (mem_handler True) new_writer [(0, 1, by_key), (0, 1, by_key), (0, 1, by_key), (1, 2, by_key)]
      (asset_herd_init (empty_state stored) [(file_request [], CallServe), (file_request [], CallDelete)]) = Some s"
    "ah_threads s = [(file_request [], CacheFill ''x'' ''t'' 1), (file_request [], RemoveObject)]"
  using demo_schedule by (auto simp del: asset_run.simps)

theorem assets_finish_witness:
  "\<exists>s. asset_run (mem_handler True) new_writer [(0, 1, by_key), (0, 1, by_key), (0, 1, by_key), (1, 2, by_key)]
      (asset_herd_init (empty_state stored) [(file_request [], CallServe), (file_request [], CallDelete)]) = Some s \<and>
    asset_inv (bs_cache (ah_state s)) \<and> asset_step (mem_handler True) by_key 7 new_writer 0 s \<noteq> None"
proof (rule demo_schedule_state)
  fix s
  assume s: "asset_run (mem_handler True) new_writer [(0, 1, by_key), (0, 1, by_key), (0, 1, by_key), (1, 2, by_key)]
      (asset_herd_init (empty_state stored) [(file_request [], CallServe), (file_request [], CallDelete)]) = Some s"
    "ah_threads s = [(file_request [], CacheFill ''x'' ''t'' 1), (file_request [], RemoveObject)]"
  have "asset_inv (bs_cache (ah_state s)) \<and> (\<forall>t ord now. range_order ord \<longrightarrow> t < 2 \<longrightarrow>
      asset_step (mem_handler True) ord now new_writer t s \<noteq> None \<or> (\<exists>r w'. ah_threads s ! t = (r, Replied w')))"
    using assets_finish [OF empty_state_inv(1) s(1)] by (simp add: same_order)
  with s same_order show ?thesis by (intro exI [of _ s]) force
qed

theorem deleted_asset_served_witness:
  "\<exists>ops s' w' b w2. asset_run (mem_handler True) new_writer ops
      (asset_herd_init (empty_state stored) [(file_request [], CallServe), (file_request [], CallDelete)]) = Some s' \<and>
    ah_threads s' ! 1 = (file_request [], Replied w') \<and> status_of w' = 200 \<and> bs_world (ah_state s') ''f.js'' = None \<and>
    serveAsset (mem_handler True) by_key 99 (file_request []) (ah_state s') new_writer = Returned b w2 \<and> served w2 ''x'' ''t'' ''HIT''"
proof (rule demo_schedule_state)
  fix s
  assume s: "asset_run (mem_handler True) new_writer [(0, 1, by_key), (0, 1, by_key), (0, 1, by_key), (1, 2, by_key)]
      (asset_herd_init (empty_state stored) [(file_request [], CallServe), (file_request [], CallDelete)]) = Some s"
    "ah_threads s = [(file_request [], CacheFill ''x'' ''t'' 1), (file_request [], RemoveObject)]"
  have inv: "asset_inv (bs_cache (ah_state s))"
    using asset_run_ok [OF s(1)] empty_state_inv(1) by (simp add: herd_ok_def asset_herd_init_def same_order)
  from deleted_asset_served [OF inv same_order mem_handler_ready(1) mem_handler_ready(3), of 0 1 "[]" "''x''" "''t''" 1 "file_request []" "file_request []" True 5 by_key 99] s(2)
  obtain s' w' b w2 where r: "asset_run (mem_handler True) new_writer [(1, 5, by_key), (1, 5, by_key), (1, 5, by_key), (1, 5, by_key), (0, 5, by_key)] s = Some s'"
    "ah_threads s' ! 1 = (file_request [], Replied w')" "status_of w' = 200"
    "bs_world (ah_state s') = snd (redis_srem (stores (mem_handler True)) ''assets:index'' ''f.js''
        (snd (redis_del_key (stores (mem_handler True)) (''asset:'' @ ''f.js'')
          (snd (remove_object (stores (mem_handler True)) (minioBucket (mem_handler True)) ''f.js'' (bs_world (ah_state s)))))))"
    "serveAsset (mem_handler True) by_key 99 (file_request []) (ah_state s') new_writer = Returned b w2" "served w2 ''x'' ''t'' ''HIT''"
    unfolding mem_handler_ready(2) by auto
  have "bs_world (ah_state s') ''f.js'' = None" unfolding r(4) by (simp add: mem_handler_def mem_backend_def)
  with r s(1) asset_run_append [of "mem_handler True" new_writer "[(0, 1, by_key), (0, 1, by_key), (0, 1, by_key), (1, 2, by_key)]"] show ?thesis
    by (metis option.simps(5))
qed

lemma mem_object_laws: "object_laws (mem_handler b)"
  by (simp add: object_laws_def mem_handler_def mem_backend_def)

theorem uploads_diverge_witness:
  "\<exists>ops s' b w2. asset_run (mem_handler True) new_writer ops
      \<lparr>ah_state = empty_state Map.empty, ah_threads = [(file_request ''one'', PutObject ''one''), (file_request ''two'', PutObject ''two'')]\<rparr> = Some s' \<and>
    bs_world (ah_state s') ''f.js'' = Some (''two'', ''application/javascript'') \<and>
    serveAsset (mem_handler True) by_key 99 (file_request []) (ah_state s') new_writer = Returned b w2 \<and>
    served w2 ''one'' ''application/javascript'' ''HIT''"
proof -
  let ?s = "\<lparr>ah_state = empty_state Map.empty, ah_threads = [(file_request ''one'', PutObject ''one''), (file_request ''two'', PutObject ''two'')]\<rparr>"
  have world: "fst (get_object (stores (mem_handler True)) (minioBucket (mem_handler True)) k m) = Object d ct sz \<Longrightarrow> m k = Some (d, ct)" for k m d ct sz
    by (auto simp: mem_handler_def mem_backend_def split: option.splits)
  show ?thesis
    using uploads_diverge [of ?s by_key "mem_handler True" "file_request ''one''" 0 1 "''one''" "file_request ''two''" "''two''" _ _ _ _ "file_request []" 5 by_key 99,
        OF _ same_order mem_handler_ready(1) mem_handler_ready(3) mem_object_laws _ _ _ _ _ _ mem_put mem_put]
      empty_state_inv(1)
    by (auto simp: mem_handler_ready(2) file_type simp del: asset_run.simps list.simps dest!: world)
qed

end
