(* ===== verification/Json_String.thy ===== *)
theory Json_String
  imports Prelude
begin

text \<open>
  The strings of \<open>encoding/json\<close> (Go 1.22), which the HTTP handlers of \<open>internal/handler\<close> rest on: UTF-8 as
  \<open>utf8.DecodeRune\<close> reads it, the quoting of \<open>appendString\<close> with HTML escaping, the unquoting of
  \<open>unquoteBytes\<close> with surrogate pairs, and the folding of field names.  Each works chunk by chunk: a step
  function gives the output of the next chunk and how many bytes it takes.
\<close>

section \<open>UTF-8\<close>

definition octet :: "char \<Rightarrow> nat" where
  "octet c = of_char c"

abbreviation cont_byte :: "char \<Rightarrow> bool" where
  "cont_byte c \<equiv> 128 \<le> octet c \<and> octet c < 192"

text \<open>The range of the second byte of a sequence: no overlong forms, no surrogates, at most U+10FFFF.\<close>

definition second_byte :: "nat \<Rightarrow> char \<Rightarrow> bool" where
  "second_byte n0 c \<longleftrightarrow>
     (if n0 = 224 then 160 else if n0 = 240 then 144 else 128) \<le> octet c \<and>
     octet c \<le> (if n0 = 237 then 159 else if n0 = 244 then 143 else 191)"

text \<open>The width of the rune at the front of the bytes; 0 stands for \<open>(RuneError, 1)\<close>, an invalid byte.\<close>

definition rune_len :: "bytes \<Rightarrow> nat" where
  "rune_len s =
     (case s of [] \<Rightarrow> 0 | b0 # s1 \<Rightarrow>
        if octet b0 < 128 then 1
        else if octet b0 < 194 \<or> 244 < octet b0 then 0
        else case s1 of [] \<Rightarrow> 0 | b1 # s2 \<Rightarrow>
          if \<not> second_byte (octet b0) b1 then 0
          else if octet b0 < 224 then 2
          else case s2 of [] \<Rightarrow> 0 | b2 # s3 \<Rightarrow>
            if \<not> cont_byte b2 then 0
            else if octet b0 < 240 then 3
            else case s3 of [] \<Rightarrow> 0 | b3 # s4 \<Rightarrow> if cont_byte b3 then 4 else 0)"

text \<open>\<open>utf8.EncodeRune\<close>; what is not a Unicode scalar value becomes U+FFFD.\<close>

definition replacement :: bytes where
  "replacement = [CHR 0xEF, CHR 0xBF, CHR 0xBD]"

definition encode_rune :: "nat \<Rightarrow> bytes" where
  "encode_rune r =
     (if r < 128 then [char_of r]
      else if r < 2048 then [char_of (192 + r div 64), char_of (128 + r mod 64)]
      else if 1114111 < r \<or> 55296 \<le> r \<and> r < 57344 then replacement
      else if r < 65536 then [char_of (224 + r div 4096), char_of (128 + r div 64 mod 64), char_of (128 + r mod 64)]
      else [char_of (240 + r div 262144), char_of (128 + r div 4096 mod 64), char_of (128 + r div 64 mod 64),
            char_of (128 + r mod 64)])"

text \<open>The text with every invalid byte replaced, as Go reads it rune by rune.\<close>

fun to_valid :: "bytes \<Rightarrow> bytes" where
  "to_valid [] = []"
| "to_valid (c # cs) =
     (case rune_len (c # cs) of
        0 \<Rightarrow> replacement @ to_valid cs
      | Suc n \<Rightarrow> c # take n cs @ to_valid (drop n cs))"

section \<open>Quoting\<close>

abbreviation backslash :: char where "backslash \<equiv> CHR 0x5C"
abbreviation dquote :: char where "dquote \<equiv> CHR 0x22"

definition hex_char :: "nat \<Rightarrow> char" where
  "hex_char d = char_of (if d < 10 then 48 + d else 87 + d)"

text \<open>The escape of an ASCII byte; \<open><\<close>, \<open>>\<close> and \<open>&\<close> are escaped because the encoder escapes HTML.\<close>

definition html_unsafe :: "char \<Rightarrow> bool" where
  "html_unsafe c \<longleftrightarrow> c = CHR ''<'' \<or> c = CHR ''>'' \<or> c = CHR ''&''"

definition escape_u00 :: "char \<Rightarrow> bytes" where
  "escape_u00 c = backslash # ''u00'' @ [hex_char (octet c div 16), hex_char (octet c mod 16)]"

definition escape_ascii :: "char \<Rightarrow> bytes" where
  "escape_ascii c =
     (if c = backslash \<or> c = dquote then [backslash, c]
      else if c = CHR 0x08 then [backslash, CHR ''b'']
      else if c = CHR 0x0C then [backslash, CHR ''f'']
      else if c = CHR 0x0A then [backslash, CHR ''n'']
      else if c = CHR 0x0D then [backslash, CHR ''r'']
      else if c = CHR 0x09 then [backslash, CHR ''t'']
      else if octet c < 32 \<or> html_unsafe c then escape_u00 c
      else [c])"

text \<open>U+2028 and U+2029 at the front of the bytes.\<close>

fun line_separator :: "bytes \<Rightarrow> nat option" where
  "line_separator (a # b # c # s) =
     (if a = CHR 0xE2 \<and> b = CHR 0x80 \<and> (c = CHR 0xA8 \<or> c = CHR 0xA9) then Some (octet c - 160) else None)"
| "line_separator s = None"

definition escape_separator :: "nat \<Rightarrow> bytes" where
  "escape_separator d = backslash # ''u202'' @ [hex_char d]"

definition quote_step :: "char \<Rightarrow> bytes \<Rightarrow> bytes \<times> nat" where
  "quote_step c cs =
     (case rune_len (c # cs) of
        0 \<Rightarrow> (backslash # ''ufffd'', 0)
      | Suc n \<Rightarrow>
          if n = 0 then (escape_ascii c, 0)
          else (case line_separator (c # cs) of
                  Some d \<Rightarrow> (escape_separator d, n)
                | None \<Rightarrow> (c # take n cs, n)))"

fun quote_body :: "bytes \<Rightarrow> bytes" where
  "quote_body [] = []"
| "quote_body (c # cs) = (case quote_step c cs of (out, n) \<Rightarrow> out @ quote_body (drop n cs))"

definition quote_string :: "bytes \<Rightarrow> bytes" where
  "quote_string s = dquote # quote_body s @ [dquote]"

section \<open>Unquoting\<close>

definition hex_val :: "char \<Rightarrow> nat option" where
  "hex_val c =
     (if 48 \<le> octet c \<and> octet c \<le> 57 then Some (octet c - 48)
      else if 97 \<le> octet c \<and> octet c \<le> 102 then Some (octet c - 87)
      else if 65 \<le> octet c \<and> octet c \<le> 70 then Some (octet c - 55)
      else None)"

fun hex4 :: "bytes \<Rightarrow> nat option" where
  "hex4 (a # b # c # d # s) =
     (case (hex_val a, hex_val b, hex_val c, hex_val d) of
        (Some x, Some y, Some z, Some w) \<Rightarrow> Some (((x * 16 + y) * 16 + z) * 16 + w)
      | _ \<Rightarrow> None)"
| "hex4 s = None"

text \<open>\<open>getu4\<close>: a backslash, a \<open>u\<close> and four hexadecimal digits.\<close>

fun getu4 :: "bytes \<Rightarrow> nat option" where
  "getu4 (b # u # s) = (if b = backslash \<and> u = CHR ''u'' then hex4 s else None)"
| "getu4 s = None"

text \<open>\<open>utf16.DecodeRune\<close> of two surrogates.\<close>

definition surrogate_pair :: "nat \<Rightarrow> nat option \<Rightarrow> nat option" where
  "surrogate_pair r1 r2 =
     (case r2 of
        None \<Rightarrow> None
      | Some r \<Rightarrow>
          if 55296 \<le> r1 \<and> r1 < 56320 \<and> 56320 \<le> r \<and> r < 57344
          then Some ((r1 - 55296) * 1024 + (r - 56320) + 65536) else None)"

definition unquote_u :: "bytes \<Rightarrow> (bytes \<times> nat) option" where
  "unquote_u cs =
     (case getu4 (backslash # cs) of
        None \<Rightarrow> None
      | Some r \<Rightarrow>
          if 55296 \<le> r \<and> r < 57344
          then (case surrogate_pair r (getu4 (drop 5 cs)) of
                  Some r' \<Rightarrow> Some (encode_rune r', 11)
                | None \<Rightarrow> Some (replacement, 5))
          else Some (encode_rune r, 5))"

definition unquote_escape :: "bytes \<Rightarrow> (bytes \<times> nat) option" where
  "unquote_escape cs =
     (case cs of [] \<Rightarrow> None | e # s \<Rightarrow>
        if e = dquote \<or> e = backslash \<or> e = CHR ''/'' \<or> e = CHR 0x27 then Some ([e], 1)
        else if e = CHR ''b'' then Some ([CHR 0x08], 1)
        else if e = CHR ''f'' then Some ([CHR 0x0C], 1)
        else if e = CHR ''n'' then Some ([CHR 0x0A], 1)
        else if e = CHR ''r'' then Some ([CHR 0x0D], 1)
        else if e = CHR ''t'' then Some ([CHR 0x09], 1)
        else if e = CHR ''u'' then unquote_u cs
        else None)"

definition unquote_step :: "char \<Rightarrow> bytes \<Rightarrow> (bytes \<times> nat) option" where
  "unquote_step c cs =
     (if c = backslash then unquote_escape cs
      else if c = dquote \<or> octet c < 32 then None
      else case rune_len (c # cs) of
             0 \<Rightarrow> Some (replacement, 0)
           | Suc n \<Rightarrow> Some (c # take n cs, n))"

fun unquote_body :: "bytes \<Rightarrow> bytes option" where
  "unquote_body [] = Some []"
| "unquote_body (c # cs) =
     (case unquote_step c cs of
        None \<Rightarrow> None
      | Some (out, n) \<Rightarrow> map_option ((@) out) (unquote_body (drop n cs)))"

section \<open>Field names\<close>

text \<open>\<open>foldName\<close>, upper-casing ASCII.  Of the runes outside ASCII only U+017F and U+212A fold to an ASCII
  letter (\<open>S\<close> and \<open>K\<close>); the other ones fold to runes outside ASCII and are left as they are, since no
  field name contains any.\<close>

fun fold_name :: "bytes \<Rightarrow> bytes" where
  "fold_name [] = []"
| "fold_name (c # cs) =
     (if octet c < 128 then (if 97 \<le> octet c \<and> octet c \<le> 122 then char_of (octet c - 32) else c) # fold_name cs
      else if take 2 (c # cs) = [CHR 0xC5, CHR 0xBF] then CHR ''S'' # fold_name (drop 1 cs)
      else if take 3 (c # cs) = [CHR 0xE2, CHR 0x84, CHR 0xAA] then CHR ''K'' # fold_name (drop 2 cs)
      else c # fold_name cs)"

section \<open>Quoting and reading back\<close>

lemma octet_simps [simp]: "octet (char_of n) = n mod 256" "octet c < 256" "char_of (octet c) = c"
  by (simp_all add: octet_def)

lemma octet_eq_iff: "c = d \<longleftrightarrow> octet c = octet d"
  by (simp add: octet_def)

lemma char_of_consts [simp]:
  "char_of (226::nat) = CHR 0xE2" "char_of (128::nat) = CHR 0x80" "char_of (168::nat) = CHR 0xA8"
  "char_of (169::nat) = CHR 0xA9" "char_of (239::nat) = CHR 0xEF" "char_of (191::nat) = CHR 0xBF"
  "char_of (189::nat) = CHR 0xBD"
  by code_simp+

lemma rune_len_ascii: "octet c < 128 \<Longrightarrow> rune_len (c # cs) = 1"
  by (simp add: rune_len_def)

lemma rune_len_1: "rune_len (c # cs) = Suc 0 \<longleftrightarrow> octet c < 128"
  by (auto simp: rune_len_def split: list.splits)

lemma rune_len_front: "rune_len (c # cs) = Suc n \<Longrightarrow> n \<le> length cs \<and> rune_len (c # take n cs @ t) = Suc n"
  by (auto simp: rune_len_def split: list.splits if_splits)

lemma rune_len_replacement: "rune_len (replacement @ t) = 3"
  by (simp add: rune_len_def replacement_def second_byte_def octet_def)

lemma rune_len_multi: "rune_len (c # cs) = Suc (Suc n) \<Longrightarrow> 128 \<le> octet c"
  by (auto simp: rune_len_def split: if_splits)

lemma hex_roundtrip: "d < 16 \<Longrightarrow> hex_val (hex_char d) = Some d"
  by (auto simp: hex_val_def hex_char_def)

lemma hex_val_consts [simp]:
  "hex_val (CHR ''0'') = Some 0" "hex_val (CHR ''2'') = Some 2" "hex_val (CHR ''d'') = Some 13" "hex_val (CHR ''f'') = Some 15"
  by (simp_all add: hex_val_def) (simp_all add: octet_def)

lemma unquote_escape_ascii:
  assumes "octet c < 128"
  shows "unquote_body (escape_ascii c @ t) = map_option ((@) [c]) (unquote_body t)"
proof -
  have u: "unquote_body (escape_u00 c @ t) = map_option ((@) [c]) (unquote_body t)"
  proof -
    have "octet c mod 16 + octet c div 16 * 16 = octet c" by simp
    moreover have "hex_val (hex_char (octet c div 16)) = Some (octet c div 16)"
      "hex_val (hex_char (octet c mod 16)) = Some (octet c mod 16)"
      using assms by (simp_all add: hex_roundtrip)
    ultimately show ?thesis
      using assms
      by (simp add: escape_u00_def unquote_step_def unquote_escape_def unquote_u_def encode_rune_def)
  qed
  have plain: "unquote_body (c # t) = map_option ((@) [c]) (unquote_body t)"
    if "c \<noteq> backslash" "c \<noteq> dquote" "\<not> octet c < 32"
    using assms that by (simp add: unquote_step_def rune_len_ascii)
  have short: "unquote_body (escape_ascii c @ t) = map_option ((@) [c]) (unquote_body t)"
    if "c \<in> {backslash, dquote, CHR 0x08, CHR 0x0C, CHR 0x0A, CHR 0x0D, CHR 0x09}"
    using that
    by (elim insertE emptyE; hypsubst_thin) (simp_all add: escape_ascii_def unquote_step_def unquote_escape_def)
  show ?thesis
  proof (cases "c \<in> {backslash, dquote, CHR 0x08, CHR 0x0C, CHR 0x0A, CHR 0x0D, CHR 0x09}")
    case False
    then have "escape_ascii c = (if octet c < 32 \<or> html_unsafe c then escape_u00 c else [c])"
      by (simp add: escape_ascii_def)
    with False u plain show ?thesis by (cases "octet c < 32 \<or> html_unsafe c") auto
  qed (rule short)
qed

lemma line_separator_text:
  "line_separator s = Some d \<Longrightarrow> \<exists>t. s = encode_rune (8224 + d) @ t \<and> (d = 8 \<or> d = 9)"
  by (cases s rule: line_separator.cases) (auto simp: encode_rune_def octet_def split: if_splits)

lemma rune_len_separator: "line_separator (c # cs) = Some d \<Longrightarrow> rune_len (c # cs) = 3 \<and> c # take 2 cs = encode_rune (8224 + d)"
  by (cases "c # cs" rule: line_separator.cases)
    (auto simp: encode_rune_def rune_len_def second_byte_def octet_def split: if_splits)

lemma unquote_separator:
  assumes "d = 8 \<or> d = 9"
  shows "unquote_body (escape_separator d @ t) = map_option ((@) (encode_rune (8224 + d))) (unquote_body t)"
  using assms
  by (auto simp: escape_separator_def unquote_step_def unquote_escape_def unquote_u_def hex_roundtrip)

definition valid_step :: "char \<Rightarrow> bytes \<Rightarrow> bytes \<times> nat" where
  "valid_step c cs = (case rune_len (c # cs) of 0 \<Rightarrow> (replacement, 0) | Suc n \<Rightarrow> (c # take n cs, n))"

lemma to_valid_step: "to_valid (c # cs) = (case valid_step c cs of (out, n) \<Rightarrow> out @ to_valid (drop n cs))"
  by (simp add: valid_step_def split: nat.split)

lemma unquote_quote_step:
  "unquote_body (fst (quote_step c cs) @ t) = map_option ((@) (fst (valid_step c cs))) (unquote_body t)
   \<and> snd (quote_step c cs) = snd (valid_step c cs)"
proof (cases "rune_len (c # cs)")
  case 0
  have "unquote_body (backslash # ''ufffd'' @ t) = map_option ((@) replacement) (unquote_body t)"
    by (simp add: unquote_step_def unquote_escape_def unquote_u_def encode_rune_def replacement_def)
  with 0 show ?thesis by (simp add: quote_step_def valid_step_def)
next
  case (Suc n)
  show ?thesis
  proof (cases "n = 0 \<or> (\<exists>d. line_separator (c # cs) = Some d)")
    case True
    then show ?thesis
    proof (elim disjE exE)
      assume "n = 0"
      with Suc have "rune_len (c # cs) = Suc 0" by simp
      moreover from this have "octet c < 128" by (simp add: rune_len_1)
      ultimately show ?thesis using unquote_escape_ascii [of c t] by (simp add: quote_step_def valid_step_def)
    next
      fix d assume d: "line_separator (c # cs) = Some d"
      from rune_len_separator [OF this] line_separator_text [OF this] Suc show ?thesis
        by (auto simp: quote_step_def valid_step_def d unquote_separator numeral_2_eq_2 numeral_3_eq_3)
    qed
  next
    case False
    then have *: "quote_step c cs = (c # take n cs, n)" and v: "valid_step c cs = (c # take n cs, n)"
      using Suc by (auto simp: quote_step_def valid_step_def split: option.split)
    have big: "128 \<le> octet c" using rune_len_1 [of c cs] Suc False by (cases n) auto
    then have "c \<noteq> backslash" "c \<noteq> dquote" by (auto simp: octet_def)
    moreover have "n \<le> length cs" "rune_len (c # take n cs @ t) = Suc n" using rune_len_front [OF Suc] by auto
    ultimately show ?thesis using big
      by (simp add: * v unquote_step_def)
  qed
qed

theorem unquote_quote: "unquote_body (quote_body s) = Some (to_valid s)"
proof (induction s rule: quote_body.induct)
  case (2 c cs)
  obtain out n where q: "quote_step c cs = (out, n)" by (rule prod.exhaust)
  with 2 unquote_quote_step [of c cs "quote_body (drop n cs)"] show ?case
    by (cases "valid_step c cs") (simp add: to_valid_step del: to_valid.simps)
qed simp

lemma to_valid_idem: "to_valid (to_valid s) = to_valid s"
proof (induction s rule: to_valid.induct)
  case (2 c cs)
  show ?case
  proof (cases "rune_len (c # cs)")
    case 0
    have "rune_len (CHR 0xEF # CHR 0xBF # CHR 0xBD # t) = Suc 2" for t
      using rune_len_replacement [of t] by (simp add: replacement_def numeral_3_eq_3)
    with 0 2 show ?thesis by (simp add: replacement_def)
  next
    case (Suc n)
    with 2 rune_len_front [OF Suc, of "to_valid (drop n cs)"] show ?thesis by simp
  qed
qed simp

section \<open>Unquoted strings are valid UTF-8\<close>

text \<open>A piece of text that stands for one rune, whatever follows.\<close>

definition rune_text :: "bytes \<Rightarrow> bool" where
  "rune_text out \<longleftrightarrow> (\<forall>t. to_valid (out @ t) = out @ to_valid t)"

lemma rune_text_len: "(\<And>t. rune_len (c # cs @ t) = Suc (length cs)) \<Longrightarrow> rune_text (c # cs)"
  by (simp add: rune_text_def)

lemma rune_text_ascii: "octet c < 128 \<Longrightarrow> rune_text [c]"
  by (rule rune_text_len) (simp add: rune_len_ascii)

lemma rune_text_replacement: "rune_text replacement"
  using rune_len_replacement by (simp add: rune_text_def replacement_def numeral_3_eq_3)

lemma rune_text_encode: "rune_text (encode_rune r)"
proof -
  consider "r < 128" | "128 \<le> r" "r < 2048" | "1114111 < r \<or> 55296 \<le> r \<and> r < 57344" | "2048 \<le> r" "r < 65536" "\<not> (55296 \<le> r \<and> r < 57344)"
    | "65536 \<le> r" "r \<le> 1114111" by linarith
  then show ?thesis
  proof cases
    case 1
    then show ?thesis by (simp add: encode_rune_def rune_text_ascii)
  next
    case 2
    have "2 \<le> r div 64" "r div 64 < 32" using 2 by (auto simp: less_mult_imp_div_less)
    then show ?thesis using 2 by (auto simp: encode_rune_def rune_len_def second_byte_def intro!: rune_text_len)
  next
    case 3
    then show ?thesis by (auto simp: encode_rune_def rune_text_replacement)
  next
    case 4
    define q where "q = r div 64"
    have a: "r div 4096 = q div 64" by (simp add: q_def div_mult2_eq [symmetric])
    have "q < 1024" "32 \<le> q" "\<not> (864 \<le> q \<and> q < 896)" using 4 unfolding q_def by linarith+
    moreover have "q = q div 64 * 64 + q mod 64" by simp
    ultimately have "q div 64 < 16" "q div 64 = 0 \<Longrightarrow> 32 \<le> q mod 64" "q div 64 = 13 \<Longrightarrow> q mod 64 < 32" by linarith+
    moreover have "q mod 64 < 64" "r mod 64 < 64" by simp_all
    ultimately show ?thesis using 4 unfolding encode_rune_def a
      by (auto simp: rune_len_def second_byte_def q_def [symmetric] intro!: rune_text_len)
  next
    case 5
    define q where "q = r div 4096"
    have a: "r div 262144 = q div 64" by (simp add: q_def div_mult2_eq [symmetric])
    have "q < 272" "16 \<le> q" using 5 unfolding q_def by linarith+
    moreover have "q = q div 64 * 64 + q mod 64" by simp
    ultimately have "q div 64 < 5" "q div 64 = 0 \<Longrightarrow> 16 \<le> q mod 64" "q div 64 = 4 \<Longrightarrow> q mod 64 < 16" by linarith+
    moreover have "q mod 64 < 64" "r div 64 mod 64 < 64" "r mod 64 < 64" by simp_all
    ultimately show ?thesis using 5 unfolding encode_rune_def a
      by (auto simp: rune_len_def second_byte_def q_def [symmetric] intro!: rune_text_len)
  qed
qed

lemma unquote_escape_rune: "unquote_escape cs = Some (out, n) \<Longrightarrow> rune_text out"
  by (auto simp: unquote_escape_def unquote_u_def rune_text_encode rune_text_replacement octet_def
      intro!: rune_text_ascii split: if_splits list.splits option.splits)

lemma unquote_step_rune: "unquote_step c cs = Some (out, n) \<Longrightarrow> rune_text out"
  using rune_len_front [of c cs]
  by (auto simp: unquote_step_def unquote_escape_rune rune_text_replacement intro!: rune_text_len
      split: if_splits nat.splits)

lemma unquote_valid: "unquote_body s = Some t \<Longrightarrow> to_valid t = t"
proof (induction s arbitrary: t rule: unquote_body.induct)
  case (2 c cs)
  then obtain out n t' where "unquote_step c cs = Some (out, n)" "unquote_body (drop n cs) = Some t'" "t = out @ t'"
    by (auto split: option.splits)
  with 2(1) unquote_step_rune [of c cs out n] show ?case by (simp add: rune_text_def)
qed simp

end
