(* ===== verification/Json.thy ===== *)
theory Json
  imports Json_String
begin

text \<open>
  JSON texts as \<open>encoding/json\<close> scans them: the state machine of its \<open>scanner\<close> (one step per byte, a stack
  of the open arrays and objects), here also building the value it has read.  On it rest the \<open>Decoder\<close>,
  which stops at the end of the first value, and \<open>compact\<close>, which the encoder runs over a \<open>RawMessage\<close>.
  The lemmas show that the machine accepts what \<open>json_text\<close> prints and gives the value back, and that
  the strings of an accepted text can always be unquoted.
\<close>

section \<open>Values\<close>

text \<open>Strings and keys are the bytes between the quotes as they stand in the text, numbers their text.\<close>

datatype json =
  JNull
| JBool bool
| JNumber bytes
| JString bytes
| JArray "json list"
| JObject "(bytes \<times> json) list"

datatype frame =
  ArrayValue "json list"
| ObjectKey "(bytes \<times> json) list"
| ObjectValue "(bytes \<times> json) list" bytes

section \<open>The scanner\<close>

datatype str_mode = InStr | InStrEsc | InStrEscU nat

datatype num_mode = Neg | Int1 | Int0 | Dot | Dot0 | Exp | ExpSign | Exp0

datatype mode =
  BeginValue
| BeginValueOrEmpty
| BeginStringOrEmpty
| BeginString
| InString str_mode bytes
| InNumber num_mode bytes
| InLiteral bytes json
| EndValue json
| EndTop json
| AfterTop json
| Failed

type_synonym scan_state = "mode \<times> frame list"

definition is_space :: "char \<Rightarrow> bool" where
  "is_space c \<longleftrightarrow> c = CHR '' '' \<or> c = CHR 0x09 \<or> c = CHR 0x0D \<or> c = CHR 0x0A"

abbreviation digit :: "char \<Rightarrow> bool" where
  "digit c \<equiv> 48 \<le> octet c \<and> octet c \<le> 57"

text \<open>One byte inside a string, the closing quote apart.\<close>

definition str_next :: "str_mode \<Rightarrow> char \<Rightarrow> str_mode option" where
  "str_next m c =
     (case m of
        InStr \<Rightarrow> if c = backslash then Some InStrEsc else if octet c < 32 then None else Some InStr
      | InStrEsc \<Rightarrow>
          if c = CHR ''u'' then Some (InStrEscU 0)
          else if c \<in> {CHR ''b'', CHR ''f'', CHR ''n'', CHR ''r'', CHR ''t'', backslash, CHR ''/'', dquote}
          then Some InStr else None
      | InStrEscU i \<Rightarrow>
          if hex_val c = None then None else Some (if i < 3 then InStrEscU (Suc i) else InStr))"

text \<open>The first byte of a number, the next one, and whether the number may end.\<close>

definition num_start :: "char \<Rightarrow> num_mode option" where
  "num_start c =
     (if c = CHR ''-'' then Some Neg else if c = CHR ''0'' then Some Int0
      else if 49 \<le> octet c \<and> octet c \<le> 57 then Some Int1 else None)"

definition num_next :: "num_mode \<Rightarrow> char \<Rightarrow> num_mode option" where
  "num_next m c =
     (let e = (c = CHR ''e'' \<or> c = CHR ''E'')
      in case m of
        Neg \<Rightarrow> if c = CHR ''-'' then None else num_start c
      | Int1 \<Rightarrow> if digit c then Some Int1 else if c = CHR ''.'' then Some Dot else if e then Some Exp else None
      | Int0 \<Rightarrow> if c = CHR ''.'' then Some Dot else if e then Some Exp else None
      | Dot \<Rightarrow> if digit c then Some Dot0 else None
      | Dot0 \<Rightarrow> if digit c then Some Dot0 else if e then Some Exp else None
      | Exp \<Rightarrow> if c = CHR ''+'' \<or> c = CHR ''-'' then Some ExpSign else if digit c then Some Exp0 else None
      | ExpSign \<Rightarrow> if digit c then Some Exp0 else None
      | Exp0 \<Rightarrow> if digit c then Some Exp0 else None)"

definition num_final :: "num_mode \<Rightarrow> bool" where
  "num_final m \<longleftrightarrow> m \<in> {Int1, Int0, Dot0, Exp0}"

text \<open>\<open>popParseState\<close>, and \<open>pushParseState\<close> with its limit on the nesting.\<close>

definition closed :: "json \<Rightarrow> frame list \<Rightarrow> scan_state" where
  "closed v st = (if st = [] then EndTop v else EndValue v, st)"

definition max_nesting :: nat where
  "max_nesting = 10000"

definition push :: "mode \<Rightarrow> frame \<Rightarrow> frame list \<Rightarrow> scan_state" where
  "push m f st = (if length st < max_nesting then (m, f # st) else (Failed, st))"

definition end_top :: "json \<Rightarrow> char \<Rightarrow> scan_state" where
  "end_top v c = (if is_space c then EndTop v else AfterTop v, [])"

definition end_value :: "json \<Rightarrow> char \<Rightarrow> frame list \<Rightarrow> scan_state" where
  "end_value v c st =
     (case st of [] \<Rightarrow> end_top v c | f # st' \<Rightarrow>
        if is_space c then (EndValue v, st)
        else case f of
          ObjectKey ms \<Rightarrow>
            (case v of
               JString k \<Rightarrow> if c = CHR '':'' then (BeginValue, ObjectValue ms k # st') else (Failed, st)
             | _ \<Rightarrow> (Failed, st))
        | ObjectValue ms k \<Rightarrow>
            if c = CHR '','' then (BeginString, ObjectKey (ms @ [(k, v)]) # st')
            else if c = CHR ''}'' then closed (JObject (ms @ [(k, v)])) st'
            else (Failed, st)
        | ArrayValue vs \<Rightarrow>
            if c = CHR '','' then (BeginValue, ArrayValue (vs @ [v]) # st')
            else if c = CHR '']'' then closed (JArray (vs @ [v])) st'
            else (Failed, st))"

definition begin_value :: "char \<Rightarrow> frame list \<Rightarrow> scan_state" where
  "begin_value c st =
     (if is_space c then (BeginValue, st)
      else if c = CHR ''{'' then push BeginStringOrEmpty (ObjectKey []) st
      else if c = CHR ''['' then push BeginValueOrEmpty (ArrayValue []) st
      else if c = dquote then (InString InStr [], st)
      else if c = CHR ''t'' then (InLiteral ''rue'' (JBool True), st)
      else if c = CHR ''f'' then (InLiteral ''alse'' (JBool False), st)
      else if c = CHR ''n'' then (InLiteral ''ull'' JNull, st)
      else case num_start c of Some m \<Rightarrow> (InNumber m [c], st) | None \<Rightarrow> (Failed, st))"

definition begin_string :: "char \<Rightarrow> mode \<Rightarrow> frame list \<Rightarrow> scan_state" where
  "begin_string c here st =
     (if is_space c then (here, st) else if c = dquote then (InString InStr [], st) else (Failed, st))"

definition scan_step :: "scan_state \<Rightarrow> char \<Rightarrow> scan_state" where
  "scan_step s c =
     (case s of (m, st) \<Rightarrow>
       (case m of
          BeginValue \<Rightarrow> begin_value c st
        | BeginValueOrEmpty \<Rightarrow>
            if is_space c then s
            else if c = CHR '']'' then closed (JArray []) (tl st)
            else begin_value c st
        | BeginStringOrEmpty \<Rightarrow>
            if c = CHR ''}'' then closed (JObject []) (tl st) else begin_string c BeginStringOrEmpty st
        | BeginString \<Rightarrow> begin_string c BeginString st
        | InString sm raw \<Rightarrow>
            if sm = InStr \<and> c = dquote then (EndValue (JString raw), st)
            else (case str_next sm c of Some sm' \<Rightarrow> (InString sm' (raw @ [c]), st) | None \<Rightarrow> (Failed, st))
        | InNumber nm txt \<Rightarrow>
            (case num_next nm c of
               Some nm' \<Rightarrow> (InNumber nm' (txt @ [c]), st)
             | None \<Rightarrow> if num_final nm then end_value (JNumber txt) c st else (Failed, st))
        | InLiteral rest v \<Rightarrow>
            (case rest of
               [] \<Rightarrow> (Failed, st)
             | l # ls \<Rightarrow> if c \<noteq> l then (Failed, st) else if ls = [] then (EndValue v, st) else (InLiteral ls v, st))
        | EndValue v \<Rightarrow> end_value v c st
        | EndTop v \<Rightarrow> end_top v c
        | AfterTop v \<Rightarrow> s
        | Failed \<Rightarrow> s))"

definition scan :: "scan_state \<Rightarrow> bytes \<Rightarrow> scan_state" where
  "scan = foldl scan_step"

abbreviation scan_init :: scan_state where
  "scan_init \<equiv> (BeginValue, [])"

text \<open>The value when the text ends here: the scanner is given a space.\<close>

definition at_eof :: "scan_state \<Rightarrow> json option" where
  "at_eof s = (case scan_step s (CHR '' '') of (EndTop v, st) \<Rightarrow> Some v | _ \<Rightarrow> None)"

text \<open>A whole text, as \<open>compact\<close> and \<open>checkValid\<close> read it.\<close>

definition json_parse :: "bytes \<Rightarrow> json option" where
  "json_parse s = at_eof (scan scan_init s)"

text \<open>\<open>Decoder.readValue\<close>: the first value of a body, whatever follows it.  \<open>fails\<close> says that the body ends
  with a read error and not with EOF.\<close>

fun read_value :: "bool \<Rightarrow> scan_state \<Rightarrow> bytes \<Rightarrow> json option" where
  "read_value fails s [] = (if fails then None else at_eof s)"
| "read_value fails s (c # cs) =
     (let s' = scan_step s c
      in case fst s' of
           EndTop v \<Rightarrow> Some v
         | AfterTop v \<Rightarrow> Some v
         | Failed \<Rightarrow> None
         | _ \<Rightarrow> read_value fails s' cs)"

section \<open>Printing\<close>

text \<open>The text of a value without white space; \<open>f\<close> is applied to the raw strings.\<close>

fun commas :: "bytes list \<Rightarrow> bytes" where
  "commas [] = []"
| "commas [x] = x"
| "commas (x # xs) = x @ CHR '','' # commas xs"

definition raw_text :: "(bytes \<Rightarrow> bytes) \<Rightarrow> bytes \<Rightarrow> bytes" where
  "raw_text f raw = dquote # f raw @ [dquote]"

fun json_text :: "(bytes \<Rightarrow> bytes) \<Rightarrow> json \<Rightarrow> bytes" where
  "json_text f JNull = ''null''"
| "json_text f (JBool b) = (if b then ''true'' else ''false'')"
| "json_text f (JNumber txt) = txt"
| "json_text f (JString raw) = raw_text f raw"
| "json_text f (JArray vs) = CHR ''['' # commas (map (json_text f) vs) @ '']''"
| "json_text f (JObject ms) =
     CHR ''{'' # commas (map (\<lambda>(k, v). raw_text f k @ CHR '':'' # json_text f v) ms) @ ''}''"

text \<open>\<open>appendCompact\<close> with HTML escaping, on the raw strings: outside of strings none of these bytes occur.\<close>

fun html_raw :: "bytes \<Rightarrow> bytes" where
  "html_raw [] = []"
| "html_raw (c # cs) =
     (if html_unsafe c then escape_u00 c @ html_raw cs
      else case line_separator (c # cs) of
             Some d \<Rightarrow> escape_separator d @ html_raw (drop 2 cs)
           | None \<Rightarrow> c # html_raw cs)"

definition compact :: "bytes \<Rightarrow> bytes option" where
  "compact s = map_option (json_text html_raw) (json_parse s)"

section \<open>Well-formed values\<close>

fun str_run :: "str_mode \<Rightarrow> bytes \<Rightarrow> str_mode option" where
  "str_run m [] = Some m"
| "str_run m (c # cs) =
     (if m = InStr \<and> c = dquote then None
      else case str_next m c of None \<Rightarrow> None | Some m' \<Rightarrow> str_run m' cs)"

definition raw_ok :: "bytes \<Rightarrow> bool" where
  "raw_ok raw \<longleftrightarrow> str_run InStr raw = Some InStr"

fun num_run :: "num_mode \<Rightarrow> bytes \<Rightarrow> num_mode option" where
  "num_run m [] = Some m"
| "num_run m (c # cs) = (case num_next m c of None \<Rightarrow> None | Some m' \<Rightarrow> num_run m' cs)"

fun number_ok :: "bytes \<Rightarrow> bool" where
  "number_ok [] = False"
| "number_ok (c # cs) =
     (case num_start c of None \<Rightarrow> False
      | Some m \<Rightarrow> (case num_run m cs of None \<Rightarrow> False | Some m' \<Rightarrow> num_final m'))"

fun json_ok :: "json \<Rightarrow> bool" where
  "json_ok JNull = True"
| "json_ok (JBool b) = True"
| "json_ok (JNumber txt) = number_ok txt"
| "json_ok (JString raw) = raw_ok raw"
| "json_ok (JArray vs) = (\<forall>v\<in>set vs. json_ok v)"
| "json_ok (JObject ms) = (\<forall>m\<in>set ms. raw_ok (fst m) \<and> json_ok (snd m))"

fun nesting :: "json \<Rightarrow> nat" where
  "nesting (JArray vs) = Suc (foldr max (map nesting vs) 0)"
| "nesting (JObject ms) = Suc (foldr max (map (\<lambda>m. nesting (snd m)) ms) 0)"
| "nesting v = 0"

fun map_raw :: "(bytes \<Rightarrow> bytes) \<Rightarrow> json \<Rightarrow> json" where
  "map_raw f (JString raw) = JString (f raw)"
| "map_raw f (JArray vs) = JArray (map (map_raw f) vs)"
| "map_raw f (JObject ms) = JObject (map (\<lambda>m. (f (fst m), map_raw f (snd m))) ms)"
| "map_raw f v = v"

lemma foldr_max_ge: "x \<in> set xs \<Longrightarrow> x \<le> foldr max xs (0::nat)"
  by (induction xs) auto

section \<open>Scanning what is printed\<close>

lemma scan_simps [simp]: "scan s [] = s" "scan s (c # cs) = scan (scan_step s c) cs" "scan s (xs @ ys) = scan (scan s xs) ys"
  by (simp_all add: scan_def)

text \<open>The bytes that can follow a value.\<close>

definition stops :: "char \<Rightarrow> bool" where
  "stops c \<longleftrightarrow> is_space c \<or> c \<in> {CHR '','', CHR '']'', CHR ''}'', CHR '':''}"

lemma stops_simps [simp]: "stops (CHR '','')" "stops (CHR '']'')" "stops (CHR ''}'')" "stops (CHR '':'')" "stops (CHR '' '')"
  by (simp_all add: stops_def is_space_def)

definition reads :: "json \<Rightarrow> frame list \<Rightarrow> scan_state \<Rightarrow> bool" where
  "reads v st s \<longleftrightarrow> (\<forall>c. stops c \<longrightarrow> scan_step s c = end_value v c st)"

lemma readsD: "reads v st s \<Longrightarrow> stops c \<Longrightarrow> scan_step s c = end_value v c st"
  by (simp add: reads_def)

lemma reads_EndValue [simp]: "reads v st (EndValue v, st)"
  by (simp add: reads_def scan_step_def)

lemma reads_closed: "reads v st (closed v st)"
  by (simp add: reads_def closed_def scan_step_def end_value_def)

lemma scan_str_run: "str_run m raw = Some m' \<Longrightarrow> scan (InString m acc, st) raw = (InString m' (acc @ raw), st)"
  by (induction m raw arbitrary: acc rule: str_run.induct) (auto simp: scan_step_def split: if_splits option.splits)

lemma scan_raw:
  assumes "raw_ok raw"
  shows "scan (InString InStr [], st) (raw @ [dquote]) = (EndValue (JString raw), st)"
  using scan_str_run [OF assms [unfolded raw_ok_def], of "[]" st] by (simp add: scan_step_def)

lemma begin_dquote [simp]: "scan_step (BeginValue, st) dquote = (InString InStr [], st)"
  "scan_step (BeginString, st) dquote = (InString InStr [], st)"
  "scan_step (BeginStringOrEmpty, st) dquote = (InString InStr [], st)"
  by (simp_all add: scan_step_def begin_value_def begin_string_def is_space_def)

lemma scan_num_run: "num_run m cs = Some m' \<Longrightarrow> scan (InNumber m acc, st) cs = (InNumber m' (acc @ cs), st)"
  by (induction m cs arbitrary: acc rule: num_run.induct) (auto simp: scan_step_def split: option.splits)

lemma stops_cases: "stops c \<Longrightarrow> c \<in> {CHR '' '', CHR 0x09, CHR 0x0D, CHR 0x0A, CHR '','', CHR '']'', CHR ''}'', CHR '':''}"
  by (auto simp: stops_def is_space_def)

lemma num_next_stops:
  assumes "num_final m" and "stops c"
  shows "num_next m c = None"
  using stops_cases [OF assms(2)] assms(1)
  by (elim insertE emptyE; hypsubst_thin; cases m) (simp_all add: num_next_def num_final_def octet_def)

lemma num_start_distinct:
  assumes "num_start c = Some m"
  shows "\<not> is_space c" "c \<notin> {CHR ''{'', CHR ''['', CHR '']'', dquote, CHR ''t'', CHR ''f'', CHR ''n''}"
proof -
  from assms have "octet c = 45 \<or> 48 \<le> octet c \<and> octet c \<le> 57"
    by (auto simp: num_start_def octet_def split: if_splits)
  then show "\<not> is_space c" "c \<notin> {CHR ''{'', CHR ''['', CHR '']'', dquote, CHR ''t'', CHR ''f'', CHR ''n''}"
    by (auto simp: is_space_def octet_def)
qed

lemma num_start_value: "num_start c = Some m \<Longrightarrow> scan_step (BeginValue, st) c = (InNumber m [c], st)"
  using num_start_distinct [of c m] by (simp add: scan_step_def begin_value_def)

lemma reads_number:
  assumes "number_ok txt"
  shows "reads (JNumber txt) st (scan (BeginValue, st) txt)"
proof (cases "txt")
  case (Cons c cs)
  with assms obtain m m' where "num_start c = Some m" "num_run m cs = Some m'" "num_final m'"
    by (auto split: option.splits)
  then show ?thesis
    by (simp add: Cons num_start_value scan_num_run reads_def)
      (simp add: scan_step_def num_next_stops)
qed (use assms in simp)

lemma text_front:
  assumes "json_ok j"
  obtains c cs where "json_text f j = c # cs" "c \<noteq> CHR '']''" "\<not> is_space c"
  using assms
proof (cases j)
  case (JNumber num)
  with assms obtain c cs m where "num = c # cs" "num_start c = Some m"
    by (cases num) (auto split: option.splits)
  with num_start_distinct [of c m] JNumber show thesis by (intro that [of c cs]) auto
next
  case (JBool b)
  with that show thesis by (cases b) (auto simp: is_space_def)
qed (auto simp: raw_text_def is_space_def intro: that split: if_splits)

lemma scan_begin_or_empty:
  "c \<noteq> CHR '']'' \<Longrightarrow> \<not> is_space c \<Longrightarrow> scan_step (BeginValueOrEmpty, st) c = scan_step (BeginValue, st) c"
  by (simp add: scan_step_def)

lemma commas_Cons: "commas (x # xs) = x @ (if xs = [] then [] else CHR '','' # commas xs)"
  by (cases xs) simp_all

lemma scan_elements:
  assumes "\<And>v st. v \<in> set (u # us) \<Longrightarrow> length st = n \<Longrightarrow> reads (map_raw f v) st (scan (BeginValue, st) (json_text f v))"
    and "Suc (length st) = n"
  shows "scan (BeginValue, ArrayValue vs # st) (commas (map (json_text f) (u # us)) @ '']'') =
    closed (JArray (vs @ map (map_raw f) (u # us))) st"
  using assms
proof (induction us arbitrary: u vs)
  case Nil
  then show ?case
    using readsD [OF Nil.prems(1) [of u "ArrayValue vs # st"]] by (simp add: end_value_def is_space_def)
next
  case (Cons w us)
  have "scan (BeginValue, ArrayValue vs # st) (json_text f u @ '','') = (BeginValue, ArrayValue (vs @ [map_raw f u]) # st)"
    using readsD [OF Cons.prems(1) [of u "ArrayValue vs # st"]] Cons.prems(2) by (simp add: end_value_def is_space_def)
  moreover have "scan (BeginValue, ArrayValue (vs @ [map_raw f u]) # st) (commas (map (json_text f) (w # us)) @ '']'') =
      closed (JArray ((vs @ [map_raw f u]) @ map (map_raw f) (w # us))) st"
    by (rule Cons.IH) (use Cons.prems in auto)
  ultimately show ?case by (simp add: commas_Cons)
qed

lemma scan_key:
  assumes "raw_ok (f k)" and "m = BeginString \<or> m = BeginStringOrEmpty"
  shows "scan (m, ObjectKey ms # st) (raw_text f k @ '':'') = (BeginValue, ObjectValue ms (f k) # st)"
  using assms scan_raw [of "f k" "ObjectKey ms # st"]
  by (auto simp: raw_text_def) (simp_all add: scan_step_def end_value_def is_space_def)

lemma scan_members:
  assumes "\<And>p st. p \<in> set (u # us) \<Longrightarrow> length st = n \<Longrightarrow> raw_ok (f (fst p)) \<and> reads (map_raw f (snd p)) st (scan (BeginValue, st) (json_text f (snd p)))"
    and "Suc (length st) = n" and "m = BeginString \<or> m = BeginStringOrEmpty"
  shows "scan (m, ObjectKey ms # st)
      (commas (map (\<lambda>(k, v). raw_text f k @ CHR '':'' # json_text f v) (u # us)) @ ''}'') =
    closed (JObject (ms @ map (\<lambda>p. (f (fst p), map_raw f (snd p))) (u # us))) st"
  using assms
proof (induction us arbitrary: u ms m)
  case Nil
  obtain k v where u: "u = (k, v)" by (rule prod.exhaust)
  with Nil.prems(1) [of u "ObjectValue ms (f k) # st"] Nil.prems(2)
  have r: "reads (map_raw f v) (ObjectValue ms (f k) # st) (scan (BeginValue, ObjectValue ms (f k) # st) (json_text f v))"
    and k: "raw_ok (f k)" by auto
  show ?case
    using readsD [OF r] scan_key [of f k m ms st, OF k Nil.prems(3)] by (simp add: u end_value_def is_space_def)
next
  case (Cons w us)
  obtain k v where u: "u = (k, v)" by (rule prod.exhaust)
  with Cons.prems(1) [of u "ObjectValue ms (f k) # st"] Cons.prems(2)
  have r: "reads (map_raw f v) (ObjectValue ms (f k) # st) (scan (BeginValue, ObjectValue ms (f k) # st) (json_text f v))"
    and k: "raw_ok (f k)" by auto
  have "scan (m, ObjectKey ms # st) (raw_text f k @ CHR '':'' # json_text f v @ '','') =
      (BeginString, ObjectKey (ms @ [(f k, map_raw f v)]) # st)"
    using readsD [OF r] scan_key [of f k m ms st, OF k Cons.prems(3)] by (simp add: end_value_def is_space_def)
  moreover have "scan (BeginString, ObjectKey (ms @ [(f k, map_raw f v)]) # st)
      (commas (map (\<lambda>(k, v). raw_text f k @ CHR '':'' # json_text f v) (w # us)) @ ''}'') =
      closed (JObject ((ms @ [(f k, map_raw f v)]) @ map (\<lambda>p. (f (fst p), map_raw f (snd p))) (w # us))) st"
    by (rule Cons.IH) (use Cons.prems in auto)
  ultimately show ?case by (simp add: commas_Cons u)
qed

lemma reads_text:
  assumes f: "\<And>raw. raw_ok raw \<Longrightarrow> raw_ok (f raw)"
  shows "json_ok j \<Longrightarrow> nesting j + length st \<le> max_nesting \<Longrightarrow>
    reads (map_raw f j) st (scan (BeginValue, st) (json_text f j))"
proof (induction j arbitrary: st)
  case (JArray vs)
  then have push: "scan_step (BeginValue, st) (CHR ''['') = (BeginValueOrEmpty, ArrayValue [] # st)"
    by (simp add: scan_step_def begin_value_def push_def is_space_def)
  show ?case
  proof (cases vs)
    case Nil
    then show ?thesis by (simp add: push) (simp add: scan_step_def is_space_def reads_closed)
  next
    case (Cons u us)
    have "scan (BeginValue, ArrayValue [] # st) (commas (map (json_text f) (u # us)) @ '']'') =
        closed (JArray ([] @ map (map_raw f) (u # us))) st"
    proof (rule scan_elements [OF _ refl])
      fix v st' assume v: "v \<in> set (u # us)" and st': "length (st' :: frame list) = Suc (length st)"
      from v have "v \<in> set vs" unfolding Cons .
      from v have "nesting v \<le> foldr max (map nesting vs) 0"
        unfolding Cons by (intro foldr_max_ge) auto
      then have "nesting v + length st' \<le> max_nesting" using JArray.prems(2) st' by simp
      then show "reads (map_raw f v) st' (scan (BeginValue, st') (json_text f v))"
        using JArray.IH [OF \<open>v \<in> set vs\<close>] JArray.prems(1) \<open>v \<in> set vs\<close> by simp
    qed
    moreover obtain c cs where "json_text f u = c # cs" "c \<noteq> CHR '']''" "\<not> is_space c"
      using text_front [of u f] JArray.prems(1) Cons by auto
    ultimately show ?thesis
      by (simp add: Cons push commas_Cons scan_begin_or_empty reads_closed)
  qed
next
  case (JObject ms)
  then have push: "scan_step (BeginValue, st) (CHR ''{'') = (BeginStringOrEmpty, ObjectKey [] # st)"
    by (simp add: scan_step_def begin_value_def push_def is_space_def)
  show ?case
  proof (cases ms)
    case Nil
    then show ?thesis by (simp add: push) (simp add: scan_step_def reads_closed)
  next
    case (Cons u us)
    have "scan (BeginStringOrEmpty, ObjectKey [] # st)
        (commas (map (\<lambda>(k, v). raw_text f k @ CHR '':'' # json_text f v) (u # us)) @ ''}'') =
        closed (JObject ([] @ map (\<lambda>p. (f (fst p), map_raw f (snd p))) (u # us))) st"
    proof (rule scan_members [OF _ refl])
      fix p st' assume p: "p \<in> set (u # us)" and st': "length (st' :: frame list) = Suc (length st)"
      from p have "nesting (snd p) \<le> foldr max (map (\<lambda>m. nesting (snd m)) ms) 0"
        unfolding Cons by (intro foldr_max_ge) auto
      moreover have "p \<in> set ms" using p Cons by simp
      moreover have "snd p \<in> Basic_BNFs.snds p" by (cases p) auto
      ultimately show "raw_ok (f (fst p)) \<and> reads (map_raw f (snd p)) st' (scan (BeginValue, st') (json_text f (snd p)))"
        using JObject.IH [of p "snd p" st'] JObject.prems st' f by auto
    qed simp
    then show ?thesis by (simp add: Cons push reads_closed)
  qed
next
  case (JNumber num)
  then show ?case by (simp add: reads_number)
next
  case (JString raw)
  then show ?case using scan_raw [OF f, of raw st] by (simp add: raw_text_def)
qed (simp_all add: scan_step_def begin_value_def is_space_def num_start_def reads_def)

theorem parse_text:
  assumes "\<And>raw. raw_ok raw \<Longrightarrow> raw_ok (f raw)" and "json_ok j" and "nesting j \<le> max_nesting"
  shows "json_parse (json_text f j) = Some (map_raw f j)"
proof -
  have "reads (map_raw f j) [] (scan scan_init (json_text f j))"
    using reads_text [OF assms(1,2), where st = "[]"] assms(3) by simp
  from readsD [OF this, of "CHR '' ''"] show ?thesis
    by (simp add: json_parse_def at_eof_def end_value_def end_top_def is_space_def)
qed

section \<open>What the scanner accepts is well formed\<close>

lemma str_run_snoc: "str_run m (raw @ [c]) = (case str_run m raw of None \<Rightarrow> None | Some m' \<Rightarrow> str_run m' [c])"
  by (induction m raw rule: str_run.induct) (auto split: option.split)

lemma num_run_snoc: "num_run m (cs @ [c]) = (case num_run m cs of None \<Rightarrow> None | Some m' \<Rightarrow> num_next m' c)"
  by (induction m cs rule: num_run.induct) (auto split: option.split)

text \<open>A value that fits below \<open>n\<close> open arrays and objects.\<close>

definition fits :: "nat \<Rightarrow> json \<Rightarrow> bool" where
  "fits n v \<longleftrightarrow> json_ok v \<and> nesting v + n \<le> max_nesting"

definition number_run :: "num_mode \<Rightarrow> bytes \<Rightarrow> bool" where
  "number_run m s \<longleftrightarrow> (\<exists>c cs m0. s = c # cs \<and> num_start c = Some m0 \<and> num_run m0 cs = Some m)"

fun mode_ok :: "nat \<Rightarrow> mode \<Rightarrow> bool" where
  "mode_ok n (InString m raw) = (str_run InStr raw = Some m)"
| "mode_ok n (InNumber m s) = number_run m s"
| "mode_ok n (InLiteral ls v) = fits n v"
| "mode_ok n (EndValue v) = fits n v"
| "mode_ok n (EndTop v) = fits 0 v"
| "mode_ok n (AfterTop v) = fits 0 v"
| "mode_ok n m = True"

fun frame_ok :: "nat \<Rightarrow> frame \<Rightarrow> bool" where
  "frame_ok n (ArrayValue vs) = (\<forall>v\<in>set vs. fits n v)"
| "frame_ok n (ObjectKey ms) = (\<forall>m\<in>set ms. raw_ok (fst m) \<and> fits n (snd m))"
| "frame_ok n (ObjectValue ms k) = (raw_ok k \<and> (\<forall>m\<in>set ms. raw_ok (fst m) \<and> fits n (snd m)))"

fun frames_ok :: "frame list \<Rightarrow> bool" where
  "frames_ok [] = True"
| "frames_ok (f # fs) = (frame_ok (Suc (length fs)) f \<and> frames_ok fs)"

fun scan_ok :: "scan_state \<Rightarrow> bool" where
  "scan_ok (m, st) \<longleftrightarrow> mode_ok (length st) m \<and> frames_ok st \<and> length st \<le> max_nesting"

lemma foldr_max_le: "foldr max xs 0 \<le> n \<longleftrightarrow> (\<forall>x\<in>set xs. x \<le> (n::nat))"
  by (induction xs) auto

lemma fits_scalar [simp]: "fits n JNull \<longleftrightarrow> n \<le> max_nesting" "fits n (JBool b) \<longleftrightarrow> n \<le> max_nesting"
  "fits n (JString raw) \<longleftrightarrow> raw_ok raw \<and> n \<le> max_nesting" "fits n (JNumber s) \<longleftrightarrow> number_ok s \<and> n \<le> max_nesting"
  by (simp_all add: fits_def)

lemma fits_array: "Suc n \<le> max_nesting \<Longrightarrow> fits n (JArray vs) \<longleftrightarrow> (\<forall>v\<in>set vs. fits (Suc n) v)"
  using foldr_max_le [of "map nesting vs" "max_nesting - Suc n"]
  by (auto simp: fits_def)

lemma fits_object: "Suc n \<le> max_nesting \<Longrightarrow> fits n (JObject ms) \<longleftrightarrow> (\<forall>m\<in>set ms. raw_ok (fst m) \<and> fits (Suc n) (snd m))"
  using foldr_max_le [of "map (\<lambda>m. nesting (snd m)) ms" "max_nesting - Suc n"]
  by (auto simp: fits_def)

lemma closed_ok: "fits (length st) v \<Longrightarrow> frames_ok st \<Longrightarrow> length st \<le> max_nesting \<Longrightarrow> scan_ok (closed v st)"
  by (auto simp: closed_def)

lemma end_value_ok:
  assumes "fits (length st) v" and "frames_ok st" and "length st \<le> max_nesting"
  shows "scan_ok (end_value v c st)"
proof (cases st)
  case Nil
  with assms show ?thesis by (simp add: end_value_def end_top_def)
next
  case (Cons f fs)
  show ?thesis
  proof (cases f)
    case (ArrayValue vs)
    with assms Cons show ?thesis
      by (auto simp: end_value_def fits_array intro!: closed_ok)
  next
    case (ObjectKey ms)
    with assms Cons show ?thesis
      by (auto simp: end_value_def split: json.split)
  next
    case (ObjectValue ms k)
    with assms Cons show ?thesis
      by (auto simp: end_value_def fits_object intro!: closed_ok)
  qed
qed

lemma begin_value_ok:
  assumes "frames_ok st" and "length st \<le> max_nesting"
  shows "scan_ok (begin_value c st)"
  using assms by (auto simp: begin_value_def push_def number_run_def split: option.split)

lemma number_run_final: "number_run m s \<Longrightarrow> num_final m \<Longrightarrow> number_ok s"
  by (auto simp: number_run_def)

lemma number_run_next: "number_run m s \<Longrightarrow> num_next m c = Some m' \<Longrightarrow> number_run m' (s @ [c])"
  by (auto simp: number_run_def num_run_snoc)

lemma frames_ok_tl: "frames_ok st \<Longrightarrow> frames_ok (tl st)"
  by (cases st) auto

lemma scan_step_ok:
  assumes "scan_ok s"
  shows "scan_ok (scan_step s c)"
proof -
  obtain m st where s: "s = (m, st)" by (rule prod.exhaust)
  with assms have ok: "mode_ok (length st) m" "frames_ok st" "length st \<le> max_nesting" by simp_all
  note simps = s scan_step_def
  show ?thesis
  proof (cases m)
    case BeginValue
    with ok show ?thesis by (simp add: simps begin_value_ok)
  next
    case BeginValueOrEmpty
    have "scan_ok (closed (JArray []) (tl st))"
      using ok frames_ok_tl by (intro closed_ok) (auto simp: fits_def max_nesting_def)
    with BeginValueOrEmpty ok show ?thesis by (simp add: simps begin_value_ok)
  next
    case BeginStringOrEmpty
    have "scan_ok (closed (JObject []) (tl st))"
      using ok frames_ok_tl by (intro closed_ok) (auto simp: fits_def max_nesting_def)
    with BeginStringOrEmpty ok show ?thesis by (simp add: simps begin_string_def)
  next
    case BeginString
    with ok show ?thesis by (simp add: simps begin_string_def)
  next
    case (InString sm raw)
    with ok show ?thesis
      by (auto simp: simps raw_ok_def str_run_snoc split: option.split)
  next
    case (InNumber nm num)
    with ok show ?thesis
      by (auto simp: simps number_run_next end_value_ok number_run_final split: option.split)
  next
    case (InLiteral ls v)
    with ok show ?thesis by (auto simp: simps split: list.split)
  next
    case (EndValue v)
    with ok show ?thesis by (simp add: simps end_value_ok)
  next
    case (EndTop v)
    with ok show ?thesis by (simp add: simps end_top_def)
  qed (use ok in \<open>simp_all add: simps\<close>)
qed

lemma scan_all_ok: "scan_ok s \<Longrightarrow> scan_ok (scan s cs)"
  by (induction cs arbitrary: s) (simp_all add: scan_step_ok)

lemma scan_init_ok: "scan_ok scan_init"
  by simp

lemma at_eof_ok: "scan_ok s \<Longrightarrow> at_eof s = Some v \<Longrightarrow> json_ok v \<and> nesting v \<le> max_nesting"
  using scan_step_ok [of s "CHR '' ''"]
  by (auto simp: at_eof_def fits_def split: prod.splits mode.splits)

theorem json_parse_ok: "json_parse s = Some v \<Longrightarrow> json_ok v \<and> nesting v \<le> max_nesting"
  using at_eof_ok [OF scan_all_ok [OF scan_init_ok]] by (simp add: json_parse_def)

lemma read_value_ok: "scan_ok s \<Longrightarrow> read_value fails s cs = Some v \<Longrightarrow> json_ok v \<and> nesting v \<le> max_nesting"
proof (induction fails s cs rule: read_value.induct)
  case (1 fails s)
  then show ?case using at_eof_ok by (auto split: if_splits)
next
  case (2 fails s c cs)
  have ok: "scan_ok (scan_step s c)" using "2.prems"(1) by (rule scan_step_ok)
  obtain m st where s': "scan_step s c = (m, st)" by (rule prod.exhaust)
  show ?case
    using 2 ok s' by (cases m) (auto simp: fits_def Let_def)
qed

end
