(* ===== verification/Json_Quote.thy ===== *)
theory Json_Quote
  imports Json
begin

text \<open>
  The strings of the texts \<open>Json\<close> accepts: they can be unquoted, so the decoder's \<open>panic\<close> on a string it
  cannot unquote is out of reach; what \<open>quote_string\<close> prints is accepted; and the HTML escaping of
  \<open>compact\<close> changes the text of a string but not what it stands for.
\<close>

section \<open>Strings of an accepted text\<close>

lemma str_run_hex:
  assumes "str_run (InStrEscU i) s = Some InStr"
  obtains c cs where "s = c # cs" "hex_val c \<noteq> None" "str_run (if i < 3 then InStrEscU (Suc i) else InStr) cs = Some InStr"
  using assms by (cases s) (auto simp: str_next_def split: if_splits)

lemma str_run_u:
  assumes "str_run InStr (backslash # CHR ''u'' # s) = Some InStr"
  obtains a b c d t where "s = a # b # c # d # t" "hex_val a \<noteq> None" "hex_val b \<noteq> None" "hex_val c \<noteq> None"
    "hex_val d \<noteq> None" "str_run InStr t = Some InStr"
proof -
  have "str_run (InStrEscU 0) s = Some InStr" using assms by (simp add: str_next_def)
  then obtain a s1 where 1: "s = a # s1" "hex_val a \<noteq> None" "str_run (InStrEscU 1) s1 = Some InStr"
    by (rule str_run_hex) simp
  from 1(3) obtain b s2 where 2: "s1 = b # s2" "hex_val b \<noteq> None" "str_run (InStrEscU 2) s2 = Some InStr"
    by (rule str_run_hex) (simp add: numeral_2_eq_2)
  from 2(3) obtain c s3 where 3: "s2 = c # s3" "hex_val c \<noteq> None" "str_run (InStrEscU 3) s3 = Some InStr"
    by (rule str_run_hex) (simp add: numeral_3_eq_3)
  from 3(3) obtain d t where 4: "s3 = d # t" "hex_val d \<noteq> None" "str_run InStr t = Some InStr"
    by (rule str_run_hex) simp
  from that [of a b c d t] 1 2 3 4 show thesis by simp
qed

lemma getu4_Some:
  assumes "getu4 s = Some r"
  obtains a b c d t where "s = backslash # CHR ''u'' # a # b # c # d # t"
  using assms by (cases s rule: getu4.cases) (auto split: if_splits elim!: hex4.elims)

lemma str_run_high: "\<forall>c\<in>set xs. 128 \<le> octet c \<Longrightarrow> str_run InStr (xs @ ys) = str_run InStr ys"
  by (induction xs) (auto simp: str_next_def octet_def)

lemma rune_len_high: "rune_len (c # cs) = Suc (Suc n) \<Longrightarrow> \<forall>b\<in>set (c # take (Suc n) cs). 128 \<le> octet b"
  by (auto simp: rune_len_def second_byte_def take_Cons' split: list.splits if_splits)

lemma raw_backslash:
  assumes "str_run InStr (backslash # cs) = Some InStr"
  obtains (u) a b c d t where "cs = CHR ''u'' # a # b # c # d # t" "hex_val a \<noteq> None" "hex_val b \<noteq> None"
      "hex_val c \<noteq> None" "hex_val d \<noteq> None" "str_run InStr t = Some InStr"
  | (short) e t where "cs = e # t" "e \<in> {CHR ''b'', CHR ''f'', CHR ''n'', CHR ''r'', CHR ''t'', backslash, CHR ''/'', dquote}"
      "str_run InStr t = Some InStr"
proof -
  obtain e s where cs: "cs = e # s" and e: "str_next InStrEsc e \<noteq> None"
    using assms by (cases cs) (auto simp: str_next_def split: option.splits)
  show thesis
  proof (cases "e = CHR ''u''")
    case True
    obtain a b c d t where "s = a # b # c # d # t" "hex_val a \<noteq> None" "hex_val b \<noteq> None"
        "hex_val c \<noteq> None" "hex_val d \<noteq> None" "str_run InStr t = Some InStr"
      by (rule str_run_u [OF assms [unfolded cs True]])
    with u [of a b c d t] show thesis by (simp add: cs True)
  next
    case False
    with e have "e \<in> {CHR ''b'', CHR ''f'', CHR ''n'', CHR ''r'', CHR ''t'', backslash, CHR ''/'', dquote}"
      by (auto simp: str_next_def split: if_splits)
    moreover from this False have "str_run InStr s = Some InStr"
      using assms cs by (auto simp: str_next_def split: if_splits)
    ultimately show thesis using cs short by blast
  qed
qed

lemma raw_step:
  assumes "str_run InStr (c # cs) = Some InStr"
  shows "\<exists>out n. unquote_step c cs = Some (out, n) \<and> str_run InStr (drop n cs) = Some InStr"
proof (cases "c = backslash")
  case True
  from assms [unfolded True] show ?thesis
  proof (cases rule: raw_backslash)
    case (u a b c' d t)
    have "str_run InStr (drop 6 t) = Some InStr" if "getu4 t = Some r" for r
    proof -
      from that obtain a b c d t' where t': "t = backslash # CHR ''u'' # a # b # c # d # t'" by (rule getu4_Some)
      have "str_run InStr t' = Some InStr" by (rule str_run_u [OF u(6) [unfolded t']]) simp
      with t' show ?thesis by simp
    qed
    with u show ?thesis
      by (auto simp: True unquote_step_def unquote_escape_def unquote_u_def surrogate_pair_def split: option.splits)
  next
    case (short e t)
    then show ?thesis by (auto simp: True unquote_step_def unquote_escape_def)
  qed
next
  case False
  with assms have c: "c \<noteq> dquote" "\<not> octet c < 32" and cs: "str_run InStr cs = Some InStr"
    by (auto simp: str_next_def split: if_splits)
  show ?thesis
  proof (cases "rune_len (c # cs)")
    case 0
    with False c cs show ?thesis by (simp add: unquote_step_def)
  next
    case (Suc n)
    have "str_run InStr (drop n cs) = Some InStr"
    proof (cases n)
      case (Suc k)
      with \<open>rune_len (c # cs) = Suc n\<close> have "\<forall>b\<in>set (take n cs). 128 \<le> octet b"
        using rune_len_high [of c cs k] by simp
      from str_run_high [OF this, of "drop n cs"] cs show ?thesis by simp
    qed (use cs in simp)
    with Suc False c show ?thesis by (simp add: unquote_step_def)
  qed
qed

lemma raw_ok_unquote: "raw_ok raw \<Longrightarrow> unquote_body raw \<noteq> None"
  unfolding raw_ok_def
proof (induction raw rule: unquote_body.induct)
  case (2 c cs)
  from raw_step [OF "2.prems"] obtain out n where
    "unquote_step c cs = Some (out, n)" "str_run InStr (drop n cs) = Some InStr" by blast
  with "2.IH" show ?case by auto
qed simp

section \<open>Quoted and escaped strings\<close>

lemma str_run_escape_u00: "octet c < 128 \<Longrightarrow> str_run InStr (escape_u00 c @ t) = str_run InStr t"
proof -
  assume "octet c < 128"
  then have "hex_val (hex_char (octet c div 16)) = Some (octet c div 16)"
      "hex_val (hex_char (octet c mod 16)) = Some (octet c mod 16)"
    by (simp_all add: hex_roundtrip)
  then show ?thesis by (simp add: escape_u00_def str_next_def)
qed

lemma str_run_separator: "d = 8 \<or> d = 9 \<Longrightarrow> str_run InStr (escape_separator d @ t) = str_run InStr t"
  by (auto simp: escape_separator_def str_next_def hex_roundtrip)

lemma str_run_escape_ascii:
  assumes "octet c < 128"
  shows "str_run InStr (escape_ascii c @ t) = str_run InStr t"
proof (cases "c \<in> {backslash, dquote, CHR 0x08, CHR 0x0C, CHR 0x0A, CHR 0x0D, CHR 0x09}")
  case True
  then show ?thesis
    by (elim insertE emptyE; hypsubst_thin) (simp_all add: escape_ascii_def str_next_def)
next
  case False
  then have "escape_ascii c = (if octet c < 32 \<or> html_unsafe c then escape_u00 c else [c])"
    by (simp add: escape_ascii_def)
  with False assms str_run_escape_u00 show ?thesis by (simp add: str_next_def)
qed

lemma str_run_quote_step: "str_run InStr (fst (quote_step c cs) @ t) = str_run InStr t"
proof (cases "rune_len (c # cs)")
  case 0
  then show ?thesis by (simp add: quote_step_def str_next_def)
next
  case (Suc n)
  show ?thesis
  proof (cases n)
    case 0
    with Suc have "octet c < 128" by (simp add: rune_len_1)
    with 0 Suc show ?thesis by (simp add: quote_step_def str_run_escape_ascii)
  next
    case (Suc k)
    with \<open>rune_len (c # cs) = Suc n\<close> have "\<forall>b\<in>set (c # take n cs). 128 \<le> octet b"
      using rune_len_high [of c cs k] by simp
    from str_run_high [OF this, of t] show ?thesis
      using \<open>rune_len (c # cs) = Suc n\<close> Suc line_separator_text [of "c # cs"]
      by (auto simp: quote_step_def str_run_separator split: option.split)
  qed
qed

lemma raw_ok_quote [simp]: "raw_ok (quote_body s)"
  unfolding raw_ok_def
proof (induction s rule: quote_body.induct)
  case (2 c cs)
  obtain out n where q: "quote_step c cs = (out, n)" by (rule prod.exhaust)
  with 2 str_run_quote_step [of c cs "quote_body (drop n cs)"] show ?case by simp
qed simp

lemma html_unsafe_code: "html_unsafe c \<Longrightarrow> octet c < 128 \<and> c \<noteq> dquote \<and> c \<noteq> backslash \<and> \<not> octet c < 32"
  by (auto simp: html_unsafe_def octet_def)

lemma str_run_html: "str_run m raw = Some m' \<Longrightarrow> str_run m (html_raw raw) = Some m'"
proof (induction raw arbitrary: m rule: html_raw.induct)
  case (2 c cs)
  show ?case
  proof (cases "html_unsafe c")
    case True
    then have "str_next InStrEsc c = None" "\<And>i. str_next (InStrEscU i) c = None" "str_next InStr c = Some InStr"
      using html_unsafe_code [OF True] by (auto simp: html_unsafe_def str_next_def hex_val_def octet_def)
    note next_c = this
    have "m = InStr" using "2.prems" next_c(1,2) by (cases m) simp_all
    moreover from this have "str_run InStr cs = Some m'"
      using "2.prems" next_c(3) html_unsafe_code [OF True] by simp
    ultimately show ?thesis using True "2.IH"(1) by (simp add: str_run_escape_u00 html_unsafe_code)
  next
    case False
    show ?thesis
    proof (cases "line_separator (c # cs)")
      case None
      with False "2.IH" "2.prems" show ?thesis by (auto split: if_splits option.splits)
    next
      case (Some d)
      then have d: "d = 8 \<or> d = 9" and cs: "c = CHR 0xE2" "cs = CHR 0x80 # char_of (160 + d) # drop 2 cs"
        by (cases "c # cs" rule: line_separator.cases; auto simp: octet_def split: if_splits)+
      have "m = InStr"
        using "2.prems" cs(1) by (cases m) (simp_all add: str_next_def hex_val_def octet_def)
      moreover from this have "str_run InStr (drop 2 cs) = Some m'"
        using "2.prems" cs str_run_high [of "[c, CHR 0x80, char_of (160 + d)]" "drop 2 cs"] d
        by (auto simp: octet_def)
      ultimately show ?thesis using False Some d "2.IH" by (simp add: str_run_separator)
    qed
  qed
qed simp

lemma raw_ok_html: "raw_ok raw \<Longrightarrow> raw_ok (html_raw raw)"
  by (simp add: raw_ok_def str_run_html)

lemma getu4_escape_u00:
  assumes "octet c < 128"
  shows "getu4 (escape_u00 c @ t) = Some (octet c)"
proof -
  have "octet c mod 16 + octet c div 16 * 16 = octet c" by simp
  moreover have "hex_val (hex_char (octet c div 16)) = Some (octet c div 16)"
    "hex_val (hex_char (octet c mod 16)) = Some (octet c mod 16)"
    using assms by (simp_all add: hex_roundtrip)
  ultimately show ?thesis by (simp add: escape_u00_def)
qed

lemma unquote_escape_u00:
  assumes "octet c < 128"
  shows "unquote_body (escape_u00 c @ t) = map_option ((@) [c]) (unquote_body t)"
proof -
  have "octet c mod 16 + octet c div 16 * 16 = octet c" by simp
  moreover have "hex_val (hex_char (octet c div 16)) = Some (octet c div 16)"
    "hex_val (hex_char (octet c mod 16)) = Some (octet c mod 16)"
    using assms by (simp_all add: hex_roundtrip)
  ultimately show ?thesis
    using assms
    by (simp add: escape_u00_def unquote_step_def unquote_escape_def unquote_u_def encode_rune_def)
qed

text \<open>Bytes the HTML escaping copies.\<close>

lemma html_raw_Cons:
  "html_unsafe c \<Longrightarrow> html_raw (c # cs) = escape_u00 c @ html_raw cs"
  "\<not> html_unsafe c \<Longrightarrow> line_separator (c # cs) = Some d \<Longrightarrow> html_raw (c # cs) = escape_separator d @ html_raw (drop 2 cs)"
  "\<not> html_unsafe c \<Longrightarrow> line_separator (c # cs) = None \<Longrightarrow> html_raw (c # cs) = c # html_raw cs"
  by simp_all

declare html_raw.simps(2) [simp del]

definition plain_byte :: "char \<Rightarrow> bool" where
  "plain_byte c \<longleftrightarrow> \<not> html_unsafe c \<and> c \<noteq> CHR 0xE2"

lemma html_raw_plain: "\<forall>b\<in>set xs. plain_byte b \<Longrightarrow> html_raw (xs @ ys) = xs @ html_raw ys"
proof (induction xs)
  case (Cons c xs)
  then have "line_separator (c # xs @ ys) = None"
    by (cases "c # xs @ ys" rule: line_separator.cases) (auto simp: plain_byte_def)
  with Cons show ?case by (simp add: plain_byte_def html_raw_Cons)
qed simp

lemma hex_plain: "hex_val c \<noteq> None \<Longrightarrow> plain_byte c"
  by (auto simp: plain_byte_def html_unsafe_def hex_val_def octet_def)

lemma cont_plain: "cont_byte c \<Longrightarrow> plain_byte c"
  by (auto simp: plain_byte_def html_unsafe_def octet_def)

lemma rune_len_cont: "rune_len (c # cs) = Suc n \<Longrightarrow> \<forall>b\<in>set (take n cs). cont_byte b"
  by (auto simp: rune_len_def second_byte_def take_Cons' split: list.splits if_splits)

lemma rune_len_takeWhile: "rune_len (c # takeWhile cont_byte cs) = rune_len (c # cs)"
  by (auto simp: rune_len_def second_byte_def split: list.splits)

lemma takeWhile_html: "takeWhile cont_byte (html_raw cs) = takeWhile cont_byte cs"
proof (induction cs)
  case (Cons c cs)
  show ?case
  proof (cases "plain_byte c")
    case True
    with html_raw_plain [of "[c]" cs] Cons show ?thesis by simp
  next
    case False
    then have "\<not> cont_byte c" using cont_plain by blast
    moreover have "takeWhile cont_byte (html_raw (c # cs)) = []"
    proof (cases "html_unsafe c")
      case False
      then show ?thesis using \<open>\<not> cont_byte c\<close>
        by (cases "line_separator (c # cs)") (auto simp: html_raw_Cons escape_separator_def octet_def)
    qed (simp add: html_raw_Cons escape_u00_def octet_def)
    ultimately show ?thesis by simp
  qed
qed simp

lemma rune_len_html: "rune_len (c # html_raw cs) = rune_len (c # cs)"
  by (metis rune_len_takeWhile takeWhile_html)

lemma html_raw_u:
  assumes "hex_val a \<noteq> None" "hex_val b \<noteq> None" "hex_val c \<noteq> None" "hex_val d \<noteq> None"
  shows "html_raw (backslash # CHR ''u'' # a # b # c # d # t) = backslash # CHR ''u'' # a # b # c # d # html_raw t"
proof -
  have "plain_byte backslash" "plain_byte (CHR ''u'')" by (simp_all add: plain_byte_def html_unsafe_def)
  then have "\<forall>b\<in>set [backslash, CHR ''u'', a, b, c, d]. plain_byte b"
    using hex_plain [OF assms(1)] hex_plain [OF assms(2)] hex_plain [OF assms(3)] hex_plain [OF assms(4)] by simp
  from html_raw_plain [OF this, of t] show ?thesis by (simp only: append.simps)
qed

lemma surrogate_pair_low: "r < 56320 \<or> 57344 \<le> r \<Longrightarrow> surrogate_pair r1 (Some r) = None"
  by (auto simp: surrogate_pair_def)

lemma getu4_html:
  assumes "str_run InStr s = Some InStr"
  shows "surrogate_pair r (getu4 (html_raw s)) = surrogate_pair r (getu4 s)"
proof (cases s)
  case (Cons c cs)
  show ?thesis
  proof (cases "c = backslash")
    case True
    from assms [unfolded Cons True] show ?thesis
    proof (cases rule: raw_backslash)
      case (u a b c' d t)
      then show ?thesis unfolding Cons True using html_raw_u [OF u(2-5), of t] by simp
    next
      case (short e t)
      then have "html_raw (backslash # e # t) = backslash # e # html_raw t"
        using html_raw_plain [of "[backslash, e]" t] by (auto simp: plain_byte_def html_unsafe_def)
      with short True Cons show ?thesis by auto
    qed
  next
    case False
    then have none: "getu4 s = None" using Cons by (cases cs) auto
    show ?thesis
    proof (cases "html_unsafe c")
      case True
      then have "getu4 (html_raw s) = Some (octet c)"
        using Cons html_unsafe_code [OF True] by (simp add: html_raw_Cons getu4_escape_u00)
      with none html_unsafe_code [OF True] show ?thesis by (simp add: surrogate_pair_low) (simp add: surrogate_pair_def)
    next
      case safe: False
      show ?thesis
      proof (cases "line_separator (c # cs)")
        case None
        have "getu4 (c # html_raw cs) = None" using False by (cases "html_raw cs") auto
        with safe None none Cons show ?thesis by (simp add: html_raw_Cons)
      next
        case (Some d)
        with line_separator_text [OF Some] have "getu4 (html_raw s) = Some (8224 + d)"
          using safe Cons Some by (auto simp: html_raw_Cons escape_separator_def hex_roundtrip)
        moreover have "d < 10" using line_separator_text [OF Some] by auto
        ultimately show ?thesis using none by (simp add: surrogate_pair_low) (simp add: surrogate_pair_def)
      qed
    qed
  qed
qed simp

lemma unquote_u_html:
  assumes "hex_val a \<noteq> None" "hex_val b \<noteq> None" "hex_val c \<noteq> None" "hex_val d \<noteq> None" "str_run InStr t = Some InStr"
    and "unquote_step backslash (CHR ''u'' # a # b # c # d # t) = Some (out, n)"
  shows "unquote_step backslash (CHR ''u'' # a # b # c # d # html_raw t) = Some (out, n) \<and>
    drop n (CHR ''u'' # a # b # c # d # html_raw t) = html_raw (drop n (CHR ''u'' # a # b # c # d # t))"
proof -
  obtain r where r: "hex4 (a # b # c # d # t) = Some r" "hex4 (a # b # c # d # html_raw t) = Some r"
    using assms(1-4) by auto
  show ?thesis
  proof (cases "surrogate_pair r (getu4 t)")
    case None
    with r assms(6) getu4_html [OF assms(5), of r] show ?thesis
      by (auto simp: unquote_step_def unquote_escape_def unquote_u_def simp del: hex4.simps split: if_splits)
  next
    case (Some r')
    then obtain x where "getu4 t = Some x" by (auto simp: surrogate_pair_def split: option.splits)
    then obtain a' b' c' d' t' where t: "t = backslash # CHR ''u'' # a' # b' # c' # d' # t'" by (rule getu4_Some)
    have "html_raw t = backslash # CHR ''u'' # a' # b' # c' # d' # html_raw t'"
      unfolding t by (rule str_run_u [OF assms(5) [unfolded t]]) (rule html_raw_u; simp)
    with t have "html_raw (drop 6 t) = drop 6 (html_raw t)" by simp
    with r Some assms(6) getu4_html [OF assms(5), of r] show ?thesis
      by (auto simp: unquote_step_def unquote_escape_def unquote_u_def simp del: hex4.simps split: if_splits)
  qed
qed

lemma unquote_short:
  assumes "e \<in> {CHR ''b'', CHR ''f'', CHR ''n'', CHR ''r'', CHR ''t'', backslash, CHR ''/'', dquote}"
  shows "\<exists>out. \<forall>s. unquote_step backslash (e # s) = Some (out, 1)"
  using assms
  by (elim insertE emptyE; hypsubst_thin) (auto simp: unquote_step_def unquote_escape_def)

lemma unquote_html: "raw_ok raw \<Longrightarrow> unquote_body (html_raw raw) = unquote_body raw"
  unfolding raw_ok_def
proof (induction raw rule: unquote_body.induct)
  case (2 c cs)
  from raw_step [OF "2.prems"] obtain out n where
    step: "unquote_step c cs = Some (out, n)" "str_run InStr (drop n cs) = Some InStr" by blast
  note IH = "2.IH" [OF step(1) refl step(2)]
  show ?case
  proof (cases "c = backslash")
    case True
    from "2.prems" [unfolded True] show ?thesis
    proof (cases rule: raw_backslash)
      case (u a b c' d t)
      note st = step(1) [unfolded True u(1)]
      note next_u = unquote_u_html [OF u(2-6) st]
      show ?thesis
        unfolding True u(1) html_raw_u [OF u(2-5)]
        by (simp only: unquote_body.simps st next_u option.case prod.case IH [unfolded u(1)])
    next
      case (short e t)
      then have "html_raw (backslash # e # t) = backslash # e # html_raw t"
        using html_raw_plain [of "[backslash, e]" t] by (auto simp: plain_byte_def html_unsafe_def)
      moreover obtain out' where out': "\<forall>s. unquote_step backslash (e # s) = Some (out', 1)"
        using unquote_short [OF short(2)] by (rule exE)
      moreover have "out' = out" "n = 1" using step(1) unfolding True short(1) by (simp_all add: out')
      ultimately show ?thesis
        using IH unfolding True short(1) by (simp add: out')
    qed
  next
    case False
    show ?thesis
    proof (cases "html_unsafe c")
      case True
      note hu = html_unsafe_code [OF True]
      then have "rune_len (c # cs) = 1" using rune_len_ascii by blast
      with hu False step(1) have "out = [c]" "n = 0" by (auto simp: unquote_step_def)
      with True hu IH step(1) show ?thesis by (simp add: html_raw_Cons unquote_escape_u00)
    next
      case safe: False
      show ?thesis
      proof (cases "line_separator (c # cs)")
        case (Some d)
        from rune_len_separator [OF this] have sep: "rune_len (c # cs) = Suc 2" "c # take 2 cs = encode_rune (8224 + d)" by auto
        moreover have "c = CHR 0xE2" using Some by (cases "c # cs" rule: line_separator.cases) (auto split: if_splits)
        ultimately have "out = encode_rune (8224 + d)" "n = 2" using step(1) by (auto simp: unquote_step_def octet_def)
        with safe Some IH step(1) line_separator_text [OF Some] show ?thesis by (auto simp: html_raw_Cons unquote_separator)
      next
        case None
        have c: "c \<noteq> dquote" "\<not> octet c < 32" using step(1) False by (auto simp: unquote_step_def split: if_splits)
        with step(1) False
        have n: "rune_len (c # cs) = 0 \<and> n = 0 \<and> out = replacement \<or> rune_len (c # cs) = Suc n \<and> out = c # take n cs"
          by (auto simp: unquote_step_def split: nat.splits)
        have plain: "\<forall>b\<in>set (take n cs). plain_byte b" and len: "n \<le> length cs"
          using n rune_len_cont [of c cs n] rune_len_front [of c cs n] by (auto simp: cont_plain)
        from html_raw_plain [OF plain, of "drop n cs"]
        have html: "html_raw cs = take n cs @ html_raw (drop n cs)" by simp
        have "take n (html_raw cs) = take n cs" by (subst html) (simp add: len)
        with n False c have "unquote_step c (html_raw cs) = Some (out, n)"
          by (auto simp: unquote_step_def rune_len_html)
        moreover have "drop n (html_raw cs) = html_raw (drop n cs)" by (subst html) (simp add: len)
        ultimately show ?thesis using IH step(1) safe None by (simp add: html_raw_Cons)
      qed
    qed
  qed
qed simp

end
