(* ===== verification/Json_Indent.thy ===== *)
theory Json_Indent
  imports Json
begin

text \<open>
  The indented form \<open>GET /stats\<close> prints, \<open>json.Encoder\<close> with \<open>SetIndent("", "  ")\<close>, and the proof that the
  scanner of \<open>Json\<close> reads the same value from it as from the compact form.
\<close>

section \<open>Indented text\<close>

text \<open>The indented text of an encoder with \<open>SetIndent("", "  ")\<close>.\<close>

definition new_line :: "nat \<Rightarrow> bytes" where
  "new_line depth = CHR 0x0A # concat (replicate depth ''  '')"

fun indented :: "nat \<Rightarrow> bytes list \<Rightarrow> bytes" where
  "indented depth [] = []"
| "indented depth [x] = new_line depth @ x"
| "indented depth (x # xs) = new_line depth @ x @ CHR '','' # indented depth xs"

fun indent_text :: "nat \<Rightarrow> json \<Rightarrow> bytes" where
  "indent_text d (JArray vs) =
     (if vs = [] then ''[]''
      else CHR ''['' # indented (Suc d) (map (indent_text (Suc d)) vs) @ new_line d @ '']'')"
| "indent_text d (JObject ms) =
     (if ms = [] then ''{}''
      else CHR ''{'' # indented (Suc d) (map (\<lambda>(k, v). raw_text (\<lambda>x. x) k @ '': '' @ indent_text (Suc d) v) ms) @ new_line d @ ''}'')"
| "indent_text d v = json_text (\<lambda>x. x) v"


section \<open>Scanning the indented text\<close>

lemma is_space_consts [simp]: "is_space (CHR '' '')" "is_space (CHR 0x0A)"
  by (simp_all add: is_space_def)

definition blank :: "bytes \<Rightarrow> bool" where
  "blank s \<longleftrightarrow> (\<forall>c\<in>set s. is_space c)"

lemma blank_simps [simp]: "blank []" "blank (c # s) \<longleftrightarrow> is_space c \<and> blank s" "blank (s @ t) \<longleftrightarrow> blank s \<and> blank t"
  by (auto simp: blank_def)

lemma blank_new_line [simp]: "blank (new_line d)"
  by (induction d) (simp_all add: new_line_def)

lemma scan_blank: "blank s \<Longrightarrow> m \<in> {BeginValue, BeginValueOrEmpty, BeginString, BeginStringOrEmpty} \<Longrightarrow> scan (m, st) s = (m, st)"
  by (induction s) (auto simp: scan_step_def begin_value_def begin_string_def is_space_def)

lemma reads_blank:
  assumes "reads v (f # st) s" and "blank w" and "stops c"
  shows "scan_step (scan s w) c = end_value v c (f # st)"
proof (cases w)
  case Nil
  with assms show ?thesis by (simp add: readsD)
next
  case (Cons b bs)
  have "scan (EndValue v, f # st) bs = (EndValue v, f # st)"
    using assms(2) Cons by (induction bs arbitrary: w) (auto simp: scan_step_def end_value_def)
  moreover have "scan_step s b = (EndValue v, f # st)"
    using assms Cons by (simp add: readsD stops_def end_value_def)
  ultimately show ?thesis using Cons by (simp add: scan_step_def)
qed

lemma indent_front:
  assumes "json_ok j"
  obtains c cs where "indent_text d j = c # cs" "c \<noteq> CHR '']''" "\<not> is_space c"
proof (cases j)
  case (JArray vs)
  with that show thesis by (cases vs) (auto simp: is_space_def)
next
  case (JObject ms)
  with that show thesis by (cases ms) (auto simp: is_space_def)
qed (use text_front [OF assms, of "\<lambda>x. x"] that in auto)

lemma scan_indent_or_empty:
  assumes "json_ok j" and "m = BeginValue \<or> m = BeginValueOrEmpty"
  shows "scan (m, st) (new_line d @ indent_text d' j @ t) = scan (BeginValue, st) (indent_text d' j @ t)"
proof -
  obtain c cs where "indent_text d' j = c # cs" "c \<noteq> CHR '']''" "\<not> is_space c"
    using assms(1) by (rule indent_front)
  then show ?thesis using assms(2) by (auto simp: scan_blank scan_begin_or_empty)
qed

lemma scan_indented_elements:
  assumes "\<And>v st. v \<in> set (u # us) \<Longrightarrow> length st = n \<Longrightarrow> json_ok v \<and> reads v st (scan (BeginValue, st) (indent_text d v))"
    and "Suc (length st) = n" and "blank w" and "m = BeginValue \<or> m = BeginValueOrEmpty"
  shows "scan (m, ArrayValue vs # st) (indented d (map (indent_text d) (u # us)) @ w @ '']'') =
    closed (JArray (vs @ u # us)) st"
  using assms
proof (induction us arbitrary: u vs m)
  case Nil
  from Nil.prems(1) [of u "ArrayValue vs # st"] Nil.prems(2)
  have u: "json_ok u" "reads u (ArrayValue vs # st) (scan (BeginValue, ArrayValue vs # st) (indent_text d u))" by simp_all
  from scan_indent_or_empty [OF u(1) Nil.prems(4), of "ArrayValue vs # st" d d "w @ '']''"]
    reads_blank [OF u(2) Nil.prems(3)]
  show ?case by (simp add: end_value_def is_space_def)
next
  case (Cons x us)
  from Cons.prems(1) [of u "ArrayValue vs # st"] Cons.prems(2)
  have u: "json_ok u" "reads u (ArrayValue vs # st) (scan (BeginValue, ArrayValue vs # st) (indent_text d u))" by simp_all
  have "scan (m, ArrayValue vs # st) (new_line d @ indent_text d u @ '','') = (BeginValue, ArrayValue (vs @ [u]) # st)"
    unfolding scan_indent_or_empty [OF u(1) Cons.prems(4)]
    using readsD [OF u(2)] by (simp add: end_value_def is_space_def)
  moreover have "scan (BeginValue, ArrayValue (vs @ [u]) # st) (indented d (map (indent_text d) (x # us)) @ w @ '']'') =
      closed (JArray ((vs @ [u]) @ x # us)) st"
    by (rule Cons.IH) (use Cons.prems in auto)
  ultimately show ?case by simp
qed

lemma scan_indented_key:
  assumes "raw_ok k" and "m = BeginString \<or> m = BeginStringOrEmpty"
  shows "scan (m, ObjectKey ms # st) (new_line d @ raw_text (\<lambda>x. x) k @ '': '') = (BeginValue, ObjectValue ms k # st)"
  using scan_key [of "\<lambda>x. x" k m ms st] assms by (auto simp: scan_blank) (simp_all add: scan_step_def begin_value_def)

lemma scan_indented_members:
  assumes "\<And>p st. p \<in> set (u # us) \<Longrightarrow> length st = n \<Longrightarrow> raw_ok (fst p) \<and> reads (snd p) st (scan (BeginValue, st) (indent_text d (snd p)))"
    and "Suc (length st) = n" and "blank w" and "m = BeginString \<or> m = BeginStringOrEmpty"
  shows "scan (m, ObjectKey ms # st)
      (indented d (map (\<lambda>(k, v). raw_text (\<lambda>x. x) k @ '': '' @ indent_text d v) (u # us)) @ w @ ''}'') =
    closed (JObject (ms @ u # us)) st"
  using assms
proof (induction us arbitrary: u ms m)
  case Nil
  obtain k v where u: "u = (k, v)" by (rule prod.exhaust)
  with Nil.prems(1) [of u "ObjectValue ms k # st"] Nil.prems(2)
  have r: "reads v (ObjectValue ms k # st) (scan (BeginValue, ObjectValue ms k # st) (indent_text d v))"
    and k: "raw_ok k" by auto
  show ?case
    using reads_blank [OF r Nil.prems(3)] scan_indented_key [OF k Nil.prems(4), of ms st d]
    by (simp add: u end_value_def is_space_def)
next
  case (Cons x us)
  obtain k v where u: "u = (k, v)" by (rule prod.exhaust)
  with Cons.prems(1) [of u "ObjectValue ms k # st"] Cons.prems(2)
  have r: "reads v (ObjectValue ms k # st) (scan (BeginValue, ObjectValue ms k # st) (indent_text d v))"
    and k: "raw_ok k" by auto
  have "scan (m, ObjectKey ms # st) (new_line d @ raw_text (\<lambda>x. x) k @ '': '' @ indent_text d v @ '','') =
      (BeginString, ObjectKey (ms @ [(k, v)]) # st)"
    using readsD [OF r] scan_indented_key [OF k Cons.prems(4), of ms st d] by (simp add: end_value_def is_space_def)
  moreover have "scan (BeginString, ObjectKey (ms @ [(k, v)]) # st)
      (indented d (map (\<lambda>(k, v). raw_text (\<lambda>x. x) k @ '': '' @ indent_text d v) (x # us)) @ w @ ''}'') =
      closed (JObject ((ms @ [(k, v)]) @ x # us)) st"
    by (rule Cons.IH) (use Cons.prems in auto)
  ultimately show ?case by (simp add: u)
qed

lemma map_raw_id [simp]: "map_raw (\<lambda>x. x) j = j"
  by (induction j) (auto simp: map_idI snds.simps)

lemma reads_indent:
  "json_ok j \<Longrightarrow> nesting j + length st \<le> max_nesting \<Longrightarrow> reads j st (scan (BeginValue, st) (indent_text d j))"
proof (induction j arbitrary: st d)
  case (JArray vs)
  then have push: "scan_step (BeginValue, st) (CHR ''['') = (BeginValueOrEmpty, ArrayValue [] # st)"
    by (simp add: scan_step_def begin_value_def push_def is_space_def)
  show ?case
  proof (cases vs)
    case Nil
    then show ?thesis by (simp add: push) (simp add: scan_step_def is_space_def reads_closed)
  next
    case (Cons u us)
    have "scan (BeginValueOrEmpty, ArrayValue [] # st) (indented (Suc d) (map (indent_text (Suc d)) (u # us)) @ new_line d @ '']'') =
        closed (JArray ([] @ u # us)) st"
    proof (rule scan_indented_elements [OF _ refl])
      fix v st' assume v: "v \<in> set (u # us)" and st': "length (st' :: frame list) = Suc (length st)"
      from v have "v \<in> set vs" unfolding Cons .
      from v have "nesting v \<le> foldr max (map nesting vs) 0"
        unfolding Cons by (intro foldr_max_ge) auto
      then have "nesting v + length st' \<le> max_nesting" using JArray.prems(2) st' by simp
      then show "json_ok v \<and> reads v st' (scan (BeginValue, st') (indent_text (Suc d) v))"
        using JArray.IH [OF \<open>v \<in> set vs\<close>] JArray.prems(1) \<open>v \<in> set vs\<close> by simp
    qed simp_all
    then show ?thesis by (simp add: Cons push reads_closed)
  qed
next
  case (JObject ms)
  then have push: "scan_step (BeginValue, st) (CHR ''{'') = (BeginStringOrEmpty, ObjectKey [] # st)"
    by (simp add: scan_step_def begin_value_def push_def is_space_def)
  show ?case
  proof (cases ms)
    case Nil
    then show ?thesis by (simp add: push) (simp add: scan_step_def reads_closed)
  next
    case (Cons u us)
    have "scan (BeginStringOrEmpty, ObjectKey [] # st)
        (indented (Suc d) (map (\<lambda>(k, v). raw_text (\<lambda>x. x) k @ '': '' @ indent_text (Suc d) v) (u # us)) @ new_line d @ ''}'') =
        closed (JObject ([] @ u # us)) st"
    proof (rule scan_indented_members [OF _ refl])
      fix p st' assume p: "p \<in> set (u # us)" and st': "length (st' :: frame list) = Suc (length st)"
      from p have "nesting (snd p) \<le> foldr max (map (\<lambda>m. nesting (snd m)) ms) 0"
        unfolding Cons by (intro foldr_max_ge) auto
      moreover have "p \<in> set ms" using p Cons by simp
      moreover have "snd p \<in> Basic_BNFs.snds p" by (cases p) auto
      ultimately show "raw_ok (fst p) \<and> reads (snd p) st' (scan (BeginValue, st') (indent_text (Suc d) (snd p)))"
        using JObject.IH [of p "snd p" st'] JObject.prems st' by auto
    qed simp_all
    then show ?thesis by (simp add: Cons push reads_closed)
  qed
next
  case JNull
  then show ?case using reads_text [of "\<lambda>x. x" JNull st] by simp
next
  case (JBool b)
  then show ?case using reads_text [of "\<lambda>x. x" "JBool b" st] by simp
next
  case (JNumber num)
  then show ?case using reads_text [of "\<lambda>x. x" "JNumber num" st] by simp
next
  case (JString raw)
  then show ?case using reads_text [of "\<lambda>x. x" "JString raw" st] by simp
qed

lemma scan_EndTop_blank: "blank w \<Longrightarrow> scan (EndTop v, []) w = (EndTop v, [])"
  by (induction w) (auto simp: scan_step_def end_top_def)

text \<open>A value read at the top level may be followed by white space.\<close>

lemma parse_blank:
  assumes "reads j [] (scan scan_init s)" and "blank w"
  shows "json_parse (s @ w) = Some j"
proof -
  have "scan_step (scan (scan scan_init s) w) (CHR '' '') = (EndTop j, [])"
  proof (cases w)
    case Nil
    with readsD [OF assms(1), of "CHR '' ''"] show ?thesis by (simp add: end_value_def end_top_def)
  next
    case (Cons b bs)
    with assms(2) have "stops b" "is_space b" "blank bs" by (auto simp: stops_def)
    with readsD [OF assms(1), of b] Cons show ?thesis
      by (simp add: end_value_def end_top_def scan_EndTop_blank) (simp add: scan_step_def end_top_def)
  qed
  then show ?thesis by (simp add: json_parse_def at_eof_def)
qed

theorem parse_indent:
  assumes "json_ok j" and "nesting j \<le> max_nesting" and "blank w"
  shows "json_parse (indent_text 0 j @ w) = Some j"
  using parse_blank [OF reads_indent assms(3), of j 0] assms(1,2) by simp

end
