(* ===== verification/Json_Number.thy ===== *)
theory Json_Number
  imports Float64 Json
begin

text \<open>
  The numbers \<open>encoding/json\<close> prints for \<open>internal/metrics\<close> and \<open>internal/cache\<close>: integers in decimal, a
  \<open>float64\<close> as the shortest decimal that reads back as the same double (\<open>strconv.AppendFloat\<close> with
  precision -1), in positional notation between 1e-6 and 1e21 and in scientific notation outside.
  \<open>Float64\<close> has the doubles and their rounding.
\<close>

section \<open>The shortest decimal\<close>

text \<open>\<open>dec_exp p q\<close> is the \<open>k\<close> with \<open>10 ^ (k - 1) \<le> p / q < 10 ^ k\<close>.\<close>

definition dec_exp :: "nat \<Rightarrow> nat \<Rightarrow> int" where
  "dec_exp p q =
     (let k = int (length (show_nat p)) - int (length (show_nat q))
      in if (if 0 \<le> k then q * 10 ^ nat k \<le> p else q \<le> p * 10 ^ nat (- k)) then k + 1 else k)"

text \<open>The double nearest to \<open>c * 10 ^ x\<close>.\<close>

definition read_decimal :: "nat \<Rightarrow> int \<Rightarrow> float64" where
  "read_decimal c x = round_frac False (c * 10 ^ nat x) (10 ^ nat (- x)) 0"

text \<open>The decimal of \<open>n\<close> digits for \<open>p / q\<close> that reads back as the double \<open>f\<close>, if there is one: the nearer of
  the two neighbours, the even one in the middle.\<close>

definition candidate :: "float64 \<Rightarrow> nat \<Rightarrow> nat \<Rightarrow> nat \<Rightarrow> (nat \<times> int) option" where
  "candidate f p q n =
     (let k = dec_exp p q;
          x = k - int n;
          a = p * 10 ^ nat (- x);
          b = q * 10 ^ nat x;
          lo = a div b; hi = Suc lo;
          near = round_even a b
      in if read_decimal near x = f then Some (near, x)
         else if read_decimal lo x = f then Some (lo, x)
         else if read_decimal hi x = f then Some (hi, x)
         else None)"

fun shortest_from :: "float64 \<Rightarrow> nat \<Rightarrow> nat \<Rightarrow> nat \<Rightarrow> nat \<Rightarrow> (nat \<times> int) option" where
  "shortest_from f p q n 0 = None"
| "shortest_from f p q n (Suc more) =
     (case candidate f p q n of Some d \<Rightarrow> Some d | None \<Rightarrow> shortest_from f p q (Suc n) more)"

fun strip_zeros :: "nat \<Rightarrow> int \<Rightarrow> nat \<times> int" where
  "strip_zeros c x = (if 0 < c \<and> c mod 10 = 0 then strip_zeros (c div 10) (x + 1) else (c, x))"

declare strip_zeros.simps [simp del]

text \<open>The digits and the exponent of a positive double; 17 digits are enough for each.\<close>

definition shortest :: "nat \<Rightarrow> int \<Rightarrow> nat \<times> int" where
  "shortest m e =
     (case shortest_from (Fin False m e) (m * 2 ^ nat e) (2 ^ nat (- e)) 1 17 of
        Some (c, x) \<Rightarrow> strip_zeros c x
      | None \<Rightarrow> (0, 0))"

section \<open>Notation\<close>

definition positional :: "nat \<Rightarrow> int \<Rightarrow> bytes" where
  "positional c x =
     (let ds = show_nat c; dp = int (length ds) + x
      in if 0 \<le> x then ds @ replicate (nat x) (CHR ''0'')
         else if 0 < dp then take (nat dp) ds @ CHR ''.'' # drop (nat dp) ds
         else ''0.'' @ replicate (nat (- dp)) (CHR ''0'') @ ds)"

definition scientific :: "nat \<Rightarrow> int \<Rightarrow> bytes" where
  "scientific c x =
     (let ds = show_nat c; ex = int (length ds) + x - 1
      in take 1 ds @ (if length ds = 1 then [] else CHR ''.'' # drop 1 ds) @
         CHR ''e'' # (if ex < 0 then ''-'' else ''+'') @ show_nat (nat \<bar>ex\<bar>))"

text \<open>\<open>None\<close> is the error for a number JSON cannot express.\<close>

fun float_text :: "float64 \<Rightarrow> bytes option" where
  "float_text NaN = None"
| "float_text (Inf s) = None"
| "float_text (Fin s m e) =
     (let sign = (if s then ''-'' else [])
      in if m = 0 then Some (sign @ ''0'')
         else (case shortest m e of (c, x) \<Rightarrow>
           Some (sign @
             (if f64_le (round_frac False 1 (10 ^ 6) 0) (Fin False m e) \<and> \<not> f64_le (round_frac False (10 ^ 21) 1 0) (Fin False m e)
              then positional c x else scientific c x))))"

section \<open>The shortest decimal reads back\<close>

text \<open>A real closer to a double than \<open>2 ^ -54\<close> of it is rounded to that double.\<close>

lemma rhe_near:
  assumes "\<bar>y - of_int n\<bar> < 1 / 2"
  shows "rhe y = n"
proof -
  have "n \<le> rhe y + 0" "rhe y \<le> n"
  proof -
    have "\<bar>of_int (rhe y) - y\<bar> \<le> 1 / 2" by (rule rhe_error)
    with assms have "\<bar>of_int (rhe y) - (of_int n :: real)\<bar> < 1" by linarith
    then have "\<bar>rhe y - n\<bar> < 1" by linarith
    then show "n \<le> rhe y + 0" "rhe y \<le> n" by simp_all
  qed
  then show ?thesis by simp
qed

lemma rnd_close:
  assumes v: "v = real m * 2 powi e" "m < 2 ^ 53" "- 1074 \<le> e" "0 < m"
    and w: "\<bar>w - v\<bar> * 2 ^ 54 < v"
  shows "rnd w = v"
proof -
  define u where "u = ulp_exp w"
  have vpos: "0 < v" using v by simp
  then have wpos: "0 < w" using w by (auto simp: abs_if split: if_splits)
  have "m \<le> 2 ^ 53 - 1" using v(2) by simp
  then have "real m \<le> real (2 ^ 53 - 1)" by (rule of_nat_mono)
  then have m: "real m \<le> 2 ^ 53 - 1" by simp
  have "w * 2 ^ 54 < v * (2 ^ 54 + 1)" using w by (auto simp: abs_if algebra_simps split: if_splits)
  also have "\<dots> \<le> (2 ^ 53 - 1) * 2 powi e * (2 ^ 54 + 1)"
    unfolding v(1) using m by (intro mult_right_mono) auto
  also have "\<dots> \<le> 2 ^ 53 * 2 powi e * 2 ^ 54" by (simp add: algebra_simps)
  finally have "w < 2 ^ 53 * 2 powi e" by simp
  also have "\<dots> = 2 powi (e + 53)" using powi2_split [of e "e + 53"] by simp
  finally have ue: "u \<le> e" unfolding u_def using wpos v(3) by (intro ulp_exp_le)
  define n where "n = m * 2 ^ nat (e - u)"
  have vn: "v = real n * 2 powi u" unfolding v(1) n_def using powi2_split [OF ue] by simp
  have "w < 2 powi (\<lfloor>log 2 w\<rfloor> + 1)" by (rule floor_log2_bounds(2) [OF wpos])
  also have "\<dots> \<le> 2 powi (u + 53)" by (rule powi2_mono) (simp add: u_def ulp_exp_def)
  also have "\<dots> = 2 ^ 53 * 2 powi u" using powi2_split [of u "u + 53"] by simp
  finally have wu: "w / 2 powi u < 2 ^ 53" by (simp add: divide_less_eq)
  define y where "y = w / 2 powi u"
  have wy: "w = y * 2 powi u" by (simp add: y_def)
  have "\<bar>y - real n\<bar> * 2 ^ 54 * 2 powi u < real n * 2 powi u"
    using w unfolding vn wy by (simp add: abs_mult flip: left_diff_distrib)
  then have d: "\<bar>y - real n\<bar> * 2 ^ 54 < real n" by simp
  have "n \<le> 2 ^ 53"
  proof (rule ccontr)
    assume "\<not> n \<le> 2 ^ 53"
    then have "Suc (2 ^ 53) \<le> n" by simp
    then have "real (Suc (2 ^ 53)) \<le> real n" by (rule of_nat_mono)
    then have "2 ^ 53 + 1 \<le> real n" by simp
    with d wu show False unfolding y_def [symmetric] by (auto simp: abs_if split: if_splits)
  qed
  then have "real n \<le> real (2 ^ 53)" by (rule of_nat_mono)
  with d have "\<bar>y - of_int (int n)\<bar> < 1 / 2" by simp
  then have "rhe y = int n" by (rule rhe_near)
  with wpos show ?thesis by (simp add: rnd_def vn y_def u_def)
qed


lemma canonical_unique:
  assumes "canonical (Fin s m e)" "canonical (Fin s m' e')" "real m * 2 powi e = real m' * 2 powi e'"
  shows "m = m' \<and> e = e'"
proof -
  have main: "i = j" if "canonical (Fin s k i)" "canonical (Fin s l j)" "real k * 2 powi i = real l * 2 powi j" "i \<le> j" for k l i j
  proof (rule ccontr)
    assume "i \<noteq> j"
    with that(4) have "i < j" by simp
    have "real k * 2 powi i = (real l * 2 ^ nat (j - i)) * 2 powi i"
      using that(3) powi2_split [OF that(4)] by simp
    then have "real k = real (l * 2 ^ nat (j - i))" by simp
    then have k: "k = l * 2 ^ nat (j - i)" by (simp only: of_nat_eq_iff)
    from \<open>i < j\<close> that(1,2) have l: "2 ^ 52 \<le> l" and kb: "k < 2 ^ 53" by auto
    have "(2::nat) ^ 1 \<le> 2 ^ nat (j - i)" using \<open>i < j\<close> by (intro power_increasing) auto
    then have "2 ^ 52 * 2 ^ 1 \<le> l * 2 ^ nat (j - i)" using l by (intro mult_le_mono)
    with k kb show False by simp
  qed
  have "e = e'" using main [of m e m' e'] main [of m' e' m e] assms by (cases "e \<le> e'") auto
  with assms(3) show ?thesis by simp
qed

lemma read_decimal_val: "frac_val (c * 10 ^ nat x) (10 ^ nat (- x)) 0 = real c * 10 powi x"
  by (cases "0 \<le> x") (simp_all add: frac_val_def power_int_def power_one_over)

lemma read_decimal_eq:
  assumes "canonical (Fin False m e)" and "rnd (real c * 10 powi x) = real m * 2 powi e"
  shows "read_decimal c x = Fin False m e"
proof -
  have "real m * 2 powi e < f64_top" using abs_val_lt_top [OF assms(1)] by simp
  with round_frac_spec [of "10 ^ nat (- x)" "c * 10 ^ nat x" 0 False] assms(2)
  obtain m' e' where *: "read_decimal c x = Fin False m' e'" "canonical (Fin False m' e')"
      "real m' * 2 powi e' = real m * 2 powi e"
    unfolding read_decimal_def read_decimal_val by auto
  with canonical_unique [OF *(2) assms(1)] show ?thesis by simp
qed

lemma read_decimal_cong: "real c * 10 powi x = real d * 10 powi y \<Longrightarrow> read_decimal c x = read_decimal d y"
proof -
  assume eq: "real c * 10 powi x = real d * 10 powi y"
  note S = round_frac_spec [of "10 ^ nat (- x)" "c * 10 ^ nat x" 0 False]
    round_frac_spec [of "10 ^ nat (- y)" "d * 10 ^ nat y" 0 False]
  show ?thesis
  proof (cases "rnd (real c * 10 powi x) < f64_top")
    case True
    with S eq obtain m e m' e' where "read_decimal c x = Fin False m e" "canonical (Fin False m e)"
        "read_decimal d y = Fin False m' e'" "canonical (Fin False m' e')" "real m * 2 powi e = real m' * 2 powi e'"
      unfolding read_decimal_def read_decimal_val by auto
    with canonical_unique show ?thesis by metis
  next
    case False
    with S eq show ?thesis unfolding read_decimal_def read_decimal_val by simp
  qed
qed

lemma show_nat_length: "0 < n \<Longrightarrow> 10 ^ (length (show_nat n) - 1) \<le> n \<and> n < 10 ^ length (show_nat n) \<and> 0 < length (show_nat n)"
proof (induction n rule: show_nat.induct)
  case (1 n)
  show ?case
  proof (cases "n < 10")
    case True
    with 1(2) show ?thesis by (simp add: show_nat.simps [of n])
  next
    case False
    with 1 have IH: "10 ^ (length (show_nat (n div 10)) - 1) \<le> n div 10" "n div 10 < 10 ^ length (show_nat (n div 10))"
        "0 < length (show_nat (n div 10))" by auto
    let ?l = "length (show_nat (n div 10))"
    have "10 * 10 ^ (?l - 1) = (10::nat) ^ ?l" using IH(3) by (cases ?l) auto
    with IH have "10 ^ ?l \<le> n \<and> n < 10 * 10 ^ ?l" by auto
    with False show ?thesis by (simp add: show_nat.simps [of n])
  qed
qed

lemma powi10_nat: "0 \<le> k \<Longrightarrow> (10::real) powi k = real (10 ^ nat k)"
  by (simp add: power_int_def)

lemma powi10_add: "(10::real) powi (j + k) = 10 powi j * 10 powi k"
  by (rule power_int_add) simp

lemma dec_exp_bounds:
  assumes "0 < p" and "0 < q"
  shows "10 powi (dec_exp p q - 1) \<le> real p / real q" and "real p / real q < 10 powi dec_exp p q"
proof -
  let ?lp = "length (show_nat p)" and ?lq = "length (show_nat q)"
  define k where "k = int ?lp - int ?lq"
  note P = show_nat_length [OF assms(1)] and Q = show_nat_length [OF assms(2)]
  have up: "real p < 10 powi (int ?lp)" "real q < 10 powi (int ?lq)"
    using P Q by (simp_all add: power_int_def)
  have lo: "10 powi (int ?lp - 1) \<le> real p" "10 powi (int ?lq - 1) \<le> real q"
  proof -
    have "real (10 ^ (?lp - 1)) \<le> real p" "real (10 ^ (?lq - 1)) \<le> real q" using P Q by (simp_all only: of_nat_le_iff)
    moreover have "10 powi (int ?lp - 1) = real (10 ^ (?lp - 1))" "10 powi (int ?lq - 1) = real (10 ^ (?lq - 1))"
      using P Q by (simp_all add: power_int_def nat_diff_distrib)
    ultimately show "10 powi (int ?lp - 1) \<le> real p" "10 powi (int ?lq - 1) \<le> real q" by simp_all
  qed
  have q: "0 < real q" using assms(2) by simp
  have ge: "(if 0 \<le> k then q * 10 ^ nat k \<le> p else q \<le> p * 10 ^ nat (- k)) \<longleftrightarrow> 10 powi k \<le> real p / real q"
  proof (cases "0 \<le> k")
    case True
    have "q * 10 ^ nat k \<le> p \<longleftrightarrow> real (q * 10 ^ nat k) \<le> real p" by (simp only: of_nat_le_iff)
    with True q show ?thesis by (simp add: powi10_nat le_divide_eq mult.commute)
  next
    case False
    have "q \<le> p * 10 ^ nat (- k) \<longleftrightarrow> real q \<le> real (p * 10 ^ nat (- k))" by (simp only: of_nat_le_iff)
    with False q show ?thesis by (simp add: power_int_def field_simps)
  qed
  have hi: "real p / real q < 10 powi (k + 1)"
  proof -
    have "real p < 10 powi (k + 1) * 10 powi (int ?lq - 1)"
      using up(1) by (simp add: k_def flip: powi10_add)
    also have "\<dots> \<le> 10 powi (k + 1) * real q" using lo(2) by (intro mult_left_mono) auto
    finally show ?thesis using q by (simp add: divide_less_eq)
  qed
  have lo': "10 powi (k - 1) \<le> real p / real q"
  proof -
    have "10 powi (k - 1) * real q \<le> 10 powi (k - 1) * 10 powi (int ?lq)" using up(2) by (intro mult_left_mono) auto
    also have "\<dots> = 10 powi (int ?lp - 1)" unfolding powi10_add [symmetric] by (simp add: k_def)
    also have "\<dots> \<le> real p" by (rule lo(1))
    finally show ?thesis using q by (simp add: le_divide_eq)
  qed
  have "dec_exp p q = (if 10 powi k \<le> real p / real q then k + 1 else k)"
    unfolding dec_exp_def Let_def k_def [symmetric] ge ..
  with hi lo' show "10 powi (dec_exp p q - 1) \<le> real p / real q" and "real p / real q < 10 powi dec_exp p q" by auto
qed


lemma near_17:
  assumes can: "canonical (Fin False m e)" and m: "0 < m"
    and pq: "0 < p" "0 < q" "real p / real q = real m * 2 powi e"
    and x: "x = dec_exp p q - 17"
  shows "read_decimal (round_even (p * 10 ^ nat (- x)) (q * 10 ^ nat x)) x = Fin False m e"
proof (rule read_decimal_eq [OF can])
  let ?v = "real m * 2 powi e" and ?a = "p * 10 ^ nat (- x)" and ?b = "q * 10 ^ nat x"
  have b: "0 < ?b" using pq(2) by simp
  have "real ?a / real ?b = real p / real q / 10 powi x" by (simp add: power_int_def power_one_over)
  then have ab: "real ?a / real ?b = ?v / 10 powi x" unfolding pq(3) .
  define t where "t = ?v / 10 powi x"
  have v: "?v = t * 10 powi x" by (simp add: t_def)
  have "\<bar>of_int (rhe (real ?a / real ?b)) - real ?a / real ?b\<bar> \<le> 1 / 2" by (rule rhe_error)
  then have near: "\<bar>real (round_even ?a ?b) - t\<bar> \<le> 1 / 2"
    using round_even_rhe [OF b, of ?a] unfolding ab t_def by (simp only: of_int_of_nat_eq)
  have "10 powi (x + 16) \<le> ?v" using dec_exp_bounds(1) [OF pq(1,2)] unfolding pq(3) x by simp
  then have "10 ^ 16 \<le> t" unfolding v by (simp add: powi10_add [of x 16] mult.commute)
  then have "1 / 2 * 2 ^ 54 < t" by simp
  moreover have "\<bar>real (round_even ?a ?b) - t\<bar> * 2 ^ 54 \<le> 1 / 2 * 2 ^ 54"
    by (rule mult_right_mono [OF near]) simp
  ultimately have "\<bar>real (round_even ?a ?b) - t\<bar> * 2 ^ 54 < t" by (rule le_less_trans [rotated])
  then have "\<bar>real (round_even ?a ?b) - t\<bar> * 2 ^ 54 * 10 powi x < t * 10 powi x" by simp
  then have close: "\<bar>real (round_even ?a ?b) * 10 powi x - ?v\<bar> * 2 ^ 54 < ?v"
  proof -
    assume lt: "\<bar>real (round_even ?a ?b) - t\<bar> * 2 ^ 54 * 10 powi x < t * 10 powi x"
    have "\<bar>real (round_even ?a ?b) * 10 powi x - t * 10 powi x\<bar> = \<bar>real (round_even ?a ?b) - t\<bar> * 10 powi x"
      unfolding left_diff_distrib [symmetric] abs_mult by simp
    then show ?thesis unfolding v using lt by (simp only: mult_ac)
  qed
  show "rnd (real (round_even ?a ?b) * 10 powi x) = ?v"
    by (rule rnd_close [OF refl _ _ m close]) (use can in auto)
qed

lemma candidate_reads: "candidate f p q n = Some (c, x) \<Longrightarrow> read_decimal c x = f"
  by (auto simp: candidate_def Let_def split: if_splits)

lemma shortest_from_reads: "shortest_from f p q n k = Some (c, x) \<Longrightarrow> read_decimal c x = f"
  by (induction f p q n k rule: shortest_from.induct) (auto dest: candidate_reads split: option.splits)

lemma shortest_from_exists:
  "candidate f p q j \<noteq> None \<Longrightarrow> n \<le> j \<Longrightarrow> j < n + k \<Longrightarrow> shortest_from f p q n k \<noteq> None"
proof (induction f p q n k rule: shortest_from.induct)
  case (2 f p q n more)
  then show ?case by (cases "n = j") (auto split: option.split)
qed simp

lemma strip_zeros_value:
  "strip_zeros c x = (d, y) \<Longrightarrow> real d * 10 powi y = real c * 10 powi x \<and> (0 < c \<longrightarrow> 0 < d)"
proof (induction c x rule: strip_zeros.induct)
  case (1 c x)
  show ?case
  proof (cases "0 < c \<and> c mod 10 = 0")
    case True
    then have "c = 10 * (c div 10)" by auto
    then have "real c = 10 * real (c div 10)" by (metis of_nat_mult of_nat_numeral)
    moreover have "10 powi (x + 1) = 10 * (10::real) powi x" by (simp add: powi10_add)
    moreover have "strip_zeros (c div 10) (x + 1) = (d, y)" using True 1(2) by (simp add: strip_zeros.simps [of c])
    ultimately show ?thesis using 1(1) [OF True] True by auto
  next
    case False
    with 1(2) show ?thesis by (auto simp: strip_zeros.simps [of c])
  qed
qed

theorem shortest_reads_back:
  assumes can: "canonical (Fin False m e)" and m: "0 < m" and sh: "shortest m e = (c, x)"
  shows "read_decimal c x = Fin False m e \<and> 0 < c"
proof -
  let ?p = "m * 2 ^ nat e" and ?q = "2 ^ nat (- e) :: nat"
  have pq: "0 < ?p" "0 < ?q" "real ?p / real ?q = real m * 2 powi e"
    using m by (simp_all add: power_int_def power_one_over)
  have "candidate (Fin False m e) ?p ?q 17 \<noteq> None"
    using near_17 [OF can m pq refl] by (simp add: candidate_def Let_def)
  then have "shortest_from (Fin False m e) ?p ?q 1 17 \<noteq> None" by (rule shortest_from_exists) simp_all
  then obtain d y where d: "shortest_from (Fin False m e) ?p ?q 1 17 = Some (d, y)" by auto
  with sh have strip: "strip_zeros d y = (c, x)" by (simp add: shortest_def)
  have reads: "read_decimal d y = Fin False m e" by (rule shortest_from_reads [OF d])
  have "0 < d"
  proof (rule ccontr)
    assume "\<not> 0 < d"
    with reads m show False by (simp add: read_decimal_def round_frac_def)
  qed
  with reads strip_zeros_value [OF strip] read_decimal_cong [of c x d y] show ?thesis by simp
qed

section \<open>The printed numbers are JSON numbers\<close>

lemma num_run_append: "num_run m (s @ t) = (case num_run m s of None \<Rightarrow> None | Some m' \<Rightarrow> num_run m' t)"
  by (induction m s rule: num_run.induct) (auto split: option.split)

abbreviation digits :: "bytes \<Rightarrow> bool" where
  "digits s \<equiv> \<forall>c\<in>set s. digit c"

lemma num_next_digit: "digit c \<Longrightarrow> num_next Int1 c = Some Int1" "digit c \<Longrightarrow> num_next Dot c = Some Dot0"
  "digit c \<Longrightarrow> num_next Dot0 c = Some Dot0" "digit c \<Longrightarrow> num_next ExpSign c = Some Exp0"
  "digit c \<Longrightarrow> num_next Exp0 c = Some Exp0"
  by (auto simp: num_next_def)

lemma num_run_digits: "digits s \<Longrightarrow> m \<in> {Int1, Dot0, Exp0} \<Longrightarrow> num_run m s = Some m"
  by (induction s) (auto simp: num_next_digit)

lemma num_run_first_digits: "digits s \<Longrightarrow> s \<noteq> [] \<Longrightarrow> num_run Dot s = Some Dot0" "digits s \<Longrightarrow> s \<noteq> [] \<Longrightarrow> num_run ExpSign s = Some Exp0"
  by (cases s; simp add: num_next_digit num_run_digits)+

lemma digits_show_nat [simp]: "digits (show_nat n)"
proof
  fix c assume "c \<in> set (show_nat n)"
  from show_nat_digits [OF this] show "digit c" unfolding octet_def by linarith
qed

lemma char_of_48 [simp]: "char_of (48::nat) = CHR ''0''"
  by code_simp

lemma show_nat_front:
  assumes "0 < n"
  obtains c cs where "show_nat n = c # cs" "num_start c = Some Int1"
proof -
  have "\<exists>c cs. show_nat n = c # cs \<and> num_start c = Some Int1"
    using assms
  proof (induction n rule: show_nat.induct)
    case (1 n)
    show ?case
    proof (cases "n < 10")
      case True
      with 1(2) have "octet (digit_char n) = 48 + n" by (simp add: digit_char_def)
      then have "num_start (digit_char n) = Some Int1" using True 1(2) by (auto simp: num_start_def octet_def)
      with True show ?thesis by (simp add: show_nat.simps [of n])
    next
      case False
      moreover from this have "0 < n div 10" by (simp add: div_greater_zero_iff)
      ultimately obtain c cs where "show_nat (n div 10) = c # cs" "num_start c = Some Int1"
        using 1(1) by blast
      with False show ?thesis by (simp add: show_nat.simps [of n])
    qed
  qed
  with that show thesis by blast
qed

lemma digits_zeros [simp]: "digits (replicate n (CHR ''0''))"
  by (simp add: octet_def)

lemma digits_take_drop: "digits s \<Longrightarrow> digits (take n s)" "digits s \<Longrightarrow> digits (drop n s)"
  by (auto dest: in_set_takeD in_set_dropD)

lemma num_next_punct [simp]: "num_next Int1 (CHR ''.'') = Some Dot" "num_next Int0 (CHR ''.'') = Some Dot"
  "num_next Int1 (CHR ''e'') = Some Exp" "num_next Dot0 (CHR ''e'') = Some Exp"
  "num_next Exp (CHR ''+'') = Some ExpSign" "num_next Exp (CHR ''-'') = Some ExpSign"
  by (simp_all add: num_next_def octet_def)

lemma num_start_zero [simp]: "num_start (CHR ''0'') = Some Int0"
  by (simp add: num_start_def)

text \<open>A number that may follow a minus sign.\<close>

definition unsigned_ok :: "bytes \<Rightarrow> bool" where
  "unsigned_ok s \<longleftrightarrow> (\<exists>c cs m m'. s = c # cs \<and> (m = Int0 \<or> m = Int1) \<and> num_start c = Some m \<and> num_run m cs = Some m' \<and> num_final m')"

lemma unsigned_okI: "num_start c = Some m \<Longrightarrow> m = Int0 \<or> m = Int1 \<Longrightarrow> num_run m cs = Some m' \<Longrightarrow> num_final m' \<Longrightarrow> unsigned_ok (c # cs)"
  by (auto simp: unsigned_ok_def)

lemma unsigned_number: "unsigned_ok s \<Longrightarrow> number_ok s" "unsigned_ok s \<Longrightarrow> number_ok (CHR ''-'' # s)"
proof -
  assume "unsigned_ok s"
  then obtain c cs m m' where s: "s = c # cs" "m = Int0 \<or> m = Int1" "num_start c = Some m" "num_run m cs = Some m'" "num_final m'"
    by (auto simp: unsigned_ok_def)
  then show "number_ok s" by simp
  have "c \<noteq> CHR ''-''" using s(2,3) by (auto simp: num_start_def)
  then have "num_next Neg c = Some m" using s(3) by (simp add: num_next_def)
  then show "number_ok (CHR ''-'' # s)" using s by (simp add: num_start_def)
qed

lemma signed_number: "unsigned_ok t \<Longrightarrow> number_ok ((if s then ''-'' else []) @ t)"
  using unsigned_number [of t] by (cases s) (simp_all del: number_ok.simps)

lemma show_nat_unsigned: "unsigned_ok (show_nat n)"
proof (cases "n = 0")
  case True
  have "show_nat 0 = [CHR ''0'']" by (simp add: show_nat.simps digit_char_def)
  with True show ?thesis by (auto intro!: unsigned_okI [where m = Int0] simp: num_final_def)
next
  case False
  then obtain c cs where s: "show_nat n = c # cs" "num_start c = Some Int1" using show_nat_front by auto
  then have "digits cs" using digits_show_nat [of n] by simp
  with s show ?thesis by (auto intro!: unsigned_okI [where m = Int1] simp: num_final_def num_run_digits)
qed

lemma show_int_number: "number_ok (show_int i)"
  unfolding show_int_def using unsigned_number [OF show_nat_unsigned] by presburger

lemma positional_unsigned:
  assumes "0 < c"
  shows "unsigned_ok (positional c x)"
proof -
  obtain d ds where s: "show_nat c = d # ds" "num_start d = Some Int1" using show_nat_front [OF assms] .
  have ds: "digits ds" "digits (show_nat c)" using digits_show_nat [of c] s by simp_all
  consider "0 \<le> x" | "x < 0" "0 < int (length (show_nat c)) + x" | "x < 0" "\<not> 0 < int (length (show_nat c)) + x"
    by linarith
  then show ?thesis
  proof cases
    case 1
    with s ds show ?thesis
      by (auto simp: positional_def Let_def num_run_append num_run_digits num_run_digits [OF digits_zeros] num_final_def
          intro!: unsigned_okI [where m = Int1])
  next
    case 2
    define k where "k = nat (int (length (show_nat c)) + x)"
    have k: "0 < k" "k < length (show_nat c)" using 2 by (simp_all add: k_def)
    then obtain j where j: "k = Suc j" "j < length ds" using s by (cases k) auto
    have "positional c x = d # take j ds @ CHR ''.'' # drop j ds"
    proof -
      have "positional c x = take k (show_nat c) @ CHR ''.'' # drop k (show_nat c)"
        using 2 by (simp add: positional_def Let_def k_def)
      with s j show ?thesis by simp
    qed
    moreover have "num_run Int1 (take j ds @ CHR ''.'' # drop j ds) = Some Dot0"
      using digits_take_drop [OF ds(1)] j by (simp add: num_run_append num_run_digits num_run_first_digits)
    ultimately show ?thesis using s by (auto simp: num_final_def intro!: unsigned_okI [where m = Int1])
  next
    case 3
    have "num_run Dot (replicate n (CHR ''0'') @ show_nat c) = Some Dot0" for n
      using ds(2) digits_zeros [of n] by (intro num_run_first_digits) auto
    with 3 show ?thesis
      by (auto simp: positional_def Let_def num_final_def intro!: unsigned_okI [where m = Int0])
  qed
qed

lemma scientific_unsigned:
  assumes "0 < c"
  shows "unsigned_ok (scientific c x)"
proof -
  obtain d ds where s: "show_nat c = d # ds" "num_start d = Some Int1" using show_nat_front [OF assms] .
  have ds: "digits ds" using digits_show_nat [of c] s by simp
  let ?ex = "int (length (show_nat c)) + x - 1"
  let ?tail = "CHR ''e'' # (if ?ex < 0 then ''-'' else ''+'') @ show_nat (nat \<bar>?ex\<bar>)"
  have sci: "scientific c x = d # (if ds = [] then [] else CHR ''.'' # ds) @ ?tail"
    by (simp add: scientific_def Let_def s)
  have ex: "num_run Int1 ?tail = Some Exp0" "num_run Dot0 ?tail = Some Exp0"
    by (cases "?ex < 0"; simp add: num_run_first_digits)+
  have "num_run Int1 ((if ds = [] then [] else CHR ''.'' # ds) @ ?tail) = Some Exp0"
  proof (cases "ds = []")
    case True
    then show ?thesis using ex(1) by (simp only: simp_thms if_True append_Nil)
  next
    case False
    then have "num_run Dot ds = Some Dot0" using ds by (intro num_run_first_digits) auto
    then have "num_run Dot (ds @ ?tail) = Some Exp0" using ex(2) by (simp only: num_run_append option.case)
    with False show ?thesis by simp
  qed
  with s show ?thesis unfolding sci by (intro unsigned_okI [where m = Int1 and m' = Exp0]) (simp_all add: num_final_def)
qed

lemma float_text_number:
  assumes "canonical f" and "float_text f = Some s"
  shows "number_ok s"
proof (cases f)
  case (Fin sg m e)
  show ?thesis
  proof (cases "m = 0")
    case True
    have "unsigned_ok ''0''" using show_nat_unsigned [of 0] by (simp add: show_nat.simps digit_char_def)
    from signed_number [OF this, of sg] True Fin assms(2) show ?thesis by (simp del: number_ok.simps)
  next
    case False
    obtain c x where sh: "shortest m e = (c, x)" by (rule prod.exhaust)
    have "canonical (Fin False m e)" using assms(1) Fin by simp
    then have "0 < c" using shortest_reads_back sh False by blast
    then have "unsigned_ok (positional c x)" "unsigned_ok (scientific c x)"
      by (simp_all add: positional_unsigned scientific_unsigned)
    from this [THEN signed_number, of sg] Fin False sh assms(2) show ?thesis
      by (auto simp del: number_ok.simps split: if_splits)
  qed
qed (use assms in simp_all)

end
