(* ===== verification/Cache_Json.thy ===== *)
theory Cache_Json
  imports Manager Json_Quote Json_Indent Json_Number "HOL-Library.List_Lexorder" "HOL-Library.Char_ord"
begin

text \<open>
  What the handlers of \<open>internal/handler/handler.go\<close> read and write with \<open>encoding/json\<close>: the body of a
  \<open>PUT\<close> (a struct with the field \<open>value\<close>), the body of a batch (a struct with the field \<open>keys\<close>), the
  results of a batch (a map of \<open>json.RawMessage\<close>, printed in the order of the keys) and the statistics.
  \<open>Json\<close> has the scanner and the printer, \<open>Json_String\<close> the strings, \<open>Json_Number\<close> the
  floats, \<open>Json_Indent\<close> the indented form.  A cached value is a list of bytes here: that a nil slice, which
  only a gRPC client can cache, is printed as \<open>null\<close> is not told apart from the empty value, which is not JSON.
\<close>

section \<open>Decoding into the request structs\<close>

text \<open>A key of an object names a field when it is equal to it up to the case.\<close>

definition names_field :: "string \<Rightarrow> bytes \<Rightarrow> bool" where
  "names_field name raw =
     (case unquote_body raw of None \<Rightarrow> False | Some k \<Rightarrow> fold_name k = fold_name name)"

text \<open>A value stored into a string field: \<open>null\<close> leaves it alone, anything but a string is a type error.\<close>

fun store_string :: "json \<Rightarrow> string \<Rightarrow> string option" where
  "store_string (JString raw) old = unquote_body raw"
| "store_string JNull old = Some old"
| "store_string _ old = None"

text \<open>The members in order; a later one overwrites an earlier one, unknown ones are skipped.\<close>

fun store_fields :: "string \<Rightarrow> (json \<Rightarrow> 'a \<Rightarrow> 'a option) \<Rightarrow> (bytes \<times> json) list \<Rightarrow> 'a \<Rightarrow> 'a option" where
  "store_fields name store [] old = Some old"
| "store_fields name store ((k, v) # ms) old =
     (if names_field name k
      then (case store v old of None \<Rightarrow> None | Some new \<Rightarrow> store_fields name store ms new)
      else store_fields name store ms old)"

definition decode_struct :: "string \<Rightarrow> (json \<Rightarrow> 'a \<Rightarrow> 'a option) \<Rightarrow> 'a \<Rightarrow> json \<Rightarrow> 'a option" where
  "decode_struct name store zero j =
     (case j of
        JObject ms \<Rightarrow> store_fields name store ms zero
      | JNull \<Rightarrow> Some zero
      | _ \<Rightarrow> None)"

text \<open>A slice of strings, as the decoder fills it: the backing array and the length.  An element that is
  \<open>null\<close> keeps what the array holds at its place, which a repeated field can make visible.\<close>

type_synonym string_slice = "string list \<times> nat"

definition set_at :: "nat \<Rightarrow> string \<Rightarrow> string list \<Rightarrow> string list" where
  "set_at i x xs = (if i < length xs then xs[i := x] else xs @ [x])"

fun store_elements :: "nat \<Rightarrow> json list \<Rightarrow> string list \<Rightarrow> string list option" where
  "store_elements i [] arr = Some arr"
| "store_elements i (v # vs) arr =
     (case store_string v (if i < length arr then arr ! i else []) of
        None \<Rightarrow> None
      | Some x \<Rightarrow> store_elements (Suc i) vs (set_at i x arr))"

fun store_slice :: "json \<Rightarrow> string_slice \<Rightarrow> string_slice option" where
  "store_slice (JArray vs) s =
     (if vs = [] then Some ([], 0) else map_option (\<lambda>arr. (arr, length vs)) (store_elements 0 vs (fst s)))"
| "store_slice JNull s = Some ([], 0)"
| "store_slice _ s = None"

text \<open>\<open>json.NewDecoder(r.Body).Decode(&body)\<close> for the two structs; \<open>None\<close> is an error.\<close>

definition decode_value :: "bool \<Rightarrow> bytes \<Rightarrow> string option" where
  "decode_value fails body =
     Option.bind (read_value fails scan_init body) (decode_struct ''value'' store_string '''')"

definition decode_keys :: "bool \<Rightarrow> bytes \<Rightarrow> string list option" where
  "decode_keys fails body =
     map_option (\<lambda>(arr, n). take n arr)
       (Option.bind (read_value fails scan_init body) (decode_struct ''keys'' store_slice ([], 0)))"

section \<open>Encoding the results of a batch\<close>

fun encode_members :: "(string, bytes) gomap \<Rightarrow> string list \<Rightarrow> bytes list option" where
  "encode_members results [] = Some []"
| "encode_members results (k # ks) =
     (case compact (the (map_of results k)) of
        None \<Rightarrow> None
      | Some v \<Rightarrow> map_option ((#) (quote_string k @ CHR '':'' # v)) (encode_members results ks))"

definition encode_results :: "(string, bytes) gomap \<Rightarrow> bytes option" where
  "encode_results results =
     map_option (\<lambda>ms. CHR ''{'' # commas ms @ CHR ''}'' # [CHR 0x0A])
       (encode_members results (sort (m_keys results)))"

section \<open>Encoding the statistics\<close>

definition json_int :: "int \<Rightarrow> json" where
  "json_int i = JNumber (show_int i)"

definition snapshot_json :: "snapshot \<Rightarrow> json option" where
  "snapshot_json s =
     (case (float_text (s_l1_hit_rate s), float_text (s_l2_hit_rate s), float_text (s_avg_latency_us s),
            float_text (s_overall_hit_rate s)) of
        (Some r1, Some r2, Some lat, Some r) \<Rightarrow>
          Some (JObject
            [(''l1_hits'', json_int (s_l1_hits s)), (''l1_misses'', json_int (s_l1_misses s)),
             (''l1_hit_rate'', JNumber r1),
             (''l2_hits'', json_int (s_l2_hits s)), (''l2_misses'', json_int (s_l2_misses s)),
             (''l2_hit_rate'', JNumber r2),
             (''origin_calls'', json_int (s_origin_calls s)), (''origin_errors'', json_int (s_origin_errors s)),
             (''coalesced_calls'', json_int (s_coalesced_calls s)),
             (''total_requests'', json_int (s_total_requests s)),
             (''avg_latency_us'', JNumber lat), (''overall_hit_rate'', JNumber r)])
      | _ \<Rightarrow> None)"

definition stats_json :: "stats \<Rightarrow> json option" where
  "stats_json st =
     map_option (\<lambda>m. JObject
       [(''l1_size'', json_int (int (st_l1_size st))), (''l2_pool_hits'', json_int (int (st_pool_hits st))),
        (''l2_pool_misses'', json_int (int (st_pool_misses st))),
        (''l2_total_conns'', json_int (int (st_total_conns st))), (''metrics'', m)])
       (snapshot_json (st_metrics st))"

definition encode_stats :: "stats \<Rightarrow> bytes option" where
  "encode_stats st = map_option (\<lambda>j. indent_text 0 j @ [CHR 0x0A]) (stats_json st)"

section \<open>Statistics\<close>

lemma rate_bounded: "is_fin (rate a b) \<and> canonical (rate a b) \<and> \<bar>val (rate a b)\<bar> \<le> 2 powi 63"
proof (cases "0 < sint b")
  case True
  let ?x = "f64_of_int (sint a)" and ?y = "f64_of_int (sint b)"
  have ab: "\<bar>sint a\<bar> \<le> 2 ^ 63" "\<bar>sint b\<bar> \<le> 2 ^ 63" using sint64_bounds [of a] sint64_bounds [of b] by auto
  have lt: "rnd (of_int \<bar>i\<bar>) < f64_top" if "\<bar>i\<bar> \<le> 2 ^ 63" for i
    using int63_lt_top [of "\<bar>i\<bar>"] that by simp
  note A = f64_of_int_fin [OF lt [OF ab(1)]] and B = f64_of_int_fin [OF lt [OF ab(2)]]
  have r63: "representable (2 powi 63)" using representable_intro [of 1 63] by (simp del: power_int_numeral)
  have one: "representable 1" using representable_intro [of 1 0] by simp
  have "real_of_int \<bar>sint a\<bar> \<le> of_int (2 ^ 63)" using ab(1) by (simp only: of_int_le_iff)
  then have x: "\<bar>val ?x\<bar> \<le> 2 powi 63" using rnd_le [OF _ r63, of "of_int \<bar>sint a\<bar>"] A(3) by (simp add: abs_signed_rnd)
  have b1: "(1::real) \<le> of_int (sint b)" using True by (simp del: of_int_sint)
  then have "val ?y = rnd (of_int (sint b))" using B(3) by (simp add: signed_rnd_def del: of_int_sint)
  with rnd_ge [OF b1 one] have y: "1 \<le> val ?y" by simp
  have "\<bar>val ?x / val ?y\<bar> \<le> \<bar>val ?x\<bar>" using y by (simp add: abs_divide divide_le_eq mult_le_cancel_left1)
  with x have q: "\<bar>val ?x / val ?y\<bar> \<le> 2 powi 63" by linarith
  then have rq: "rnd \<bar>val ?x / val ?y\<bar> \<le> 2 powi 63" using r63 by (rule rnd_le)
  have "(2::real) powi 63 < f64_top" unfolding f64_top_def by (intro power_int_strict_increasing) auto
  with rq have "rnd \<bar>val ?x / val ?y\<bar> < f64_top" by linarith
  from f64_div_fin [OF A(1) B(1) _ this] y rq True show ?thesis
    by (auto simp: rate_def abs_signed_rnd)
qed (simp add: rate_def)


lemma avg_fin: "is_fin (f64_div (rate a b) (f64_of_int 1000)) \<and> canonical (f64_div (rate a b) (f64_of_int 1000))"
proof -
  have r: "is_fin (rate a b)" "\<bar>val (rate a b)\<bar> \<le> 2 powi 63" using rate_bounded [of a b] by simp_all
  have r63: "representable (2 powi 63)" using representable_intro [of 1 63] by (simp del: power_int_numeral)
  have k: "is_fin (f64_of_int 1000)" "val (f64_of_int 1000) = 1000"
    by (simp_all add: f64_eval power_int_def power_one_over)
  have "\<bar>val (rate a b) / val (f64_of_int 1000)\<bar> \<le> \<bar>val (rate a b)\<bar>" unfolding k(2) by simp
  with r(2) have "\<bar>val (rate a b) / val (f64_of_int 1000)\<bar> \<le> 2 powi 63" by linarith
  then have "rnd \<bar>val (rate a b) / val (f64_of_int 1000)\<bar> \<le> 2 powi 63" using r63 by (rule rnd_le)
  moreover have "(2::real) powi 63 < f64_top" unfolding f64_top_def by (intro power_int_strict_increasing) auto
  ultimately have "rnd \<bar>val (rate a b) / val (f64_of_int 1000)\<bar> < f64_top" by linarith
  from f64_div_fin [OF r(1) k(1) _ this] k(2) show ?thesis by simp
qed

lemma float_text_fin:
  assumes "is_fin f" and "canonical f"
  obtains s where "float_text f = Some s" "number_ok s"
proof -
  have "float_text f \<noteq> None" using assms(1) by (elim is_fin_cases) (simp add: Let_def split: prod.split)
  then obtain s where "float_text f = Some s" by blast
  with float_text_number [OF assms(2)] that show thesis by blast
qed

text \<open>The printed form of a snapshot, member by member: the counters as integers, the rates and the latency as
  the texts of their floats, which all have one.\<close>

definition snapshot_members :: "metrics \<Rightarrow> bytes \<Rightarrow> bytes \<Rightarrow> bytes \<Rightarrow> bytes \<Rightarrow> (bytes \<times> json) list" where
  "snapshot_members m r1 r2 lat r =
     [(''l1_hits'', json_int (sint (L1Hits m))), (''l1_misses'', json_int (sint (L1Misses m))),
      (''l1_hit_rate'', JNumber r1),
      (''l2_hits'', json_int (sint (L2Hits m))), (''l2_misses'', json_int (sint (L2Misses m))),
      (''l2_hit_rate'', JNumber r2),
      (''origin_calls'', json_int (sint (OriginCalls m))), (''origin_errors'', json_int (sint (OriginErrors m))),
      (''coalesced_calls'', json_int (sint (CoalescedCalls m))),
      (''total_requests'', json_int (sint (TotalRequests m))),
      (''avg_latency_us'', JNumber lat), (''overall_hit_rate'', JNumber r)]"

lemma snapshot_json_ok:
  obtains r1 r2 lat r where
    "float_text (rate (L1Hits m) (L1Hits m + L1Misses m)) = Some r1" "float_text (rate (L2Hits m) (L2Hits m + L2Misses m)) = Some r2"
    "float_text (if 0 < sint (TotalRequests m) then f64_div (rate (TotalLatencyNs m) (TotalRequests m)) (f64_of_int 1000)
       else f64_zero False) = Some lat"
    "float_text (rate (L1Hits m + L2Hits m) (TotalRequests m)) = Some r"
    "snapshot_json (Snapshot m) = Some (JObject (snapshot_members m r1 r2 lat r))"
    "json_ok (JObject (snapshot_members m r1 r2 lat r))" "nesting (JObject (snapshot_members m r1 r2 lat r)) = 1"
proof -
  obtain r1 where r1: "float_text (rate (L1Hits m) (L1Hits m + L1Misses m)) = Some r1" "number_ok r1"
    using float_text_fin rate_bounded by metis
  obtain r2 where r2: "float_text (rate (L2Hits m) (L2Hits m + L2Misses m)) = Some r2" "number_ok r2"
    using float_text_fin rate_bounded by metis
  obtain r where r: "float_text (rate (L1Hits m + L2Hits m) (TotalRequests m)) = Some r" "number_ok r"
    using float_text_fin rate_bounded by metis
  let ?l = "if 0 < sint (TotalRequests m) then f64_div (rate (TotalLatencyNs m) (TotalRequests m)) (f64_of_int 1000) else f64_zero False"
  have "is_fin ?l \<and> canonical ?l" using avg_fin by simp
  then obtain l where l: "float_text ?l = Some l" "number_ok l" using float_text_fin by blast
  have keys: "raw_ok ''l1_hits''" "raw_ok ''l1_misses''" "raw_ok ''l1_hit_rate''" "raw_ok ''l2_hits''"
    "raw_ok ''l2_misses''" "raw_ok ''l2_hit_rate''" "raw_ok ''origin_calls''" "raw_ok ''origin_errors''"
    "raw_ok ''coalesced_calls''" "raw_ok ''total_requests''" "raw_ok ''avg_latency_us''" "raw_ok ''overall_hit_rate''"
    by code_simp+
  have "snapshot_json (Snapshot m) = Some (JObject (snapshot_members m r1 r2 l r))"
    unfolding snapshot_json_def Snapshot_def snapshot.simps r1(1) r2(1) l(1) r(1) option.case prod.case snapshot_members_def ..
  moreover have "json_ok (JObject (snapshot_members m r1 r2 l r))"
    by (simp add: snapshot_members_def keys json_int_def show_int_number r1 r2 l r)
  moreover have "nesting (JObject (snapshot_members m r1 r2 l r)) = 1" by (simp add: snapshot_members_def json_int_def)
  ultimately show thesis by (rule that [OF r1(1) r2(1) l(1) r(1)])
qed

section \<open>Request bodies\<close>

lemma scan_EndTop: "scan (EndTop w, st) cs = (EndTop v, st') \<Longrightarrow> w = v"
proof (induction cs arbitrary: st)
  case (Cons c cs)
  have "scan (AfterTop w, st) cs = (AfterTop w, st)" for st
    by (induction cs) (simp_all add: scan_step_def)
  with Cons show ?case by (auto simp: scan_step_def end_top_def split: if_splits)
qed simp

lemma scan_stuck: "scan (AfterTop w, st) cs = (AfterTop w, st)" "scan (Failed, st) cs = (Failed, st)"
  by (induction cs) (simp_all add: scan_step_def)

lemma read_value_scan:
  "scan s cs = (EndTop v, st) \<Longrightarrow> \<forall>w. fst s \<noteq> EndTop w \<Longrightarrow> read_value fails s (cs @ rest) = Some v"
proof (induction cs arbitrary: s)
  case (Cons c cs)
  obtain m st' where s': "scan_step s c = (m, st')" by (rule prod.exhaust)
  from Cons.prems(1) s' have run: "scan (m, st') cs = (EndTop v, st)" by simp
  show ?case
  proof (cases "\<exists>w. m = EndTop w")
    case True
    with run scan_EndTop s' show ?thesis by (auto simp: Let_def)
  next
    case False
    with Cons.IH [OF run] have "read_value fails (m, st') (cs @ rest) = Some v" by simp
    with False s' run show ?thesis by (cases m) (auto simp: Let_def scan_stuck)
  qed
qed (auto simp: prod_eq_iff)

text \<open>An object is read to its closing brace, whatever follows and whether the body ends well or not.\<close>

lemma read_object:
  assumes "json_ok (JObject ms)" and "nesting (JObject ms) \<le> max_nesting"
  shows "read_value fails scan_init (json_text (\<lambda>x. x) (JObject ms) @ rest) = Some (JObject ms)"
proof -
  let ?members = "commas (map (\<lambda>(k, v). raw_text (\<lambda>x. x) k @ CHR '':'' # json_text (\<lambda>x. x) v) ms)"
  have "scan scan_init (json_text (\<lambda>x. x) (JObject ms)) = closed (JObject ms) []"
  proof -
    have push: "scan_step scan_init (CHR ''{'') = (BeginStringOrEmpty, [ObjectKey []])"
      by (simp add: scan_step_def begin_value_def push_def is_space_def max_nesting_def)
    show ?thesis
    proof (cases ms)
      case Nil
      then show ?thesis by (simp add: push) (simp add: scan_step_def)
    next
      case (Cons u us)
      have "scan (BeginStringOrEmpty, [ObjectKey []]) (?members @ ''}'') =
          closed (JObject ([] @ map (\<lambda>p. (fst p, map_raw (\<lambda>x. x) (snd p))) (u # us))) []"
        unfolding Cons
      proof (rule scan_members [OF _ refl])
        fix p st' assume p: "p \<in> set (u # us)" and st': "length (st' :: frame list) = Suc (length [])"
        from p have "nesting (snd p) \<le> foldr max (map (\<lambda>m. nesting (snd m)) ms) 0"
          unfolding Cons by (intro foldr_max_ge) auto
        then have "nesting (snd p) + length st' \<le> max_nesting" using assms(2) st' by simp
        moreover have "raw_ok (fst p)" "json_ok (snd p)" using p assms(1) Cons by auto
        ultimately show "raw_ok (fst p) \<and>
            reads (map_raw (\<lambda>x. x) (snd p)) st' (scan (BeginValue, st') (json_text (\<lambda>x. x) (snd p)))"
          using reads_text [of "\<lambda>x. x" "snd p" st'] by simp
      qed simp
      then show ?thesis by (simp add: push Cons)
    qed
  qed
  then show ?thesis by (intro read_value_scan) (simp_all add: closed_def)
qed

lemma quote_field_names: "quote_body ''value'' = ''value''" "quote_body ''keys'' = ''keys''"
  by code_simp+

lemma names_field_consts: "names_field ''value'' ''value''" "names_field ''keys'' ''keys''"
  by code_simp+

lemma quote_field_strings: "quote_string ''value'' = raw_text (\<lambda>x. x) ''value''" "quote_string ''keys'' = raw_text (\<lambda>x. x) ''keys''"
  by (simp_all only: quote_string_def raw_text_def quote_field_names)

lemma raw_ok_fields: "raw_ok ''value''" "raw_ok ''keys''"
  by code_simp+

theorem decode_value_quoted:
  "decode_value fails (CHR ''{'' # quote_string ''value'' @ CHR '':'' # quote_string v @ ''}'' @ rest) = Some (to_valid v)"
proof -
  let ?j = "JObject [(''value'', JString (quote_body v))]"
  have body: "CHR ''{'' # quote_string ''value'' @ CHR '':'' # quote_string v @ ''}'' @ rest = json_text (\<lambda>x. x) ?j @ rest"
    unfolding quote_field_strings by (simp add: quote_string_def raw_text_def)
  have "read_value fails scan_init (json_text (\<lambda>x. x) ?j @ rest) = Some ?j"
    by (rule read_object) (simp_all add: raw_ok_fields max_nesting_def)
  then show ?thesis
    unfolding decode_value_def body by (simp only: bind.simps) (simp add: decode_struct_def names_field_consts unquote_quote)
qed

lemma store_elements_quoted:
  "store_elements (length arr) (map (\<lambda>k. JString (quote_body k)) ks) arr = Some (arr @ map to_valid ks)"
proof (induction ks arbitrary: arr)
  case (Cons k ks)
  from Cons.IH [of "arr @ [to_valid k]"] show ?case by (simp add: unquote_quote set_at_def)
qed simp

theorem decode_keys_quoted:
  "decode_keys fails (CHR ''{'' # quote_string ''keys'' @ '':['' @ commas (map quote_string ks) @ '']}'' @ rest) =
   Some (map to_valid ks)"
proof -
  let ?vs = "map (\<lambda>k. JString (quote_body k)) ks"
  have elems: "map (json_text (\<lambda>x. x)) ?vs = map quote_string ks"
    by (simp add: quote_string_def raw_text_def)
  have flat: "foldr max (map nesting ?vs) 0 = 0" by (induction ks) simp_all
  let ?j = "JObject [(''keys'', JArray ?vs)]"
  have body: "CHR ''{'' # quote_string ''keys'' @ '':['' @ commas (map quote_string ks) @ '']}'' @ rest =
      json_text (\<lambda>x. x) ?j @ rest"
    unfolding elems [symmetric] quote_field_strings by simp
  have "read_value fails scan_init (json_text (\<lambda>x. x) ?j @ rest) = Some ?j"
    by (rule read_object) (use flat in \<open>simp_all only: json_ok.simps nesting.simps list.map list.set foldr.simps prod.sel ball_simps\<close>, auto simp: raw_ok_fields max_nesting_def)
  then show ?thesis
    unfolding decode_keys_def body using store_elements_quoted [of "[]" ks]
    by (simp only: bind.simps) (auto simp: decode_struct_def names_field_consts)
qed

section \<open>Results of a batch\<close>

lemma json_text_map_raw: "json_text (\<lambda>x. x) (map_raw f j) = json_text f j"
proof (induction j)
  case (JArray vs)
  then have "map (json_text (\<lambda>x. x) \<circ> map_raw f) vs = map (json_text f) vs" by simp
  then show ?case by (simp only: map_raw.simps json_text.simps map_map)
next
  case (JObject ms)
  then have "map ((\<lambda>(k, v). raw_text (\<lambda>x. x) k @ CHR '':'' # json_text (\<lambda>x. x) v) \<circ> (\<lambda>m. (f (fst m), map_raw f (snd m)))) ms =
      map (\<lambda>(k, v). raw_text f k @ CHR '':'' # json_text f v) ms"
    by (auto simp: raw_text_def snds.simps)
  then show ?case by (simp only: map_raw.simps json_text.simps map_map)
qed (simp_all add: raw_text_def)

lemma json_ok_map_raw: "(\<And>raw. raw_ok raw \<Longrightarrow> raw_ok (f raw)) \<Longrightarrow> json_ok j \<Longrightarrow> json_ok (map_raw f j)"
  by (induction j) (auto simp: snds.simps)

lemma nesting_map_raw: "nesting (map_raw f j) = nesting j"
proof (induction j)
  case (JArray vs)
  then have "map (nesting \<circ> map_raw f) vs = map nesting vs" by simp
  then show ?case by (simp only: map_raw.simps nesting.simps map_map)
next
  case (JObject ms)
  then have "map ((\<lambda>m. nesting (snd m)) \<circ> (\<lambda>m. (f (fst m), map_raw f (snd m)))) ms = map (\<lambda>m. nesting (snd m)) ms"
    by (auto simp: snds.simps)
  then show ?case by (simp only: map_raw.simps nesting.simps map_map)
qed simp_all

lemma encode_members_None: "encode_members results ks = None \<longleftrightarrow> (\<exists>k\<in>set ks. json_parse (the (map_of results k)) = None)"
  by (induction ks) (auto simp: compact_def split: option.splits)

text \<open>What a value of the results is printed as.\<close>

definition result_json :: "(string, bytes) gomap \<Rightarrow> string \<Rightarrow> bytes \<times> json" where
  "result_json results k = (quote_body k, map_raw html_raw (the (json_parse (the (map_of results k)))))"

lemma encode_members_Some:
  "\<forall>k\<in>set ks. json_parse (the (map_of results k)) \<noteq> None \<Longrightarrow>
   encode_members results ks = Some (map (\<lambda>(k, v). raw_text (\<lambda>x. x) k @ CHR '':'' # json_text (\<lambda>x. x) v) (map (result_json results) ks))"
  by (induction ks) (auto simp: compact_def result_json_def json_text_map_raw quote_string_def raw_text_def)

lemma encode_results_None:
  "encode_results results = None \<longleftrightarrow> (\<exists>k\<in>set (m_keys results). json_parse (the (map_of results k)) = None)"
  by (simp add: encode_results_def encode_members_None)

theorem encode_results_parse:
  assumes "\<forall>k\<in>set (m_keys results). \<exists>j. json_parse (the (map_of results k)) = Some j \<and> nesting j < max_nesting"
  shows "\<exists>body. encode_results results = Some body \<and>
    json_parse body = Some (JObject (map (result_json results) (sort (m_keys results))))"
proof -
  let ?ks = "sort (m_keys results)"
  let ?j = "JObject (map (result_json results) ?ks)"
  have body: "encode_results results = Some (json_text (\<lambda>x. x) ?j @ [CHR 0x0A])"
  proof -
    have "\<forall>k\<in>set ?ks. json_parse (the (map_of results k)) \<noteq> None" using assms by auto
    from encode_members_Some [OF this] show ?thesis
      by (simp add: encode_results_def)
  qed
  have val: "json_ok (snd (result_json results k)) \<and> nesting (snd (result_json results k)) < max_nesting"
    if "k \<in> set (m_keys results)" for k
    using that assms json_parse_ok by (fastforce simp: result_json_def nesting_map_raw intro: json_ok_map_raw raw_ok_html)
  have "json_ok ?j" using val by (auto simp: result_json_def)
  moreover have "nesting ?j \<le> max_nesting"
  proof -
    have "foldr max (map (\<lambda>m. nesting (snd m)) (map (result_json results) ?ks)) 0 \<le> max_nesting - 1"
      using val by (subst foldr_max_le) fastforce
    then show ?thesis by (simp add: max_nesting_def)
  qed
  ultimately have "reads (map_raw (\<lambda>x. x) ?j) [] (scan scan_init (json_text (\<lambda>x. x) ?j))"
    by (intro reads_text) simp_all
  from parse_blank [OF this [unfolded map_raw_id], of "[CHR 0x0A]"] body show ?thesis by simp
qed

section \<open>The statistics are JSON\<close>

theorem encode_stats_parse:
  assumes "st_metrics st = Snapshot m"
  shows "\<exists>body r1 r2 lat r. encode_stats st = Some body \<and>
    json_parse body = Some (JObject
      [(''l1_size'', json_int (int (st_l1_size st))), (''l2_pool_hits'', json_int (int (st_pool_hits st))),
       (''l2_pool_misses'', json_int (int (st_pool_misses st))), (''l2_total_conns'', json_int (int (st_total_conns st))),
       (''metrics'', JObject (snapshot_members m r1 r2 lat r))]) \<and>
    float_text (rate (L1Hits m) (L1Hits m + L1Misses m)) = Some r1 \<and> float_text (rate (L2Hits m) (L2Hits m + L2Misses m)) = Some r2 \<and>
    float_text (if 0 < sint (TotalRequests m) then f64_div (rate (TotalLatencyNs m) (TotalRequests m)) (f64_of_int 1000)
      else f64_zero False) = Some lat \<and>
    float_text (rate (L1Hits m + L2Hits m) (TotalRequests m)) = Some r"
proof -
  obtain r1 r2 lat r where floats:
    "float_text (rate (L1Hits m) (L1Hits m + L1Misses m)) = Some r1" "float_text (rate (L2Hits m) (L2Hits m + L2Misses m)) = Some r2"
    "float_text (if 0 < sint (TotalRequests m) then f64_div (rate (TotalLatencyNs m) (TotalRequests m)) (f64_of_int 1000)
      else f64_zero False) = Some lat"
    "float_text (rate (L1Hits m + L2Hits m) (TotalRequests m)) = Some r"
    and js: "snapshot_json (Snapshot m) = Some (JObject (snapshot_members m r1 r2 lat r))"
      "json_ok (JObject (snapshot_members m r1 r2 lat r))" "nesting (JObject (snapshot_members m r1 r2 lat r)) = 1"
    by (rule snapshot_json_ok)
  have keys: "raw_ok ''l1_size''" "raw_ok ''l2_pool_hits''" "raw_ok ''l2_pool_misses''" "raw_ok ''l2_total_conns''" "raw_ok ''metrics''"
    by code_simp+
  define ms where "ms = [(''l1_size'', json_int (int (st_l1_size st))), (''l2_pool_hits'', json_int (int (st_pool_hits st))),
        (''l2_pool_misses'', json_int (int (st_pool_misses st))),
        (''l2_total_conns'', json_int (int (st_total_conns st))), (''metrics'', JObject (snapshot_members m r1 r2 lat r))]"
  have "json_ok (JObject ms)" using js(2) by (simp add: ms_def keys json_int_def show_int_number)
  moreover have "nesting (JObject ms) \<le> max_nesting" using js(3) by (simp add: ms_def json_int_def max_nesting_def)
  ultimately have "json_parse (indent_text 0 (JObject ms) @ [CHR 0x0A]) = Some (JObject ms)"
    by (rule parse_indent) simp
  moreover have "encode_stats st = Some (indent_text 0 (JObject ms) @ [CHR 0x0A])"
    by (simp add: encode_stats_def stats_json_def assms js(1) ms_def)
  ultimately show ?thesis using floats unfolding ms_def by blast
qed

section \<open>What the decoder stores\<close>

abbreviation utf8 :: "string \<Rightarrow> bool" where
  "utf8 s \<equiv> to_valid s = s"

lemma store_string_utf8: "store_string j old = Some new \<Longrightarrow> utf8 old \<Longrightarrow> utf8 new"
  by (cases j) (auto dest: unquote_valid)

lemma store_fields_keeps:
  "store_fields name store ms old = Some new \<Longrightarrow> (\<And>v x y. store v x = Some y \<Longrightarrow> P x \<Longrightarrow> P y) \<Longrightarrow> P old \<Longrightarrow> P new"
  by (induction ms arbitrary: old) (auto split: if_splits option.splits)

lemma decode_struct_keeps:
  "decode_struct name store zero j = Some new \<Longrightarrow> (\<And>v x y. store v x = Some y \<Longrightarrow> P x \<Longrightarrow> P y) \<Longrightarrow> P zero \<Longrightarrow> P new"
  by (auto simp: decode_struct_def split: json.splits intro: store_fields_keeps)

lemma store_elements_utf8:
  "store_elements i vs arr = Some arr' \<Longrightarrow> list_all utf8 arr \<Longrightarrow> list_all utf8 arr'"
proof (induction vs arbitrary: i arr)
  case (Cons v vs)
  then obtain x where x: "store_string v (if i < length arr then arr ! i else []) = Some x"
      "store_elements (Suc i) vs (set_at i x arr) = Some arr'" by (auto split: option.splits)
  have "utf8 (if i < length arr then arr ! i else [])" using Cons.prems(2) by (simp add: list_all_length)
  with x(1) have "utf8 x" by (rule store_string_utf8)
  then have "list_all utf8 (set_at i x arr)"
    using Cons.prems(2) set_update_subset_insert [of arr i x] by (auto simp: set_at_def list_all_iff)
  with Cons.IH [OF x(2)] show ?case .
qed simp

lemma store_slice_utf8: "store_slice j s = Some s' \<Longrightarrow> list_all utf8 (fst s) \<Longrightarrow> list_all utf8 (fst s')"
  by (cases j) (auto split: if_splits dest: store_elements_utf8)

text \<open>The type of what is decoded: whatever bytes a client sends, the value of a \<open>PUT\<close> and the keys of a
  batch are valid UTF-8, since the decoder replaces invalid bytes and lone surrogates.\<close>

theorem decoded_utf8:
  "pred_option utf8 (decode_value fails body) \<and> pred_option (list_all utf8) (decode_keys fails body)"
proof (rule conjI)
  have "utf8 v" if "decode_struct ''value'' store_string [] j = Some v" for j v
    by (rule decode_struct_keeps [OF that store_string_utf8]) simp_all
  then show "pred_option utf8 (decode_value fails body)"
    by (auto simp: decode_value_def bind_eq_Some_conv pred_option_def)
  have "list_all utf8 (fst s)" if "decode_struct ''keys'' store_slice ([], 0) j = Some s" for j s
    by (rule decode_struct_keeps [OF that]) (auto dest: store_slice_utf8)
  then show "pred_option (list_all utf8) (decode_keys fails body)"
    by (fastforce simp: decode_keys_def bind_eq_Some_conv pred_option_def list_all_iff dest: in_set_takeD)
qed

text \<open>What a body of \<open>PUT\<close> must be, and what it means: the first JSON value is an object in which every member called
  \<open>value\<close>, up to the case, is a string or \<open>null\<close>; the last such string is the value, none is the empty value.\<close>

definition named :: "string \<Rightarrow> (bytes \<times> json) list \<Rightarrow> json list" where
  "named name ms = map snd (filter (\<lambda>m. names_field name (fst m)) ms)"

fun string_or_null :: "json \<Rightarrow> bool" where
  "string_or_null (JString raw) \<longleftrightarrow> unquote_body raw \<noteq> None"
| "string_or_null JNull \<longleftrightarrow> True"
| "string_or_null _ \<longleftrightarrow> False"

fun string_text :: "json \<Rightarrow> string option" where
  "string_text (JString raw) = unquote_body raw"
| "string_text _ = None"

lemma store_fields_named:
  "store_fields name store_string ms old =
    (if list_all string_or_null (named name ms) then Some (last (old # List.map_filter string_text (named name ms))) else None)"
proof (induction ms arbitrary: old)
  case (Cons m ms)
  obtain k j where m: "m = (k, j)" by (rule prod.exhaust)
  show ?case
  proof (cases "names_field name k")
    case True
    then have "named name (m # ms) = j # named name ms" by (simp add: named_def m)
    with True Cons.IH show ?thesis by (cases j) (auto simp: m List.map_filter_simps split: option.splits)
  next
    case False
    then have "named name (m # ms) = named name ms" by (simp add: named_def m)
    with False Cons.IH show ?thesis by (simp add: m)
  qed
qed (simp add: named_def List.map_filter_simps)

end
