(* ===== verification/Cache_Handler.thy ===== *)
theory Cache_Handler
  imports Cache_Json Http
begin

text \<open>
  The HTTP routes of the cache, \<open>internal/handler/handler.go\<close>, on the state of the manager.  A panic of
  the origin goes through the handler (\<open>Panicked\<close>) and is caught by the middleware of \<open>Http\<close>.  The
  bodies are decoded and the results encoded by \<open>Cache_Json\<close>.  The error of an encoder is dropped by the
  code: the response then has the headers set so far and no body.
\<close>

section \<open>Routes\<close>

type_synonym get_env = "clock \<times> flight \<times> origin_fetcher"

definition manager_get :: "'r manager_config \<Rightarrow> get_env \<Rightarrow> string \<Rightarrow> 'r manager \<Rightarrow> bytes fetch_result \<times> 'r manager" where
  "manager_get g env key s = (case env of (clk, fl, orig) \<Rightarrow> Manager_Get g clk fl orig key s)"

abbreviation json_type :: "writer \<Rightarrow> writer" where
  "json_type \<equiv> header_set ''Content-Type'' ''application/json''"

definition key_required :: "writer \<Rightarrow> writer" where
  "key_required = http_error ''{\"error\":\"key required\"}'' 400"

definition internal_error :: "writer \<Rightarrow> writer" where
  "internal_error = http_error ''{\"error\":\"internal error\"}'' 500"

definition getCache :: "'r manager_config \<Rightarrow> get_env \<Rightarrow> 'r manager handler" where
  "getCache g env r s w =
     (if rq_value r = '''' then Returned s (key_required w)
      else case manager_get g env (rq_value r) s of
        (Fetched v, s') \<Rightarrow> Returned s' (write_body v (json_type w))
      | (FetchError err, s') \<Rightarrow> Returned s' (internal_error w)
      | (FetchPanic, s') \<Rightarrow> Panicked s' w)"

definition putCache :: "'r manager_config \<Rightarrow> time \<Rightarrow> 'r manager handler" where
  "putCache g now r s w =
     (if rq_value r = '''' then Returned s (key_required w)
      else case decode_value (rq_body_fails r) (rq_body r) of
        None \<Rightarrow> Returned s (http_error ''{\"error\":\"invalid body\"}'' 400 w)
      | Some v \<Rightarrow>
          (case Manager_Set g now (rq_value r) v s of
             (Some err, s') \<Rightarrow> Returned s' (internal_error w)
           | (None, s') \<Rightarrow> Returned s' (write_body ''{\"status\":\"ok\"}'' (write_header 201 (json_type w)))))"

definition deleteCache :: "'r manager_config \<Rightarrow> 'r manager handler" where
  "deleteCache g r s w =
     (if rq_value r = '''' then Returned s (key_required w)
      else case Invalidate g (rq_value r) s of
        (Some err, s') \<Rightarrow> Returned s' (internal_error w)
      | (None, s') \<Rightarrow> Returned s' (write_body ''{\"status\":\"invalidated\"}'' (json_type w)))"

text \<open>The loop of \<open>batchGet\<close>; \<open>env i\<close> is the environment of the \<open>i\<close>-th \<open>Get\<close>.  \<open>None\<close> is a panic.\<close>

fun batch_loop :: "'r manager_config \<Rightarrow> (nat \<Rightarrow> get_env) \<Rightarrow> nat \<Rightarrow> string list \<Rightarrow> (string, bytes) gomap \<Rightarrow>
    'r manager \<Rightarrow> (string, bytes) gomap option \<times> 'r manager" where
  "batch_loop g env i [] results s = (Some results, s)"
| "batch_loop g env i (key # keys) results s =
     (case manager_get g (env i) key s of
        (Fetched v, s') \<Rightarrow> batch_loop g env (Suc i) keys (m_put key v results) s'
      | (FetchError err, s') \<Rightarrow>
          batch_loop g env (Suc i) keys (m_put key ''{\"error\":\"fetch failed\"}'' results) s'
      | (FetchPanic, s') \<Rightarrow> (None, s'))"

definition encoded :: "bytes option \<Rightarrow> writer \<Rightarrow> writer" where
  "encoded out w = (case out of None \<Rightarrow> w | Some text \<Rightarrow> write_body text w)"

definition batchGet :: "'r manager_config \<Rightarrow> (nat \<Rightarrow> get_env) \<Rightarrow> 'r manager handler" where
  "batchGet g env r s w =
     (case decode_keys (rq_body_fails r) (rq_body r) of
        None \<Rightarrow> Returned s (http_error ''{\"error\":\"invalid body\"}'' 400 w)
      | Some keys \<Rightarrow>
          (case batch_loop g env 0 keys [] s of
             (None, s') \<Rightarrow> Panicked s' w
           | (Some results, s') \<Rightarrow> Returned s' (encoded (encode_results results) (json_type w))))"

definition getStats :: "'r manager_config \<Rightarrow> 'r manager handler" where
  "getStats g r s w = Returned s (encoded (encode_stats (Manager_Stats g s)) (json_type w))"

definition health :: "'r manager handler" where
  "health r s w = Returned s (write_body ''{\"status\":\"healthy\",\"service\":\"cache-server\"}'' (json_type w))"

text \<open>No panic of the origin, in the call itself or in the one it joins.\<close>

definition calm :: "get_env \<Rightarrow> bool" where
  "calm env \<longleftrightarrow> fst (snd env) \<noteq> Joins FetchPanic \<and> (\<forall>k. snd (snd env) k \<noteq> FetchPanic)"

lemma calm_get: "calm env \<Longrightarrow> fst (manager_get g env k s) \<noteq> FetchPanic"
  by (auto simp: calm_def manager_get_def Manager_Get_def fetchFromOrigin_fst origin_result_def Let_def split_beta
      split: option.splits flight.splits fetch_result.splits)

lemma calm_batch_loop: "\<forall>i. calm (env i) \<Longrightarrow> fst (batch_loop g env i keys results s) \<noteq> None"
proof (induction keys arbitrary: i results s)
  case (Cons k keys)
  then show ?case using calm_get [of "env i" g k s] by (auto split: prod.split fetch_result.split)
qed simp

section \<open>Properties\<close>

lemma batch_loop_keys:
  "fst (batch_loop g env i keys results s) = Some out \<Longrightarrow>
   set (m_keys out) = set (m_keys results) \<union> set keys"
  by (induction keys arbitrary: i results s) (auto split: prod.splits fetch_result.splits)

lemma json_answers:
  assumes "w_sent w = None" and "w_body w = []"
  shows "status_of (internal_error w) = 500"
    "status_of (write_body v (json_type w)) = 200" "w_body (write_body v (json_type w)) = v"
    "status_of (write_body v (write_header code (json_type w))) = code"
  using assms by (simp add: internal_error_def http_error_fresh writer_simps) (simp_all add: response_of_def writer_simps assms)

lemmas json_responses = json_answers [OF new_writer_sel(2,3)]

definition value_body :: "string \<Rightarrow> bytes \<Rightarrow> bytes" where
  "value_body v rest = CHR ''{'' # quote_string ''value'' @ CHR '':'' # quote_string v @ ''}'' @ rest"

definition keys_body :: "string list \<Rightarrow> bytes \<Rightarrow> bytes" where
  "keys_body ks rest = CHR ''{'' # quote_string ''keys'' @ '':['' @ commas (map quote_string ks) @ '']}'' @ rest"

lemma decode_bodies [simp]:
  "decode_value fails (value_body v rest) = Some (to_valid v)"
  "decode_keys fails (keys_body ks rest) = Some (map to_valid ks)"
  unfolding value_body_def keys_body_def by (rule decode_value_quoted, rule decode_keys_quoted)

text \<open>After a \<open>PUT\<close>, whatever it answered, the value is live in L1 for the TTL.\<close>

lemma put_caches:
  assumes "l1_inv (m_l1 s)" and "rq_value r \<noteq> ''''" and "decode_value (rq_body_fails r) (rq_body r) = Some v"
    and "w_sent w = None" and "w_body w = []"
  shows "\<exists>s' w'. putCache g now r s w = Returned s' w' \<and>
    status_of w' = (if fst (Manager_Set g now (rq_value r) v s) = None then 201 else 500) \<and>
    l1_inv (m_l1 s') \<and> (\<forall>t \<le> now + c_ttl (m_l1 s). l1_live t (m_l1 s') (rq_value r) = Some v)"
proof -
  obtain err s' where set: "Manager_Set g now (rq_value r) v s = (err, s')" by (rule prod.exhaust)
  have l1: "m_l1 s' = L1_Set now (rq_value r) v (m_l1 s)"
    using set by (auto simp: Manager_Set_def Let_def split_beta)
  then have "l1_inv (m_l1 s')" and "\<forall>t \<le> now + c_ttl (m_l1 s). l1_live t (m_l1 s') (rq_value r) = Some v"
    using assms(1) by (simp_all add: L1_Set_inv l1_live_def L1_Set_entries_same)
  moreover have "\<exists>w'. putCache g now r s w = Returned s' w' \<and> status_of w' = (if err = None then 201 else 500)"
    using assms(2,3) by (cases err) (simp_all add: putCache_def set json_answers [OF assms(4,5)])
  ultimately show ?thesis by (auto simp: set)
qed

text \<open>\<open>PUT\<close>, then \<open>GET\<close>, through the JSON: the body \<open>{"value":...}\<close> with any string quoted in it, whatever
  follows the object, is stored, and the \<open>GET\<close> answers the string within the TTL, its invalid bytes
  replaced by U+FFFD, and this even when the \<open>PUT\<close> answered 500 because Redis refused the write.\<close>

theorem put_then_get:
  assumes "l1_inv (m_l1 s)" and "rq_value r \<noteq> ''''" and "rq_value r' = rq_value r" and "rq_body r = value_body v rest"
    and "t_l1 clk \<le> now + c_ttl (m_l1 s)"
  shows "\<exists>s' w' s'' w''. putCache g now r s new_writer = Returned s' w' \<and>
    status_of w' = (if fst (Manager_Set g now (rq_value r) (to_valid v) s) = None then 201 else 500) \<and>
    getCache g (clk, fl, orig) r' s' new_writer = Returned s'' w'' \<and>
    status_of w'' = 200 \<and> w_body w'' = to_valid v"
proof -
  from put_caches [OF assms(1,2) _ new_writer_sel(2,3), of "to_valid v" g now] assms(4,5)
  obtain s' w' where put: "putCache g now r s new_writer = Returned s' w'"
      "status_of w' = (if fst (Manager_Set g now (rq_value r) (to_valid v) s) = None then 201 else 500)"
      "l1_inv (m_l1 s')" "l1_live (t_l1 clk) (m_l1 s') (rq_value r) = Some (to_valid v)" by auto
  then have "getCache g (clk, fl, orig) r' s' new_writer =
      Returned (snd (Manager_Get g clk fl orig (rq_value r) s')) (write_body (to_valid v) (json_type new_writer))"
    using assms(2,3) by (simp add: getCache_def manager_get_def Get_L1_hit)
  with put show ?thesis by (auto simp: json_responses)
qed

definition demo_request :: "string \<Rightarrow> string \<Rightarrow> bytes \<Rightarrow> request" where
  "demo_request method value data = \<lparr>rq_method = method, rq_path = '''', rq_value = value, rq_content_type = '''',
     rq_body = data, rq_body_fails = False\<rparr>"

lemma demo_request_sel [simp]:
  "rq_method (demo_request m v d) = m" "rq_value (demo_request m v d) = v" "rq_body (demo_request m v d) = d"
  "rq_body_fails (demo_request m v d) = False"
  by (simp_all add: demo_request_def)

lemma to_valid_v: "to_valid ''v'' = ''v''"
  by (simp add: rune_len_def octet_def)

theorem put_then_get_witness:
  "\<exists>s' w' s'' w''. putCache broken_config 0 (demo_request ''PUT'' ''k'' (value_body ''v'' ''trailing'')) demo_manager new_writer = Returned s' w' \<and>
    status_of w' = 500 \<and>
    getCache broken_config (at_time 10, Runs False, \<lambda>k. FetchPanic) (demo_request ''GET'' ''k'' []) s' new_writer = Returned s'' w'' \<and>
    w_body w'' = ''v''"
proof -
  have "fst (Manager_Set broken_config 0 ''k'' ''v'' demo_manager) = Some ''io''"
    by (simp add: Manager_Set_def L2_Set_def broken_config_def)
  then show ?thesis
    using put_then_get [OF demo_inv, of "demo_request ''PUT'' ''k'' (value_body ''v'' ''trailing'')" "demo_request ''GET'' ''k'' []"
        "''v''" "''trailing''" "at_time 10" 0 broken_config "Runs False" "\<lambda>k. FetchPanic"]
    by (auto simp: demo_ttl to_valid_v simp del: to_valid.simps)
qed

lemma batch_loop_distinct:
  "fst (batch_loop g env i keys results s) = Some out \<Longrightarrow> distinct (m_keys results) \<Longrightarrow> distinct (m_keys out)"
  by (induction keys arbitrary: i results s) (auto split: prod.splits fetch_result.splits intro: wf_map_put)

lemma batch_loop_sorted:
  assumes "batch_loop g env 0 keys [] s = (Some results, s')"
  shows "sort (m_keys results) = sorted_list_of_set (set keys)"
proof -
  have "distinct (m_keys results)" "set (m_keys results) = set keys"
    using batch_loop_distinct [of g env 0 keys "[]" s results] batch_loop_keys [of g env 0 keys "[]" s results] assms by simp_all
  then show ?thesis using sorted_list_of_set_sort_remdups [of "m_keys results"] by (simp add: distinct_remdups_id)
qed

text \<open>The answer to a batch: when all the results are JSON (and not nested up to the limit), the body is
  JSON, an object with one member for each key asked, in the order of the keys, holding the result with
  its strings escaped for HTML (which does not change what they stand for, \<open>unquote_html\<close>).\<close>

theorem batch_response:
  assumes "rq_body r = keys_body ks rest" and "batch_loop g env 0 (map to_valid ks) [] s = (Some results, s')"
    and "\<forall>k\<in>set (map to_valid ks). \<exists>j. json_parse (the (map_of results k)) = Some j \<and> nesting j < max_nesting"
  shows "\<exists>w'. batchGet g env r s new_writer = Returned s' w' \<and> status_of w' = 200 \<and>
    json_parse (w_body w') = Some (JObject (map (result_json results) (sorted_list_of_set (to_valid ` set ks))))"
proof -
  have keys: "set (m_keys results) = set (map to_valid ks)"
    using batch_loop_keys [of g env 0 "map to_valid ks" "[]" s results] assms(2) by simp
  then obtain body where "encode_results results = Some body"
      "json_parse body = Some (JObject (map (result_json results) (sort (m_keys results))))"
    using encode_results_parse [of results] assms(3) by auto
  with batch_loop_sorted [OF assms(2)] assms(1,2) show ?thesis
    by (simp add: batchGet_def encoded_def json_responses)
qed

text \<open>One value that is not JSON empties a whole batch: the results cannot be encoded, the error is
  dropped, and the answer is 200 with the JSON content type and no body.\<close>

theorem batch_unencodable:
  assumes "rq_body r = keys_body ks rest" and "batch_loop g env 0 (map to_valid ks) [] s = (Some results, s')"
    and "k \<in> set (map to_valid ks)" and "json_parse (the (map_of results k)) = None"
  shows "\<exists>w'. batchGet g env r s new_writer = Returned s' w' \<and>
    response_of w' = (200, [(''Content-Type'', ''application/json'')], [])"
proof -
  have keys: "set (m_keys results) = set (map to_valid ks)"
    using batch_loop_keys [of g env 0 "map to_valid ks" "[]" s results] assms(2) by simp
  then have "encode_results results = None" unfolding encode_results_None using assms(3,4) by auto
  with assms(1,2) show ?thesis
    by (simp add: batchGet_def encoded_def response_of_def writer_simps header_set_def new_writer_def)
qed

lemma batch_loop_other:
  "fst (batch_loop g env i keys results s) = Some out \<Longrightarrow> k \<notin> set keys \<Longrightarrow> map_of out k = map_of results k"
  by (induction keys arbitrary: i results s) (auto simp: gomap_simps split: prod.splits fetch_result.splits)

text \<open>C25: a \<open>PUT\<close> can break a later batch.  The value of a \<open>PUT\<close> is stored as the plain text of the JSON string.
  When that text is not JSON itself, then a batch whose first key it is, not repeated and valid UTF-8, within the
  TTL and while the origin does not panic, answers 200 with the JSON content type and no body at all: the values
  of the other keys are lost with it.\<close>

theorem put_then_batch_empty:
  assumes "l1_inv (m_l1 s)" and "rq_value r \<noteq> ''''" and "rq_body r = value_body v rest" and "json_parse (to_valid v) = None"
    and "rq_body r' = keys_body (rq_value r # ks) rest'" and "to_valid (rq_value r) = rq_value r"
    and "rq_value r \<notin> to_valid ` set ks" and "t_l1 (fst (env 0)) \<le> now + c_ttl (m_l1 s)" and "\<forall>i. calm (env i)"
  shows "\<exists>s' w' s'' w''. putCache g now r s new_writer = Returned s' w' \<and>
    status_of w' = (if fst (Manager_Set g now (rq_value r) (to_valid v) s) = None then 201 else 500) \<and>
    batchGet g env r' s' new_writer = Returned s'' w'' \<and>
    response_of w'' = (200, [(''Content-Type'', ''application/json'')], [])"
proof -
  obtain clk fl orig where env: "env 0 = (clk, fl, orig)" by (cases "env 0") auto
  from put_caches [OF assms(1,2) _ new_writer_sel(2,3), of "to_valid v" g now] assms(3,8)
  obtain s' w' where put: "putCache g now r s new_writer = Returned s' w'" "l1_inv (m_l1 s')"
      "l1_live (t_l1 clk) (m_l1 s') (rq_value r) = Some (to_valid v)"
      "status_of w' = (if fst (Manager_Set g now (rq_value r) (to_valid v) s) = None then 201 else 500)" by (auto simp: env)
  let ?s1 = "snd (Manager_Get g clk fl orig (rq_value r) s')" and ?r1 = "[(rq_value r, to_valid v)]"
  have loop: "batch_loop g env 0 (map to_valid (rq_value r # ks)) [] s' = batch_loop g env 1 (map to_valid ks) ?r1 ?s1"
    using put(2,3) by (simp add: assms(6) manager_get_def env Get_L1_hit)
  obtain results s'' where run: "batch_loop g env 1 (map to_valid ks) ?r1 ?s1 = (Some results, s'')"
    using calm_batch_loop [OF assms(9), of g 1 "map to_valid ks" ?r1 ?s1]
    by (cases "batch_loop g env 1 (map to_valid ks) ?r1 ?s1") auto
  have "map_of results (rq_value r) = Some (to_valid v)"
    using batch_loop_other [of g env 1 "map to_valid ks" ?r1 ?s1 results "rq_value r"] run assms(7) by auto
  with batch_unencodable [OF assms(5), of g env s' results s'' "rq_value r"] run loop assms(4,6)
  obtain w'' where "batchGet g env r' s' new_writer = Returned s'' w''"
    "response_of w'' = (200, [(''Content-Type'', ''application/json'')], [])" by auto
  with put(1,4) show ?thesis by blast
qed

lemma hello_not_json: "json_parse ''hello'' = None" "to_valid ''hello'' = ''hello''" "to_valid ''k'' = ''k''" "to_valid ''a'' = ''a''"
  by code_simp+

theorem put_then_batch_empty_witness:
  "\<exists>s' w' s'' w''. putCache demo_config 0 (demo_request ''PUT'' ''k'' (value_body ''hello'' [])) demo_manager new_writer = Returned s' w' \<and>
    status_of w' = 201 \<and>
    batchGet demo_config (\<lambda>i. (at_time 5, Runs False, \<lambda>k. Fetched ''1'')) (demo_request ''POST'' [] (keys_body [''k'', ''a''] [])) s' new_writer =
      Returned s'' w'' \<and>
    response_of w'' = (200, [(''Content-Type'', ''application/json'')], [])"
proof -
  have "fst (Manager_Set demo_config 0 ''k'' ''hello'' demo_manager) = None"
    by (simp add: Manager_Set_def L2_Set_def demo_config_def map_redis_def)
  then show ?thesis
    using put_then_batch_empty [OF demo_inv, of "demo_request ''PUT'' ''k'' (value_body ''hello'' [])" "''hello''" "[]"
      "demo_request ''POST'' [] (keys_body [''k'', ''a''] [])" "[''a'']" "[]" "\<lambda>i. (at_time 5, Runs False, \<lambda>k. Fetched ''1'')" 0 demo_config]
    by (auto simp: demo_ttl hello_not_json calm_def simp del: to_valid.simps)
qed

text \<open>C26: the statistics are always JSON: \<open>GET /stats\<close> answers 200 with an indented object that has the size of
  L1, the three numbers of the Redis pool and, under \<open>metrics\<close>, the ten counters and the four rates of the
  snapshot, each under its name and in this order; in every state of the counters each rate has a text (none is
  infinite or NaN), and nothing changes.\<close>

theorem stats_are_json:
  "\<exists>w' r1 r2 lat r. getStats g rq s new_writer = Returned s w' \<and> status_of w' = 200 \<and>
    (let (pool_hits, pool_misses, conns) = rd_pool_stats (l2_client (g_l2 g)) (m_redis s); m = m_metrics s in
     json_parse (w_body w') = Some (JObject
       [(''l1_size'', json_int (int (L1_Stats (m_l1 s)))), (''l2_pool_hits'', json_int (int pool_hits)),
        (''l2_pool_misses'', json_int (int pool_misses)), (''l2_total_conns'', json_int (int conns)),
        (''metrics'', JObject
          [(''l1_hits'', json_int (sint (L1Hits m))), (''l1_misses'', json_int (sint (L1Misses m))),
           (''l1_hit_rate'', JNumber r1),
           (''l2_hits'', json_int (sint (L2Hits m))), (''l2_misses'', json_int (sint (L2Misses m))),
           (''l2_hit_rate'', JNumber r2),
           (''origin_calls'', json_int (sint (OriginCalls m))), (''origin_errors'', json_int (sint (OriginErrors m))),
           (''coalesced_calls'', json_int (sint (CoalescedCalls m))),
           (''total_requests'', json_int (sint (TotalRequests m))),
           (''avg_latency_us'', JNumber lat), (''overall_hit_rate'', JNumber r)])]) \<and>
     float_text (rate (L1Hits m) (L1Hits m + L1Misses m)) = Some r1 \<and>
     float_text (rate (L2Hits m) (L2Hits m + L2Misses m)) = Some r2 \<and>
     float_text (if 0 < sint (TotalRequests m) then f64_div (rate (TotalLatencyNs m) (TotalRequests m)) (f64_of_int 1000)
       else f64_zero False) = Some lat \<and>
     float_text (rate (L1Hits m + L2Hits m) (TotalRequests m)) = Some r)"
proof -
  obtain h mi conns where pool: "rd_pool_stats (l2_client (g_l2 g)) (m_redis s) = (h, mi, conns)" by (rule prod_cases3)
  have st: "st_metrics (Manager_Stats g s) = Snapshot (m_metrics s)" "st_l1_size (Manager_Stats g s) = L1_Stats (m_l1 s)"
    "st_pool_hits (Manager_Stats g s) = h" "st_pool_misses (Manager_Stats g s) = mi" "st_total_conns (Manager_Stats g s) = conns"
    by (simp_all add: Manager_Stats_def pool)
  from encode_stats_parse [OF st(1)] obtain body where "encode_stats (Manager_Stats g s) = Some body" by blast
  then have "getStats g rq s new_writer = Returned s (write_body body (json_type new_writer))"
    by (simp add: getStats_def encoded_def)
  with encode_stats_parse [OF st(1)] \<open>encode_stats (Manager_Stats g s) = Some body\<close> show ?thesis
    unfolding st pool snapshot_members_def Let_def prod.case
    by (intro exI [of _ "write_body body (json_type new_writer)"]) (simp only: json_responses option.inject, blast)
qed

text \<open>C27: Which bodies a \<open>PUT\<close> takes, and what it stores.  For every body: when its first JSON value is an object in which
  every member called \<open>value\<close>, up to the case, is a string or \<open>null\<close>, the \<open>PUT\<close> sets the key to the last of these
  strings (to the empty value when there is none, so \<open>{}\<close> is accepted) and answers 201, or 500 when Redis refused;
  \<open>null\<close> is taken like \<open>{}\<close>; what is set is valid UTF-8.  Every other body, and every request without a key, is answered 400 and
  changes nothing.\<close>

theorem put_checks_body:
  "\<exists>s' w'. putCache g now r s new_writer = Returned s' w' \<and>
    (if rq_value r = '''' then status_of w' = 400 \<and> s' = s
     else case (case read_value (rq_body_fails r) scan_init (rq_body r) of
                  Some (JObject ms) \<Rightarrow>
                    if list_all string_or_null (named ''value'' ms)
                    then Some (last ('''' # List.map_filter string_text (named ''value'' ms))) else None
                | Some JNull \<Rightarrow> Some ''''
                | _ \<Rightarrow> None) of
       None \<Rightarrow> status_of w' = 400 \<and> s' = s
     | Some v \<Rightarrow> to_valid v = v \<and> s' = snd (Manager_Set g now (rq_value r) v s) \<and>
         status_of w' = (if fst (Manager_Set g now (rq_value r) v s) = None then 201 else 500))"
proof -
  let ?v = "case read_value (rq_body_fails r) scan_init (rq_body r) of
      Some (JObject ms) \<Rightarrow>
        if list_all string_or_null (named ''value'' ms)
        then Some (last ('''' # List.map_filter string_text (named ''value'' ms))) else None
    | Some JNull \<Rightarrow> Some '''' | _ \<Rightarrow> None"
  have v: "decode_value (rq_body_fails r) (rq_body r) = ?v"
    by (simp add: decode_value_def decode_struct_def store_fields_named split: option.split json.split)
  have refused: "status_of (http_error msg 400 new_writer) = 400" for msg by (simp add: http_error_fresh writer_simps)
  show ?thesis
  proof (cases "rq_value r = ''''")
    case True
    then show ?thesis by (simp add: putCache_def key_required_def refused)
  next
    case False
    show ?thesis
    proof (cases ?v)
      case None
      then have d: "decode_value (rq_body_fails r) (rq_body r) = None" by (simp only: v)
      with False show ?thesis unfolding None by (simp add: putCache_def refused)
    next
      case (Some u)
      then have d: "decode_value (rq_body_fails r) (rq_body r) = Some u" by (simp only: v)
      then have "to_valid u = u" using decoded_utf8 [of "rq_body_fails r" "rq_body r"] by simp
      with False show ?thesis unfolding Some
        by (cases "Manager_Set g now (rq_value r) u s"; cases "fst (Manager_Set g now (rq_value r) u s)")
          (simp_all add: putCache_def d json_responses)
    qed
  qed
qed

text \<open>A panicking origin answers 500.  Through the middleware, a \<open>GET\<close> that misses both layers while
  the origin panics returns 500, caches nothing and is still counted as a request.\<close>

theorem panicking_origin:
  assumes "l1_inv (m_l1 s)" and "rq_value r \<noteq> ''''" and "rq_method r = ''GET''"
    and "l1_live (t_l1 clk) (m_l1 s) (rq_value r) = None"
    and "rd_get (l2_client (g_l2 g)) (rq_value r) (m_redis s) = (Inl RedisNil, r')"
    and "runs_fetch g fl" and "orig (rq_value r) = FetchPanic"
  shows "\<exists>s' w'. http_stack (getCache g (clk, fl, orig)) r s new_writer = Returned s' w' \<and> status_of w' = 500 \<and>
    m_pending s' = m_pending s \<and> TotalRequests (m_metrics s') = TotalRequests (m_metrics s) + 1"
proof -
  note F = fetchFromOrigin_runs [OF assms(6) [unfolded runs_fetch_def]]
  have "\<exists>s'. Manager_Get g clk fl orig (rq_value r) s = (FetchPanic, s') \<and> m_pending s' = m_pending s \<and>
      TotalRequests (m_metrics s') = TotalRequests (m_metrics s) + 1"
    unfolding Get_origin [OF assms(1,4,5)]
    by (simp add: split_beta F origin_result_def assms(7) RecordLatency_def fetchFromOrigin_counters inc_defs)
  then show ?thesis
    using assms(2,3)
    by (auto simp: http_stack_def LoggingMiddleware_def CORSMiddleware_def RecoveryMiddleware_def Let_def
        getCache_def manager_get_def http_error_fresh writer_simps)
qed

theorem panicking_origin_witness:
  "\<exists>s' w'. http_stack (getCache demo_config (at_time 0, Runs False, Fetch 1 2 3 None (NewSimulated 3)))
      \<lparr>rq_method = ''GET'', rq_path = '''', rq_value = ''k'', rq_content_type = '''', rq_body = '''', rq_body_fails = False\<rparr>
      demo_manager new_writer = Returned s' w' \<and> status_of w' = 500"
proof -
  let ?q = "\<lparr>rq_method = ''GET'', rq_path = '''', rq_value = ''k'', rq_content_type = '''', rq_body = '''', rq_body_fails = False\<rparr>"
  have "Fetch 1 2 3 None (NewSimulated 3) ''k'' = FetchPanic"
    by (simp add: Fetch_def fetch_delay_def Int63n_def NewSimulated_def signed_divide_int_def)
  then show ?thesis
    using panicking_origin [OF demo_inv, of ?q "at_time 0" demo_config Map.empty "Runs False" "Fetch 1 2 3 None (NewSimulated 3)"]
    by (auto simp: demo_live demo_redis demo_runs)
qed

end
