(* ===== verification/Config.thy ===== *)
theory Config
  imports Float64
begin

text \<open>
  \<open>internal/config/config.go\<close>: the configuration from the environment, with the parsers of the
  standard library it rests on (\<open>strconv.Atoi\<close>, \<open>strconv.ParseBool\<close>, \<open>time.ParseDuration\<close>).  The
  environment is a function to strings, an unset variable reading as the empty string.  A variable
  that does not parse is ignored.  The comma split of \<open>envSlice\<close> works on bytes, which is the Go code's
  loop over runes for a value that is valid UTF-8.
\<close>

section \<open>Integers and booleans\<close>

type_synonym environment = "string \<Rightarrow> string"

definition is_digit :: "char \<Rightarrow> bool" where
  "is_digit c \<longleftrightarrow> 48 \<le> (of_char c :: nat) \<and> (of_char c :: nat) \<le> 57"

definition digit_val :: "char \<Rightarrow> nat" where
  "digit_val c = of_char c - 48"

text \<open>An optional sign: whether it is a minus, and the rest.\<close>

fun take_sign :: "string \<Rightarrow> bool \<times> string" where
  "take_sign [] = (False, [])"
| "take_sign (c # s) =
     (if c = CHR ''-'' then (True, s) else if c = CHR ''+'' then (False, s) else (False, c # s))"

definition Atoi :: "string \<Rightarrow> int option" where
  "Atoi s =
     (let (neg, ds) = take_sign s in
      if ds = [] \<or> \<not> list_all is_digit ds then None
      else let n = int (read_digits 0 ds); v = (if neg then - n else n)
           in if - (2 ^ 63) \<le> v \<and> v < 2 ^ 63 then Some v else None)"

definition ParseBool :: "string \<Rightarrow> bool option" where
  "ParseBool s =
     (if s \<in> set [''1'', ''t'', ''T'', ''true'', ''TRUE'', ''True''] then Some True
      else if s \<in> set [''0'', ''f'', ''F'', ''false'', ''FALSE'', ''False''] then Some False
      else None)"

section \<open>Durations\<close>

text \<open>Digits into an unsigned number; \<open>None\<close> when it passes \<open>2^63\<close>.\<close>

fun leadingInt :: "nat \<Rightarrow> string \<Rightarrow> (nat \<times> string) option" where
  "leadingInt x [] = Some (x, [])"
| "leadingInt x (c # s) =
     (if \<not> is_digit c then Some (x, c # s)
      else if 2 ^ 63 div 10 < x then None
      else let x' = x * 10 + digit_val c in if 2 ^ 63 < x' then None else leadingInt x' s)"

text \<open>The digits after the point, with the power of ten they are over; once they overflow, the rest is
  skipped.\<close>

fun leadingFraction :: "nat \<Rightarrow> float64 \<Rightarrow> bool \<Rightarrow> string \<Rightarrow> nat \<times> float64 \<times> string" where
  "leadingFraction x scale overflow [] = (x, scale, [])"
| "leadingFraction x scale overflow (c # s) =
     (if \<not> is_digit c then (x, scale, c # s)
      else if overflow \<or> (2 ^ 63 - 1) div 10 < x then leadingFraction x scale True s
      else let y = x * 10 + digit_val c
           in if 2 ^ 63 < y then leadingFraction x scale True s
              else leadingFraction y (f64_mul scale (f64_of_int 10)) False s)"

definition unit_map :: "(string \<times> nat) list" where
  "unit_map =
     [(''ns'', 1), (''us'', 1000), ([CHR 0xC2, CHR 0xB5, CHR ''s''], 1000), ([CHR 0xCE, CHR 0xBC, CHR ''s''], 1000),
      (''ms'', 1000000), (''s'', 1000000000), (''m'', 60000000000), (''h'', 3600000000000)]"

text \<open>\<open>uint64\<close> of a float that is not negative and below \<open>2^64\<close>.\<close>

fun f64_trunc :: "float64 \<Rightarrow> nat" where
  "f64_trunc (Fin False m e) = (if 0 \<le> e then m * 2 ^ nat e else m div 2 ^ nat (- e))"
| "f64_trunc _ = 0"

definition is_unit_char :: "char \<Rightarrow> bool" where
  "is_unit_char c \<longleftrightarrow> c \<noteq> CHR ''.'' \<and> \<not> is_digit c"

text \<open>The point and the digits after it: the fraction, its scale, the rest, and whether there was a digit.\<close>

definition fraction_part :: "string \<Rightarrow> nat \<times> float64 \<times> string \<times> bool" where
  "fraction_part s =
     (case s of
        [] \<Rightarrow> (0, f64_of_int 1, [], False)
      | c # s' \<Rightarrow>
          if c = CHR ''.''
          then let (f, scale, rest) = leadingFraction 0 (f64_of_int 1) False s'
               in (f, scale, rest, length rest \<noteq> length s')
          else (0, f64_of_int 1, s, False))"

text \<open>The unit after a number \<open>v + f / scale\<close>: the nanoseconds of the part, and what is left.\<close>

definition unit_part :: "nat \<Rightarrow> nat \<Rightarrow> float64 \<Rightarrow> string \<Rightarrow> (nat \<times> string) option" where
  "unit_part v f scale s =
     (let u = takeWhile is_unit_char s; rest = dropWhile is_unit_char s in
      if u = [] then None
      else case map_of unit_map u of
        None \<Rightarrow> None
      | Some unit \<Rightarrow>
          if 2 ^ 63 div unit < v then None
          else let v1 = v * unit;
                   v2 = (if 0 < f then v1 + f64_trunc (f64_mul (f64_of_int (int f)) (f64_div (f64_of_int (int unit)) scale))
                         else v1)
               in if 0 < f \<and> 2 ^ 63 < v2 then None else Some (v2, rest))"

definition duration_part :: "string \<Rightarrow> (nat \<times> string) option" where
  "duration_part s =
     (if \<not> (hd s = CHR ''.'' \<or> is_digit (hd s)) then None
      else case leadingInt 0 s of
        None \<Rightarrow> None
      | Some (v, s1) \<Rightarrow>
          (let (f, scale, s2, post) = fraction_part s1
           in if length s1 = length s \<and> \<not> post then None else unit_part v f scale s2))"

lemma leadingInt_length: "leadingInt x s = Some (y, t) \<Longrightarrow> length t \<le> length s"
  by (induction x s rule: leadingInt.induct) (auto simp: Let_def split: if_splits)

lemma leadingFraction_length: "leadingFraction x sc ov s = (y, sc', t) \<Longrightarrow> length t \<le> length s"
  by (induction x sc ov s rule: leadingFraction.induct) (auto simp: Let_def split: if_splits)

lemma unit_part_length: "unit_part v f sc s = Some (d, t) \<Longrightarrow> length t < length s"
proof -
  assume u: "unit_part v f sc s = Some (d, t)"
  then have "takeWhile is_unit_char s \<noteq> []" and "t = dropWhile is_unit_char s"
    by (auto simp: unit_part_def Let_def split: if_splits option.splits)
  then show ?thesis
    by (metis add.commute add_less_cancel_left append_Nil2 length_append length_greater_0_conv less_add_same_cancel1 takeWhile_dropWhile_id)
qed

lemma fraction_part_length: "fraction_part s = (f, sc, t, p) \<Longrightarrow> length t \<le> length s"
  by (auto simp: fraction_part_def split: list.splits if_splits prod.splits dest: leadingFraction_length)

lemma duration_part_length: "duration_part s = Some (d, t) \<Longrightarrow> length t < length s"
  by (auto simp: duration_part_def Let_def split: if_splits option.splits prod.splits
      dest!: leadingInt_length fraction_part_length unit_part_length)

text \<open>The sum of the parts on \<open>uint64\<close>.\<close>

function duration_parts :: "nat \<Rightarrow> string \<Rightarrow> nat option" where
  "duration_parts d s =
     (if s = [] then Some d
      else case duration_part s of
        None \<Rightarrow> None
      | Some (v, rest) \<Rightarrow>
          (let d' = (d + v) mod 2 ^ 64 in if 2 ^ 63 < d' then None else duration_parts d' rest))"
  by pat_completeness auto
termination
  by (relation "measure (\<lambda>(d, s). length s)") (auto dest: duration_part_length)

declare duration_parts.simps [simp del]

definition ParseDuration :: "string \<Rightarrow> duration option" where
  "ParseDuration s0 =
     (let (neg, s) = take_sign s0 in
      if s = ''0'' then Some 0
      else if s = [] then None
      else case duration_parts 0 s of
        None \<Rightarrow> None
      | Some d \<Rightarrow> if neg then Some (- int d) else if 2 ^ 63 \<le> d then None else Some (int d))"

section \<open>The environment\<close>

definition envStr :: "environment \<Rightarrow> string \<Rightarrow> string \<Rightarrow> string" where
  "envStr env key fallback = (if env key \<noteq> '''' then env key else fallback)"

definition parsed :: "(string \<Rightarrow> 'a option) \<Rightarrow> environment \<Rightarrow> string \<Rightarrow> 'a \<Rightarrow> 'a" where
  "parsed parse env key fallback =
     (if env key \<noteq> '''' then (case parse (env key) of Some v \<Rightarrow> v | None \<Rightarrow> fallback) else fallback)"

definition envInt :: "environment \<Rightarrow> string \<Rightarrow> int \<Rightarrow> int" where
  "envInt = parsed Atoi"

definition envBool :: "environment \<Rightarrow> string \<Rightarrow> bool \<Rightarrow> bool" where
  "envBool = parsed ParseBool"

definition envDuration :: "environment \<Rightarrow> string \<Rightarrow> duration \<Rightarrow> duration" where
  "envDuration = parsed ParseDuration"

fun split_commas :: "string list \<Rightarrow> string \<Rightarrow> string \<Rightarrow> string list" where
  "split_commas result current [] = (if current \<noteq> '''' then result @ [current] else result)"
| "split_commas result current (c # s) =
     (if c = CHR '',''
      then split_commas (if current \<noteq> '''' then result @ [current] else result) '''' s
      else split_commas result (current @ [c]) s)"

definition envSlice :: "environment \<Rightarrow> string \<Rightarrow> string list \<Rightarrow> string list" where
  "envSlice env key fallback =
     (if env key \<noteq> ''''
      then let result = split_commas [] '''' (env key) in if 0 < length result then result else fallback
      else fallback)"

record config =
  ServerAddr :: string
  ServerPort :: int
  GRPCPort :: int
  L1MaxSize :: int
  L1TTL :: duration
  RedisAddrs :: "string list"
  RedisPassword :: string
  RedisPoolSize :: int
  L2TTL :: duration
  OriginLatency :: duration
  MinioEndpoint :: string
  MinioBucket :: string
  MinioAccessKey :: string
  MinioSecretKey :: string
  EnableSingleflight :: bool

definition Load :: "environment \<Rightarrow> config" where
  "Load env =
     \<lparr>ServerAddr = envStr env ''SERVER_ADDR'' ''0.0.0.0'',
      ServerPort = envInt env ''SERVER_PORT'' 8080,
      GRPCPort = envInt env ''GRPC_PORT'' 9090,
      L1MaxSize = envInt env ''L1_MAX_SIZE'' 50000,
      L1TTL = envDuration env ''L1_TTL'' (10 * 1000000000),
      RedisAddrs = envSlice env ''REDIS_ADDRS'' [''localhost:6379''],
      RedisPassword = envStr env ''REDIS_PASSWORD'' '''',
      RedisPoolSize = envInt env ''REDIS_POOL_SIZE'' 500,
      L2TTL = envDuration env ''L2_TTL'' (5 * 60000000000),
      OriginLatency = envDuration env ''ORIGIN_LATENCY'' (10 * 1000000),
      MinioEndpoint = envStr env ''MINIO_ENDPOINT'' ''minio:9000'',
      MinioBucket = envStr env ''MINIO_BUCKET'' ''assets'',
      MinioAccessKey = envStr env ''MINIO_ACCESS_KEY'' ''minioadmin'',
      MinioSecretKey = envStr env ''MINIO_SECRET_KEY'' ''minioadmin'',
      EnableSingleflight = envBool env ''ENABLE_SINGLEFLIGHT'' True\<rparr>"

section \<open>Lemmas\<close>

lemma is_digit_digit_char: "d < 10 \<Longrightarrow> is_digit (digit_char d) \<and> digit_val (digit_char d) = d"
  by (simp add: is_digit_def digit_val_def of_char_digit)

lemma show_nat_all_digits: "list_all is_digit (show_nat n)"
  using show_nat_digits by (fastforce simp: list_all_iff is_digit_def)

lemma show_nat_hd: "is_digit (hd (show_nat n))"
  using show_nat_all_digits [of n] show_nat_nonempty [of n] by (cases "show_nat n") auto

lemma take_sign_digit: "s \<noteq> [] \<Longrightarrow> is_digit (hd s) \<Longrightarrow> take_sign (s @ t) = (False, s @ t)"
  by (cases s) (auto simp: is_digit_def)

lemma Atoi_show_int:
  assumes "- (2 ^ 63) \<le> n" and "n < 2 ^ 63"
  shows "Atoi (show_int n) = Some n"
proof (cases "n < 0")
  case True
  then show ?thesis
    using assms by (simp add: Atoi_def show_int_def show_nat_nonempty show_nat_all_digits read_show_nat)
next
  case False
  then have "take_sign (show_nat (nat n)) = (False, show_nat (nat n))"
    using take_sign_digit [OF show_nat_nonempty show_nat_hd, of "nat n" "[]"] by simp
  with False show ?thesis
    using assms by (simp add: Atoi_def show_int_def show_nat_nonempty show_nat_all_digits read_show_nat)
qed

text \<open>Reading a numeral back, with the bound check never firing below \<open>2^63\<close>.\<close>

lemma leadingInt_digits:
  "list_all is_digit ds \<Longrightarrow> read_digits x ds \<le> 2 ^ 63 \<Longrightarrow> t = [] \<or> \<not> is_digit (hd t) \<Longrightarrow>
   leadingInt x (ds @ t) = Some (read_digits x ds, t)"
proof (induction ds arbitrary: x)
  case Nil
  then show ?case by (cases t) auto
next
  case (Cons c ds)
  have mono: "x \<le> read_digits x ds" for x :: nat and ds
  proof (induction ds arbitrary: x)
    case (Cons d ds)
    have "x \<le> 10 * x + (of_char d - 48)" by simp
    also have "\<dots> \<le> read_digits (10 * x + (of_char d - 48)) ds" by (rule Cons.IH)
    finally show ?case by simp
  qed simp
  have "10 * x + (of_char c - 48) \<le> 2 ^ 63"
    using Cons.prems(2) mono [of "10 * x + (of_char c - 48)" ds] by simp
  with Cons show ?case by (simp add: digit_val_def mult.commute)
qed

lemma split_commas_elems:
  "(\<forall>x \<in> set res. x \<noteq> '''' \<and> CHR '','' \<notin> set x) \<Longrightarrow> CHR '','' \<notin> set cur \<Longrightarrow>
   x \<in> set (split_commas res cur s) \<Longrightarrow> x \<noteq> '''' \<and> CHR '','' \<notin> set x"
proof (induction s arbitrary: res cur)
  case Nil
  then show ?case by (auto split: if_splits)
next
  case (Cons c s)
  show ?case
  proof (cases "c = CHR '',''")
    case True
    let ?res = "if cur \<noteq> '''' then res @ [cur] else res"
    have res: "\<forall>x \<in> set ?res. x \<noteq> '''' \<and> CHR '','' \<notin> set x" using Cons.prems(1,2) by simp
    have "x \<in> set (split_commas ?res '''' s)" using Cons.prems(3) True by simp
    then show ?thesis by (rule Cons.IH [OF res, rotated]) simp
  next
    case False
    then have "x \<in> set (split_commas res (cur @ [c]) s)" and "CHR '','' \<notin> set (cur @ [c])"
      using Cons.prems(2,3) by simp_all
    then show ?thesis by (rule Cons.IH [OF Cons.prems(1), rotated])
  qed
qed

lemma split_commas_item:
  "CHR '','' \<notin> set x \<Longrightarrow> split_commas res cur (x @ t) = split_commas res (cur @ x) t"
  by (induction x arbitrary: cur) auto

fun comma_join :: "string list \<Rightarrow> string" where
  "comma_join [] = ''''"
| "comma_join [x] = x"
| "comma_join (x # y # ys) = x @ '','' @ comma_join (y # ys)"

lemma split_commas_join:
  "\<forall>x \<in> set xs. x \<noteq> '''' \<and> CHR '','' \<notin> set x \<Longrightarrow> split_commas res '''' (comma_join xs) = res @ xs"
proof (induction xs arbitrary: res rule: comma_join.induct)
  case (2 x)
  then show ?case using split_commas_item [of x res "''''" "''''"] by simp
next
  case (3 x y ys)
  then show ?case by (simp add: split_commas_item)
qed simp

section \<open>Properties\<close>

text \<open>The defaults: with no variable set, these are the values; \<open>README.md\<close> gives 100000, 30s, 10m and
  \<open>redis:6379\<close> for the L1 size, the two TTLs and the Redis address.\<close>

theorem Load_defaults:
  "Load (\<lambda>_. '''') =
     \<lparr>ServerAddr = ''0.0.0.0'', ServerPort = 8080, GRPCPort = 9090, L1MaxSize = 50000, L1TTL = 10000000000,
      RedisAddrs = [''localhost:6379''], RedisPassword = '''', RedisPoolSize = 500, L2TTL = 300000000000,
      OriginLatency = 10000000, MinioEndpoint = ''minio:9000'', MinioBucket = ''assets'',
      MinioAccessKey = ''minioadmin'', MinioSecretKey = ''minioadmin'', EnableSingleflight = True\<rparr>"
  by (simp add: Load_def envStr_def envInt_def envBool_def envDuration_def parsed_def envSlice_def)

text \<open>An integer variable printed in decimal is read back, over the whole range of \<open>int64\<close>.\<close>

theorem envInt_roundtrip:
  assumes "- (2 ^ 63) \<le> n" and "n < 2 ^ 63" and "env key = show_int n"
  shows "envInt env key fallback = n"
proof -
  have "show_int n \<noteq> ''''" by (simp add: show_int_def show_nat_nonempty)
  with assms show ?thesis by (simp add: envInt_def parsed_def Atoi_show_int)
qed

theorem envInt_roundtrip_witness: "envInt (\<lambda>_. show_int (- 42)) ''GRPC_PORT'' 9090 = - 42"
  by (rule envInt_roundtrip) simp_all

text \<open>A duration in whole seconds is read back: \<open>ParseDuration\<close> of the numeral and \<open>s\<close> is that many
  seconds, as long as the nanoseconds fit in \<open>int64\<close>.\<close>

theorem ParseDuration_seconds:
  assumes "n * 1000000000 < 2 ^ 63"
  shows "ParseDuration (show_nat n @ ''s'') = Some (int n * 1000000000)"
proof -
  let ?s = "show_nat n @ ''s''"
  have lead: "leadingInt 0 ?s = Some (n, ''s'')"
    using leadingInt_digits [OF show_nat_all_digits, of 0 n "''s''"] assms
    by (simp add: read_show_nat is_digit_def)
  have ne: "?s \<noteq> []" "hd ?s = hd (show_nat n)" using show_nat_nonempty [of n] by simp_all
  have unit: "unit_part n 0 (f64_of_int 1) ''s'' = Some (n * 1000000000, [])"
    using assms by (simp add: unit_part_def is_unit_char_def is_digit_def unit_map_def Let_def)
  have part: "duration_part ?s = Some (n * 1000000000, [])"
    using show_nat_hd [of n] show_nat_nonempty [of n]
    by (simp add: duration_part_def lead ne(2) fraction_part_def unit)
  have sign: "take_sign ?s = (False, ?s)" by (rule take_sign_digit [OF show_nat_nonempty show_nat_hd])
  have zero: "?s \<noteq> ''0''" using show_nat_nonempty [of n] by (cases "show_nat n") auto
  have "duration_parts 0 ?s = Some (n * 1000000000)"
    using assms ne(1) by (simp add: duration_parts.simps [of 0 ?s] duration_parts.simps [of _ "[]"] part)
  then show ?thesis using sign zero assms by (simp add: ParseDuration_def)
qed

theorem ParseDuration_seconds_witness: "ParseDuration ''30s'' = Some 30000000000"
proof -
  have "show_nat 30 = ''30''" by code_simp
  then show ?thesis using ParseDuration_seconds [of 30] by simp
qed

text \<open>There is always a Redis address: for every environment the list is not empty, so \<open>NewL2\<close> can
  take its first element; and no address of a set variable is empty or holds a comma.\<close>

theorem RedisAddrs_nonempty:
  "RedisAddrs (Load env) \<noteq> [] \<and>
   (\<forall>x \<in> set (RedisAddrs (Load env)). x \<noteq> '''' \<and> CHR '','' \<notin> set x)"
proof -
  have "x \<noteq> '''' \<and> CHR '','' \<notin> set x" if "x \<in> set (split_commas [] '''' (env ''REDIS_ADDRS''))" for x
    using split_commas_elems [of "[]" "''''" x] that by simp
  then show ?thesis by (auto simp: Load_def envSlice_def Let_def)
qed

text \<open>A list of addresses joined with commas is read back, in order.\<close>

theorem envSlice_roundtrip:
  assumes "xs \<noteq> []" and "\<forall>x \<in> set xs. x \<noteq> '''' \<and> CHR '','' \<notin> set x" and "env key = comma_join xs"
  shows "envSlice env key fallback = xs"
proof -
  have "comma_join xs \<noteq> ''''" using assms(1,2) by (cases xs rule: comma_join.cases) auto
  with assms split_commas_join [OF assms(2), of "[]"] show ?thesis by (simp add: envSlice_def)
qed

theorem envSlice_roundtrip_witness:
  "envSlice (\<lambda>_. ''r1:6379,r2:6379'') ''REDIS_ADDRS'' [] = [''r1:6379'', ''r2:6379'']"
  by (rule envSlice_roundtrip) simp_all

end

