(* ===== verification/Router.thy ===== *)
theory Router
  imports Binary_Handler Cache_Handler Config
begin

text \<open>
  The routes \<open>RegisterRoutes\<close> of \<open>internal/handler/handler.go\<close> and of \<open>internal/binaryhandler/handler.go\<close> put
  on the \<open>http.ServeMux\<close> of \<open>main\<close>, and how that mux (Go 1.22) finds the route of a request: it cleans the
  path, matches segment by segment with literals before wildcards, redirects to the cleaned path, and
  tells a wrong method from an unknown path.  The patterns have no host and no \<open>{$}\<close>; the path of a
  request is \<open>EscapedPath\<close>, which is the path as the client sent it, and the method is not \<open>CONNECT\<close>.  Cutting the
  query off the target of the request, and refusing a target with an invalid escape, is done by \<open>net/http\<close> before
  the mux and is not modelled here (\<open>url_target\<close> of \<open>Asset_Routes\<close> is the client's side of it).
\<close>

section \<open>Paths\<close>

text \<open>\<open>url.PathUnescape\<close>; the mux keeps a segment that cannot be unescaped as it is.\<close>

fun percent_decode :: "string \<Rightarrow> string option" where
  "percent_decode [] = Some []"
| "percent_decode (c # cs) =
     (if c = CHR ''%''
      then (case cs of
              a # b # rest \<Rightarrow>
                (case (hex_val a, hex_val b) of
                   (Some x, Some y) \<Rightarrow> map_option ((#) (char_of (x * 16 + y))) (percent_decode rest)
                 | _ \<Rightarrow> None)
            | _ \<Rightarrow> None)
      else map_option ((#) c) (percent_decode cs))"

definition path_unescape :: "string \<Rightarrow> string" where
  "path_unescape s = (case percent_decode s of None \<Rightarrow> s | Some t \<Rightarrow> t)"

text \<open>\<open>cleanPath\<close>: the segments without the empty ones and \<open>.\<close>, with \<open>..\<close> resolved, and the trailing slash
  put back.\<close>

fun split_slashes :: "string \<Rightarrow> string list" where
  "split_slashes [] = [[]]"
| "split_slashes (c # cs) =
     (if c = CHR ''/'' then [] # split_slashes cs
      else (case split_slashes cs of [] \<Rightarrow> [[c]] | s # ss \<Rightarrow> (c # s) # ss))"

definition clean_step :: "string list \<Rightarrow> string \<Rightarrow> string list" where
  "clean_step done seg =
     (if seg = [] \<or> seg = ''.'' then done
      else if seg = ''..'' then butlast done
      else done @ [seg])"

definition clean_segments :: "string \<Rightarrow> string list" where
  "clean_segments p = foldl clean_step [] (split_slashes p)"

definition cleanPath :: "string \<Rightarrow> string" where
  "cleanPath p =
     (let np = concat (map (\<lambda>s. CHR ''/'' # s) (clean_segments p))
      in if np = [] then ''/'' else if p \<noteq> [] \<and> last p = CHR ''/'' then np @ ''/'' else np)"

text \<open>\<open>firstSegment\<close> of a path that begins with a slash.\<close>

definition first_segment :: "string \<Rightarrow> string \<times> string" where
  "first_segment path =
     (if path = ''/'' then (''/'', [])
      else let p = tl path in (path_unescape (takeWhile (\<lambda>c. c \<noteq> CHR ''/'') p), dropWhile (\<lambda>c. c \<noteq> CHR ''/'') p))"

section \<open>Patterns and matching\<close>

datatype segment = Lit string | Wild | Multi

datatype route =
  GetCache | PutCache | DeleteCache | GetStats | Health | BatchGet
| Upload | ServeAsset | GetMeta | DeleteAsset | ListAssets

type_synonym pattern = "segment list \<times> route"

text \<open>A set of patterns with the segments that are left to match, as one node of the routing tree.\<close>

definition literal_child :: "string \<Rightarrow> pattern list \<Rightarrow> pattern list" where
  "literal_child seg ps = List.map_filter (\<lambda>(ss, r). case ss of Lit l # ss' \<Rightarrow> if l = seg then Some (ss', r) else None | _ \<Rightarrow> None) ps"

definition wild_child :: "pattern list \<Rightarrow> pattern list" where
  "wild_child ps = List.map_filter (\<lambda>(ss, r). case ss of Wild # ss' \<Rightarrow> Some (ss', r) | _ \<Rightarrow> None) ps"

definition multi_child :: "pattern list \<Rightarrow> route option" where
  "multi_child ps = (case List.map_filter (\<lambda>(ss, r). if ss = [Multi] then Some r else None) ps of [] \<Rightarrow> None | r # _ \<Rightarrow> Some r)"

definition leaf :: "pattern list \<Rightarrow> route option" where
  "leaf ps = (case List.map_filter (\<lambda>(ss, r). if ss = [] then Some r else None) ps of [] \<Rightarrow> None | r # _ \<Rightarrow> Some r)"

text \<open>\<open>matchPath\<close>: the route and the values of its wildcards.\<close>

lemma first_segment_shorter [termination_simp]: "path \<noteq> [] \<Longrightarrow> length (snd (first_segment path)) < length path"
  using length_dropWhile_le [of "\<lambda>c. c \<noteq> CHR ''/''" "tl path"]
  by (cases path) (auto simp: first_segment_def Let_def)

function match_path :: "pattern list \<Rightarrow> string \<Rightarrow> string list \<Rightarrow> (route \<times> string list) option" where
  "match_path ps path vals =
     (if path = [] then map_option (\<lambda>r. (r, vals)) (leaf ps)
      else let seg = fst (first_segment path); rest = snd (first_segment path) in
        case match_path (literal_child seg ps) rest vals of
          Some found \<Rightarrow> Some found
        | None \<Rightarrow>
            (case (if seg \<noteq> ''/'' then match_path (wild_child ps) rest (vals @ [seg]) else None) of
               Some found \<Rightarrow> Some found
             | None \<Rightarrow> map_option (\<lambda>r. (r, vals @ [path_unescape (tl path)])) (multi_child ps)))"
  by auto
termination
  by (relation "measure (\<lambda>(ps, path, vals). length path)") (simp_all add: first_segment_shorter)

declare match_path.simps [simp del]

section \<open>The routes of the server\<close>

definition cache_route_table :: "(string \<times> pattern) list" where
  "cache_route_table =
     [(''GET'', [Lit ''cache'', Wild], GetCache), (''PUT'', [Lit ''cache'', Wild], PutCache),
      (''DELETE'', [Lit ''cache'', Wild], DeleteCache), (''GET'', [Lit ''stats''], GetStats),
      (''GET'', [Lit ''health''], Health), (''POST'', [Lit ''cache'', Lit ''batch''], BatchGet)]"

definition asset_route_table :: "(string \<times> pattern) list" where
  "asset_route_table =
     [(''POST'', [Lit ''upload'', Multi], Upload), (''GET'', [Lit ''assets'', Multi], ServeAsset),
      (''GET'', [Lit ''meta'', Multi], GetMeta), (''DELETE'', [Lit ''upload'', Multi], DeleteAsset),
      (''GET'', [Lit ''list-assets''], ListAssets)]"

definition route_table :: "(string \<times> pattern) list" where
  "route_table = cache_route_table @ asset_route_table"

lemmas route_table_entries = route_table_def [unfolded cache_route_table_def asset_route_table_def append.simps]

definition patterns_of :: "string \<Rightarrow> pattern list" where
  "patterns_of method = map snd (filter (\<lambda>e. fst e = method) route_table)"

text \<open>\<open>matchMethodAndPath\<close>: \<open>GET\<close> patterns match \<open>HEAD\<close> too.\<close>

definition match_method :: "string \<Rightarrow> string \<Rightarrow> (route \<times> string list) option" where
  "match_method method path =
     (case match_path (patterns_of method) path [] of
        Some found \<Rightarrow> Some found
      | None \<Rightarrow> if method = ''HEAD'' then match_path (patterns_of ''GET'') path [] else None)"

text \<open>\<open>exactMatch\<close>: all matches, except those where a multi wildcard takes something.\<close>

definition multi_routes :: "route list" where
  "multi_routes = [Upload, ServeAsset, GetMeta, DeleteAsset]"

definition exact_match :: "route option \<Rightarrow> string \<Rightarrow> bool" where
  "exact_match found path =
     (case found of
        None \<Rightarrow> False
      | Some r \<Rightarrow> r \<notin> set multi_routes \<or> path \<noteq> [] \<and> last path = CHR ''/'' \<and> count_list path (CHR ''/'') = 2)"

definition methods_for :: "string \<Rightarrow> string list" where
  "methods_for path =
     filter (\<lambda>m. \<exists>m'\<in>{m, if m = ''HEAD'' then ''GET'' else m}.
         match_path (patterns_of m') path [] \<noteq> None \<or>
         last path \<noteq> CHR ''/'' \<and> match_path (patterns_of m') (path @ ''/'') [] \<noteq> None)
       [''DELETE'', ''GET'', ''HEAD'', ''POST'', ''PUT'']"

text \<open>What the mux does with a request: call a handler with the value of the wildcard, redirect to a URL with
  this path, or answer 405 or 404 itself.  A cleaned path goes into the new URL still escaped, as the
  mux does it.\<close>

datatype routed = Serve route string | MovedTo string | WrongMethod "string list" | NoRoute

definition find_route :: "string \<Rightarrow> string \<Rightarrow> routed" where
  "find_route method escaped =
     (let path = cleanPath escaped;
          found = match_method method path;
          slashed = path @ ''/''
      in if \<not> exact_match (map_option fst found) path \<and> last path \<noteq> CHR ''/'' \<and>
            exact_match (map_option fst (match_method method slashed)) slashed
         then MovedTo (cleanPath (path_unescape escaped) @ ''/'')
         else if path \<noteq> escaped then MovedTo path
         else case found of
           Some (r, vals) \<Rightarrow> Serve r (if vals = [] then [] else hd vals)
         | None \<Rightarrow> if methods_for path \<noteq> [] then WrongMethod (methods_for path) else NoRoute)"

section \<open>Serving\<close>

fun html_escape :: "string \<Rightarrow> string" where
  "html_escape [] = []"
| "html_escape (c # cs) =
     (if c = CHR ''&'' then ''&amp;'' else if c = CHR ''<'' then ''&lt;'' else if c = CHR ''>'' then ''&gt;''
      else if c = CHR 0x22 then ''&#34;'' else if c = CHR 0x27 then ''&#39;'' else [c]) @ html_escape cs"

text \<open>\<open>http.Redirect\<close> with status 301; the rendering of the URL, which has the query of the request, is the
  argument \<open>url\<close>.\<close>

definition redirect :: "string \<Rightarrow> string \<Rightarrow> writer \<Rightarrow> writer" where
  "redirect method url w =
     (let bare = map_of (w_header w) ''Content-Type'' = None;
          w1 = header_set ''Location'' url w;
          w2 = (if bare \<and> (method = ''GET'' \<or> method = ''HEAD'')
                then header_set ''Content-Type'' ''text/html; charset=utf-8'' w1 else w1);
          w3 = write_header 301 w2
      in if bare \<and> method = ''GET''
         then write_body (''<a href='' @ [CHR 0x22] @ html_escape url @ [CHR 0x22] @ ''>Moved Permanently</a>.'' @ [CHR 0x0A, CHR 0x0A]) w3
         else w3)"

fun join_comma :: "string list \<Rightarrow> string" where
  "join_comma [] = []"
| "join_comma [x] = x"
| "join_comma (x # xs) = x @ '', '' @ join_comma xs"

definition serve_mux :: "(string \<Rightarrow> string) \<Rightarrow> (route \<Rightarrow> 's handler) \<Rightarrow> 's handler" where
  "serve_mux url handlers r s w =
     (case find_route (rq_method r) (rq_path r) of
        Serve rt v \<Rightarrow> handlers rt (r\<lparr>rq_value := v\<rparr>) s w
      | MovedTo p \<Rightarrow> Returned s (redirect (rq_method r) (url p) w)
      | WrongMethod ms \<Rightarrow> Returned s (http_error ''Method Not Allowed'' 405 (header_set ''Allow'' (join_comma ms) w))
      | NoRoute \<Rightarrow> Returned s (http_error ''404 page not found'' 404 w))"

text \<open>The state of the server: the manager of the caches, and the state \<open>'b\<close> of the assets, on which the handlers
  \<open>assets\<close> work (\<open>Binary_Handler\<close> has them).\<close>

definition on_manager :: "'r manager handler \<Rightarrow> ('r manager \<times> 'b) handler" where
  "on_manager h r s w =
     (case h r (fst s) w of
        Returned m w' \<Rightarrow> Returned (m, snd s) w'
      | Panicked m w' \<Rightarrow> Panicked (m, snd s) w'
      | Hangs \<Rightarrow> Hangs)"

definition server_routes :: "'r manager_config \<Rightarrow> (nat \<Rightarrow> get_env) \<Rightarrow> time \<Rightarrow> (route \<Rightarrow> ('r manager \<times> 'b) handler) \<Rightarrow>
    route \<Rightarrow> ('r manager \<times> 'b) handler" where
  "server_routes g env now assets rt =
     (case rt of
        GetCache \<Rightarrow> on_manager (getCache g (env 0))
      | PutCache \<Rightarrow> on_manager (putCache g now)
      | DeleteCache \<Rightarrow> on_manager (deleteCache g)
      | GetStats \<Rightarrow> on_manager (getStats g)
      | Health \<Rightarrow> on_manager health
      | BatchGet \<Rightarrow> on_manager (batchGet g env)
      | _ \<Rightarrow> assets rt)"

text \<open>The HTTP side of \<open>main\<close>.\<close>

definition http_server :: "(string \<Rightarrow> string) \<Rightarrow> 'r manager_config \<Rightarrow> (nat \<Rightarrow> get_env) \<Rightarrow> time \<Rightarrow>
    (route \<Rightarrow> ('r manager \<times> 'b) handler) \<Rightarrow> ('r manager \<times> 'b) handler" where
  "http_server url g env now assets = http_stack (serve_mux url (server_routes g env now assets))"

section \<open>What a pattern matches\<close>

text \<open>The specification of the patterns: the values of the wildcards when the path matches.\<close>

fun path_matches :: "segment list \<Rightarrow> string \<Rightarrow> string list option" where
  "path_matches [] path = (if path = [] then Some [] else None)"
| "path_matches (Lit l # ss) path =
     (if path \<noteq> [] \<and> fst (first_segment path) = l then path_matches ss (snd (first_segment path)) else None)"
| "path_matches (Wild # ss) path =
     (if path \<noteq> [] \<and> fst (first_segment path) \<noteq> ''/''
      then map_option ((#) (fst (first_segment path))) (path_matches ss (snd (first_segment path))) else None)"
| "path_matches (Multi # ss) path = (if path \<noteq> [] \<and> ss = [] then Some [path_unescape (tl path)] else None)"

lemma set_children:
  "(ss, r) \<in> set (literal_child seg ps) \<longleftrightarrow> (Lit seg # ss, r) \<in> set ps"
  "(ss, r) \<in> set (wild_child ps) \<longleftrightarrow> (Wild # ss, r) \<in> set ps"
  by (force simp: literal_child_def wild_child_def List.map_filter_def split: list.splits segment.splits if_splits)+

lemma multi_child_Some: "multi_child ps = Some r \<Longrightarrow> ([Multi], r) \<in> set ps"
  by (induction ps) (auto simp: multi_child_def List.map_filter_simps split: if_splits)

lemma leaf_Some: "leaf ps = Some r \<Longrightarrow> ([], r) \<in> set ps"
  by (induction ps) (auto simp: leaf_def List.map_filter_simps split: if_splits)

lemma match_path_sound:
  "match_path ps path vals = Some (r, vs) \<Longrightarrow>
   \<exists>ss vs'. (ss, r) \<in> set ps \<and> path_matches ss path = Some vs' \<and> vs = vals @ vs'"
proof (induction ps path vals rule: match_path.induct)
  case (1 ps path vals)
  show ?case
  proof (cases "path = []")
    case True
    with 1(3) leaf_Some show ?thesis by (fastforce simp: match_path.simps)
  next
    case False
    let ?seg = "fst (first_segment path)" and ?rest = "snd (first_segment path)"
    note IH = 1(1) [OF False refl refl] 1(2) [OF False refl refl]
    show ?thesis
    proof (cases "match_path (literal_child ?seg ps) ?rest vals")
      case (Some found)
      with 1(3) False have "match_path (literal_child ?seg ps) ?rest vals = Some (r, vs)"
        by (simp add: match_path.simps [of ps path])
      from IH(1) [OF this] obtain ss vs' where "(ss, r) \<in> set (literal_child ?seg ps)"
          "path_matches ss ?rest = Some vs'" "vs = vals @ vs'" by blast
      with False show ?thesis by (intro exI [of _ "Lit ?seg # ss"] exI [of _ vs']) (simp add: set_children)
    next
      case None
      let ?wild = "if ?seg \<noteq> ''/'' then match_path (wild_child ps) ?rest (vals @ [?seg]) else None"
      show ?thesis
      proof (cases ?wild)
        case (Some found)
        with 1(3) False None have w: "?wild = Some (r, vs)"
          by (simp add: match_path.simps [of ps path])
        hence "?seg \<noteq> ''/''" and "match_path (wild_child ps) ?rest (vals @ [?seg]) = Some (r, vs)"
          by (simp_all split: if_splits)
        from IH(2) [OF None this] obtain ss vs' where "(ss, r) \<in> set (wild_child ps)"
            "path_matches ss ?rest = Some vs'" "vs = (vals @ [?seg]) @ vs'" by blast
        with False \<open>?seg \<noteq> ''/''\<close> show ?thesis
          by (intro exI [of _ "Wild # ss"] exI [of _ "?seg # vs'"]) (simp add: set_children)
      next
        case None
        with 1(3) False \<open>match_path (literal_child ?seg ps) ?rest vals = None\<close>
        have "multi_child ps = Some r" "vs = vals @ [path_unescape (tl path)]"
          by (auto simp: match_path.simps [of ps path] simp del: not_None_eq)
        with multi_child_Some False show ?thesis by (intro exI [of _ "[Multi]"]) auto
      qed
    qed
  qed
qed

lemma match_path_complete:
  "(ss, r) \<in> set ps \<Longrightarrow> path_matches ss path \<noteq> None \<Longrightarrow> match_path ps path vals \<noteq> None"
proof (induction ps path vals arbitrary: ss rule: match_path.induct)
  case (1 ps path vals)
  show ?case
  proof (cases "path = []")
    case True
    with 1(4) have "ss = []" by (cases "(ss, path)" rule: path_matches.cases) (auto split: if_splits)
    with 1(3) True have "leaf ps \<noteq> None"
      by (auto simp: leaf_def List.map_filter_def filter_empty_conv split: list.splits intro!: bexI [of _ "([], r)"])
    with True show ?thesis by (simp add: match_path.simps)
  next
    case False
    let ?seg = "fst (first_segment path)" and ?rest = "snd (first_segment path)"
    note IH = 1(1) [OF False refl refl] 1(2) [OF False refl refl]
    show ?thesis
    proof (cases "match_path (literal_child ?seg ps) ?rest vals")
      case (Some found)
      with False show ?thesis by (simp add: match_path.simps [of ps path])
    next
      case no_lit: None
      let ?wild = "if ?seg \<noteq> ''/'' then match_path (wild_child ps) ?rest (vals @ [?seg]) else None"
      show ?thesis
      proof (cases ?wild)
        case (Some found)
        with False no_lit show ?thesis by (simp add: match_path.simps [of ps path])
      next
        case no_wild: None
        have "ss = [Multi]"
        proof (cases ss)
          case Nil
          with 1(4) False show ?thesis by simp
        next
          case (Cons s ss')
          show ?thesis
          proof (cases s)
            case (Lit l)
            with Cons 1(3,4) have "(ss', r) \<in> set (literal_child ?seg ps)" "path_matches ss' ?rest \<noteq> None"
              by (auto simp: set_children split: if_splits)
            from IH(1) [OF this] no_lit show ?thesis by simp
          next
            case Wild
            with Cons 1(3,4) have w: "(ss', r) \<in> set (wild_child ps)" "path_matches ss' ?rest \<noteq> None" "?seg \<noteq> ''/''"
              by (auto simp: set_children split: if_splits)
            from IH(2) [OF no_lit w(3,1,2)] no_wild w(3) show ?thesis by simp
          next
            case Multi
            with Cons 1(4) show ?thesis by (simp split: if_splits)
          qed
        qed
        with 1(3) have "multi_child ps \<noteq> None"
          by (auto simp: multi_child_def List.map_filter_def filter_empty_conv split: list.splits intro!: bexI [of _ "([Multi], r)"])
        with False no_lit no_wild show ?thesis by (simp add: match_path.simps [of ps path])
      qed
    qed
  qed
qed

text \<open>The methods whose patterns serve a request: \<open>HEAD\<close> is served by those of \<open>GET\<close>.\<close>

definition served_by :: "string \<Rightarrow> string list" where
  "served_by method = (if method = ''HEAD'' then [''GET''] else [method])"

lemma patterns_of_iff: "(ss, r) \<in> set (patterns_of m) \<longleftrightarrow> (m, ss, r) \<in> set route_table"
  by (force simp: patterns_of_def)

lemma no_HEAD: "patterns_of ''HEAD'' = []"
  by (simp add: patterns_of_def route_table_entries)

text \<open>A method and the first segment of a pattern, which is a literal, determine the pattern: registering
  them cannot panic for a conflict, and no order among them matters.\<close>

lemma route_heads: "(m, ss, r) \<in> set route_table \<Longrightarrow> \<exists>l ss'. ss = Lit l # ss'"
  by (auto simp: route_table_entries)

lemma route_unique:
  assumes "(m, Lit l # ss, r) \<in> set route_table" and "(m, Lit l # ss', r') \<in> set route_table"
  shows "ss = ss' \<and> r = r'"
proof -
  have "distinct (map (\<lambda>(m, ss, r). (m, hd ss)) route_table)" by (simp add: route_table_entries)
  then have "inj_on (\<lambda>(m, ss, r). (m, hd ss)) (set route_table)" by (simp add: distinct_map)
  from inj_onD [OF this _ assms] show ?thesis by simp
qed

lemma matches_head:
  assumes "(m, ss, r) \<in> set route_table" and "path_matches ss p = Some vs"
  obtains ss' where "ss = Lit (fst (first_segment p)) # ss'" "path_matches ss' (snd (first_segment p)) = Some vs" "p \<noteq> []"
  using route_heads [OF assms(1)] assms(2) by (auto split: if_splits)

lemma same_route:
  assumes "(m, ss, r) \<in> set route_table" "path_matches ss p = Some vs"
    and "(m, ss', r') \<in> set route_table" "path_matches ss' q = Some vs'" and "fst (first_segment p) = fst (first_segment q)"
  shows "ss = ss' \<and> r = r'"
  using matches_head [OF assms(1,2)] matches_head [OF assms(3,4)] assms(1,3,5) route_unique by metis

lemma match_patterns:
  "match_path (patterns_of m) p [] = Some (r, vs) \<longleftrightarrow>
   (\<exists>ss. (m, ss, r) \<in> set route_table \<and> path_matches ss p = Some vs)" (is "?found \<longleftrightarrow> ?spec")
proof
  assume ?found
  from match_path_sound [OF this] show ?spec by (auto simp: patterns_of_iff)
next
  assume ?spec
  then obtain ss where ss: "(m, ss, r) \<in> set route_table" "path_matches ss p = Some vs" by blast
  then have "match_path (patterns_of m) p [] \<noteq> None" by (intro match_path_complete) (auto simp: patterns_of_iff)
  then obtain r' vs' where found: "match_path (patterns_of m) p [] = Some (r', vs')" by auto
  from match_path_sound [OF this] obtain ss' where "(m, ss', r') \<in> set route_table" "path_matches ss' p = Some vs'"
    by (auto simp: patterns_of_iff)
  with same_route [OF ss this] found ss(2) show ?found by simp
qed

lemma match_method_iff:
  "match_method m p = Some (r, vs) \<longleftrightarrow>
   (\<exists>m'\<in>set (served_by m). \<exists>ss. (m', ss, r) \<in> set route_table \<and> path_matches ss p = Some vs)"
proof (cases "m = ''HEAD''")
  case True
  have "match_path [] p [] = None" for p
    using match_path_sound [of "[]" p "[]"] by (cases "match_path [] p []") auto
  with True show ?thesis by (simp add: match_method_def no_HEAD served_by_def match_patterns)
next
  case False
  then show ?thesis by (simp add: match_method_def served_by_def match_patterns [symmetric] split: option.split)
qed

section \<open>Clean paths\<close>

lemma cleanPath_slash: "\<exists>p'. cleanPath p = CHR ''/'' # p'"
  by (cases "clean_segments p") (auto simp: cleanPath_def Let_def)

lemma first_segment_slashed:
  assumes "p = CHR ''/'' # p'" and "snd (first_segment p) \<noteq> []"
  shows "fst (first_segment (p @ ''/'')) = fst (first_segment p)" "2 \<le> count_list p (CHR ''/'')"
proof -
  have "p' \<noteq> []" and "CHR ''/'' \<in> set p'"
    using assms by (auto simp: first_segment_def Let_def dropWhile_eq_Nil_conv split: if_splits)
  then show "fst (first_segment (p @ ''/'')) = fst (first_segment p)"
    by (simp add: assms(1) first_segment_def Let_def takeWhile_append1)
  have "count_list p' (CHR ''/'') \<noteq> 0" using \<open>CHR ''/'' \<in> set p'\<close> by (simp add: count_list_0_iff)
  then show "2 \<le> count_list p (CHR ''/'')" by (simp add: assms(1))
qed

lemma multi_rest:
  "(m, ss, r) \<in> set route_table \<Longrightarrow> r \<in> set multi_routes \<Longrightarrow> path_matches ss p \<noteq> None \<Longrightarrow> snd (first_segment p) \<noteq> []"
  by (auto simp: route_table_entries multi_routes_def split: if_splits)

text \<open>A clean path that a pattern matches is never redirected.\<close>

lemma find_route_match:
  assumes "cleanPath p = p" and "match_method m p = Some (r, vs)"
  shows "find_route m p = Serve r (if vs = [] then [] else hd vs)"
proof -
  have "exact_match (Some r) p \<or> \<not> exact_match (map_option fst (match_method m (p @ ''/''))) (p @ ''/'')"
  proof (rule disjCI, unfold not_not)
    assume redir: "exact_match (map_option fst (match_method m (p @ ''/''))) (p @ ''/'')"
    then obtain r2 vs2 where m2: "match_method m (p @ ''/'') = Some (r2, vs2)"
      by (auto simp: exact_match_def split: option.splits)
    from assms(2) [unfolded match_method_iff] obtain m1 ss where
      one: "m1 \<in> set (served_by m)" "(m1, ss, r) \<in> set route_table" "path_matches ss p = Some vs" by blast
    from m2 [unfolded match_method_iff] obtain m2 ss2 where
      two: "m2 \<in> set (served_by m)" "(m2, ss2, r2) \<in> set route_table" "path_matches ss2 (p @ ''/'') = Some vs2" by blast
    have "m2 = m1" using one(1) two(1) by (simp add: served_by_def split: if_splits)
    show "exact_match (Some r) p"
    proof (rule ccontr)
      assume no: "\<not> exact_match (Some r) p"
      then have multi: "r \<in> set multi_routes" by (auto simp: exact_match_def)
      obtain p' where p: "p = CHR ''/'' # p'" using cleanPath_slash [of p] assms(1) by auto
      have rest: "snd (first_segment p) \<noteq> []" using multi_rest [OF one(2) multi] one(3) by simp
      note F = first_segment_slashed [OF p rest]
      have "r2 = r" using same_route [OF one(2,3) two(2) [unfolded \<open>m2 = m1\<close>] two(3)] F(1) by simp
      with redir m2 multi F(2) show False by (simp add: exact_match_def)
    qed
  qed
  then show ?thesis using assms by (auto simp: find_route_def Let_def)
qed

text \<open>The values of the wildcards are never empty.\<close>

lemma percent_decode_Nil: "percent_decode s = Some [] \<Longrightarrow> s = []"
  by (cases s) (auto split: if_splits list.splits option.splits)

lemma path_unescape_Nil [simp]: "path_unescape s = [] \<longleftrightarrow> s = []"
  by (auto simp: path_unescape_def dest: percent_decode_Nil split: option.splits)

lemma find_route_Serve:
  "find_route m p = Serve r v \<longleftrightarrow>
   cleanPath p = p \<and> (\<exists>vs. match_method m p = Some (r, vs) \<and> v = (if vs = [] then [] else hd vs))"
proof
  assume served: "find_route m p = Serve r v"
  then have "cleanPath p = p" by (simp add: find_route_def Let_def split: if_splits option.splits)
  moreover from this served obtain vs where "match_method m p = Some (r, vs)" "v = (if vs = [] then [] else hd vs)"
    by (auto simp: find_route_def Let_def split: if_splits option.splits)
  ultimately show "cleanPath p = p \<and> (\<exists>vs. match_method m p = Some (r, vs) \<and> v = (if vs = [] then [] else hd vs))" by blast
qed (auto simp: find_route_match)

section \<open>The path of a key\<close>

lemma split_slashes_none: "CHR ''/'' \<notin> set q \<Longrightarrow> split_slashes q = [q]"
  by (induction q) auto

lemma key_path_segments:
  assumes "CHR ''/'' \<notin> set q" and "q \<noteq> []"
  shows "first_segment (''/cache/'' @ q) = (''cache'', CHR ''/'' # q)"
    "first_segment (CHR ''/'' # q) = (path_unescape q, [])"
proof -
  have "takeWhile (\<lambda>c. c \<noteq> CHR ''/'') q = q" "dropWhile (\<lambda>c. c \<noteq> CHR ''/'') q = []"
    using assms(1) by (auto simp: takeWhile_eq_all_conv dropWhile_eq_Nil_conv)
  with assms(2) show "first_segment (CHR ''/'' # q) = (path_unescape q, [])"
    by (simp only: first_segment_def Let_def list.sel list.inject simp_thms if_False)
  show "first_segment (''/cache/'' @ q) = (''cache'', CHR ''/'' # q)"
    by (simp add: first_segment_def path_unescape_def)
qed

lemma key_path_clean:
  assumes "CHR ''/'' \<notin> set q" and "q \<notin> {[], ''.'', ''..''}"
  shows "cleanPath (''/cache/'' @ q) = ''/cache/'' @ q"
proof -
  have "clean_segments (''/cache/'' @ q) = [''cache'', q]"
    using assms(2) by (simp add: clean_segments_def split_slashes_none [OF assms(1)] clean_step_def)
  moreover have "last q \<noteq> CHR ''/''" using assms(1) last_in_set [of q] assms(2) by fastforce
  ultimately show ?thesis using assms(2) by (simp add: cleanPath_def)
qed

lemma cache_heads:
  "(m, Lit ''cache'' # ss, r) \<in> set route_table \<longleftrightarrow>
   (m, ss, r) \<in> {(''GET'', [Wild], GetCache), (''PUT'', [Wild], PutCache), (''DELETE'', [Wild], DeleteCache),
                 (''POST'', [Lit ''batch''], BatchGet)}"
  by (simp add: route_table_entries)

lemma cache_paths:
  assumes "first_segment p = (''cache'', rest)" and "p \<noteq> []"
  shows "match_path (patterns_of m) p [] = Some (r, vs) \<longleftrightarrow>
    (m, r) \<in> {(''GET'', GetCache), (''PUT'', PutCache), (''DELETE'', DeleteCache)} \<and> path_matches [Wild] rest = Some vs \<or>
    (m, r) = (''POST'', BatchGet) \<and> path_matches [Lit ''batch''] rest = Some vs"
proof -
  have "(m, ss, r) \<in> set route_table \<and> path_matches ss p = Some vs \<longleftrightarrow>
      (\<exists>ss'. ss = Lit ''cache'' # ss' \<and> (m, Lit ''cache'' # ss', r) \<in> set route_table \<and>
        path_matches ss' rest = Some vs)" for ss
    using route_heads [of m ss r] assms by (auto split: if_splits)
  then show ?thesis unfolding match_patterns cache_heads by (auto simp del: path_matches.simps)
qed

lemma key_paths:
  assumes "CHR ''/'' \<notin> set q" and "q \<noteq> []"
  shows "match_path (patterns_of m) (''/cache/'' @ q) [] = Some (r, vs) \<longleftrightarrow>
     (m, r) \<in> {(''GET'', GetCache), (''PUT'', PutCache), (''DELETE'', DeleteCache)} \<and>
       path_unescape q \<noteq> ''/'' \<and> vs = [path_unescape q] \<or>
     (m, r) = (''POST'', BatchGet) \<and> path_unescape q = ''batch'' \<and> vs = []"
proof -
  note S = key_path_segments [OF assms]
  have ne: "''/cache/'' @ q \<noteq> []" by simp
  have "path_matches [Wild] (CHR ''/'' # q) = Some vs \<longleftrightarrow> path_unescape q \<noteq> ''/'' \<and> vs = [path_unescape q]"
    "path_matches [Lit ''batch''] (CHR ''/'' # q) = Some vs \<longleftrightarrow> path_unescape q = ''batch'' \<and> vs = []"
    by (auto simp add: S(2))
  then show ?thesis unfolding cache_paths [OF S(1) ne] by (simp only:)
qed

lemma key_slash_paths:
  assumes "CHR ''/'' \<notin> set q" and "q \<noteq> []"
  shows "match_path (patterns_of m) ((''/cache/'' @ q) @ ''/'') [] = None"
proof -
  have "c \<noteq> CHR ''/''" if "c \<in> set q" for c using assms(1) that by metis
  then have "takeWhile (\<lambda>c. c \<noteq> CHR ''/'') (q @ ''/'') = q" "dropWhile (\<lambda>c. c \<noteq> CHR ''/'') (q @ ''/'') = ''/''"
    by (simp_all add: takeWhile_append2 dropWhile_append2)
  then have "first_segment (CHR ''/'' # q @ ''/'') = (path_unescape q, ''/'')"
    by (simp add: first_segment_def)
  moreover have "first_segment ((''/cache/'' @ q) @ ''/'') = (''cache'', CHR ''/'' # q @ ''/'')"
    by (simp add: first_segment_def path_unescape_def)
  ultimately have "\<nexists>r vs. match_path (patterns_of m) ((''/cache/'' @ q) @ ''/'') [] = Some (r, vs)"
    by (auto simp: cache_paths split: if_splits)
  then show ?thesis by (cases "match_path (patterns_of m) ((''/cache/'' @ q) @ ''/'') []") auto
qed

lemma key_path_methods:
  assumes "CHR ''/'' \<notin> set q" and "q \<noteq> []"
  shows "methods_for (''/cache/'' @ q) =
    (if path_unescape q = ''/'' then []
     else if path_unescape q = ''batch'' then [''DELETE'', ''GET'', ''HEAD'', ''POST'', ''PUT'']
     else [''DELETE'', ''GET'', ''HEAD'', ''PUT''])"
proof -
  have "match_path (patterns_of m) (''/cache/'' @ q) [] \<noteq> None \<longleftrightarrow>
      m \<in> {''GET'', ''PUT'', ''DELETE''} \<and> path_unescape q \<noteq> ''/'' \<or> m = ''POST'' \<and> path_unescape q = ''batch''" for m
    using key_paths [OF assms, of m] by force
  then show ?thesis
    unfolding methods_for_def key_slash_paths [OF assms] by simp
qed

text \<open>Every request for the path of a key, whatever its method.\<close>

lemma key_path_routes:
  assumes "CHR ''/'' \<notin> set q" and "q \<notin> {[], ''.'', ''..''}" and "path_unescape q = k" and "k \<noteq> ''/''"
  shows "find_route m (''/cache/'' @ q) =
    (if m \<in> {''GET'', ''HEAD''} then Serve GetCache k
     else if m = ''PUT'' then Serve PutCache k
     else if m = ''DELETE'' then Serve DeleteCache k
     else if m = ''POST'' \<and> k = ''batch'' then Serve BatchGet []
     else WrongMethod (if k = ''batch'' then [''DELETE'', ''GET'', ''HEAD'', ''POST'', ''PUT'']
                       else [''DELETE'', ''GET'', ''HEAD'', ''PUT'']))"
proof -
  have q: "q \<noteq> []" using assms(2) by simp
  note clean = key_path_clean [OF assms(1,2)] and P = key_paths [OF assms(1) q]
  have match: "match_method m (''/cache/'' @ q) = Some (r, vs) \<longleftrightarrow>
      (m \<in> {''GET'', ''HEAD''} \<and> r = GetCache \<or> m = ''PUT'' \<and> r = PutCache \<or> m = ''DELETE'' \<and> r = DeleteCache) \<and> vs = [k] \<or>
      m = ''POST'' \<and> r = BatchGet \<and> k = ''batch'' \<and> vs = []" for r vs
    unfolding match_method_iff match_patterns [symmetric] P served_by_def using assms(3,4) by auto
  show ?thesis
  proof (cases "match_method m (''/cache/'' @ q)")
    case None
    have "match_method m ((''/cache/'' @ q) @ ''/'') = None"
      unfolding match_method_def key_slash_paths [OF assms(1) q] by simp
    then have "find_route m (''/cache/'' @ q) =
        (if methods_for (''/cache/'' @ q) \<noteq> [] then WrongMethod (methods_for (''/cache/'' @ q)) else NoRoute)"
      unfolding find_route_def clean Let_def None by (simp add: exact_match_def)
    moreover have "m \<notin> {''GET'', ''HEAD'', ''PUT'', ''DELETE''}" "\<not> (m = ''POST'' \<and> k = ''batch'')"
      using match None by auto
    ultimately show ?thesis using assms(3,4) unfolding key_path_methods [OF assms(1) q] by simp
  next
    case (Some found)
    then obtain r vs where found: "match_method m (''/cache/'' @ q) = Some (r, vs)" by (cases found) auto
    from find_route_match [OF clean this]
    have route: "find_route m (''/cache/'' @ q) = Serve r (if vs = [] then [] else hd vs)" .
    from found [unfolded match] show ?thesis unfolding route by (elim disjE conjE) simp_all
  qed
qed

section \<open>Which keys have a path\<close>

text \<open>A key with every byte escaped.\<close>

definition escape_key :: "string \<Rightarrow> string" where
  "escape_key k = concat (map (\<lambda>c. [CHR ''%'', hex_char (octet c div 16), hex_char (octet c mod 16)]) k)"

lemma escape_key_Cons:
  "escape_key (c # k) = CHR ''%'' # hex_char (octet c div 16) # hex_char (octet c mod 16) # escape_key k"
  by (simp add: escape_key_def)

lemma octet_nibbles: "octet c div 16 < 16" "octet c mod 16 < 16"
  using octet_simps(2) [of c] by linarith+

lemma percent_decode_escape_key: "percent_decode (escape_key k) = Some k"
proof (induction k)
  case Nil
  show ?case by (simp add: escape_key_def)
next
  case (Cons c k)
  have "hex_val (hex_char (octet c div 16)) = Some (octet c div 16)" "hex_val (hex_char (octet c mod 16)) = Some (octet c mod 16)"
    by (rule hex_roundtrip, rule octet_nibbles)+
  moreover have "char_of (octet c div 16 * 16 + octet c mod 16) = c" by (simp only: div_mult_mod_eq octet_simps)
  ultimately show ?case using Cons by (simp only: escape_key_Cons percent_decode.simps) simp
qed

lemma escape_key_slash: "CHR ''/'' \<notin> set (escape_key k)"
proof -
  have "hex_val (CHR ''/'') = None" by code_simp
  then have "hex_char d \<noteq> CHR ''/''" if "d < 16" for d using hex_roundtrip [OF that] by auto
  then have ne: "CHR ''/'' \<noteq> hex_char (octet c div 16)" "CHR ''/'' \<noteq> hex_char (octet c mod 16)" for c
    using octet_nibbles [of c] by metis+
  show ?thesis by (induction k) (simp add: escape_key_def, simp add: escape_key_Cons ne)
qed

lemma escape_key_dots: "k \<noteq> [] \<Longrightarrow> escape_key k \<notin> {[], ''.'', ''..''}"
  by (cases k) (simp_all add: escape_key_Cons)

lemma path_unescape_escape_key: "path_unescape (escape_key k) = k"
  by (simp add: path_unescape_def percent_decode_escape_key)

lemma cache_pattern:
  "(m, ss, r) \<in> set route_table \<Longrightarrow> r \<in> {GetCache, PutCache, DeleteCache} \<Longrightarrow> ss = [Lit ''cache'', Wild]"
  by (auto simp: route_table_entries)

lemma rest_slash: "snd (first_segment p) \<noteq> [] \<Longrightarrow> \<exists>q. snd (first_segment p) = CHR ''/'' # q"
  using hd_dropWhile [of "\<lambda>c. c \<noteq> CHR ''/''" "tl p"]
  by (cases "dropWhile (\<lambda>c. c \<noteq> CHR ''/'') (tl p)") (auto simp: first_segment_def Let_def split: if_splits)

lemma last_segment:
  assumes "snd (first_segment (CHR ''/'' # q)) = []" and "fst (first_segment (CHR ''/'' # q)) \<noteq> ''/''"
  shows "fst (first_segment (CHR ''/'' # q)) \<noteq> []"
proof -
  have "q \<noteq> []" using assms(2) by (auto simp: first_segment_def)
  moreover from this assms(1) have "takeWhile (\<lambda>c. c \<noteq> CHR ''/'') q = q"
    using takeWhile_dropWhile_id [of "\<lambda>c. c \<noteq> CHR ''/''" q] by (simp add: first_segment_def)
  ultimately have "fst (first_segment (CHR ''/'' # q)) = path_unescape q"
    by (simp only: first_segment_def Let_def list.sel list.inject fst_conv simp_thms if_False)
  with \<open>q \<noteq> []\<close> show ?thesis by simp
qed

lemma wild_value:
  assumes "match_method m p = Some (r, vs)" and "r \<in> {GetCache, PutCache, DeleteCache}"
  shows "\<exists>k. vs = [k] \<and> k \<notin> {[], ''/''}"
proof -
  from assms(1) obtain m' ss where "(m', ss, r) \<in> set route_table" "path_matches ss p = Some vs"
    unfolding match_method_iff by blast
  with cache_pattern [OF this(1) assms(2)] have "path_matches [Lit ''cache'', Wild] p = Some vs" by simp
  then have rest: "path_matches [Wild] (snd (first_segment p)) = Some vs" by (simp split: if_splits)
  then have "snd (first_segment p) \<noteq> []" by auto
  then obtain q where q: "snd (first_segment p) = CHR ''/'' # q" using rest_slash [of p] by blast
  from rest [unfolded q] show ?thesis using last_segment [of q] by (auto split: if_splits)
qed

lemma key_routes:
  assumes "k \<notin> {[], ''/''}"
  shows "find_route ''GET'' (''/cache/'' @ escape_key k) = Serve GetCache k"
    "find_route ''PUT'' (''/cache/'' @ escape_key k) = Serve PutCache k"
    "find_route ''DELETE'' (''/cache/'' @ escape_key k) = Serve DeleteCache k"
proof -
  have "k \<noteq> []" "k \<noteq> ''/''" using assms by auto
  note R = key_path_routes [OF escape_key_slash escape_key_dots [OF this(1)] path_unescape_escape_key this(2)]
  show "find_route ''GET'' (''/cache/'' @ escape_key k) = Serve GetCache k"
    "find_route ''PUT'' (''/cache/'' @ escape_key k) = Serve PutCache k"
    "find_route ''DELETE'' (''/cache/'' @ escape_key k) = Serve DeleteCache k"
    unfolding R by simp_all
qed

lemma served_key:
  assumes "find_route m p = Serve r k" and "r \<in> {GetCache, PutCache, DeleteCache}"
  shows "k \<notin> {[], ''/''}"
  using assms(1) wild_value [OF _ assms(2), of m p] unfolding find_route_Serve by auto

section \<open>Properties\<close>

text \<open>The mux refines the table of the routes: it serves a request if and only if the path is clean and a
  pattern for the method (for \<open>HEAD\<close>, one for \<open>GET\<close>) matches it segment by segment, though it searches a tree
  with literals first, backtracks and tries redirects before.\<close>

lemma find_route_refines:
  "find_route m p = Serve r v \<longleftrightarrow>
   cleanPath p = p \<and>
   (\<exists>ss vs. (if m = ''HEAD'' then ''GET'' else m, ss, r) \<in> set route_table \<and> path_matches ss p = Some vs \<and>
      v = (if vs = [] then [] else hd vs))"
  unfolding find_route_Serve match_method_iff served_by_def by (cases "m = ''HEAD''") auto

text \<open>C18: Which requests reach which handler, and with what value.  A request is served only under a clean path, and
  then by its method and the segments of the path: \<open>GET\<close> and \<open>HEAD\<close>, \<open>PUT\<close> and \<open>DELETE\<close> of \<open>/cache/\<close> and one more
  segment reach the three handlers of a key with that segment, unescaped, unless it is a slash; \<open>POST\<close> of
  \<open>/cache/batch\<close> the batch; \<open>POST\<close> and \<open>DELETE\<close> of \<open>/upload/\<close>, \<open>GET\<close> and \<open>HEAD\<close> of \<open>/assets/\<close> and \<open>/meta/\<close> the four
  handlers of an asset with everything behind the second slash, unescaped; \<open>GET\<close> and \<open>HEAD\<close> of \<open>/stats\<close>, \<open>/health\<close>
  and \<open>/list-assets\<close> theirs; and nothing else is served.  \<open>first_segment\<close> takes a segment off a path and
  unescapes it.\<close>

theorem routes_served:
  "find_route m p = Serve r v \<longleftrightarrow> cleanPath p = p \<and>
    (let (seg, rest) = first_segment p;
         read = (m = ''GET'' \<or> m = ''HEAD'');
         key = (rest \<noteq> [] \<and> first_segment rest = (v, []) \<and> v \<noteq> ''/'');
         name = (rest \<noteq> [] \<and> v = path_unescape (tl rest))
     in case r of
       GetCache \<Rightarrow> read \<and> seg = ''cache'' \<and> key
     | PutCache \<Rightarrow> m = ''PUT'' \<and> seg = ''cache'' \<and> key
     | DeleteCache \<Rightarrow> m = ''DELETE'' \<and> seg = ''cache'' \<and> key
     | BatchGet \<Rightarrow> m = ''POST'' \<and> seg = ''cache'' \<and> rest \<noteq> [] \<and> first_segment rest = (''batch'', []) \<and> v = []
     | GetStats \<Rightarrow> read \<and> seg = ''stats'' \<and> rest = [] \<and> v = []
     | Health \<Rightarrow> read \<and> seg = ''health'' \<and> rest = [] \<and> v = []
     | Upload \<Rightarrow> m = ''POST'' \<and> seg = ''upload'' \<and> name
     | DeleteAsset \<Rightarrow> m = ''DELETE'' \<and> seg = ''upload'' \<and> name
     | ServeAsset \<Rightarrow> read \<and> seg = ''assets'' \<and> name
     | GetMeta \<Rightarrow> read \<and> seg = ''meta'' \<and> name
     | ListAssets \<Rightarrow> read \<and> seg = ''list-assets'' \<and> rest = [] \<and> v = [])"
proof (cases "cleanPath p = p")
  case True
  obtain seg rest where p: "first_segment p = (seg, rest)" by (rule prod.exhaust)
  have ne: "p \<noteq> []" using True cleanPath_slash [of p] by auto
  obtain x y where rest: "first_segment rest = (x, y)" by (rule prod.exhaust)
  have path: "(\<exists>vs. path_matches [Lit l] p = Some vs \<and> v = (if vs = [] then [] else hd vs)) \<longleftrightarrow> seg = l \<and> rest = [] \<and> v = []"
    "(\<exists>vs. path_matches [Lit l, Wild] p = Some vs \<and> v = (if vs = [] then [] else hd vs)) \<longleftrightarrow>
      seg = l \<and> rest \<noteq> [] \<and> y = [] \<and> x \<noteq> ''/'' \<and> v = x"
    "(\<exists>vs. path_matches [Lit l, Lit l'] p = Some vs \<and> v = (if vs = [] then [] else hd vs)) \<longleftrightarrow>
      seg = l \<and> rest \<noteq> [] \<and> y = [] \<and> x = l' \<and> v = []"
    "(\<exists>vs. path_matches [Lit l, Multi] p = Some vs \<and> v = (if vs = [] then [] else hd vs)) \<longleftrightarrow>
      seg = l \<and> rest \<noteq> [] \<and> v = path_unescape (tl rest)" for l l'
    using ne by (auto simp: p rest)
  have one: "(\<exists>ss. (a \<and> ss = X) \<and> Q ss) \<longleftrightarrow> a \<and> Q X" for a X and Q :: "segment list \<Rightarrow> bool" by blast
  have ex_conj_eq: "(\<exists>ss vs. A ss \<and> B ss vs) \<longleftrightarrow> (\<exists>ss. A ss \<and> (\<exists>vs. B ss vs))" for A :: "segment list \<Rightarrow> bool" and B :: "segment list \<Rightarrow> string list \<Rightarrow> bool"
    by blast
  have read: "(if m = ''HEAD'' then ''GET'' else m) = ''GET'' \<longleftrightarrow> m = ''GET'' \<or> m = ''HEAD''" by simp
  have other: "(if m = ''HEAD'' then ''GET'' else m) = ''PUT'' \<longleftrightarrow> m = ''PUT''" "(if m = ''HEAD'' then ''GET'' else m) = ''POST'' \<longleftrightarrow> m = ''POST''"
    "(if m = ''HEAD'' then ''GET'' else m) = ''DELETE'' \<longleftrightarrow> m = ''DELETE''" by simp_all
  have tab: "(\<exists>ss vs. (M, ss, r) \<in> set route_table \<and> path_matches ss p = Some vs \<and> v = (if vs = [] then [] else hd vs)) \<longleftrightarrow>
    (case r of
       GetCache \<Rightarrow> M = ''GET'' \<and> seg = ''cache'' \<and> rest \<noteq> [] \<and> y = [] \<and> x \<noteq> ''/'' \<and> v = x
     | PutCache \<Rightarrow> M = ''PUT'' \<and> seg = ''cache'' \<and> rest \<noteq> [] \<and> y = [] \<and> x \<noteq> ''/'' \<and> v = x
     | DeleteCache \<Rightarrow> M = ''DELETE'' \<and> seg = ''cache'' \<and> rest \<noteq> [] \<and> y = [] \<and> x \<noteq> ''/'' \<and> v = x
     | BatchGet \<Rightarrow> M = ''POST'' \<and> seg = ''cache'' \<and> rest \<noteq> [] \<and> y = [] \<and> x = ''batch'' \<and> v = []
     | GetStats \<Rightarrow> M = ''GET'' \<and> seg = ''stats'' \<and> rest = [] \<and> v = []
     | Health \<Rightarrow> M = ''GET'' \<and> seg = ''health'' \<and> rest = [] \<and> v = []
     | Upload \<Rightarrow> M = ''POST'' \<and> seg = ''upload'' \<and> rest \<noteq> [] \<and> v = path_unescape (tl rest)
     | DeleteAsset \<Rightarrow> M = ''DELETE'' \<and> seg = ''upload'' \<and> rest \<noteq> [] \<and> v = path_unescape (tl rest)
     | ServeAsset \<Rightarrow> M = ''GET'' \<and> seg = ''assets'' \<and> rest \<noteq> [] \<and> v = path_unescape (tl rest)
     | GetMeta \<Rightarrow> M = ''GET'' \<and> seg = ''meta'' \<and> rest \<noteq> [] \<and> v = path_unescape (tl rest)
     | ListAssets \<Rightarrow> M = ''GET'' \<and> seg = ''list-assets'' \<and> rest = [] \<and> v = [])" for M
    unfolding ex_conj_eq
    by (cases r) (simp_all only: route_table_entries list.set insert_iff empty_iff prod.inject route.distinct route.case simp_thms one path)
  show ?thesis
    unfolding find_route_refines True p tab Let_def read other
    by (cases r) (auto simp: rest read other)
qed (simp add: find_route_refines)

text \<open>At most one route serves a path for a method, so that registering the routes cannot fail for a
  conflict of two patterns.\<close>

theorem no_conflicts:
  assumes "(m, ss, r) \<in> set route_table" and "(m, ss', r') \<in> set route_table"
    and "path_matches ss p \<noteq> None" and "path_matches ss' p \<noteq> None"
  shows "ss = ss' \<and> r = r'"
  using same_route [OF assms(1) _ assms(2)] assms(3,4) by blast

theorem no_conflicts_witness:
  "\<exists>vs. path_matches [Lit ''cache'', Lit ''batch''] ''/cache/batch'' = Some vs \<and>
     (\<forall>ss' r'. (''POST'', ss', r') \<in> set route_table \<longrightarrow> path_matches ss' ''/cache/batch'' \<noteq> None \<longrightarrow> r' = BatchGet)"
proof -
  have *: "(''POST'', [Lit ''cache'', Lit ''batch''], BatchGet) \<in> set route_table"
    and m: "path_matches [Lit ''cache'', Lit ''batch''] ''/cache/batch'' = Some []"
    by (simp add: route_table_entries) code_simp
  show ?thesis
    using m no_conflicts [OF * _ _ , of _ _ "''/cache/batch''"] by (intro exI [of _ "[]"]) auto
qed

text \<open>Every request for the path of a key: \<open>GET\<close> and \<open>HEAD\<close>, \<open>PUT\<close> and \<open>DELETE\<close> reach their handler with the
  unescaped segment as the key, \<open>POST\<close> only the batch route, and any other method is answered 405 with
  the methods that would have been served.\<close>

theorem key_requests:
  assumes "CHR ''/'' \<notin> set q" and "q \<notin> {[], ''.'', ''..''}" and "path_unescape q = k" and "k \<noteq> ''/''"
  shows "find_route m (''/cache/'' @ q) =
    (if m \<in> {''GET'', ''HEAD''} then Serve GetCache k
     else if m = ''PUT'' then Serve PutCache k
     else if m = ''DELETE'' then Serve DeleteCache k
     else if m = ''POST'' \<and> k = ''batch'' then Serve BatchGet []
     else WrongMethod (if k = ''batch'' then [''DELETE'', ''GET'', ''HEAD'', ''POST'', ''PUT'']
                       else [''DELETE'', ''GET'', ''HEAD'', ''PUT'']))"
  using assms by (rule key_path_routes)

theorem key_requests_witness:
  "find_route ''GET'' ''/cache/a%20b'' = Serve GetCache ''a b'' \<and>
   find_route ''PATCH'' ''/cache/a%20b'' = WrongMethod [''DELETE'', ''GET'', ''HEAD'', ''PUT'']"
proof -
  have "path_unescape ''a%20b'' = ''a b''" by code_simp
  with key_requests [of "''a%20b''" "''a b''" "''GET''"] key_requests [of "''a%20b''" "''a b''" "''PATCH''"]
  show ?thesis by simp
qed

text \<open>C19: The keys that have a path at all: every string but the empty one and a single slash, for each of the
  three methods.  So the answer \<open>key required\<close> of the handlers is never sent, and a key that is a slash,
  which a batch or gRPC can ask for, can neither be read, written nor deleted over these routes.\<close>

theorem reachable_keys:
  "((\<exists>p. find_route ''GET'' p = Serve GetCache k) \<longleftrightarrow> k \<notin> {[], ''/''}) \<and>
   ((\<exists>p. find_route ''PUT'' p = Serve PutCache k) \<longleftrightarrow> k \<notin> {[], ''/''}) \<and>
   ((\<exists>p. find_route ''DELETE'' p = Serve DeleteCache k) \<longleftrightarrow> k \<notin> {[], ''/''})"
  using key_routes [of k] served_key [where k = k] by blast

section \<open>A request over HTTP\<close>

text \<open>The paths that name a key.\<close>

definition key_path :: "string \<Rightarrow> string \<Rightarrow> bool" where
  "key_path k p \<longleftrightarrow> take 7 p = ''/cache/'' \<and> CHR ''/'' \<notin> set (drop 7 p) \<and> drop 7 p \<notin> {[], ''.'', ''..''} \<and>
     path_unescape (drop 7 p) = k \<and> k \<noteq> ''/''"

lemma key_path_found:
  assumes "key_path k p"
  shows "find_route ''GET'' p = Serve GetCache k" "find_route ''PUT'' p = Serve PutCache k"
    "find_route ''DELETE'' p = Serve DeleteCache k" "k \<noteq> []"
proof -
  have p: "p = ''/cache/'' @ drop 7 p" using assms append_take_drop_id [of 7 p] by (simp add: key_path_def)
  note R = key_path_routes [of "drop 7 p" k, folded p]
  show "find_route ''GET'' p = Serve GetCache k" "find_route ''PUT'' p = Serve PutCache k"
    "find_route ''DELETE'' p = Serve DeleteCache k"
    using assms by (simp_all add: key_path_def R)
  show "k \<noteq> []" using assms by (auto simp: key_path_def)
qed

abbreviation cors_writer :: writer where
  "cors_writer \<equiv> header_set ''Access-Control-Allow-Headers'' ''Content-Type''
     (header_set ''Access-Control-Allow-Methods'' ''GET, PUT, POST, DELETE, OPTIONS''
       (header_set ''Access-Control-Allow-Origin'' ''*'' new_writer))"

lemma cors_writer_fresh: "w_sent cors_writer = None" "w_body cors_writer = []"
  by (simp_all add: writer_simps)

lemma http_served:
  assumes "rq_method r \<noteq> ''OPTIONS''" and "find_route (rq_method r) (rq_path r) = Serve rt v"
    and "server_routes g env now assets rt (r\<lparr>rq_value := v\<rparr>) s cors_writer = Returned s' w'"
  shows "http_server url g env now assets r s new_writer = Returned s' w'"
  using assms by (simp add: http_server_def http_stack_def LoggingMiddleware_def CORSMiddleware_def RecoveryMiddleware_def
      Let_def serve_mux_def)

text \<open>C3: \<open>PUT\<close>, then \<open>GET\<close>, of one key over HTTP, from the bytes of the paths to those of the answers: the mux finds
  the two handlers whatever way each path escapes the key, the body \<open>{"value":...}\<close> is decoded, and the
  \<open>GET\<close> answers 200 with the string put, its invalid bytes replaced by U+FFFD, within the TTL; this even
  when the \<open>PUT\<close> answered 500 because Redis refused the write.\<close>

theorem http_put_then_get:
  assumes "l1_inv (m_l1 (fst s))" and "key_path k p" and "key_path k p'"
    and "rq_method r = ''PUT''" and "rq_path r = p" and "rq_body r = value_body v rest"
    and "rq_method r' = ''GET''" and "rq_path r' = p'" and "t_l1 (fst (env' 0)) \<le> now + c_ttl (m_l1 (fst s))"
  shows "\<exists>s' w' s'' w''. http_server url g env now assets r s new_writer = Returned s' w' \<and>
    status_of w' = (if fst (Manager_Set g now k (to_valid v) (fst s)) = None then 201 else 500) \<and>
    http_server url g env' now' assets' r' s' new_writer = Returned s'' w'' \<and>
    status_of w'' = 200 \<and> w_body w'' = to_valid v \<and> snd s'' = snd s"
proof -
  note K = key_path_found [OF assms(2)] key_path_found [OF assms(3)]
  let ?r = "r\<lparr>rq_value := k\<rparr>" and ?r' = "r'\<lparr>rq_value := k\<rparr>"
  obtain clk fl orig where env: "env' 0 = (clk, fl, orig)" by (cases "env' 0") auto
  from put_caches [OF assms(1) _ _ cors_writer_fresh, of ?r "to_valid v" g now] K(4) assms(6,9)
  obtain m' w' where put: "putCache g now ?r (fst s) cors_writer = Returned m' w'"
      "status_of w' = (if fst (Manager_Set g now k (to_valid v) (fst s)) = None then 201 else 500)"
      "l1_inv (m_l1 m')" "l1_live (t_l1 clk) (m_l1 m') k = Some (to_valid v)" by (auto simp: env)
  have one: "http_server url g env now assets r s new_writer = Returned (m', snd s) w'"
    by (rule http_served [where rt = PutCache and v = k])
      (simp_all add: assms(4,5) K server_routes_def on_manager_def put(1))
  let ?w = "write_body (to_valid v) (json_type cors_writer)" and ?m = "snd (Manager_Get g clk fl orig k m')"
  have "getCache g (env' 0) ?r' m' cors_writer = Returned ?m ?w"
    using put(3,4) K(4) by (simp add: env getCache_def manager_get_def Get_L1_hit)
  then have two: "http_server url g env' now' assets' r' (m', snd s) new_writer = Returned (?m, snd s) ?w"
    by (intro http_served [where rt = GetCache and v = k])
      (simp_all add: assms(7,8) K server_routes_def on_manager_def)
  show ?thesis
    using one put(2) two json_answers(2,3) [OF cors_writer_fresh, of "to_valid v"]
    by (intro exI [of _ "(m', snd s)"] exI [of _ w'] exI [of _ "(?m, snd s)"] exI [of _ ?w]) (simp only: snd_conv simp_thms)
qed

theorem http_put_then_get_witness:
  "\<exists>s' w' s'' w''.
    http_server (\<lambda>u. u) broken_config (\<lambda>_. (at_time 0, Runs False, \<lambda>k. FetchPanic)) 0 (\<lambda>_ r s w. Panicked s w)
      ((demo_request ''PUT'' [] (value_body ''v'' ''trailing''))\<lparr>rq_path := ''/cache/a%20b''\<rparr>) (demo_manager, ()) new_writer = Returned s' w' \<and>
    status_of w' = 500 \<and>
    http_server (\<lambda>u. u) broken_config (\<lambda>_. (at_time 10, Runs False, \<lambda>k. FetchPanic)) 20 (\<lambda>_ r s w. Panicked s w)
      ((demo_request ''GET'' [] [])\<lparr>rq_path := ''/cache/a%20%62''\<rparr>) s' new_writer = Returned s'' w'' \<and>
    w_body w'' = ''v''"
proof -
  have paths: "key_path ''a b'' ''/cache/a%20b''" "key_path ''a b'' ''/cache/a%20%62''" by code_simp+
  have "fst (Manager_Set broken_config 0 ''a b'' ''v'' demo_manager) = Some ''io''"
    by (simp add: Manager_Set_def L2_Set_def broken_config_def)
  then show ?thesis
    using http_put_then_get [of "(demo_manager, ())", OF _ paths,
        of "(demo_request ''PUT'' [] (value_body ''v'' ''trailing''))\<lparr>rq_path := ''/cache/a%20b''\<rparr>" "''v''" "''trailing''"
          "(demo_request ''GET'' [] [])\<lparr>rq_path := ''/cache/a%20%62''\<rparr>" "\<lambda>_. (at_time 10, Runs False, \<lambda>k. FetchPanic)" 0
          "\<lambda>u. u" broken_config "\<lambda>_. (at_time 0, Runs False, \<lambda>k. FetchPanic)" "\<lambda>_ r s w. Panicked s w" 20 "\<lambda>_ r s w. Panicked s w"]
      demo_inv
    by (auto simp: demo_ttl to_valid_v simp del: to_valid.simps)
qed

end
