(* ===== verification/Asset_Routes.thy ===== *)
theory Asset_Routes
  imports Router
begin

text \<open>
  The HTTP side of \<open>cmd/server/main.go\<close> with the asset handlers in it: the five routes of
  \<open>internal/binaryhandler/handler.go\<close> dispatched by the mux, on the state of the caches and of the assets
  together.  Then what a client sees over HTTP: upload and serve from path to answer, the URL an upload
  announces, and the list of the names, which are put into JSON as they are.
\<close>

section \<open>The whole server\<close>

definition on_assets :: "'b handler \<Rightarrow> ('m \<times> 'b) handler" where
  "on_assets h r s w =
     (case h r (snd s) w of
        Returned b w' \<Rightarrow> Returned (fst s, b) w'
      | Panicked b w' \<Rightarrow> Panicked (fst s, b) w'
      | Hangs \<Rightarrow> Hangs)"

text \<open>The other routes are those of the caches, which do not come here.\<close>

definition asset_routes :: "'w binary_handler \<Rightarrow> (nat \<Rightarrow> asset_order) \<Rightarrow> time \<Rightarrow> time \<Rightarrow> route \<Rightarrow> ('m \<times> 'w binary_state) handler" where
  "asset_routes h ord t_meta t_cache rt =
     (case rt of
        Upload \<Rightarrow> on_assets (upload h ord t_meta t_cache)
      | ServeAsset \<Rightarrow> on_assets (serveAsset h ord t_cache)
      | GetMeta \<Rightarrow> on_assets (getMeta h)
      | DeleteAsset \<Rightarrow> on_assets (deleteAsset h)
      | ListAssets \<Rightarrow> on_assets (\<lambda>r. listAssets h)
      | _ \<Rightarrow> (\<lambda>r s w. Returned s w))"

definition main_server :: "(string \<Rightarrow> string) \<Rightarrow> 'r manager_config \<Rightarrow> (nat \<Rightarrow> get_env) \<Rightarrow> time \<Rightarrow>
    'w binary_handler \<Rightarrow> (nat \<Rightarrow> asset_order) \<Rightarrow> time \<Rightarrow> time \<Rightarrow> ('r manager \<times> 'w binary_state) handler" where
  "main_server url g env now h ord t_meta t_cache = http_server url g env now (asset_routes h ord t_meta t_cache)"

section \<open>The paths of an asset\<close>

lemma asset_segments:
  "first_segment (''/upload/'' @ q) = (''upload'', CHR ''/'' # q)" "first_segment (''/assets/'' @ q) = (''assets'', CHR ''/'' # q)"
  "first_segment (''/meta/'' @ q) = (''meta'', CHR ''/'' # q)"
  by (simp_all add: first_segment_def path_unescape_def)

lemma asset_entries:
  "(''POST'', [Lit ''upload'', Multi], Upload) \<in> set route_table" "(''GET'', [Lit ''assets'', Multi], ServeAsset) \<in> set route_table"
  "(''GET'', [Lit ''meta'', Multi], GetMeta) \<in> set route_table" "(''DELETE'', [Lit ''upload'', Multi], DeleteAsset) \<in> set route_table"
  by (simp_all add: route_table_entries)

lemma multi_route:
  assumes "(m, [Lit l, Multi], r) \<in> set route_table" and "m \<noteq> ''HEAD''" and "first_segment p = (l, CHR ''/'' # q)" and "cleanPath p = p"
  shows "find_route m p = Serve r (path_unescape q)"
proof -
  have "p \<noteq> []" using cleanPath_slash [of p] assms(4) by auto
  with assms(3) have "path_matches [Lit l, Multi] p = Some [path_unescape q]" by simp
  with assms(1,2) have "match_method m p = Some (r, [path_unescape q])"
    unfolding match_method_iff by (intro bexI [of _ m] exI [of _ "[Lit l, Multi]"]) (simp_all add: served_by_def del: path_matches.simps)
  from find_route_match [OF assms(4) this] show ?thesis by simp
qed

section \<open>Upload, then serve\<close>

text \<open>The paths that name an asset under a prefix: what follows it unescapes to the name, slashes and all.\<close>

definition asset_path :: "string \<Rightarrow> string \<Rightarrow> string \<Rightarrow> bool" where
  "asset_path prefix name p \<longleftrightarrow> cleanPath p = p \<and> take (length prefix) p = prefix \<and> path_unescape (drop (length prefix) p) = name"

lemma asset_pathI: "cleanPath (prefix @ q) = prefix @ q \<Longrightarrow> path_unescape q = name \<Longrightarrow> asset_path prefix name (prefix @ q)"
  by (simp add: asset_path_def)

lemma asset_path_route:
  assumes "(m, [Lit l, Multi], r) \<in> set route_table" and "m \<noteq> ''HEAD''" and "\<And>q. first_segment (prefix @ q) = (l, CHR ''/'' # q)"
    and "asset_path prefix name p"
  shows "find_route m p = Serve r name"
proof -
  define q where "q = drop (length prefix) p"
  have p: "p = prefix @ q" using assms(4) append_take_drop_id [of "length prefix" p] by (simp add: asset_path_def q_def)
  have "find_route m p = Serve r (path_unescape q)"
    using assms(4) by (intro multi_route [OF assms(1,2)]) (simp_all add: asset_path_def p assms(3))
  then show ?thesis using assms(4) by (simp add: asset_path_def q_def)
qed

lemma asset_path_found:
  "asset_path ''/upload/'' name p \<Longrightarrow> find_route ''POST'' p = Serve Upload name"
  "asset_path ''/upload/'' name p \<Longrightarrow> find_route ''DELETE'' p = Serve DeleteAsset name"
  "asset_path ''/assets/'' name p \<Longrightarrow> find_route ''GET'' p = Serve ServeAsset name"
  "asset_path ''/meta/'' name p \<Longrightarrow> find_route ''GET'' p = Serve GetMeta name"
  by (rule asset_path_route [OF asset_entries(1) _ asset_segments(1)], simp, assumption)
    (rule asset_path_route [OF asset_entries(4) _ asset_segments(1)], simp, assumption,
     rule asset_path_route [OF asset_entries(2) _ asset_segments(2)], simp, assumption,
     rule asset_path_route [OF asset_entries(3) _ asset_segments(3)], simp, assumption)

lemma main_served:
  assumes "rq_method r \<noteq> ''OPTIONS''" and "find_route (rq_method r) (rq_path r) = Serve rt v"
    and "asset_routes h ord t_meta t_cache rt (r\<lparr>rq_value := v\<rparr>) s cors_writer = Returned s' w'"
    and "rt \<in> {Upload, ServeAsset, GetMeta, DeleteAsset, ListAssets}"
  shows "main_server url g env now h ord t_meta t_cache r s new_writer = Returned s' w'"
  unfolding main_server_def using assms
  by (intro http_served [OF assms(1,2)]) (auto simp: server_routes_def)

text \<open>C12: An upload, then a request for its name, over HTTP and from the bytes of the paths: whatever way either path
  escapes the name, slashes among it or not, the upload that the object store took answers 201, and the
  request answers 200 from memory with the bytes and the type of the upload; the stores are not asked,
  and the caches of the other handlers are as before.\<close>

theorem http_upload_then_serve:
  assumes "ready h" and "name \<noteq> ''''" and "asset_path ''/upload/'' name (rq_path r)" and "asset_path ''/assets/'' name (rq_path r')"
    and "rq_method r = ''POST''" and "rq_method r' = ''GET''" and "read_limited r = Some body"
    and "put_object (stores h) (minioBucket h) name body (upload_type (r\<lparr>rq_value := name\<rparr>)) (bs_world (snd s)) = (Inr n, w1)"
    and "asset_inv (bs_cache (snd s))" and "range_order ord"
  shows "\<exists>s' w' s'' w''. main_server url g env now h ord t1 t2 r s new_writer = Returned s' w' \<and> status_of w' = 201 \<and>
    main_server url g env' now' h ord' t3 t4 r' s' new_writer = Returned s'' w'' \<and>
    served w'' body (upload_type (r\<lparr>rq_value := name\<rparr>)) ''HIT'' \<and> fst s'' = fst s \<and> bs_world (snd s'') = bs_world (snd s')"
proof -
  let ?r = "r\<lparr>rq_value := name\<rparr>" and ?r' = "r'\<lparr>rq_value := name\<rparr>"
  have read: "read_limited ?r = Some body" using assms(7) by (auto simp: read_limited_def split: if_splits)
  have ne: "rq_value ?r \<noteq> ''''"
    and put: "put_object (stores h) (minioBucket h) (rq_value ?r) body (upload_type ?r) (bs_world (snd s)) = (Inr n, w1)"
    using assms(2,8) by simp_all
  from upload_ok [OF assms(1) ne read put assms(9,10) cors_writer_fresh(1), of t1 t2]
  obtain b w' where up: "upload h ord t1 t2 ?r (snd s) cors_writer = Returned b w'" "status_of w' = 201"
    and get: "fst (asset_get (rq_value ?r) (bs_cache b)) =
      Some \<lparr>a_data = body, a_contentType = upload_type ?r, a_size = int (length body), a_cachedAt = t2\<rparr>"
    by metis
  have one: "main_server url g env now h ord t1 t2 r s new_writer = Returned (fst s, b) w'"
    by (rule main_served [where rt = Upload and v = name])
      (simp_all add: assms(5) asset_path_found(1) [OF assms(3)] asset_routes_def on_assets_def up(1))
  let ?b = "b\<lparr>bs_cache := snd (asset_get name (bs_cache b))\<rparr>"
  let ?w = "write_body body (asset_headers (upload_type ?r) (int (length body)) ''HIT'' cors_writer)"
  have "serveAsset h ord' t4 ?r' b cors_writer = Returned ?b ?w"
    using serve_hit [OF assms(1), of ?r' b _ ord' t4 cors_writer] assms(2) get by simp
  then have two: "main_server url g env' now' h ord' t3 t4 r' (fst s, b) new_writer = Returned (fst s, ?b) ?w"
    by (intro main_served [where rt = ServeAsset and v = name])
      (simp_all add: assms(6) asset_path_found(3) [OF assms(4)] asset_routes_def on_assets_def)
  have "bs_world ?b = bs_world b" by simp
  with one up(2) two served_fresh [OF cors_writer_fresh] show ?thesis
    by (intro exI [of _ "(fst s, b)"] exI [of _ w'] exI [of _ "(fst s, ?b)"] exI [of _ ?w]) (simp only: fst_conv snd_conv simp_thms)
qed

theorem http_upload_then_serve_witness:
  "\<exists>s' w' s'' w''.
    main_server (\<lambda>u. u) demo_config (\<lambda>_. (at_time 0, Runs False, \<lambda>k. FetchPanic)) 0 (mem_handler True) (\<lambda>i m. m) 1 2
      ((file_request ''alert(1)'')\<lparr>rq_path := ''/upload/f%2Ejs''\<rparr>) (demo_manager, empty_state Map.empty) new_writer = Returned s' w' \<and>
    status_of w' = 201 \<and>
    main_server (\<lambda>u. u) demo_config (\<lambda>_. (at_time 0, Runs False, \<lambda>k. FetchPanic)) 5 (mem_handler True) (\<lambda>i m. m) 3 4
      ((file_request [])\<lparr>rq_method := ''GET'', rq_path := ''/assets/f.js''\<rparr>) s' new_writer = Returned s'' w'' \<and>
    served w'' ''alert(1)'' ''application/javascript'' ''HIT'' \<and> fst s'' = demo_manager \<and> bs_world (snd s'') = bs_world (snd s')"
proof -
  let ?r = "(file_request ''alert(1)'')\<lparr>rq_path := ''/upload/f%2Ejs''\<rparr>"
  have paths: "asset_path ''/upload/'' ''f.js'' ''/upload/f%2Ejs''" "asset_path ''/assets/'' ''f.js'' ''/assets/f.js''" by code_simp+
  have read: "read_limited ?r = Some ''alert(1)''" by (simp add: read_limited_def file_request_def max_upload_def)
  have type: "upload_type (?r\<lparr>rq_value := ''f.js''\<rparr>) = ''application/javascript''"
    using file_type [of "''alert(1)''"] by (simp add: file_request_def upload_type_def)
  show ?thesis
    using http_upload_then_serve [OF mem_handler_ready(1) [of True] _ _ _ _ _ read mem_put, where r' = "(file_request [])\<lparr>rq_method := ''GET'', rq_path := ''/assets/f.js''\<rparr>"
        and name = "''f.js''" and s = "(demo_manager, empty_state Map.empty)" and url = "\<lambda>u. u" and g = demo_config
        and ord = "\<lambda>i m. m" and ord' = "\<lambda>i m. m" and now = 0 and now' = 5 and ?t1.0 = 1 and ?t2.0 = 2 and ?t3.0 = 3 and ?t4.0 = 4
        and env = "\<lambda>_. (at_time 0, Runs False, \<lambda>k. FetchPanic)" and env' = "\<lambda>_. (at_time 0, Runs False, \<lambda>k. FetchPanic)"]
      paths empty_state_inv(1) same_order type
    by (simp add: file_request_def)
qed

section \<open>The announced URL\<close>

text \<open>An upload announces \<open>/assets/\<close> and the name as it is, not escaped.\<close>

lemma escaped_clean:
  assumes "name \<noteq> []"
  shows "cleanPath (''/upload/'' @ escape_key name) = ''/upload/'' @ escape_key name"
proof -
  note q = escape_key_slash [of name] escape_key_dots [OF assms]
  have "clean_segments (''/upload/'' @ escape_key name) = [''upload'', escape_key name]"
    using q(2) by (simp add: clean_segments_def split_slashes_none [OF q(1)] clean_step_def)
  moreover have "last (escape_key name) \<noteq> CHR ''/''" using q last_in_set [of "escape_key name"] by fastforce
  ultimately show ?thesis using q(2) by (simp add: cleanPath_def)
qed

lemma every_name_uploadable: "\<exists>p. find_route ''POST'' p = Serve Upload name"
proof (cases "name = []")
  case True
  have "asset_path ''/upload/'' '''' ''/upload/''" by code_simp
  with True asset_path_found(1) show ?thesis by blast
next
  case False
  then have "asset_path ''/upload/'' name (''/upload/'' @ escape_key name)"
    by (intro asset_pathI escaped_clean path_unescape_escape_key)
  with asset_path_found(1) show ?thesis by blast
qed

lemma assets_found:
  assumes "find_route ''GET'' (''/assets/'' @ q) = Serve r v"
  shows "r = ServeAsset \<and> v = path_unescape q"
proof -
  have "first_segment (''/assets/'' @ q) = (''assets'', CHR ''/'' # q)" by (rule asset_segments)
  then have "path_matches [Lit ''assets'', Multi] (''/assets/'' @ q) = Some [path_unescape q]" by simp
  then have m: "match_method ''GET'' (''/assets/'' @ q) = Some (ServeAsset, [path_unescape q])"
    unfolding match_method_iff using asset_entries(2)
    by (intro bexI [of _ "''GET''"] exI [of _ "[Lit ''assets'', Multi]"]) (simp_all add: served_by_def del: path_matches.simps)
  with assms [unfolded find_route_Serve] show ?thesis by (auto simp: m)
qed

text \<open>What an accepted upload answers.\<close>

lemma upload_answer:
  assumes "ready h" and "rq_value r \<noteq> ''''" and "read_limited r = Some body"
    and "put_object (stores h) (minioBucket h) (rq_value r) body (upload_type r) (bs_world s) = (Inr n, w1)"
    and "asset_inv (bs_cache s)" and "range_order ord" and "w_sent w = None" and "w_body w = []"
  shows "\<exists>b w'. upload h ord t1 t2 r s w = Returned b w' \<and> status_of w' = 201 \<and>
    w_body w' = ''{\"status\":\"uploaded\",\"key\":\"'' @ rq_value r @ ''\",\"url\":\"'' @ (''/assets/'' @ rq_value r) @ ''\",\"size\":'' @ show_int n @
      '',\"content_type\":\"'' @ upload_type r @ ''\"}''"
proof -
  let ?a = "\<lparr>a_data = body, a_contentType = upload_type r, a_size = int (length body), a_cachedAt = t2\<rparr>"
  obtain c where c: "asset_set ord (rq_value r) ?a (bs_cache s) = Some c"
    using assms(5,6,2) by (rule asset_set_Some)
  let ?out = "''{\"status\":\"uploaded\",\"key\":\"'' @ rq_value r @ ''\",\"url\":\"'' @ (''/assets/'' @ rq_value r) @ ''\",\"size\":'' @ show_int n @
      '',\"content_type\":\"'' @ upload_type r @ ''\"}''"
  define out where "out = ?out"
  have "\<exists>b. upload h ord t1 t2 r s w = Returned b (write_body out (write_header 201 (json_header w)))"
    using assms(1-4) c by (simp add: upload_def Let_def split_beta out_def)
  moreover have "status_of (write_body out (write_header 201 (json_header w))) = 201"
    "w_body (write_body out (write_header 201 (json_header w))) = out"
    using json_answers(4) [OF assms(7,8)] assms(7,8) by (simp_all add: json_header_def writer_simps)
  ultimately show ?thesis unfolding out_def by blast
qed

text \<open>The path that a client requests for a URL: what stands before a query or a fragment.  With an invalid escape the
  URL is none, and \<open>net/http\<close> refuses the request.\<close>

definition url_target :: "string \<Rightarrow> string option" where
  "url_target url =
     (let p = takeWhile (\<lambda>c. c \<noteq> CHR ''?'' \<and> c \<noteq> CHR ''#'') url in if percent_decode p = None then None else Some p)"

lemma percent_decode_length:
  "percent_decode s = Some t \<Longrightarrow> length t \<le> length s \<and> (length t = length s \<longrightarrow> CHR ''%'' \<notin> set s)"
proof (induction s arbitrary: t rule: percent_decode.induct)
  case (2 c cs)
  show ?case
  proof (cases "c = CHR ''%''")
    case True
    with "2.prems" obtain a b rest x y u where "cs = a # b # rest" "hex_val a = Some x" "hex_val b = Some y"
      "percent_decode rest = Some u" "t = char_of (x * 16 + y) # u"
      by (auto split: list.splits option.splits)
    with "2.IH"(1) [OF True] show ?thesis by fastforce
  next
    case False
    with "2.prems" obtain u where "percent_decode cs = Some u" "t = c # u" by auto
    with "2.IH"(2) [OF False] False show ?thesis by auto
  qed
qed simp

lemma percent_decode_plain: "CHR ''%'' \<notin> set s \<Longrightarrow> percent_decode s = Some s"
  by (induction s) auto

lemma percent_decode_prefix: "CHR ''%'' \<notin> set a \<Longrightarrow> percent_decode (a @ b) = map_option ((@) a) (percent_decode b)"
  by (cases "percent_decode b"; induction a) auto

lemma url_target_assets:
  "url_target (''/assets/'' @ name) =
    (let q = takeWhile (\<lambda>c. c \<noteq> CHR ''?'' \<and> c \<noteq> CHR ''#'') name in
     if percent_decode q = None then None else Some (''/assets/'' @ q))"
proof -
  let ?P = "\<lambda>c. c \<noteq> CHR ''?'' \<and> c \<noteq> CHR ''#''"
  have "takeWhile ?P (''/assets/'' @ name) = ''/assets/'' @ takeWhile ?P name" by simp
  moreover have "percent_decode (''/assets/'' @ q) = None \<longleftrightarrow> percent_decode q = None" for q
    by (subst percent_decode_prefix) simp_all
  ultimately show ?thesis unfolding url_target_def Let_def by (simp only:)
qed

text \<open>Following the URL \<open>/assets/\<close> and a name serves that name.\<close>

lemma assets_url_serves:
  "(\<exists>p. url_target (''/assets/'' @ name) = Some p \<and> find_route ''GET'' p = Serve ServeAsset name) \<longleftrightarrow>
    set name \<inter> {CHR ''?'', CHR ''#'', CHR ''%''} = {} \<and> cleanPath (''/assets/'' @ name) = ''/assets/'' @ name" (is "?serves \<longleftrightarrow> ?plain")
proof
  assume ?plain
  then have plain: "takeWhile (\<lambda>c. c \<noteq> CHR ''?'' \<and> c \<noteq> CHR ''#'') name = name" "percent_decode name = Some name"
    by (auto simp: takeWhile_eq_all_conv intro: percent_decode_plain)
  have "find_route ''GET'' (''/assets/'' @ name) = Serve ServeAsset (path_unescape name)"
    by (rule multi_route [OF asset_entries(2) _ asset_segments(2)]) (use \<open>?plain\<close> in simp_all)
  then have "find_route ''GET'' (''/assets/'' @ name) = Serve ServeAsset name"
    unfolding path_unescape_def plain(2) option.case .
  moreover have "url_target (''/assets/'' @ name) = Some (''/assets/'' @ name)"
    unfolding url_target_assets Let_def plain by (simp only: option.distinct if_False)
  ultimately show ?serves by blast
next
  assume ?serves
  define q where "q = takeWhile (\<lambda>c. c \<noteq> CHR ''?'' \<and> c \<noteq> CHR ''#'') name"
  from \<open>?serves\<close> have q: "percent_decode q \<noteq> None" "find_route ''GET'' (''/assets/'' @ q) = Serve ServeAsset name"
    unfolding url_target_assets q_def [symmetric] Let_def by (auto split: if_splits)
  from q(1) assets_found [OF q(2)] have name: "percent_decode q = Some name" by (auto simp: path_unescape_def)
  have "length q \<le> length name" by (simp add: q_def length_takeWhile_le)
  with percent_decode_length [OF name] have "length q = length name" "CHR ''%'' \<notin> set q" by auto
  moreover from this have "q = name"
    using takeWhile_dropWhile_id [of "\<lambda>c. c \<noteq> CHR ''?'' \<and> c \<noteq> CHR ''#''" name] by (metis append_eq_conv_conj q_def take_all_iff order_refl)
  moreover have "\<forall>c\<in>set q. c \<noteq> CHR ''?'' \<and> c \<noteq> CHR ''#''" by (auto simp: q_def dest: set_takeWhileD)
  ultimately show ?plain using q(2) by (auto simp: find_route_Serve)
qed

text \<open>C31: An upload that succeeds answers 201 with a URL, \<open>/assets/\<close> and the name as it is, not escaped, and following
  it serves the asset only when the name has no \<open>?\<close>, \<open>#\<close> or \<open>%\<close> and is a clean path below \<open>/assets/\<close>: a query or a fragment
  cuts the name, an escape turns into another byte or makes the URL invalid, and \<open>a//b\<close> and \<open>../x\<close> lead elsewhere.
  Yet every name but the empty one can be uploaded, with its path escaped (\<open>every_name_uploadable\<close>).\<close>

theorem announced_url:
  assumes "ready h" and "name \<noteq> ''''" and "asset_path ''/upload/'' name (rq_path r)" and "rq_method r = ''POST''"
    and "read_limited r = Some body"
    and "put_object (stores h) (minioBucket h) name body (upload_type (r\<lparr>rq_value := name\<rparr>)) (bs_world (snd s)) = (Inr n, w1)"
    and "asset_inv (bs_cache (snd s))" and "range_order ord"
  shows "\<exists>s' w' url. main_server render g env now h ord t1 t2 r s new_writer = Returned s' w' \<and> status_of w' = 201 \<and>
    w_body w' = ''{\"status\":\"uploaded\",\"key\":\"'' @ name @ ''\",\"url\":\"'' @ url @ ''\",\"size\":'' @ show_int n @
      '',\"content_type\":\"'' @ upload_type (r\<lparr>rq_value := name\<rparr>) @ ''\"}'' \<and>
    ((\<exists>p. url_target url = Some p \<and> find_route ''GET'' p = Serve ServeAsset name) \<longleftrightarrow>
      set name \<inter> {CHR ''?'', CHR ''#'', CHR ''%''} = {} \<and> cleanPath (''/assets/'' @ name) = ''/assets/'' @ name)"
proof -
  let ?r = "r\<lparr>rq_value := name\<rparr>"
  have read: "read_limited ?r = Some body" using assms(5) by (auto simp: read_limited_def split: if_splits)
  have ne: "rq_value ?r \<noteq> ''''"
    and put: "put_object (stores h) (minioBucket h) (rq_value ?r) body (upload_type ?r) (bs_world (snd s)) = (Inr n, w1)"
    using assms(2,6) by simp_all
  from upload_answer [OF assms(1) ne read put assms(7,8) cors_writer_fresh, of t1 t2]
  obtain b w' where up: "upload h ord t1 t2 ?r (snd s) cors_writer = Returned b w'" "status_of w' = 201"
    and body: "w_body w' = ''{\"status\":\"uploaded\",\"key\":\"'' @ rq_value ?r @ ''\",\"url\":\"'' @ (''/assets/'' @ rq_value ?r) @ ''\",\"size\":'' @ show_int n @
      '',\"content_type\":\"'' @ upload_type ?r @ ''\"}''" by blast
  have key: "rq_value ?r = name" by simp
  have served: "main_server render g env now h ord t1 t2 r s new_writer = Returned (fst s, b) w'"
    by (rule main_served [where rt = Upload and v = name])
      (simp_all add: assms(4) asset_path_found(1) [OF assms(3)] asset_routes_def on_assets_def up(1))
  show ?thesis
    by (intro exI [of _ "(fst s, b)"] exI [of _ w'] exI [of _ "''/assets/'' @ name"] conjI served up(2) body [unfolded key] assets_url_serves)
qed

text \<open>The name \<open>50%\<close> is announced under a URL that is none.\<close>

theorem announced_url_witness:
  "\<exists>s' w' url.
    main_server (\<lambda>u. u) demo_config (\<lambda>_. (at_time 0, Runs False, \<lambda>k. FetchPanic)) 0 (mem_handler True) (\<lambda>i m. m) 1 2
      ((file_request ''x'')\<lparr>rq_path := ''/upload/50%25''\<rparr>) (demo_manager, empty_state Map.empty) new_writer = Returned s' w' \<and>
    status_of w' = 201 \<and> (\<nexists>p. url_target url = Some p \<and> find_route ''GET'' p = Serve ServeAsset ''50%'') \<and>
    w_body w' = ''{\"status\":\"uploaded\",\"key\":\"'' @ ''50%'' @ ''\",\"url\":\"'' @ url @ ''\",\"size\":'' @ show_int 1 @
      '',\"content_type\":\"'' @ ''application/octet-stream'' @ ''\"}''"
proof -
  let ?r = "(file_request ''x'')\<lparr>rq_path := ''/upload/50%25''\<rparr>"
  have path: "asset_path ''/upload/'' ''50%'' (rq_path ?r)" and r: "rq_method ?r = ''POST''"
    by code_simp (simp add: file_request_def)
  have read: "read_limited ?r = Some ''x''" by (simp add: read_limited_def file_request_def max_upload_def)
  have type: "upload_type (?r\<lparr>rq_value := ''50%''\<rparr>) = ''application/octet-stream''"
    unfolding upload_type_def by (simp add: file_request_def) code_simp
  have "\<exists>s' w' url. main_server (\<lambda>u. u) demo_config (\<lambda>_. (at_time 0, Runs False, \<lambda>k. FetchPanic)) 0 (mem_handler True) (\<lambda>i m. m) 1 2
      ?r (demo_manager, empty_state Map.empty) new_writer = Returned s' w' \<and> status_of w' = 201 \<and>
    w_body w' = ''{\"status\":\"uploaded\",\"key\":\"'' @ ''50%'' @ ''\",\"url\":\"'' @ url @ ''\",\"size\":'' @ show_int (int (length ''x'')) @
      '',\"content_type\":\"'' @ upload_type (?r\<lparr>rq_value := ''50%''\<rparr>) @ ''\"}'' \<and>
    ((\<exists>p. url_target url = Some p \<and> find_route ''GET'' p = Serve ServeAsset ''50%'') \<longleftrightarrow>
      set ''50%'' \<inter> {CHR ''?'', CHR ''#'', CHR ''%''} = {} \<and> cleanPath (''/assets/'' @ ''50%'') = ''/assets/'' @ ''50%'')"
    by (rule announced_url [OF mem_handler_ready(1) _ path r read mem_put]) (simp_all only: empty_state_inv(1) same_order snd_conv list.distinct not_False_eq_True)
  moreover have "\<not> (set ''50%'' \<inter> {CHR ''?'', CHR ''#'', CHR ''%''} = {})" "show_int (int (length ''x'')) = show_int 1" by simp_all
  ultimately show ?thesis unfolding type by (elim exE conjE) (intro exI conjI, assumption+, blast, simp only:)
qed

lemma announced_elsewhere:
  "find_route ''GET'' (''/assets/'' @ ''50%25'') = Serve ServeAsset ''50%''"
  "find_route ''GET'' (''/assets/'' @ ''../cache/x'') = MovedTo ''/cache/x''"
  by code_simp+

section \<open>The list of the names\<close>

text \<open>A name that is made of pieces, with the three characters between them that end one JSON string and begin
  the next.\<close>

fun glued :: "bytes list \<Rightarrow> string" where
  "glued [] = []"
| "glued [p] = p"
| "glued (p # ps) = p @ [dquote, CHR '','', dquote] @ glued ps"

lemma glued_commas: "ps \<noteq> [] \<Longrightarrow> dquote # glued ps @ [dquote] = commas (map (json_text (\<lambda>x. x) \<circ> JString) ps)"
  by (induction ps rule: glued.induct) (simp_all add: raw_text_def)

lemma commas_append: "xs \<noteq> [] \<Longrightarrow> ys \<noteq> [] \<Longrightarrow> commas (xs @ ys) = commas xs @ CHR '','' # commas ys"
  by (induction xs) (auto simp: commas_Cons)

lemma commas_concat: "[] \<notin> set xss \<Longrightarrow> commas (map commas xss) = commas (concat xss)"
proof (induction xss)
  case (Cons xs xss)
  show ?case
  proof (cases "xss = []")
    case False
    with Cons.prems have "concat xss \<noteq> []" by (cases xss) auto
    from commas_append [OF _ this, of xs] Cons False show ?thesis by (auto simp: commas_Cons)
  qed simp
qed simp

lemma list_items_body:
  assumes "w_sent w \<noteq> None"
  shows "w_body (list_items i keys w) = w_body w @
      (if 0 < i \<and> keys \<noteq> [] then '','' else []) @ commas (map (\<lambda>k. dquote # k @ [dquote]) keys) \<and>
    w_sent (list_items i keys w) = w_sent w"
  using assms
proof (induction keys arbitrary: i w)
  case (Cons k keys)
  let ?w = "write_body ([dquote] @ k @ [dquote]) (if 0 < i then write_body '','' w else w)"
  obtain x where x: "w_sent w = Some x" using Cons.prems by blast
  moreover from x have "w_sent ?w = w_sent w" by (simp add: writer_simps)
  ultimately show ?case using Cons.IH [of ?w "Suc i"] by (simp add: writer_simps commas_Cons)
qed simp

lemma list_body:
  assumes "has_redis h" and "redis_smembers (stores h) ''assets:index'' (bs_world s) = (Some keys, w1)"
    and "w_sent w = None" and "w_body w = []"
  shows "\<exists>w'. listAssets h s w = Returned (s\<lparr>bs_world := w1\<rparr>) w' \<and> status_of w' = 200 \<and>
    header_of w' ''Content-Type'' = Some ''application/json'' \<and>
    w_body w' = ''{\"count\":'' @ show_nat (length keys) @ '',\"assets\":['' @ commas (map (\<lambda>k. dquote # k @ [dquote]) keys) @ '']}''"
proof -
  let ?w = "write_body (''{\"count\":'' @ show_nat (length keys) @ '',\"assets\":['') (json_header w)"
  have "w_sent ?w = Some (200, w_header (json_header w))" using assms(3) by (simp add: json_header_def writer_simps)
  moreover have "map_of (w_header (json_header w)) ''Content-Type'' = Some ''application/json''"
    by (simp add: json_header_def writer_simps)
  moreover have "w_body ?w = ''{\"count\":'' @ show_nat (length keys) @ '',\"assets\":[''"
    using assms(4) by (simp add: json_header_def writer_simps)
  ultimately show ?thesis
    using assms(1,2) list_items_body [of ?w 0 keys] by (simp add: listAssets_def response_of_def writer_simps)
qed

text \<open>C37: \<open>GET /list-assets\<close>: the names are put between quotes as they are.  When every name is a JSON string body, or
  several glued together by quote, comma, quote, the answer is JSON; its count is the number of names, but
  its list has one element for each piece, so that a single name can stand for any number of elements.\<close>

theorem list_assets_json:
  assumes "has_redis h" and "redis_smembers (stores h) ''assets:index'' (bs_world (snd s)) = (Some (map glued pss), w1)"
    and "[] \<notin> set pss" and "list_all raw_ok (concat pss)" and "rq_method r = ''GET''" and "rq_path r = ''/list-assets''"
  shows "\<exists>w'. main_server url g env now h ord t1 t2 r s new_writer = Returned (fst s, (snd s)\<lparr>bs_world := w1\<rparr>) w' \<and>
    status_of w' = 200 \<and> header_of w' ''Content-Type'' = Some ''application/json'' \<and>
    json_parse (w_body w') = Some (JObject
      [(''count'', json_int (int (length pss))), (''assets'', JArray (map JString (concat pss)))])"
proof -
  let ?j = "JObject [(''count'', json_int (int (length pss))), (''assets'', JArray (map JString (concat pss)))]"
  obtain w' where w': "listAssets h (snd s) cors_writer = Returned ((snd s)\<lparr>bs_world := w1\<rparr>) w'" "status_of w' = 200"
      "header_of w' ''Content-Type'' = Some ''application/json''"
    and body: "w_body w' = ''{\"count\":'' @ show_nat (length pss) @ '',\"assets\":['' @
      commas (map (\<lambda>k. dquote # k @ [dquote]) (map glued pss)) @ '']}''"
    using list_body [OF assms(1,2) cors_writer_fresh] by auto
  have glue: "map (\<lambda>k. dquote # k @ [dquote]) (map glued pss) = map commas (map (map (json_text (\<lambda>x. x) \<circ> JString)) pss)"
    using assms(3) by (induction pss) (auto simp: glued_commas)
  have "[] \<notin> set (map (map (json_text (\<lambda>x. x) \<circ> JString)) pss)" using assms(3) by auto
  from commas_concat [OF this] have "commas (map (\<lambda>k. dquote # k @ [dquote]) (map glued pss)) = commas (map (json_text (\<lambda>x. x)) (map JString (concat pss)))"
    unfolding glue by (simp add: map_concat)
  then have printed: "w_body w' = json_text (\<lambda>x. x) ?j"
    by (simp add: body json_int_def show_int_def raw_text_def)
  have keys: "raw_ok ''count''" "raw_ok ''assets''" by code_simp+
  have flat: "foldr max (map nesting (map JString ps)) 0 = 0" for ps by (induction ps) simp_all
  have "json_ok ?j" using assms(4) keys by (auto simp: json_int_def show_int_number list_all_iff)
  moreover have "nesting ?j \<le> max_nesting" using flat by (simp add: json_int_def max_nesting_def comp_def)
  ultimately have "json_parse (w_body w') = Some ?j" using parse_text [of "\<lambda>x. x" ?j] by (simp add: printed)
  moreover have "find_route ''GET'' ''/list-assets'' = Serve ListAssets []" by code_simp
  then have "main_server url g env now h ord t1 t2 r s new_writer = Returned (fst s, (snd s)\<lparr>bs_world := w1\<rparr>) w'"
    by (intro main_served [where rt = ListAssets and v = "[]"]) (simp_all add: assms(5,6) asset_routes_def on_assets_def w'(1))
  ultimately show ?thesis using w'(2,3) by (intro exI [of _ w'] conjI) assumption+
qed

theorem list_assets_json_witness:
  "\<exists>s' w'. main_server (\<lambda>u. u) demo_config (\<lambda>_. (at_time 0, Runs False, \<lambda>k. FetchPanic)) 0
      ((mem_handler True)\<lparr>stores := (mem_backend True)\<lparr>redis_smembers := \<lambda>k m. (Some [''a'', ''b\",\"c''], m)\<rparr>\<rparr>) (\<lambda>i m. m) 1 2
      ((file_request [])\<lparr>rq_method := ''GET'', rq_path := ''/list-assets''\<rparr>) (demo_manager, empty_state Map.empty) new_writer = Returned s' w' \<and>
    json_parse (w_body w') = Some (JObject
      [(''count'', JNumber ''2''), (''assets'', JArray [JString ''a'', JString ''b'', JString ''c''])])"
proof -
  let ?h = "(mem_handler True)\<lparr>stores := (mem_backend True)\<lparr>redis_smembers := \<lambda>k m. (Some [''a'', ''b\",\"c''], m)\<rparr>\<rparr>"
  let ?s = "(demo_manager, empty_state Map.empty)"
  have names: "map glued [[''a''], [''b'', ''c'']] = [''a'', ''b\",\"c'']" "list_all raw_ok (concat [[''a''], [''b'', ''c'']])"
    "show_int 2 = ''2''" by code_simp+
  have h: "has_redis ?h" "redis_smembers (stores ?h) ''assets:index'' (bs_world (snd ?s)) = (Some (map glued [[''a''], [''b'', ''c'']]), bs_world (snd ?s))"
    using names(1) by (simp_all add: mem_handler_def mem_backend_def)
  show ?thesis
    using list_assets_json [OF h, of "(file_request [])\<lparr>rq_method := ''GET'', rq_path := ''/list-assets''\<rparr>" "\<lambda>u. u" demo_config
        "\<lambda>_. (at_time 0, Runs False, \<lambda>k. FetchPanic)" 0 "\<lambda>i m. m" 1 2] names
    by (auto simp: file_request_def json_int_def)
qed

end
