(* ===== verification/Server_Run.thy ===== *)
theory Server_Run
  imports Asset_Routes
begin

text \<open>
  The server over time: the state \<open>main\<close> of \<open>cmd/server/main.go\<close> starts with, and a run of it, a sequence
  of HTTP requests on any routes with the background writes of the manager between them.  An invariant of
  the operations of the manager is an invariant of the whole server (locale \<open>manager_invariant\<close>).
\<close>

section \<open>Start and runs\<close>

text \<open>The manager that \<open>main\<close> sets up from a configuration, on a Redis in the state \<open>r\<close>, and the asset cache of
  512 MiB on stores in the state \<open>w\<close>.\<close>

definition server_config :: "'r redis_client \<Rightarrow> config \<Rightarrow> 'r manager_config" where
  "server_config rc cfg = \<lparr>g_l2 = \<lparr>l2_client = rc, l2_ttl = L2TTL cfg\<rparr>, g_useSF = EnableSingleflight cfg\<rparr>"

definition server_manager :: "config \<Rightarrow> 'r \<Rightarrow> 'r manager" where
  "server_manager cfg r = NewManager (NewL1 (L1MaxSize cfg) (L1TTL cfg)) r metrics_zero"

definition server_assets :: "'w \<Rightarrow> 'w binary_state" where
  "server_assets w = \<lparr>bs_cache = newAssetCache (512 * 1024 * 1024), bs_world = w\<rparr>"

text \<open>What a request meets: the environments of the \<open>Get\<close>s it makes, the clock, and the order in which a range
  visits the map of the assets.\<close>

record request_env =
  ev_gets :: "nat \<Rightarrow> get_env"
  ev_now :: time
  ev_order :: "nat \<Rightarrow> asset_order"
  ev_meta :: time
  ev_cache :: time

datatype server_event = HttpRequest request request_env | BackgroundWrite nat

text \<open>The answers to the requests, and the state after them; \<open>None\<close> when a request has no answer, because its
  handler hangs or panics through the middleware.\<close>

fun server_run :: "(string \<Rightarrow> string) \<Rightarrow> 'r manager_config \<Rightarrow> 'w binary_handler \<Rightarrow> server_event list \<Rightarrow>
    'r manager \<times> 'w binary_state \<Rightarrow> (writer list \<times> 'r manager \<times> 'w binary_state) option" where
  "server_run url g h [] s = Some ([], s)"
| "server_run url g h (HttpRequest r e # evs) s =
     (case main_server url g (ev_gets e) (ev_now e) h (ev_order e) (ev_meta e) (ev_cache e) r s new_writer of
        Returned s' w \<Rightarrow> map_option (\<lambda>(ws, s''). (w # ws, s'')) (server_run url g h evs s')
      | _ \<Rightarrow> None)"
| "server_run url g h (BackgroundWrite i # evs) s = server_run url g h evs (background_set g i (fst s), snd s)"

section \<open>Handlers that come back\<close>

definition comes_back :: "('s \<Rightarrow> bool) \<Rightarrow> 's outcome \<Rightarrow> bool" where
  "comes_back J out = (case out of Returned s w \<Rightarrow> J s | Panicked s w \<Rightarrow> J s | Hangs \<Rightarrow> False)"

lemma comes_back_simps [simp]:
  "comes_back J (Returned s w) = J s" "comes_back J (Panicked s w) = J s" "comes_back J Hangs = False"
  by (simp_all add: comes_back_def)

lemma stack_answers:
  assumes "\<And>w. comes_back K (mux r s w)" and "K s"
  shows "\<exists>s' w'. http_stack mux r s w = Returned s' w' \<and> K s'"
proof -
  let ?w = "header_set ''Access-Control-Allow-Headers'' ''Content-Type''
    (header_set ''Access-Control-Allow-Methods'' ''GET, PUT, POST, DELETE, OPTIONS''
      (header_set ''Access-Control-Allow-Origin'' ''*'' w))"
  show ?thesis
    using assms(1) [of ?w] assms(2)
    by (cases "mux r s ?w") (auto simp: http_stack_def LoggingMiddleware_def CORSMiddleware_def RecoveryMiddleware_def Let_def)
qed

text \<open>The handlers of the assets.\<close>

abbreviation assets_ok :: "'w binary_state \<Rightarrow> bool" where
  "assets_ok b \<equiv> asset_inv (bs_cache b)"

lemma asset_handlers:
  assumes "assets_ok b" and "range_order ord"
  shows "comes_back assets_ok (upload h ord t1 t2 r b w)" "comes_back assets_ok (serveAsset h ord t2 r b w)"
    "comes_back assets_ok (getMeta h r b w)" "comes_back assets_ok (deleteAsset h r b w)" "comes_back assets_ok (listAssets h b w)"
proof -
  show "comes_back assets_ok (upload h ord t1 t2 r b w)" "comes_back assets_ok (serveAsset h ord t2 r b w)"
    using handlers_return [OF assms, of h t1 t2 r w] by (elim conjE exE; simp)+
  show "comes_back assets_ok (getMeta h r b w)" "comes_back assets_ok (listAssets h b w)"
    using assms(1) by (simp_all add: getMeta_def listAssets_def Let_def split: prod.split option.split list.split)
  show "comes_back assets_ok (deleteAsset h r b w)"
    using assms(1) by (simp add: deleteAsset_def Let_def split_beta asset_remove_inv)
qed

lemma on_assets_back:
  "comes_back assets_ok (h r (snd s) w) \<Longrightarrow> J (fst s) \<Longrightarrow> comes_back (\<lambda>s. J (fst s) \<and> assets_ok (snd s)) (on_assets h r s w)"
  by (cases "h r (snd s) w") (simp_all add: on_assets_def)

lemma on_manager_back:
  "comes_back J (h r (fst s) w) \<Longrightarrow> assets_ok (snd s) \<Longrightarrow> comes_back (\<lambda>s. J (fst s) \<and> assets_ok (snd s)) (on_manager h r s w)"
  by (cases "h r (fst s) w") (simp_all add: on_manager_def)

section \<open>Invariants of the manager\<close>

locale manager_invariant =
  fixes g :: "'r manager_config" and J :: "'r manager \<Rightarrow> bool"
  assumes step: "J s \<Longrightarrow> J (manager_step g op s)"
begin

lemma get: "J s \<Longrightarrow> J (snd (manager_get g env k s))"
  using step [of s "DoGet (fst env) (fst (snd env)) (snd (snd env)) k"] by (simp add: manager_get_def split_beta)

lemma put: "J s \<Longrightarrow> J (snd (Manager_Set g now k v s))"
  using step [of s "DoSet now k v"] by simp

lemma invalidate: "J s \<Longrightarrow> J (snd (Invalidate g k s))"
  using step [of s "DoInvalidate k"] by simp

lemma background: "J s \<Longrightarrow> J (background_set g i s)"
  using step [of s "DoBackground i"] by simp

lemma batch: "J s \<Longrightarrow> J (snd (batch_loop g env i keys results s))"
proof (induction keys arbitrary: i results s)
  case (Cons k keys)
  obtain out s' where run: "manager_get g (env i) k s = (out, s')" by (rule prod.exhaust)
  with get [OF Cons.prems, of "env i" k] have "J s'" by simp
  with run Cons.IH show ?case by (simp split: fetch_result.split)
qed simp

text \<open>Every handler of the caches comes back, and keeps the invariant.\<close>

lemma handlers:
  assumes "J s"
  shows "comes_back J (getCache g env r s w)" "comes_back J (putCache g now r s w)" "comes_back J (deleteCache g r s w)"
    "comes_back J (batchGet g envs r s w)" "comes_back J (getStats g r s w)" "comes_back J (health r s w)"
proof -
  show "comes_back J (getCache g env r s w)"
    using assms get [OF assms, of env "rq_value r"]
    by (auto simp: getCache_def split: prod.split fetch_result.split)
  show "comes_back J (putCache g now r s w)"
    using assms put [OF assms] by (auto simp: putCache_def split: prod.split option.split) (metis snd_conv)+
  show "comes_back J (deleteCache g r s w)"
    using assms invalidate [OF assms, of "rq_value r"] by (auto simp: deleteCache_def split: prod.split option.split)
  show "comes_back J (batchGet g envs r s w)"
    using assms batch [OF assms] by (auto simp: batchGet_def split: prod.split option.split) (metis snd_conv)+
  show "comes_back J (getStats g r s w)" "comes_back J (health r s w)"
    using assms by (simp_all add: getStats_def health_def)
qed

lemma routes_back:
  assumes "J (fst s)" and "assets_ok (snd s)" and "range_order ord"
  shows "comes_back (\<lambda>s. J (fst s) \<and> assets_ok (snd s)) (server_routes g env now (asset_routes h ord t1 t2) rt r s w)"
  using assms
  by (cases rt) (simp_all add: server_routes_def asset_routes_def on_manager_back on_assets_back handlers asset_handlers)

lemma main_answers:
  assumes "J (fst s)" and "assets_ok (snd s)" and "range_order ord"
  shows "\<exists>s' w'. main_server url g env now h ord t1 t2 r s new_writer = Returned s' w' \<and> J (fst s') \<and> assets_ok (snd s')"
proof -
  have "comes_back (\<lambda>s. J (fst s) \<and> assets_ok (snd s)) (serve_mux url (server_routes g env now (asset_routes h ord t1 t2)) r s w)" for w
    using routes_back [OF assms] assms(1,2) by (simp add: serve_mux_def split: routed.split)
  from stack_answers [where K = "\<lambda>s. J (fst s) \<and> assets_ok (snd s)" 
      and mux = "serve_mux url (server_routes g env now (asset_routes h ord t1 t2))" and r = r and s = s and w = new_writer, OF this] assms(1,2) show ?thesis
    by (simp add: main_server_def http_server_def)
qed

lemma run_answers:
  assumes "J (fst s)" and "assets_ok (snd s)" and "\<forall>r e. HttpRequest r e \<in> set evs \<longrightarrow> range_order (ev_order e)"
  shows "\<exists>ws s'. server_run url g h evs s = Some (ws, s') \<and> J (fst s') \<and> assets_ok (snd s') \<and>
    length ws = length (filter (\<lambda>ev. case ev of HttpRequest r e \<Rightarrow> True | _ \<Rightarrow> False) evs)"
  using assms
proof (induction evs arbitrary: s)
  case (Cons ev evs)
  show ?case
  proof (cases ev)
    case (HttpRequest r e)
    obtain s1 w1 where one: "main_server url g (ev_gets e) (ev_now e) h (ev_order e) (ev_meta e) (ev_cache e) r s new_writer = Returned s1 w1"
        "J (fst s1)" "assets_ok (snd s1)"
      using main_answers [OF Cons.prems(1,2), of "ev_order e"] Cons.prems(3) HttpRequest by (metis list.set_intros(1))
    with Cons.IH [OF one(2,3)] Cons.prems(3) HttpRequest show ?thesis by fastforce
  next
    case (BackgroundWrite i)
    with Cons.IH [of "(background_set g i (fst s), snd s)"] Cons.prems background show ?thesis by simp
  qed
qed simp

end

section \<open>The invariant of the server\<close>

definition manager_ok :: "'r manager_config \<Rightarrow> int \<Rightarrow> 'r manager \<Rightarrow> bool" where
  "manager_ok g n s \<longleftrightarrow> l1_inv (m_l1 s) \<and> capacity_is n (m_l1 s) \<and> counters_ok g (m_metrics s)"

lemma l1_capacity_ops:
  assumes "l1_inv c" and "capacity_is n c"
  shows "capacity_is n (L1_Set now k v c)" "capacity_is n (L1_Delete k c)" "capacity_is n (fst (snd (L1_Get now k (c, m))))"
  using l1_step_inv(3) [of "(c, m)" n "OpSet now k v"] l1_step_inv(3) [of "(c, m)" n "OpDelete k"]
    l1_step_inv(3) [of "(c, m)" n "OpGet now k"] assms by simp_all

lemma fetch_capacity:
  "l1_inv (m_l1 s) \<Longrightarrow> capacity_is n (m_l1 s) \<Longrightarrow> capacity_is n (m_l1 (snd (fetchFromOrigin useSF fl orig now key s)))"
  by (auto simp: fetchFromOrigin_def doOriginFetch_def split_beta Let_def l1_capacity_ops split: fetch_result.split flight.split)

lemma Get_capacity:
  assumes "l1_inv (m_l1 s)" and "capacity_is n (m_l1 s)"
  shows "capacity_is n (m_l1 (snd (Manager_Get g clk fl orig key s)))"
  using assms(1)
proof (cases rule: Get_cases [where s = s and clk = clk and key = key and g = g])
  case l2: (l2 v r')
  note M = l1_missed_inv [OF assms(1), of "t_l1 clk" key]
  have "capacity_is n (m_l1 (l1_missed (t_l1 clk) key s))" using assms by (simp add: l1_missed_def l1_capacity_ops)
  with l2 assms M show ?thesis by (simp add: Get_L2_hit l1_capacity_ops)
next
  case (origin e r')
  note M = l1_missed_inv [OF assms(1), of "t_l1 clk" key]
  have "capacity_is n (m_l1 (l1_missed (t_l1 clk) key s))" using assms by (simp add: l1_missed_def l1_capacity_ops)
  with origin assms M show ?thesis by (simp add: Get_origin split_beta fetch_capacity)
qed (simp_all add: assms Get_L1_hit)

lemma manager_ok_step:
  assumes "manager_ok g n s"
  shows "manager_ok g n (manager_step g op s)"
proof -
  have "capacity_is n (m_l1 (manager_step g op s))"
    using assms
    by (cases op) (auto simp: manager_ok_def Get_capacity l1_capacity_ops Manager_Set_def Invalidate_def background_set_def Let_def split_beta)
  with manager_step_ok [of s g op] assms show ?thesis by (simp add: manager_ok_def)
qed

interpretation served: manager_invariant g "manager_ok g n" for g :: "'r manager_config" and n
  by unfold_locales (rule manager_ok_step)

section \<open>Properties\<close>

lemma server_start_ok:
  "manager_ok g (perShard_of (L1MaxSize cfg)) (server_manager cfg r)" "assets_ok (server_assets w)"
  by (simp_all add: manager_ok_def server_manager_def server_assets_def NewManager_def NewL1_inv NewL1_capacity counters_ok_def
      metrics_zero_def asset_inv_def newAssetCache_def)

text \<open>The server serves.  From its start with any configuration, in every run of requests to any path with any
  method and body, with background writes in between and whatever Redis, the origin and the object store
  answer, each request is answered: no handler hangs and no panic gets out.  All along the in-process cache
  stays within its capacity, every request it served is a hit or a miss and every miss one of Redis, and
  the asset cache keeps its invariant.\<close>

theorem server_serves:
  assumes "\<forall>r e. HttpRequest r e \<in> set evs \<longrightarrow> range_order (ev_order e)"
  shows "\<exists>ws m b. server_run url (server_config rc cfg) h evs (server_manager cfg r, server_assets w) = Some (ws, m, b) \<and>
    length ws = length (filter (\<lambda>ev. case ev of HttpRequest r e \<Rightarrow> True | _ \<Rightarrow> False) evs) \<and>
    int (L1_Stats (m_l1 m)) \<le> 256 * perShard_of (L1MaxSize cfg) \<and>
    TotalRequests (m_metrics m) = L1Hits (m_metrics m) + L1Misses (m_metrics m) \<and>
    L1Misses (m_metrics m) = L2Hits (m_metrics m) + L2Misses (m_metrics m) \<and> asset_inv (bs_cache b)"
proof -
  let ?s = "(server_manager cfg r, server_assets w)"
  have "manager_ok (server_config rc cfg) (perShard_of (L1MaxSize cfg)) (fst ?s)" "assets_ok (snd ?s)"
    using server_start_ok by simp_all
  from served.run_answers [OF this assms, of url h] obtain ws m b where
    run: "server_run url (server_config rc cfg) h evs ?s = Some (ws, m, b)"
      "length ws = length (filter (\<lambda>ev. case ev of HttpRequest r e \<Rightarrow> True | _ \<Rightarrow> False) evs)"
    and ok: "manager_ok (server_config rc cfg) (perShard_of (L1MaxSize cfg)) m" "assets_ok b"
    by auto
  have "int (L1_Stats (m_l1 m)) \<le> 256 * perShard_of (L1MaxSize cfg)"
    using ok(1) by (auto simp: manager_ok_def capacity_is_def list_all_iff intro!: L1_Stats_bound)
  with run ok show ?thesis by (auto simp: manager_ok_def counters_ok_def)
qed

theorem server_serves_witness:
  "\<exists>w1 w2 m b. server_run (\<lambda>u. u) (server_config map_redis (Load (\<lambda>_. ''''))) (mem_handler True)
      [HttpRequest ((file_request ''x'')\<lparr>rq_path := ''/upload/f.js''\<rparr>)
         \<lparr>ev_gets = \<lambda>_. (at_time 0, Runs False, \<lambda>k. FetchPanic), ev_now = 0, ev_order = \<lambda>i m. m, ev_meta = 1, ev_cache = 2\<rparr>,
       BackgroundWrite 0,
       HttpRequest ((file_request [])\<lparr>rq_method := ''GET'', rq_path := ''/cache/k''\<rparr>)
         \<lparr>ev_gets = \<lambda>_. (at_time 3, Runs False, \<lambda>k. FetchPanic), ev_now = 3, ev_order = \<lambda>i m. m, ev_meta = 4, ev_cache = 5\<rparr>]
      (server_manager (Load (\<lambda>_. '''')) Map.empty, server_assets Map.empty) = Some ([w1, w2], m, b)"
proof -
  let ?e1 = "\<lparr>ev_gets = \<lambda>_. (at_time 0, Runs False, \<lambda>k. FetchPanic), ev_now = 0, ev_order = \<lambda>i m. m, ev_meta = 1, ev_cache = 2\<rparr>"
  let ?e2 = "\<lparr>ev_gets = \<lambda>_. (at_time 3, Runs False, \<lambda>k. FetchPanic), ev_now = 3, ev_order = \<lambda>i m. m, ev_meta = 4, ev_cache = 5\<rparr>"
  let ?evs = "[HttpRequest ((file_request ''x'')\<lparr>rq_path := ''/upload/f.js''\<rparr>) ?e1, BackgroundWrite 0,
    HttpRequest ((file_request [])\<lparr>rq_method := ''GET'', rq_path := ''/cache/k''\<rparr>) ?e2]"
  have "\<forall>r e. HttpRequest r e \<in> set ?evs \<longrightarrow> range_order (ev_order e)" by (auto simp: same_order)
  from server_serves [where evs = ?evs and url = "\<lambda>u. u" and rc = map_redis and cfg = "Load (\<lambda>_. '''')" and h = "mem_handler True"
      and r = Map.empty and w = Map.empty, OF this]
  show ?thesis by (auto simp: length_Suc_conv simp del: server_run.simps)
qed

end
