(* ===== verification/Grpc_Server.thy ===== *)
theory Grpc_Server
  imports Cache_Handler
begin

text \<open>
  \<open>internal/grpcserver/server.go\<close> with the messages of \<open>api/cachepb/cache.go\<close>: the seven methods on the
  state of the manager and the chain of interceptors around them.  There is no recovery interceptor:
  a panic of the origin in a method is \<open>Crash\<close>, the end of the process.
\<close>

section \<open>Messages\<close>

datatype cache_hit_source = Source_UNSPECIFIED | Source_L1 | Source_L2 | Source_ORIGIN

datatype rpc_error = KeyRequired | GetFailed go_error | BackendError string

text \<open>A method returns a response and an error, either of which may be nil.\<close>

datatype 'a rpc_result = Reply "'a option" "rpc_error option" | Crash

record get_response =
  gr_value :: bytes
  gr_source :: cache_hit_source
  gr_latency :: duration

record cache_entry =
  ce_value :: bytes
  ce_source :: cache_hit_source
  ce_found :: bool

record batch_get_response =
  bg_entries :: "(string, cache_entry) gomap"
  bg_hits :: "32 word"
  bg_misses :: "32 word"

record batch_set_response =
  bs_success :: "32 word"
  bs_errors :: "32 word"

record stats_response =
  sr_snapshot :: snapshot
  sr_l1_size :: "32 word"
  sr_conns :: nat

record health_response =
  hr_status :: string
  hr_redis_connected :: bool
  hr_uptime :: int

section \<open>Methods\<close>

text \<open>\<open>start\<close> and \<open>stop\<close> are the clock readings around the call of the manager.\<close>

definition rpc_Get :: "'r manager_config \<Rightarrow> get_env \<Rightarrow> time \<Rightarrow> time \<Rightarrow> string \<Rightarrow> 'r manager \<Rightarrow>
    get_response rpc_result \<times> 'r manager" where
  "rpc_Get g env start stop key s =
     (if key = '''' then (Reply None (Some KeyRequired), s)
      else case manager_get g env key s of
        (Fetched v, s') \<Rightarrow> (Reply (Some \<lparr>gr_value = v, gr_source = Source_L1, gr_latency = stop - start\<rparr>) None, s')
      | (FetchError err, s') \<Rightarrow> (Reply None (Some (GetFailed err)), s')
      | (FetchPanic, s') \<Rightarrow> (Crash, s'))"

text \<open>\<open>Success\<close> is true when there is no error; the request's TTL is not used.\<close>

definition rpc_Set :: "'r manager_config \<Rightarrow> time \<Rightarrow> string \<Rightarrow> bytes \<Rightarrow> int \<Rightarrow> 'r manager \<Rightarrow> bool rpc_result \<times> 'r manager" where
  "rpc_Set g now key value ttl_seconds s =
     (if key = '''' then (Reply None (Some KeyRequired), s)
      else let (err, s') = Manager_Set g now key value s
           in (Reply (Some (err = None)) (map_option BackendError err), s'))"

definition rpc_Delete :: "'r manager_config \<Rightarrow> string \<Rightarrow> 'r manager \<Rightarrow> bool rpc_result \<times> 'r manager" where
  "rpc_Delete g key s =
     (if key = '''' then (Reply None (Some KeyRequired), s)
      else let (err, s') = Invalidate g key s
           in (Reply (Some (err = None)) (map_option BackendError err), s'))"

fun batch_get_loop :: "'r manager_config \<Rightarrow> (nat \<Rightarrow> get_env) \<Rightarrow> nat \<Rightarrow> string list \<Rightarrow> batch_get_response \<Rightarrow>
    'r manager \<Rightarrow> batch_get_response rpc_result \<times> 'r manager" where
  "batch_get_loop g env i [] acc s = (Reply (Some acc) None, s)"
| "batch_get_loop g env i (key # keys) acc s =
     (case manager_get g (env i) key s of
        (Fetched v, s') \<Rightarrow> batch_get_loop g env (Suc i) keys
          (acc\<lparr>bg_entries := m_put key \<lparr>ce_value = v, ce_source = Source_UNSPECIFIED, ce_found = True\<rparr> (bg_entries acc), bg_hits := bg_hits acc + 1\<rparr>) s'
      | (FetchError err, s') \<Rightarrow> batch_get_loop g env (Suc i) keys
          (acc\<lparr>bg_entries := m_put key \<lparr>ce_value = [], ce_source = Source_UNSPECIFIED, ce_found = False\<rparr> (bg_entries acc), bg_misses := bg_misses acc + 1\<rparr>) s'
      | (FetchPanic, s') \<Rightarrow> (Crash, s'))"

definition rpc_BatchGet :: "'r manager_config \<Rightarrow> (nat \<Rightarrow> get_env) \<Rightarrow> string list \<Rightarrow> 'r manager \<Rightarrow>
    batch_get_response rpc_result \<times> 'r manager" where
  "rpc_BatchGet g env keys s = batch_get_loop g env 0 keys \<lparr>bg_entries = [], bg_hits = 0, bg_misses = 0\<rparr> s"

text \<open>An entry of the request is a pointer: \<open>None\<close> is nil, and reading its key panics.\<close>

fun batch_set_loop :: "'r manager_config \<Rightarrow> (nat \<Rightarrow> time) \<Rightarrow> nat \<Rightarrow> (string \<times> bytes) option list \<Rightarrow> batch_set_response \<Rightarrow>
    'r manager \<Rightarrow> batch_set_response rpc_result \<times> 'r manager" where
  "batch_set_loop g now i [] acc s = (Reply (Some acc) None, s)"
| "batch_set_loop g now i (None # es) acc s = (Crash, s)"
| "batch_set_loop g now i (Some (key, v) # es) acc s =
     (case Manager_Set g (now i) key v s of
        (Some err, s') \<Rightarrow> batch_set_loop g now (Suc i) es (acc\<lparr>bs_errors := bs_errors acc + 1\<rparr>) s'
      | (None, s') \<Rightarrow> batch_set_loop g now (Suc i) es (acc\<lparr>bs_success := bs_success acc + 1\<rparr>) s')"

definition rpc_BatchSet :: "'r manager_config \<Rightarrow> (nat \<Rightarrow> time) \<Rightarrow> (string \<times> bytes) option list \<Rightarrow> 'r manager \<Rightarrow>
    batch_set_response rpc_result \<times> 'r manager" where
  "rpc_BatchSet g now es s = batch_set_loop g now 0 es \<lparr>bs_success = 0, bs_errors = 0\<rparr> s"

definition rpc_Stats :: "'r manager_config \<Rightarrow> 'r manager \<Rightarrow> stats_response rpc_result \<times> 'r manager" where
  "rpc_Stats g s =
     (let st = Manager_Stats g s
      in (Reply (Some \<lparr>sr_snapshot = st_metrics st, sr_l1_size = of_nat (st_l1_size st), sr_conns = st_total_conns st\<rparr>) None, s))"

text \<open>The uptime in whole seconds, \<open>int64(d.Seconds())\<close>: \<open>Seconds\<close> is a float, whose conversion truncates.\<close>

definition duration_seconds :: "duration \<Rightarrow> float64" where
  "duration_seconds d =
     f64_add (f64_of_int (d sdiv 1000000000)) (f64_div (f64_of_int (d smod 1000000000)) (f64_of_int 1000000000))"

fun f64_to_int :: "float64 \<Rightarrow> int" where
  "f64_to_int (Fin s m e) = (if s then - 1 else 1) * int (if 0 \<le> e then m * 2 ^ nat e else m div 2 ^ nat (- e))"
| "f64_to_int _ = - (2 ^ 63)"

definition rpc_Health :: "time \<Rightarrow> time \<Rightarrow> 'r manager \<Rightarrow> health_response rpc_result \<times> 'r manager" where
  "rpc_Health startTime now s =
     (Reply (Some \<lparr>hr_status = ''healthy'', hr_redis_connected = True,
        hr_uptime = f64_to_int (duration_seconds (now - startTime))\<rparr>) None, s)"

section \<open>Interceptors\<close>

text \<open>Around a method; \<open>start\<close> and \<open>stop\<close> are the clock readings.  \<open>RecordLatency\<close> is not deferred here.\<close>

definition metricsInterceptor :: "time \<Rightarrow> time \<Rightarrow> ('r manager \<Rightarrow> 'a rpc_result \<times> 'r manager) \<Rightarrow>
    'r manager \<Rightarrow> 'a rpc_result \<times> 'r manager" where
  "metricsInterceptor start stop handler_fn s =
     (case handler_fn s of
        (Crash, s') \<Rightarrow> (Crash, s')
      | (Reply resp err, s') \<Rightarrow> (Reply resp err, count (RecordLatency (stop - start)) s'))"

definition loggingInterceptor :: "('r manager \<Rightarrow> 'a rpc_result \<times> 'r manager) \<Rightarrow> 'r manager \<Rightarrow> 'a rpc_result \<times> 'r manager" where
  "loggingInterceptor handler_fn s = handler_fn s"

definition grpc_chain :: "time \<Rightarrow> time \<Rightarrow> ('r manager \<Rightarrow> 'a rpc_result \<times> 'r manager) \<Rightarrow> 'r manager \<Rightarrow> 'a rpc_result \<times> 'r manager" where
  "grpc_chain start stop handler_fn = loggingInterceptor (metricsInterceptor start stop handler_fn)"

section \<open>Properties\<close>

lemma Get_total_requests:
  assumes "l1_inv (m_l1 s)"
  shows "TotalRequests (m_metrics (snd (Manager_Get g clk fl orig key s))) = TotalRequests (m_metrics s) + 1"
  using assms
proof (cases rule: Get_cases [where s = s and clk = clk and key = key and g = g])
  case (origin e r')
  with assms show ?thesis
    by (simp add: Get_origin split_beta fetchFromOrigin_counters RecordLatency_def) (simp add: inc_defs)
qed (simp_all add: assms Get_L1_hit Get_L2_hit RecordLatency_def inc_defs)

text \<open>Every gRPC \<open>Get\<close> counts as two requests, one by the manager and one by the interceptor, and its
  response says L1 whatever layer answered.\<close>

theorem grpc_get_counts_twice:
  assumes "l1_inv (m_l1 s)" and "key \<noteq> ''''"
    and "grpc_chain t0 t3 (rpc_Get g env t1 t2 key) s = (Reply resp err, s')"
  shows "TotalRequests (m_metrics s') = TotalRequests (m_metrics s) + 2 \<and>
    (case resp of None \<Rightarrow> err \<noteq> None | Some r \<Rightarrow> gr_source r = Source_L1 \<and> err = None)"
proof -
  obtain clk fl orig where env: "env = (clk, fl, orig)" by (rule prod_cases3)
  have "TotalRequests (m_metrics (snd (manager_get g env key s))) = TotalRequests (m_metrics s) + 1"
    using Get_total_requests [OF assms(1)] by (simp add: env manager_get_def)
  then show ?thesis
    using assms(2,3)
    by (auto simp: grpc_chain_def loggingInterceptor_def metricsInterceptor_def rpc_Get_def RecordLatency_def
        split: prod.splits fetch_result.splits)
qed

theorem grpc_get_counts_twice_witness:
  "\<exists>r s'. grpc_chain 0 1 (rpc_Get demo_config (at_time 0, Runs False, \<lambda>k. Fetched ''v'') 0 1 ''k'') demo_manager = (Reply (Some r) None, s') \<and>
    gr_value r = ''v'' \<and> gr_source r = Source_L1 \<and> TotalRequests (m_metrics s') = 2"
proof -
  let ?env = "(at_time 0, Runs False, \<lambda>k. Fetched ''v'') :: get_env"
  let ?r = "\<lparr>gr_value = ''v'', gr_source = Source_L1, gr_latency = 1\<rparr>"
  obtain s1 where "manager_get demo_config ?env ''k'' demo_manager = (Fetched ''v'', s1)"
    using demo_get [of "\<lambda>k. Fetched ''v''" "''k''"]
    by (cases "manager_get demo_config ?env ''k'' demo_manager") (simp add: manager_get_def origin_result_def)
  then obtain s' where s': "grpc_chain 0 1 (rpc_Get demo_config ?env 0 1 ''k'') demo_manager = (Reply (Some ?r) None, s')"
    by (simp add: grpc_chain_def loggingInterceptor_def metricsInterceptor_def rpc_Get_def)
  have "TotalRequests (m_metrics demo_manager) = 0"
    by (simp add: demo_manager_def NewManager_def metrics_zero_def)
  then show ?thesis
    using grpc_get_counts_twice [OF demo_inv _ s'] s' by (intro exI [of _ ?r] exI [of _ s']) simp
qed

lemma batch_get_loop_spec:
  "batch_get_loop g env i keys acc s = (Reply (Some out) err, s') \<Longrightarrow>
   set (m_keys (bg_entries out)) = set (m_keys (bg_entries acc)) \<union> set keys \<and>
   bg_hits out + bg_misses out = bg_hits acc + bg_misses acc + of_nat (length keys) \<and> err = None"
  by (induction keys arbitrary: i acc s) (auto split: prod.splits fetch_result.splits)

text \<open>A batch reports every key once: the entries are exactly the keys asked, and hits and misses add
  up to their number, on 32-bit words.\<close>

theorem batch_get_counts:
  assumes "rpc_BatchGet g env keys s = (Reply (Some out) err, s')"
  shows "set (m_keys (bg_entries out)) = set keys \<and> bg_hits out + bg_misses out = of_nat (length keys) \<and> err = None"
  using batch_get_loop_spec [of g env 0 keys _ s out err s'] assms by (simp add: rpc_BatchGet_def)

theorem batch_get_counts_witness:
  "\<exists>out s'. rpc_BatchGet demo_config (\<lambda>i. (at_time 0, Runs False, \<lambda>k. Fetched ''v'')) [''a''] demo_manager = (Reply (Some out) None, s') \<and>
    bg_hits out + bg_misses out = 1"
proof -
  let ?env = "(at_time 0, Runs False, \<lambda>k. Fetched ''v'') :: get_env"
  obtain s1 where "manager_get demo_config ?env ''a'' demo_manager = (Fetched ''v'', s1)"
    using demo_get [of "\<lambda>k. Fetched ''v''" "''a''"]
    by (cases "manager_get demo_config ?env ''a'' demo_manager") (simp add: manager_get_def origin_result_def)
  then obtain out s' where out: "rpc_BatchGet demo_config (\<lambda>i. ?env) [''a''] demo_manager = (Reply (Some out) None, s')"
    by (simp add: rpc_BatchGet_def)
  then show ?thesis using batch_get_counts [OF out] by auto
qed

text \<open>A null entry ends the process: a batch of sets that holds a null entry carries out the sets
  before it and then dereferences nil, and nothing recovers.\<close>

theorem batch_set_null_crashes:
  "rpc_BatchSet g now (map Some kvs @ None # es) s =
     (Crash, fold (\<lambda>(i, k, v) s. snd (Manager_Set g (now i) k v s)) (zip [0..<length kvs] kvs) s)"
proof -
  have "batch_set_loop g now i (map Some kvs @ None # es) acc s =
      (Crash, fold (\<lambda>(i, k, v) s. snd (Manager_Set g (now i) k v s)) (zip [i..<i + length kvs] kvs) s)" for i acc
  proof (induction kvs arbitrary: i acc s)
    case (Cons kv kvs)
    have "[i..<i + length (kv # kvs)] = i # [Suc i..<Suc i + length kvs]"
      using upt_rec [of i "i + length (kv # kvs)"] by simp
    then show ?case
      by (cases kv) (simp add: Cons.IH split: prod.split option.split)
  qed simp
  from this [of 0] show ?thesis by (simp add: rpc_BatchSet_def)
qed

end

