(* ===== verification/Base64.thy ===== *)
theory Base64
  imports Json_Quote
begin

text \<open>
  The standard encoding of \<open>encoding/base64\<close>, in which \<open>encoding/json\<close> writes a \<open>[]byte\<close>: the padded text, and
  the decoder, which skips line ends, wants the padding and nothing after it, and does not look at the bits
  that the last character has left over.
\<close>

section \<open>Encoding and decoding\<close>

definition b64_char :: "nat \<Rightarrow> char" where
  "b64_char i = char_of (if i < 26 then 65 + i else if i < 52 then 71 + i else if i < 62 then i - 4 else if i = 62 then 43 else 47)"

definition b64_val :: "char \<Rightarrow> nat option" where
  "b64_val c =
     (let n = octet c in
      if 65 \<le> n \<and> n \<le> 90 then Some (n - 65)
      else if 97 \<le> n \<and> n \<le> 122 then Some (n - 71)
      else if 48 \<le> n \<and> n \<le> 57 then Some (n + 4)
      else if n = 43 then Some 62
      else if n = 47 then Some 63
      else None)"

abbreviation pad :: char where "pad \<equiv> CHR ''=''"

fun base64 :: "bytes \<Rightarrow> bytes" where
  "base64 [] = []"
| "base64 [a] = [b64_char (octet a div 4), b64_char (octet a mod 4 * 16), pad, pad]"
| "base64 [a, b] =
     [b64_char (octet a div 4), b64_char (octet a mod 4 * 16 + octet b div 16), b64_char (octet b mod 16 * 4), pad]"
| "base64 (a # b # c # rest) =
     [b64_char (octet a div 4), b64_char (octet a mod 4 * 16 + octet b div 16),
      b64_char (octet b mod 16 * 4 + octet c div 64), b64_char (octet c mod 64)] @ base64 rest"

text \<open>\<open>decodeQuantum\<close> over the text without line ends.\<close>

fun b64_quanta :: "bytes \<Rightarrow> bytes option" where
  "b64_quanta [] = Some []"
| "b64_quanta (c0 # c1 # c2 # c3 # rest) =
     (case (b64_val c0, b64_val c1) of
        (Some v0, Some v1) \<Rightarrow>
          (case b64_val c2 of
             None \<Rightarrow> if c2 = pad \<and> c3 = pad \<and> rest = [] then Some [char_of (v0 * 4 + v1 div 16)] else None
           | Some v2 \<Rightarrow>
               (case b64_val c3 of
                  None \<Rightarrow> if c3 = pad \<and> rest = []
                          then Some [char_of (v0 * 4 + v1 div 16), char_of (v1 mod 16 * 16 + v2 div 4)] else None
                | Some v3 \<Rightarrow>
                    map_option ((@) [char_of (v0 * 4 + v1 div 16), char_of (v1 mod 16 * 16 + v2 div 4), char_of (v2 mod 4 * 64 + v3)])
                      (b64_quanta rest)))
      | _ \<Rightarrow> None)"
| "b64_quanta s = None"

definition b64_decode :: "bytes \<Rightarrow> bytes option" where
  "b64_decode s = b64_quanta (filter (\<lambda>c. c \<noteq> CHR 0x0A \<and> c \<noteq> CHR 0x0D) s)"

section \<open>Reading back\<close>

lemma b64_val_char [simp]: "i < 64 \<Longrightarrow> b64_val (b64_char i) = Some i"
  by (auto simp: b64_val_def b64_char_def Let_def)

lemma b64_val_pad [simp]: "b64_val pad = None"
  by (simp add: b64_val_def octet_def)

lemma b64_bounds [simp]:
  "octet a div 4 < 64" "octet a mod 4 * 16 < 64" "octet a mod 4 * 16 + octet b div 16 < 64"
  "octet b mod 16 * 4 < 64" "octet b mod 16 * 4 + octet c div 64 < 64" "octet c mod 64 < 64"
  using octet_simps(2) [of a] octet_simps(2) [of b] octet_simps(2) [of c] by linarith+

lemma b64_bits [simp]:
  "octet b div 16 div 16 = 0" "octet b div 16 mod 16 = octet b div 16"
  "octet b div 64 div 4 = 0" "octet b div 64 mod 4 = octet b div 64"
proof -
  have "octet b div 16 < 16" "octet b div 64 < 4" using octet_simps(2) [of b] by linarith+
  then show "octet b div 16 div 16 = 0" "octet b div 16 mod 16 = octet b div 16"
    "octet b div 64 div 4 = 0" "octet b div 64 mod 4 = octet b div 64" by simp_all
qed

lemma b64_quanta_base64: "b64_quanta (base64 bs) = Some bs"
  by (induction bs rule: base64.induct) simp_all

text \<open>The text has none of the characters that matter in a JSON string.\<close>

definition b64_text_char :: "char \<Rightarrow> bool" where
  "b64_text_char c \<longleftrightarrow> 32 \<le> octet c \<and> octet c < 128 \<and> c \<noteq> dquote \<and> c \<noteq> backslash"

lemma b64_char_text: "i < 64 \<Longrightarrow> b64_text_char (b64_char i)"
proof -
  assume "i < 64"
  then have "octet (b64_char i) \<in> {43, 47} \<union> {48..57} \<union> {65..90} \<union> {97..122}"
    by (auto simp: b64_char_def)
  then show ?thesis by (auto simp: b64_text_char_def octet_def)
qed

lemma base64_text: "list_all b64_text_char (base64 bs)"
proof -
  have "b64_text_char pad" by (simp add: b64_text_char_def octet_def)
  then show ?thesis by (induction bs rule: base64.induct) (simp_all add: b64_char_text)
qed

theorem b64_decode_base64: "b64_decode (base64 bs) = Some bs"
proof -
  have "b64_text_char c \<Longrightarrow> c \<noteq> CHR 0x0A \<and> c \<noteq> CHR 0x0D" for c
    by (auto simp: b64_text_char_def octet_def)
  then have "filter (\<lambda>c. c \<noteq> CHR 0x0A \<and> c \<noteq> CHR 0x0D) (base64 bs) = base64 bs"
    using base64_text [of bs] unfolding filter_id_conv list_all_iff by blast
  then show ?thesis by (simp add: b64_decode_def b64_quanta_base64)
qed

lemma text_chars_raw: "list_all b64_text_char s \<Longrightarrow> raw_ok s \<and> unquote_body s = Some s"
proof (induction s)
  case (Cons c s)
  then have c: "c \<noteq> backslash" "c \<noteq> dquote" "32 \<le> octet c" "octet c < 128" by (simp_all add: b64_text_char_def)
  with Cons show ?case by (simp add: raw_ok_def str_next_def unquote_step_def rune_len_ascii)
qed (simp add: raw_ok_def)

lemma base64_raw [simp]: "raw_ok (base64 bs)" "unquote_body (base64 bs) = Some (base64 bs)"
  using text_chars_raw [OF base64_text] by simp_all

end
