(* ===== verification/Grpc_Json.thy ===== *)
theory Grpc_Json
  imports Grpc_Server Base64 Config
begin

text \<open>
  The wire side of the gRPC server: the \<open>jsonCodec\<close> and the handlers \<open>_CacheService_*_Handler\<close> of
  \<open>internal/grpcserver/server.go\<close>, on the messages of \<open>api/cachepb/cache.go\<close> with their JSON tags, from the
  bytes of a request to those of the answer.  A \<open>[]byte\<close> is base64.  Framing, deadlines, the limit of 4 MiB
  and the status codes are grpc-go's and left out.  An empty value of an entry that was found is printed as
  an empty string; Go prints a nil one as \<open>null\<close>, which decodes to the same.
\<close>

section \<open>Decoding\<close>

text \<open>\<open>json.Unmarshal\<close> into a struct: each member goes to the field it names, unknown ones are skipped.\<close>

type_synonym 'a fields = "(string \<times> (json \<Rightarrow> 'a \<Rightarrow> 'a option)) list"

fun store_named :: "'a fields \<Rightarrow> bytes \<Rightarrow> json \<Rightarrow> 'a \<Rightarrow> 'a option" where
  "store_named [] k v old = Some old"
| "store_named ((name, store) # fs) k v old = (if names_field name k then store v old else store_named fs k v old)"

fun store_members :: "'a fields \<Rightarrow> (bytes \<times> json) list \<Rightarrow> 'a \<Rightarrow> 'a option" where
  "store_members fs [] old = Some old"
| "store_members fs ((k, v) # ms) old =
     (case store_named fs k v old of None \<Rightarrow> None | Some new \<Rightarrow> store_members fs ms new)"

definition unmarshal :: "'a fields \<Rightarrow> 'a \<Rightarrow> bytes \<Rightarrow> 'a option" where
  "unmarshal fs zero data =
     (case json_parse data of
        Some (JObject ms) \<Rightarrow> store_members fs ms zero
      | Some JNull \<Rightarrow> Some zero
      | _ \<Rightarrow> None)"

definition on_field :: "('r \<Rightarrow> 'f) \<Rightarrow> (('f \<Rightarrow> 'f) \<Rightarrow> 'r \<Rightarrow> 'r) \<Rightarrow> (json \<Rightarrow> 'f \<Rightarrow> 'f option) \<Rightarrow> json \<Rightarrow> 'r \<Rightarrow> 'r option" where
  "on_field get upd store j r = map_option (\<lambda>x. upd (\<lambda>_. x) r) (store j (get r))"

text \<open>Slices, as a backing array and a length: what the array holds from an earlier member of the same name
  shows through a \<open>null\<close> element of scalars and is reused for pointers.\<close>

type_synonym 'e slice = "'e list \<times> nat"

definition slice_list :: "'e slice \<Rightarrow> 'e list" where
  "slice_list s = take (snd s) (fst s)"

fun fill_slice :: "(json \<Rightarrow> 'e \<Rightarrow> 'e option) \<Rightarrow> 'e \<Rightarrow> nat \<Rightarrow> json list \<Rightarrow> 'e list \<Rightarrow> 'e list option" where
  "fill_slice store zero i [] arr = Some arr"
| "fill_slice store zero i (v # vs) arr =
     (case store v (if i < length arr then arr ! i else zero) of
        None \<Rightarrow> None
      | Some x \<Rightarrow> fill_slice store zero (Suc i) vs (if i < length arr then arr[i := x] else arr @ [x]))"

definition store_array :: "(json \<Rightarrow> 'e \<Rightarrow> 'e option) \<Rightarrow> 'e \<Rightarrow> json \<Rightarrow> 'e slice \<Rightarrow> 'e slice option" where
  "store_array store zero j s =
     (case j of
        JArray vs \<Rightarrow> if vs = [] then Some ([], 0) else map_option (\<lambda>arr. (arr, length vs)) (fill_slice store zero 0 vs (fst s))
      | JNull \<Rightarrow> Some ([], 0)
      | _ \<Rightarrow> None)"

text \<open>Integers, and the two ways to write a \<open>[]byte\<close>: base64, or an array of numbers.\<close>

fun store_int :: "json \<Rightarrow> int \<Rightarrow> int option" where
  "store_int (JNumber txt) old = Atoi txt"
| "store_int JNull old = Some old"
| "store_int _ old = None"

fun store_byte :: "json \<Rightarrow> char \<Rightarrow> char option" where
  "store_byte (JNumber txt) old =
     (case Atoi txt of
        Some i \<Rightarrow> if hd txt \<noteq> CHR ''-'' \<and> i < 256 then Some (char_of (nat i)) else None
      | None \<Rightarrow> None)"
| "store_byte JNull old = Some old"
| "store_byte _ old = None"

fun store_bytes :: "json \<Rightarrow> char slice \<Rightarrow> char slice option" where
  "store_bytes (JString raw) s = map_option (\<lambda>b. (b, length b)) (Option.bind (unquote_body raw) b64_decode)"
| "store_bytes j s = store_array store_byte (char_of (0::nat)) j s"

section \<open>Requests\<close>

record get_request =
  gq_key :: string

record set_request =
  sq_key :: string
  sq_value :: "char slice"
  sq_ttl :: int

record batch_get_request =
  bgq_keys :: "string slice"

record key_value =
  kv_key :: string
  kv_value :: "char slice"

record batch_set_request =
  bsq_entries :: "key_value option slice"
  bsq_ttl :: int

definition decode_get_request :: "bytes \<Rightarrow> get_request option" where
  "decode_get_request = unmarshal [(''key'', on_field gq_key gq_key_update store_string)] \<lparr>gq_key = []\<rparr>"

definition decode_set_request :: "bytes \<Rightarrow> set_request option" where
  "decode_set_request =
     unmarshal
       [(''key'', on_field sq_key sq_key_update store_string), (''value'', on_field sq_value sq_value_update store_bytes),
        (''ttl_seconds'', on_field sq_ttl sq_ttl_update store_int)]
       \<lparr>sq_key = [], sq_value = ([], 0), sq_ttl = 0\<rparr>"

definition decode_batch_get_request :: "bytes \<Rightarrow> batch_get_request option" where
  "decode_batch_get_request =
     unmarshal [(''keys'', on_field bgq_keys bgq_keys_update (store_array store_string []))] \<lparr>bgq_keys = ([], 0)\<rparr>"

definition key_value_fields :: "key_value fields" where
  "key_value_fields =
     [(''key'', on_field kv_key kv_key_update store_string), (''value'', on_field kv_value kv_value_update store_bytes)]"

text \<open>An entry is a pointer: \<open>null\<close> makes it nil, an object is decoded into what it points to, if anything.\<close>

fun store_entry :: "json \<Rightarrow> key_value option \<Rightarrow> key_value option option" where
  "store_entry (JObject ms) old =
     map_option Some (store_members key_value_fields ms (case old of None \<Rightarrow> \<lparr>kv_key = [], kv_value = ([], 0)\<rparr> | Some kv \<Rightarrow> kv))"
| "store_entry JNull old = Some None"
| "store_entry _ old = None"

definition decode_batch_set_request :: "bytes \<Rightarrow> batch_set_request option" where
  "decode_batch_set_request =
     unmarshal
       [(''entries'', on_field bsq_entries bsq_entries_update (store_array store_entry None)),
        (''ttl_seconds'', on_field bsq_ttl bsq_ttl_update store_int)]
       \<lparr>bsq_entries = ([], 0), bsq_ttl = 0\<rparr>"

definition decode_empty_request :: "bytes \<Rightarrow> unit option" where
  "decode_empty_request = unmarshal [] ()"

section \<open>Responses\<close>

definition json_bytes :: "bytes \<Rightarrow> json" where
  "json_bytes b = JString (base64 b)"

definition source_number :: "cache_hit_source \<Rightarrow> int" where
  "source_number src = (case src of Source_UNSPECIFIED \<Rightarrow> 0 | Source_L1 \<Rightarrow> 1 | Source_L2 \<Rightarrow> 2 | Source_ORIGIN \<Rightarrow> 3)"

definition get_response_json :: "get_response \<Rightarrow> json" where
  "get_response_json r = JObject
     [(''value'', json_bytes (gr_value r)), (''source'', json_int (source_number (gr_source r))),
      (''latency_ns'', json_int (gr_latency r))]"

definition success_json :: "bool \<Rightarrow> json" where
  "success_json b = JObject [(''success'', JBool b)]"

definition cache_entry_json :: "cache_entry \<Rightarrow> json" where
  "cache_entry_json e = JObject
     [(''value'', if ce_found e then json_bytes (ce_value e) else JNull),
      (''source'', json_int (source_number (ce_source e))), (''found'', JBool (ce_found e))]"

definition batch_get_response_json :: "batch_get_response \<Rightarrow> json" where
  "batch_get_response_json r = JObject
     [(''entries'', JObject (map (\<lambda>k. (quote_body k, cache_entry_json (the (map_of (bg_entries r) k)))) (sort (m_keys (bg_entries r))))),
      (''hits'', json_int (sint (bg_hits r))), (''misses'', json_int (sint (bg_misses r)))]"

definition batch_set_response_json :: "batch_set_response \<Rightarrow> json" where
  "batch_set_response_json r = JObject
     [(''success_count'', json_int (sint (bs_success r))), (''error_count'', json_int (sint (bs_errors r)))]"

text \<open>The first twelve members of \<open>StatsResponse\<close> are those of \<open>Snapshot\<close>, in the same order.\<close>

definition stats_response_json :: "stats_response \<Rightarrow> json option" where
  "stats_response_json r =
     (case snapshot_json (sr_snapshot r) of
        Some (JObject ms) \<Rightarrow> Some (JObject
          (ms @ [(''l1_size'', json_int (sint (sr_l1_size r))), (''l2_pool_active_conns'', json_int (int (sr_conns r)))]))
      | _ \<Rightarrow> None)"

definition health_response_json :: "health_response \<Rightarrow> json" where
  "health_response_json r = JObject
     [(''status'', JString (quote_body (hr_status r))), (''redis_connected'', JBool (hr_redis_connected r)),
      (''uptime_seconds'', json_int (hr_uptime r))]"

section \<open>Handlers\<close>

text \<open>What goes back: the text of the response, or an error; \<open>Ended\<close> is the end of the process.  A request
  that does not decode never reaches the interceptors.\<close>

datatype wire = Body bytes | Undecodable | Failed rpc_error | Unencodable | Ended

definition unary :: "(bytes \<Rightarrow> 'q option) \<Rightarrow> ('a \<Rightarrow> json option) \<Rightarrow> time \<Rightarrow> time \<Rightarrow>
    ('q \<Rightarrow> 'r manager \<Rightarrow> 'a rpc_result \<times> 'r manager) \<Rightarrow> bytes \<Rightarrow> 'r manager \<Rightarrow> wire \<times> 'r manager" where
  "unary dec enc t0 t1 rpc data s =
     (case dec data of
        None \<Rightarrow> (Undecodable, s)
      | Some q \<Rightarrow>
          (case grpc_chain t0 t1 (rpc q) s of
             (Crash, s') \<Rightarrow> (Ended, s')
           | (Reply _ (Some e), s') \<Rightarrow> (Failed e, s')
           | (Reply (Some a) None, s') \<Rightarrow>
               (case enc a of None \<Rightarrow> Unencodable | Some j \<Rightarrow> Body (json_text (\<lambda>x. x) j), s')
           | (Reply None None, s') \<Rightarrow> (Body ''null'', s')))"

definition Get_Handler :: "'r manager_config \<Rightarrow> get_env \<Rightarrow> time \<Rightarrow> time \<Rightarrow> time \<Rightarrow> time \<Rightarrow> bytes \<Rightarrow> 'r manager \<Rightarrow> wire \<times> 'r manager" where
  "Get_Handler g env t0 start stop t1 =
     unary decode_get_request (\<lambda>r. Some (get_response_json r)) t0 t1 (\<lambda>q. rpc_Get g env start stop (gq_key q))"

definition Set_Handler :: "'r manager_config \<Rightarrow> time \<Rightarrow> time \<Rightarrow> time \<Rightarrow> bytes \<Rightarrow> 'r manager \<Rightarrow> wire \<times> 'r manager" where
  "Set_Handler g t0 now t1 =
     unary decode_set_request (\<lambda>b. Some (success_json b)) t0 t1
       (\<lambda>q. rpc_Set g now (sq_key q) (slice_list (sq_value q)) (sq_ttl q))"

definition Delete_Handler :: "'r manager_config \<Rightarrow> time \<Rightarrow> time \<Rightarrow> bytes \<Rightarrow> 'r manager \<Rightarrow> wire \<times> 'r manager" where
  "Delete_Handler g t0 t1 =
     unary decode_get_request (\<lambda>b. Some (success_json b)) t0 t1 (\<lambda>q. rpc_Delete g (gq_key q))"

definition BatchGet_Handler :: "'r manager_config \<Rightarrow> (nat \<Rightarrow> get_env) \<Rightarrow> time \<Rightarrow> time \<Rightarrow> bytes \<Rightarrow> 'r manager \<Rightarrow> wire \<times> 'r manager" where
  "BatchGet_Handler g env t0 t1 =
     unary decode_batch_get_request (\<lambda>r. Some (batch_get_response_json r)) t0 t1
       (\<lambda>q. rpc_BatchGet g env (slice_list (bgq_keys q)))"

definition BatchSet_Handler :: "'r manager_config \<Rightarrow> (nat \<Rightarrow> time) \<Rightarrow> time \<Rightarrow> time \<Rightarrow> bytes \<Rightarrow> 'r manager \<Rightarrow> wire \<times> 'r manager" where
  "BatchSet_Handler g now t0 t1 =
     unary decode_batch_set_request (\<lambda>r. Some (batch_set_response_json r)) t0 t1
       (\<lambda>q. rpc_BatchSet g now
         (map (map_option (\<lambda>kv. (kv_key kv, slice_list (kv_value kv)))) (slice_list (bsq_entries q))))"

definition Stats_Handler :: "'r manager_config \<Rightarrow> time \<Rightarrow> time \<Rightarrow> bytes \<Rightarrow> 'r manager \<Rightarrow> wire \<times> 'r manager" where
  "Stats_Handler g t0 t1 = unary decode_empty_request stats_response_json t0 t1 (\<lambda>_. rpc_Stats g)"

definition Health_Handler :: "time \<Rightarrow> time \<Rightarrow> time \<Rightarrow> time \<Rightarrow> bytes \<Rightarrow> 'r manager \<Rightarrow> wire \<times> 'r manager" where
  "Health_Handler startTime t0 now t1 =
     unary decode_empty_request (\<lambda>r. Some (health_response_json r)) t0 t1 (\<lambda>_. rpc_Health startTime now)"

section \<open>What a client writes\<close>

definition get_text :: "string \<Rightarrow> bytes" where
  "get_text k = json_text (\<lambda>x. x) (JObject [(''key'', JString (quote_body k))])"

definition key_value_json :: "string \<Rightarrow> bytes \<Rightarrow> json" where
  "key_value_json k v = JObject [(''key'', JString (quote_body k)), (''value'', json_bytes v)]"

definition set_text :: "string \<Rightarrow> bytes \<Rightarrow> bytes" where
  "set_text k v = json_text (\<lambda>x. x) (key_value_json k v)"

definition batch_set_text :: "(string \<times> bytes) option list \<Rightarrow> bytes" where
  "batch_set_text es = json_text (\<lambda>x. x)
     (JObject [(''entries'', JArray (map (\<lambda>e. case e of None \<Rightarrow> JNull | Some (k, v) \<Rightarrow> key_value_json k v) es))])"

lemma unmarshal_text:
  "json_ok (JObject ms) \<Longrightarrow> nesting (JObject ms) \<le> max_nesting \<Longrightarrow>
   unmarshal fs zero (json_text (\<lambda>x. x) (JObject ms)) = store_members fs ms zero"
  using parse_text [of "\<lambda>x. x" "JObject ms"] by (simp add: unmarshal_def del: map_raw.simps json_text.simps)

lemma field_names [simp]:
  "names_field ''key'' ''key''" "names_field ''value'' ''value''" "\<not> names_field ''key'' ''value''"
  "names_field ''entries'' ''entries''" "raw_ok ''key''" "raw_ok ''value''" "raw_ok ''entries''"
  by code_simp+

lemma store_bytes_json [simp]: "store_bytes (json_bytes b) s = Some (b, length b)"
  by (simp add: json_bytes_def b64_decode_base64)

lemma slice_list_full [simp]: "slice_list (xs, length xs) = xs"
  by (simp add: slice_list_def)

lemma store_quoted [simp]: "store_string (JString (quote_body k)) old = Some (to_valid k)"
  by (simp add: unquote_quote)

lemma decode_get_text: "decode_get_request (get_text k) = Some \<lparr>gq_key = to_valid k\<rparr>"
  unfolding decode_get_request_def get_text_def
  by (subst unmarshal_text) (simp_all add: max_nesting_def on_field_def del: store_string.simps)

lemma decode_set_text:
  "decode_set_request (set_text k v) = Some \<lparr>sq_key = to_valid k, sq_value = (v, length v), sq_ttl = 0\<rparr>"
proof -
  have "json_ok (json_bytes v)" "nesting (json_bytes v) = 0" by (simp_all add: json_bytes_def)
  then show ?thesis
    unfolding decode_set_request_def set_text_def key_value_json_def
    by (subst unmarshal_text) (simp_all add: max_nesting_def on_field_def del: store_string.simps)
qed

lemma store_entry_json:
  "store_entry (key_value_json k v) old = Some (Some \<lparr>kv_key = to_valid k, kv_value = (v, length v)\<rparr>)"
  by (simp add: key_value_json_def key_value_fields_def on_field_def del: store_string.simps)

lemma fill_entries:
  "fill_slice store_entry None (length arr) (map (\<lambda>e. case e of None \<Rightarrow> JNull | Some (k, v) \<Rightarrow> key_value_json k v) es) arr =
   Some (arr @ map (map_option (\<lambda>(k, v). \<lparr>kv_key = to_valid k, kv_value = (v, length v)\<rparr>)) es)"
proof (induction es arbitrary: arr)
  case (Cons e es)
  show ?case
  proof (cases e)
    case None
    with Cons.IH [of "arr @ [None]"] show ?thesis by simp
  next
    case (Some kv)
    obtain k v where "kv = (k, v)" by (rule prod.exhaust)
    with Some Cons.IH [of "arr @ [Some \<lparr>kv_key = to_valid k, kv_value = (v, length v)\<rparr>]"] show ?thesis
      by (simp add: store_entry_json)
  qed
qed simp

lemma decode_batch_set_text:
  "\<exists>r. decode_batch_set_request (batch_set_text es) = Some r \<and>
    map (map_option (\<lambda>kv. (kv_key kv, slice_list (kv_value kv)))) (slice_list (bsq_entries r)) =
    map (map_option (\<lambda>(k, v). (to_valid k, v))) es"
proof -
  let ?vs = "map (\<lambda>e. case e of None \<Rightarrow> JNull | Some (k, v) \<Rightarrow> key_value_json k v) es"
  let ?xs = "map (map_option (\<lambda>(k, v). \<lparr>kv_key = to_valid k, kv_value = (v, length v)\<rparr>)) es"
  have ok: "json_ok (key_value_json k v)" "nesting (key_value_json k v) = 1" for k v
    by (simp_all add: key_value_json_def json_bytes_def)
  have "json_ok (JArray ?vs)" by (auto simp: ok split: option.split)
  moreover have "foldr max (map nesting ?vs) 0 \<le> 1"
  proof (induction es)
    case (Cons e es)
    then show ?case by (auto simp: ok split: option.split)
  qed simp
  ultimately have "unmarshal fs zero (batch_set_text es) = store_members fs [(''entries'', JArray ?vs)] zero" for fs and zero :: batch_set_request
    unfolding batch_set_text_def by (intro unmarshal_text) (simp_all add: max_nesting_def)
  moreover have "store_array store_entry None (JArray ?vs) ([], 0) = Some (?xs, length es)"
    using fill_entries [of "[]" es] by (auto simp: store_array_def)
  ultimately have "decode_batch_set_request (batch_set_text es) = Some \<lparr>bsq_entries = (?xs, length es), bsq_ttl = 0\<rparr>"
    by (simp add: decode_batch_set_request_def on_field_def)
  moreover have "map (map_option (\<lambda>kv. (kv_key kv, slice_list (kv_value kv)))) ?xs = map (map_option (\<lambda>(k, v). (to_valid k, v))) es"
    by (auto simp: option.map_comp comp_def split_def intro!: map_option_cong)
  ultimately show ?thesis by (simp add: slice_list_def)
qed

section \<open>Properties\<close>

lemma to_valid_Nil [simp]: "to_valid k = [] \<longleftrightarrow> k = []"
  by (cases k) (simp_all add: replacement_def split: nat.split)

lemma get_response_text:
  "json_parse (json_text (\<lambda>x. x) (get_response_json r)) = Some (get_response_json r)"
proof -
  have names: "raw_ok ''value''" "raw_ok ''source''" "raw_ok ''latency_ns''" by code_simp+
  then have "json_ok (get_response_json r)" "nesting (get_response_json r) \<le> max_nesting"
    by (simp_all add: get_response_json_def json_bytes_def json_int_def show_int_number max_nesting_def del: number_ok.simps)
  from parse_text [OF _ this, of "\<lambda>x. x"] show ?thesis by simp
qed

lemma Set_Handler_text:
  assumes "k \<noteq> []"
  shows "Set_Handler g t0 now t1 (set_text k v) s =
    (case fst (Manager_Set g now (to_valid k) v s) of None \<Rightarrow> Body ''{\"success\":true}'' | Some e \<Rightarrow> Failed (BackendError e),
     count (RecordLatency (t1 - t0)) (snd (Manager_Set g now (to_valid k) v s)))"
proof -
  obtain err s1 where set: "Manager_Set g now (to_valid k) v s = (err, s1)" by (rule prod.exhaust)
  have "json_text (\<lambda>x. x) (success_json True) = ''{\"success\":true}''" by code_simp
  with set assms show ?thesis
    by (cases err) (simp_all add: Set_Handler_def unary_def decode_set_text rpc_Set_def
      grpc_chain_def loggingInterceptor_def metricsInterceptor_def)
qed

text \<open>A \<open>Get\<close> of a key that is live in L1.\<close>

lemma Get_Handler_live:
  assumes "l1_inv (m_l1 s)" and "l1_live (t_l1 clk) (m_l1 s) (to_valid k) = Some v" and "k \<noteq> []"
  obtains body s' ms raw where "Get_Handler g (clk, fl, orig) u0 u1 u2 u3 (get_text k) s = (Body body, s')"
    "json_parse body = Some (JObject ms)" "map_of ms ''value'' = Some (JString raw)"
    "Option.bind (unquote_body raw) b64_decode = Some v"
proof -
  let ?r = "\<lparr>gr_value = v, gr_source = Source_L1, gr_latency = u2 - u1\<rparr>"
  obtain s' where get: "Get_Handler g (clk, fl, orig) u0 u1 u2 u3 (get_text k) s = (Body (json_text (\<lambda>x. x) (get_response_json ?r)), s')"
    using assms(3) Get_L1_hit [OF assms(1,2)] by (simp add: Get_Handler_def unary_def decode_get_text rpc_Get_def manager_get_def
      grpc_chain_def loggingInterceptor_def metricsInterceptor_def)
  obtain ms where ms: "get_response_json ?r = JObject ms" "map_of ms ''value'' = Some (JString (base64 v))"
    by (simp add: get_response_json_def json_bytes_def)
  have "Option.bind (unquote_body (base64 v)) b64_decode = Some v" by (simp add: b64_decode_base64)
  with that get ms get_response_text [of ?r] show thesis by auto
qed

lemma Manager_Set_live:
  assumes "l1_inv (m_l1 s)" and "t \<le> now + c_ttl (m_l1 s)"
  shows "l1_inv (m_l1 (snd (Manager_Set g now k v s)))" "l1_live t (m_l1 (snd (Manager_Set g now k v s))) k = Some v"
  using assms by (simp_all add: Manager_Set_def Let_def split_beta L1_Set_inv l1_live_def L1_Set_entries_same)

text \<open>C28: \<open>Set\<close>, then \<open>Get\<close>, over the wire: whatever bytes the value has, the answer of the \<open>Get\<close> is a JSON object
  whose base64 is that value, within the TTL and even when the \<open>Set\<close> failed on Redis.  (Over HTTP only
  text survives.)\<close>

theorem grpc_set_then_get:
  assumes "l1_inv (m_l1 s)" and "k \<noteq> []" and "t_l1 clk \<le> now + c_ttl (m_l1 s)"
  shows "\<exists>w s' body s'' ms raw. Set_Handler g t0 now t1 (set_text k v) s = (w, s') \<and>
    w = (case fst (Manager_Set g now (to_valid k) v s) of None \<Rightarrow> Body ''{\"success\":true}'' | Some e \<Rightarrow> Failed (BackendError e)) \<and>
    Get_Handler g (clk, fl, orig) u0 u1 u2 u3 (get_text k) s' = (Body body, s'') \<and>
    json_parse body = Some (JObject ms) \<and> map_of ms ''value'' = Some (JString raw) \<and>
    Option.bind (unquote_body raw) b64_decode = Some v"
proof -
  let ?s' = "count (RecordLatency (t1 - t0)) (snd (Manager_Set g now (to_valid k) v s))"
  have l1: "l1_inv (m_l1 ?s')" "l1_live (t_l1 clk) (m_l1 ?s') (to_valid k) = Some v"
    using Manager_Set_live [OF assms(1,3)] by simp_all
  from l1 assms(2) obtain body s'' ms raw where "Get_Handler g (clk, fl, orig) u0 u1 u2 u3 (get_text k) ?s' = (Body body, s'')"
    "json_parse body = Some (JObject ms)" "map_of ms ''value'' = Some (JString raw)"
    "Option.bind (unquote_body raw) b64_decode = Some v"
    by (rule Get_Handler_live)
  with assms(2) show ?thesis by (intro exI conjI) (rule Set_Handler_text, assumption, rule refl, assumption+)
qed

lemma broken_set: "fst (Manager_Set broken_config 0 k v s) = Some ''io''"
  by (simp add: Manager_Set_def L2_Set_def broken_config_def)

theorem grpc_set_then_get_witness:
  "\<exists>s' body s'' ms raw. Set_Handler broken_config 0 0 1 (set_text ''k'' [CHR 0xFF, CHR 0x00]) demo_manager = (Failed (BackendError ''io''), s') \<and>
    Get_Handler broken_config (at_time 10, Runs False, \<lambda>k. FetchPanic) 2 2 3 3 (get_text ''k'') s' = (Body body, s'') \<and>
    json_parse body = Some (JObject ms) \<and> map_of ms ''value'' = Some (JString raw) \<and>
    Option.bind (unquote_body raw) b64_decode = Some [CHR 0xFF, CHR 0x00]"
  using grpc_set_then_get [OF demo_inv, of "''k''" "at_time 10" 0 broken_config 0 1 "[CHR 0xFF, CHR 0x00]" "Runs False" "\<lambda>k. FetchPanic" 2 2 3 3]
  by (simp add: demo_ttl broken_set del: to_valid.simps)

text \<open>C32: One request can end the process: a \<open>BatchSet\<close> with a \<open>null\<close> among its entries carries out the sets
  before it, then dereferences nil, and no interceptor recovers.\<close>

theorem null_entry_ends_process:
  "BatchSet_Handler g now t0 t1 (batch_set_text (map Some kvs @ None # es)) s =
     (Ended, fold (\<lambda>(i, k, v) s. snd (Manager_Set g (now i) (to_valid k) v s)) (zip [0..<length kvs] kvs) s)"
proof -
  obtain r where r: "decode_batch_set_request (batch_set_text (map Some kvs @ None # es)) = Some r"
    "map (map_option (\<lambda>kv. (kv_key kv, slice_list (kv_value kv)))) (slice_list (bsq_entries r)) =
      map Some (map (\<lambda>(k, v). (to_valid k, v)) kvs) @ None # map (map_option (\<lambda>(k, v). (to_valid k, v))) es"
    using decode_batch_set_text [of "map Some kvs @ None # es"] by (auto simp: comp_def)
  have to_valid_sets: "fold (\<lambda>(i, k, v) s. snd (Manager_Set g (now i) k v s)) (zip ns (map (\<lambda>(k, v). (to_valid k, v)) kvs)) s =
      fold (\<lambda>(i, k, v) s. snd (Manager_Set g (now i) (to_valid k) v s)) (zip ns kvs) s" for ns
  proof (induction kvs arbitrary: ns s)
    case (Cons kv kvs)
    then show ?case by (cases ns) (auto simp: split_def)
  qed simp
  have "rpc_BatchSet g now (map (map_option (\<lambda>kv. (kv_key kv, slice_list (kv_value kv)))) (slice_list (bsq_entries r))) s =
      (Crash, fold (\<lambda>(i, k, v) s. snd (Manager_Set g (now i) (to_valid k) v s)) (zip [0..<length kvs] kvs) s)"
    unfolding r(2) batch_set_null_crashes by (simp add: to_valid_sets)
  with r(1) show ?thesis
    by (simp add: BatchSet_Handler_def unary_def grpc_chain_def loggingInterceptor_def metricsInterceptor_def)
qed

text \<open>A request that is not JSON is refused by each method before anything happens: the state, the counters
  of the metrics among it, is as before.\<close>

theorem bad_request_refused:
  assumes "json_parse data = None"
  shows "Get_Handler g env t0 t1 t2 t3 data s = (Undecodable, s) \<and> Set_Handler g t0 t1 t2 data s = (Undecodable, s) \<and>
    Delete_Handler g t0 t1 data s = (Undecodable, s) \<and> BatchGet_Handler g envs t0 t1 data s = (Undecodable, s) \<and>
    BatchSet_Handler g now t0 t1 data s = (Undecodable, s) \<and> Stats_Handler g t0 t1 data s = (Undecodable, s) \<and>
    Health_Handler t0 t1 t2 t3 data s = (Undecodable, s)"
  using assms
  by (simp add: Get_Handler_def Set_Handler_def Delete_Handler_def BatchGet_Handler_def BatchSet_Handler_def Stats_Handler_def
      Health_Handler_def unary_def decode_get_request_def decode_set_request_def decode_batch_get_request_def
      decode_batch_set_request_def decode_empty_request_def unmarshal_def)

theorem bad_request_refused_witness:
  "Set_Handler demo_config 0 0 1 ''{key:1}'' demo_manager = (Undecodable, demo_manager)"
proof -
  have "json_parse ''{key:1}'' = None" by code_simp
  from bad_request_refused [OF this, of demo_config "(at_time 0, Runs False, \<lambda>k. FetchPanic)" 0 0 1 1 demo_manager
      "\<lambda>_. (at_time 0, Runs False, \<lambda>k. FetchPanic)" "\<lambda>_. 0"]
  show ?thesis by simp
qed

text \<open>The statistics can always be encoded.\<close>

theorem grpc_stats_encoded:
  "\<exists>body s' ms. Stats_Handler g t0 t1 ''{}'' s = (Body body, s') \<and> json_parse body = Some (JObject ms) \<and>
    map_of ms ''l1_hits'' = Some (json_int (sint (L1Hits (m_metrics s)))) \<and>
    map_of ms ''total_requests'' = Some (json_int (sint (TotalRequests (m_metrics s))))"
proof -
  let ?m = "m_metrics s"
  obtain r1 r2 lat r where "snapshot_json (Snapshot ?m) = Some (JObject (snapshot_members ?m r1 r2 lat r))"
    "json_ok (JObject (snapshot_members ?m r1 r2 lat r))" "nesting (JObject (snapshot_members ?m r1 r2 lat r)) = 1"
    by (rule snapshot_json_ok)
  moreover define ms where "ms = snapshot_members ?m r1 r2 lat r"
  ultimately have ms: "snapshot_json (Snapshot ?m) = Some (JObject ms)" "json_ok (JObject ms)" "nesting (JObject ms) = 1" by simp_all
  have counters: "map_of ms ''l1_hits'' = Some (json_int (sint (L1Hits ?m)))"
    "map_of ms ''total_requests'' = Some (json_int (sint (TotalRequests ?m)))"
    by (simp_all add: ms_def snapshot_members_def)
  have empty: "decode_empty_request ''{}'' = Some ()"
  proof -
    have "json_parse ''{}'' = Some (JObject [])" by code_simp
    then show ?thesis by (simp add: decode_empty_request_def unmarshal_def)
  qed
  obtain r where r: "rpc_Stats g s = (Reply (Some r) None, s)" "sr_snapshot r = Snapshot (m_metrics s)"
    by (simp add: rpc_Stats_def Manager_Stats_def Let_def split_beta)
  let ?j = "JObject (ms @ [(''l1_size'', json_int (sint (sr_l1_size r))), (''l2_pool_active_conns'', json_int (int (sr_conns r)))])"
  have j: "stats_response_json r = Some ?j" by (simp add: stats_response_json_def r(2) ms(1))
  have names: "raw_ok ''l1_size''" "raw_ok ''l2_pool_active_conns''" by code_simp+
  have "json_ok ?j" using ms(2) by (auto simp: names json_int_def show_int_number)
  moreover have "nesting ?j \<le> max_nesting" using ms(3) by (simp add: max_nesting_def json_int_def)
  ultimately have "json_parse (json_text (\<lambda>x. x) ?j) = Some ?j" using parse_text [of "\<lambda>x. x" ?j] by simp
  then show ?thesis
    using counters
    by (simp add: Stats_Handler_def unary_def empty r(1) grpc_chain_def loggingInterceptor_def metricsInterceptor_def j Snapshot_def)
qed

end
