(* ===== verification/Server_Main.thy ===== *)
theory Server_Main
  imports Config
begin

text \<open>
  The start of the server, \<open>cmd/server/main.go\<close>, as far as it decides whether there is a Redis client:
  \<open>NewL2\<close> of \<open>internal/cache/l2.go\<close> chooses the client and pings it, \<open>main\<close> falls back when the ping
  fails, then starts the gRPC listener and uses the client.  Whether the \<open>i\<close>-th ping of a client
  succeeds is the argument \<open>ping i\<close>.
\<close>

datatype redis_client_kind = ClusterClient "string list" | SingleClient string

datatype 'a go_result = Value 'a | IndexPanic

text \<open>\<open>addrs[0]\<close> of an empty list panics; a failed ping gives no client.\<close>

definition NewL2 :: "(redis_client_kind \<Rightarrow> bool) \<Rightarrow> string list \<Rightarrow> redis_client_kind option go_result" where
  "NewL2 ping addrs =
     (if 1 < length addrs then Value (if ping (ClusterClient addrs) then Some (ClusterClient addrs) else None)
      else case addrs of
        [] \<Rightarrow> IndexPanic
      | a # _ \<Rightarrow> Value (if ping (SingleClient a) then Some (SingleClient a) else None))"

definition mustCreateFallbackL2 :: "(nat \<Rightarrow> redis_client_kind \<Rightarrow> bool) \<Rightarrow> config \<Rightarrow> redis_client_kind option go_result" where
  "mustCreateFallbackL2 ping cfg =
     (case NewL2 (ping 1) (RedisAddrs cfg) of
        IndexPanic \<Rightarrow> IndexPanic
      | Value (Some l2) \<Rightarrow> Value (Some l2)
      | Value None \<Rightarrow> NewL2 (ping 2) [''localhost:6379''])"

datatype startup = Serving redis_client_kind | ExitCode nat | NilDereference | OutOfRange

text \<open>\<open>grpc_listens\<close>: whether the gRPC port could be bound.  \<open>l2.Client()\<close> reads a field of \<open>l2\<close>.\<close>

definition main_startup :: "(nat \<Rightarrow> redis_client_kind \<Rightarrow> bool) \<Rightarrow> bool \<Rightarrow> config \<Rightarrow> startup" where
  "main_startup ping grpc_listens cfg =
     (case (case NewL2 (ping 0) (RedisAddrs cfg) of
              Value None \<Rightarrow> mustCreateFallbackL2 ping cfg
            | other \<Rightarrow> other) of
        IndexPanic \<Rightarrow> OutOfRange
      | Value l2 \<Rightarrow>
          if \<not> grpc_listens then ExitCode 1
          else case l2 of Some client \<Rightarrow> Serving client | None \<Rightarrow> NilDereference)"

section \<open>Properties\<close>

definition configured_client :: "string list \<Rightarrow> redis_client_kind" where
  "configured_client addrs = (if 1 < length addrs then ClusterClient addrs else SingleClient (hd addrs))"

lemma NewL2_nonempty:
  "addrs \<noteq> [] \<Longrightarrow> NewL2 ping addrs = Value (if ping (configured_client addrs) then Some (configured_client addrs) else None)"
  by (cases addrs) (simp_all add: NewL2_def configured_client_def)

lemma Load_addrs: "RedisAddrs (Load env) \<noteq> []"
  by (simp add: Load_def envSlice_def Let_def)

text \<open>C34: there is no degraded mode.  For every environment, when Redis answers neither the first ping nor
  the two of the fallback, the server does not run without it, as its log says, but dereferences nil;
  and that is the only way to it.  An index out of range never happens.\<close>

theorem startup_without_redis:
  "(main_startup ping grpc_listens (Load env) = NilDereference \<longleftrightarrow>
     grpc_listens \<and> \<not> ping 0 (configured_client (RedisAddrs (Load env))) \<and>
     \<not> ping 1 (configured_client (RedisAddrs (Load env))) \<and> \<not> ping 2 (SingleClient ''localhost:6379'')) \<and>
   main_startup ping grpc_listens (Load env) \<noteq> OutOfRange"
  using Load_addrs [of env]
  by (simp add: main_startup_def mustCreateFallbackL2_def NewL2_nonempty configured_client_def)

end
