(* ===== verification/Process_Run.thy ===== *)
theory Process_Run
  imports Server_Run Grpc_Json Server_Main
begin

text \<open>
  The process of \<open>cmd/server/main.go\<close> from its start to its end: both front ends on one manager, the gRPC
  methods looked up by name (\<open>registerCacheService\<close> of \<open>internal/grpcserver/server.go\<close>), the signal, the
  stop and the drain of the gRPC server, the close of the HTTP server and the ways the process ends.  A call of
  gRPC is accepted and run in one step, or accepted in one and run in a later one, with anything in between; an
  HTTP request is one step.  What \<open>GracefulStop\<close> and \<open>Close\<close> do is what their documentation says: the first refuses
  new calls and returns when the accepted ones have run, the second ends \<open>ListenAndServe\<close>.
\<close>

section \<open>Methods by name\<close>

datatype rpc_method = MethodGet | MethodSet | MethodDelete | MethodBatchGet | MethodBatchSet | MethodStats | MethodHealth

text \<open>What a call meets: the environments of its \<open>Get\<close>s, the clock of its \<open>Set\<close>s, and the readings in the
  interceptor and in the method.\<close>

record rpc_env =
  rv_gets :: "nat \<Rightarrow> get_env"
  rv_sets :: "nat \<Rightarrow> time"
  rv_enter :: time
  rv_start :: time
  rv_stop :: time
  rv_leave :: time

definition service_methods :: "(string \<times> rpc_method) list" where
  "service_methods =
     [(''Get'', MethodGet), (''Set'', MethodSet), (''Delete'', MethodDelete), (''BatchGet'', MethodBatchGet),
      (''BatchSet'', MethodBatchSet), (''Stats'', MethodStats), (''Health'', MethodHealth)]"

definition call_method :: "time \<Rightarrow> 'r manager_config \<Rightarrow> rpc_env \<Rightarrow> rpc_method \<Rightarrow> bytes \<Rightarrow> 'r manager \<Rightarrow> wire \<times> 'r manager" where
  "call_method startTime g e m =
     (case m of
        MethodGet \<Rightarrow> Get_Handler g (rv_gets e 0) (rv_enter e) (rv_start e) (rv_stop e) (rv_leave e)
      | MethodSet \<Rightarrow> Set_Handler g (rv_enter e) (rv_sets e 0) (rv_leave e)
      | MethodDelete \<Rightarrow> Delete_Handler g (rv_enter e) (rv_leave e)
      | MethodBatchGet \<Rightarrow> BatchGet_Handler g (rv_gets e) (rv_enter e) (rv_leave e)
      | MethodBatchSet \<Rightarrow> BatchSet_Handler g (rv_sets e) (rv_enter e) (rv_leave e)
      | MethodStats \<Rightarrow> Stats_Handler g (rv_enter e) (rv_leave e)
      | MethodHealth \<Rightarrow> Health_Handler startTime (rv_enter e) (rv_start e) (rv_leave e))"

definition registerCacheService :: "time \<Rightarrow> 'r manager_config \<Rightarrow> rpc_env \<Rightarrow> string \<Rightarrow> (bytes \<Rightarrow> 'r manager \<Rightarrow> wire \<times> 'r manager) option" where
  "registerCacheService startTime g e name = map_option (call_method startTime g e) (map_of service_methods name)"

section \<open>The process\<close>

text \<open>\<open>Signalled\<close>: the goroutine of the shutdown has its signal and has not yet called \<open>GracefulStop\<close>; \<open>Draining\<close>: in
  \<open>GracefulStop\<close>; \<open>Closing\<close>: after \<open>server.Close\<close>, before \<open>main\<close> has returned.  \<open>p_calls\<close> are the calls of gRPC that are
  accepted and have not run: the method and the message.\<close>

datatype phase = Up | Signalled | Draining | Closing | Exited nat

record ('r, 'w) process =
  p_phase :: phase
  p_manager :: "'r manager"
  p_assets :: "'w binary_state"
  p_redis_open :: bool
  p_calls :: "(string \<times> bytes) list"

datatype process_event =
    HttpArrives request request_env
  | RpcArrives string bytes rpc_env
  | Background nat
  | RpcAccepted string bytes
  | RpcRuns nat rpc_env
  | SignalArrives
  | GracefulStop
  | GrpcDrained
  | ListenFails
  | MainReturns

datatype answer = HttpAnswer writer | HttpAborted | RpcAnswer wire | RpcUnimplemented | RpcRefused | RpcTaken | NoAnswer

text \<open>What the program is given: the start of the gRPC server, the configuration of the manager, the asset
  handler, and the escaping of a redirect.\<close>

record ('r, 'w) program =
  pg_start :: time
  pg_manager :: "'r manager_config"
  pg_assets :: "'w binary_handler"
  pg_url :: "string \<Rightarrow> string"

text \<open>An HTTP request, while the server listens.  A panic out of the middleware is caught by \<open>net/http\<close>, which
  drops the connection.\<close>

definition http_arrives :: "('r, 'w) program \<Rightarrow> request \<Rightarrow> request_env \<Rightarrow> ('r, 'w) process \<Rightarrow> (answer \<times> ('r, 'w) process) option" where
  "http_arrives pg r e p =
     (case main_server (pg_url pg) (pg_manager pg) (ev_gets e) (ev_now e) (pg_assets pg) (ev_order e) (ev_meta e) (ev_cache e)
             r (p_manager p, p_assets p) new_writer of
        Returned s w \<Rightarrow> Some (HttpAnswer w, p\<lparr>p_manager := fst s, p_assets := snd s\<rparr>)
      | Panicked s w \<Rightarrow> Some (HttpAborted, p\<lparr>p_manager := fst s, p_assets := snd s\<rparr>)
      | Hangs \<Rightarrow> None)"

text \<open>A gRPC call.  A panic in a method ends the process, with the exit code 2 of the Go runtime; no deferred
  call of \<open>main\<close> runs.\<close>

definition rpc_arrives :: "('r, 'w) program \<Rightarrow> string \<Rightarrow> bytes \<Rightarrow> rpc_env \<Rightarrow> ('r, 'w) process \<Rightarrow> answer \<times> ('r, 'w) process" where
  "rpc_arrives pg name data e p =
     (case registerCacheService (pg_start pg) (pg_manager pg) e name of
        None \<Rightarrow> (RpcUnimplemented, p)
      | Some handler \<Rightarrow>
          (case handler data (p_manager p) of
             (Ended, m) \<Rightarrow> (NoAnswer, p\<lparr>p_manager := m, p_phase := Exited 2\<rparr>)
           | (wire, m) \<Rightarrow> (RpcAnswer wire, p\<lparr>p_manager := m\<rparr>)))"

text \<open>A step; \<open>None\<close> when the event cannot happen.  The channel of the signals is read once, so a second signal
  has no effect.  \<open>os.Exit\<close> skips the deferred \<open>l2.Close\<close>.\<close>

fun process_step :: "('r, 'w) program \<Rightarrow> process_event \<Rightarrow> ('r, 'w) process \<Rightarrow> (answer \<times> ('r, 'w) process) option" where
  "process_step pg (HttpArrives r e) p =
     (if p_phase p \<in> {Up, Signalled, Draining} then http_arrives pg r e p else None)"
| "process_step pg (RpcArrives name data e) p =
     (case p_phase p of
        Exited n \<Rightarrow> None
      | Draining \<Rightarrow> Some (RpcRefused, p)
      | Closing \<Rightarrow> Some (RpcRefused, p)
      | _ \<Rightarrow> Some (rpc_arrives pg name data e p))"
| "process_step pg (RpcAccepted name data) p =
     (case p_phase p of
        Exited n \<Rightarrow> None
      | Draining \<Rightarrow> Some (RpcRefused, p)
      | Closing \<Rightarrow> Some (RpcRefused, p)
      | _ \<Rightarrow> Some (RpcTaken, p\<lparr>p_calls := p_calls p @ [(name, data)]\<rparr>))"
| "process_step pg (RpcRuns i e) p =
     (if p_phase p \<in> {Up, Signalled, Draining} \<and> i < length (p_calls p)
      then let (name, data) = p_calls p ! i
           in Some (rpc_arrives pg name data e (p\<lparr>p_calls := take i (p_calls p) @ drop (Suc i) (p_calls p)\<rparr>))
      else None)"
| "process_step pg (Background i) p =
     (case p_phase p of
        Exited n \<Rightarrow> None
      | _ \<Rightarrow> Some (NoAnswer, p\<lparr>p_manager := background_set (pg_manager pg) i (p_manager p)\<rparr>))"
| "process_step pg SignalArrives p =
     (case p_phase p of
        Up \<Rightarrow> Some (NoAnswer, p\<lparr>p_phase := Signalled\<rparr>)
      | Exited n \<Rightarrow> None
      | _ \<Rightarrow> Some (NoAnswer, p))"
| "process_step pg GracefulStop p =
     (if p_phase p = Signalled then Some (NoAnswer, p\<lparr>p_phase := Draining\<rparr>) else None)"
| "process_step pg GrpcDrained p =
     (if p_phase p = Draining \<and> p_calls p = [] then Some (NoAnswer, p\<lparr>p_phase := Closing\<rparr>) else None)"
| "process_step pg ListenFails p =
     (if p_phase p \<in> {Up, Signalled, Draining} then Some (NoAnswer, p\<lparr>p_phase := Exited 1\<rparr>) else None)"
| "process_step pg MainReturns p =
     (if p_phase p = Closing then Some (NoAnswer, p\<lparr>p_phase := Exited 0, p_redis_open := False\<rparr>) else None)"

fun process_run :: "('r, 'w) program \<Rightarrow> process_event list \<Rightarrow> ('r, 'w) process \<Rightarrow> (answer list \<times> ('r, 'w) process) option" where
  "process_run pg [] p = Some ([], p)"
| "process_run pg (ev # evs) p =
     (case process_step pg ev p of
        None \<Rightarrow> None
      | Some (a, p') \<Rightarrow> map_option (\<lambda>(as, p''). (a # as, p'')) (process_run pg evs p'))"

text \<open>The process when \<open>main\<close> has started both servers on a Redis in the state \<open>r\<close> and stores in the state \<open>w\<close>.\<close>

definition process_start :: "config \<Rightarrow> 'r \<Rightarrow> 'w \<Rightarrow> ('r, 'w) process" where
  "process_start cfg r w = \<lparr>p_phase = Up, p_manager = server_manager cfg r, p_assets = server_assets w, p_redis_open = True, p_calls = []\<rparr>"

section \<open>Methods on the manager\<close>

lemma calm_batch: "\<forall>i. calm (env i) \<Longrightarrow> fst (batch_get_loop g env i keys acc s) \<noteq> Crash"
proof (induction keys arbitrary: i acc s)
  case (Cons k keys)
  then show ?case using calm_get [of "env i" g k s] by (auto split: prod.split fetch_result.split)
qed simp

lemma batch_set_ends: "None \<notin> set es \<Longrightarrow> fst (batch_set_loop g now i es acc s) \<noteq> Crash"
  by (induction g now i es acc s rule: batch_set_loop.induct) (auto split: prod.split option.split)

text \<open>The requests that do not end the process.\<close>

definition no_null :: "bytes \<Rightarrow> bool" where
  "no_null data \<longleftrightarrow> (case decode_batch_set_request data of Some q \<Rightarrow> None \<notin> set (slice_list (bsq_entries q)) | None \<Rightarrow> True)"

lemma unary_not_ended:
  assumes "\<And>q s. dec data = Some q \<Longrightarrow> fst (rpc q s) \<noteq> Crash"
  shows "fst (unary dec enc t0 t1 rpc data s) \<noteq> Ended"
proof (cases "dec data")
  case (Some q)
  then show ?thesis using assms [OF Some, of s]
    by (cases "rpc q s") (auto simp: unary_def grpc_chain_def loggingInterceptor_def metricsInterceptor_def
        split: rpc_result.splits option.splits)
qed (simp add: unary_def)

lemma call_method_not_ended:
  assumes "\<forall>i. calm (rv_gets e i)" and "no_null data"
  shows "fst (call_method startTime g e m data s) \<noteq> Ended"
proof (cases m)
  case MethodGet
  have "fst (rpc_Get g (rv_gets e 0) t t' k s) \<noteq> Crash" for t t' k s
    using calm_get [of "rv_gets e 0" g k s] assms(1) by (auto simp: rpc_Get_def split: prod.split fetch_result.split)
  with MethodGet show ?thesis by (simp add: call_method_def Get_Handler_def unary_not_ended)
next
  case MethodSet
  then show ?thesis by (simp add: call_method_def Set_Handler_def rpc_Set_def unary_not_ended split: prod.split)
next
  case MethodDelete
  then show ?thesis by (simp add: call_method_def Delete_Handler_def rpc_Delete_def unary_not_ended split: prod.split)
next
  case MethodBatchGet
  then show ?thesis using assms(1) by (simp add: call_method_def BatchGet_Handler_def rpc_BatchGet_def unary_not_ended calm_batch)
next
  case MethodBatchSet
  have "fst (rpc_BatchSet g now (map (map_option f) (slice_list (bsq_entries q))) s) \<noteq> Crash"
    if "decode_batch_set_request data = Some q" for now f q s
  proof -
    have "None \<notin> set (map (map_option f) (slice_list (bsq_entries q)))"
      using assms(2) that by (auto simp: no_null_def)
    then show ?thesis unfolding rpc_BatchSet_def by (rule batch_set_ends)
  qed
  with MethodBatchSet show ?thesis by (simp add: call_method_def BatchSet_Handler_def unary_not_ended)
next
  case MethodStats
  then show ?thesis by (simp add: call_method_def Stats_Handler_def rpc_Stats_def unary_not_ended Let_def)
next
  case MethodHealth
  then show ?thesis by (simp add: call_method_def Health_Handler_def rpc_Health_def unary_not_ended)
qed

section \<open>Invariants that meter the calls\<close>

text \<open>Whether the interceptor of gRPC has recorded a call: it has, unless the request did not decode or the
  method panicked.\<close>

definition recorded :: "wire \<Rightarrow> 64 word" where
  "recorded wr = (case wr of Undecodable \<Rightarrow> 0 | Ended \<Rightarrow> 0 | _ \<Rightarrow> 1)"

definition recorded_answer :: "answer \<Rightarrow> 64 word" where
  "recorded_answer a = (case a of RpcAnswer wr \<Rightarrow> recorded wr | _ \<Rightarrow> 0)"

text \<open>The ranges over the map of the assets visit every entry once.\<close>

fun orderly :: "process_event \<Rightarrow> bool" where
  "orderly (HttpArrives r e) \<longleftrightarrow> range_order (ev_order e)"
| "orderly _ \<longleftrightarrow> True"

text \<open>Events that do not end the process, and their proper answers.\<close>

fun gentle :: "process_event \<Rightarrow> bool" where
  "gentle (HttpArrives r e) \<longleftrightarrow> range_order (ev_order e)"
| "gentle (RpcArrives name data e) \<longleftrightarrow> (\<forall>i. calm (rv_gets e i)) \<and> no_null data"
| "gentle (Background i) \<longleftrightarrow> True"
| "gentle _ \<longleftrightarrow> False"

fun answers :: "process_event \<Rightarrow> answer \<Rightarrow> bool" where
  "answers (HttpArrives r e) a \<longleftrightarrow> (\<exists>w. a = HttpAnswer w)"
| "answers (RpcArrives name data e) a \<longleftrightarrow>
     (if map_of service_methods name = None then a = RpcUnimplemented else \<exists>wr. a = RpcAnswer wr \<and> wr \<noteq> Ended)"
| "answers _ a \<longleftrightarrow> a = NoAnswer"

text \<open>An invariant of the manager that knows how many requests were recorded besides those of its own \<open>Get\<close>s.\<close>

locale metered_invariant =
  fixes g :: "'r manager_config" and J :: "64 word \<Rightarrow> 'r manager \<Rightarrow> bool"
  assumes step: "J d s \<Longrightarrow> J d (manager_step g op s)"
    and metered: "J d s \<Longrightarrow> J (d + 1) (count (RecordLatency l) s)"

sublocale metered_invariant \<subseteq> fixed: manager_invariant g "J d" for d
  by unfold_locales (rule step)

context metered_invariant
begin

lemma unary_keeps:
  assumes "J d s" and "\<And>q. J d (snd (rpc q s))"
  shows "J (d + recorded (fst (unary dec enc t0 t1 rpc data s))) (snd (unary dec enc t0 t1 rpc data s))"
proof (cases "dec data")
  case (Some q)
  have one: "J d (snd (rpc q s))" by (rule assms(2))
  obtain out s' where run: "rpc q s = (out, s')" by (rule prod.exhaust)
  show ?thesis
  proof (cases out)
    case (Reply r err)
    from one run have "J (d + 1) (count (RecordLatency (t1 - t0)) s')" using metered by simp
    with Some Reply run show ?thesis
      by (cases err; cases r) (simp_all add: unary_def grpc_chain_def loggingInterceptor_def metricsInterceptor_def recorded_def split: option.split)
  next
    case Crash
    with Some run one show ?thesis
      by (simp add: unary_def grpc_chain_def loggingInterceptor_def metricsInterceptor_def recorded_def)
  qed
qed (simp add: unary_def recorded_def assms(1))

lemma batch_get: "J d s \<Longrightarrow> J d (snd (batch_get_loop g env i keys acc s))"
proof (induction keys arbitrary: i acc s)
  case (Cons k keys)
  obtain out s' where run: "manager_get g (env i) k s = (out, s')" by (rule prod.exhaust)
  with fixed.get [OF Cons.prems, of "env i" k] have "J d s'" by simp
  with run Cons.IH show ?case by (simp split: fetch_result.split)
qed simp

lemma batch_set: "J d s \<Longrightarrow> J d (snd (batch_set_loop g now i es acc s))"
proof (induction es arbitrary: i acc s)
  case (Cons e es)
  show ?case
  proof (cases e)
    case (Some kv)
    obtain k v where kv: "kv = (k, v)" by (rule prod.exhaust)
    obtain err s' where run: "Manager_Set g (now i) k v s = (err, s')" by (rule prod.exhaust)
    with fixed.put [OF Cons.prems, of "now i" k v] have "J d s'" by simp
    with run Some kv Cons.IH show ?thesis by (simp split: option.split)
  qed (simp add: Cons.prems)
qed simp

lemma methods:
  assumes "J d s"
  shows "J d (snd (rpc_Get g env t t' k s))" "J d (snd (rpc_Set g now k v ttl s))" "J d (snd (rpc_Delete g k s))"
    "J d (snd (rpc_BatchGet g envs ks s))" "J d (snd (rpc_BatchSet g nows es s))" "J d (snd (rpc_Stats g s))"
    "J d (snd (rpc_Health t t' s))"
proof -
  show "J d (snd (rpc_Get g env t t' k s))"
    using assms fixed.get [OF assms, of env k] by (auto simp: rpc_Get_def split: prod.split fetch_result.split)
  show "J d (snd (rpc_Set g now k v ttl s))"
    using assms fixed.put [OF assms, of now k v] by (auto simp: rpc_Set_def split: prod.split)
  show "J d (snd (rpc_Delete g k s))"
    using assms fixed.invalidate [OF assms, of k] by (auto simp: rpc_Delete_def split: prod.split)
qed (simp_all add: assms rpc_BatchGet_def rpc_BatchSet_def rpc_Stats_def rpc_Health_def batch_get batch_set Let_def)

lemma call_keeps:
  assumes "J d s" and "call_method startTime g e m data s = (wr, s')"
  shows "J (d + recorded wr) s'"
proof -
  have "J (d + recorded (fst (call_method startTime g e m data s))) (snd (call_method startTime g e m data s))"
    by (cases m) (simp_all add: call_method_def Get_Handler_def Set_Handler_def Delete_Handler_def BatchGet_Handler_def
        BatchSet_Handler_def Stats_Handler_def Health_Handler_def unary_keeps methods assms(1))
  with assms(2) show ?thesis by simp
qed

text \<open>The process: its manager has the invariant for the calls recorded so far.\<close>

definition kept :: "64 word \<Rightarrow> ('r, 'w) process \<Rightarrow> bool" where
  "kept d p \<longleftrightarrow> J d (p_manager p) \<and> assets_ok (p_assets p)"

lemma rpc_keeps:
  assumes "kept d p" and "pg_manager pg = g"
  shows "kept (d + recorded_answer (fst (rpc_arrives pg name data e p))) (snd (rpc_arrives pg name data e p))"
proof (cases "map_of service_methods name")
  case None
  with assms show ?thesis by (simp add: rpc_arrives_def registerCacheService_def recorded_answer_def)
next
  case (Some m)
  obtain wr s' where run: "call_method (pg_start pg) g e m data (p_manager p) = (wr, s')" by (rule prod.exhaust)
  have "J (d + recorded wr) s'" using assms(1) run by (intro call_keeps) (simp_all add: kept_def)
  with Some run assms show ?thesis
    by (cases wr) (simp_all add: rpc_arrives_def registerCacheService_def recorded_answer_def recorded_def kept_def)
qed

lemma step_keeps:
  assumes "kept d p" and "orderly ev" and "pg_manager pg = g" and "process_step pg ev p = Some (a, p')"
  shows "kept (d + recorded_answer a) p'"
proof (cases ev)
  case (HttpArrives r e)
  with assms(2) have ord: "range_order (ev_order e)" by simp
  obtain s' w' where "main_server (pg_url pg) g (ev_gets e) (ev_now e) (pg_assets pg) (ev_order e) (ev_meta e) (ev_cache e) r
      (p_manager p, p_assets p) new_writer = Returned s' w'" "J d (fst s')" "assets_ok (snd s')"
    using fixed.main_answers [where d = d and s = "(p_manager p, p_assets p)" and url = "pg_url pg" and env = "ev_gets e" and now = "ev_now e"
        and h = "pg_assets pg" and ?t1.0 = "ev_meta e" and ?t2.0 = "ev_cache e" and r = r, OF _ _ ord] assms(1)
    by (auto simp: kept_def)
  with HttpArrives assms show ?thesis
    by (auto simp: kept_def http_arrives_def recorded_answer_def split: if_splits)
next
  case (RpcArrives name data e)
  with assms show ?thesis using rpc_keeps [OF assms(1,3), of name data e]
    by (cases "p_phase p") (auto simp: recorded_answer_def)
next
  case (RpcRuns i e)
  obtain name data where call: "p_calls p ! i = (name, data)" by (rule prod.exhaust)
  let ?p = "p\<lparr>p_calls := take i (p_calls p) @ drop (Suc i) (p_calls p)\<rparr>"
  have "kept d ?p" using assms(1) by (simp add: kept_def)
  from rpc_keeps [OF this assms(3), of name data e] assms(4) RpcRuns call show ?thesis by (auto split: if_splits)
next
  case (Background i)
  with assms show ?thesis using fixed.background [of d "p_manager p" i]
    by (auto simp: kept_def recorded_answer_def split: phase.splits)
qed (use assms in \<open>auto simp: kept_def recorded_answer_def split: phase.splits if_splits\<close>)

lemma run_keeps:
  assumes "kept d p" and "list_all orderly evs" and "pg_manager pg = g" and "process_run pg evs p = Some (as, p')"
  shows "kept (d + sum_list (map recorded_answer as)) p'"
  using assms
proof (induction evs arbitrary: d p as)
  case (Cons ev evs)
  from Cons.prems(4) obtain a p1 as1 where one: "process_step pg ev p = Some (a, p1)" "process_run pg evs p1 = Some (as1, p')" "as = a # as1"
    by (auto split: option.splits)
  from Cons.IH [OF step_keeps [OF Cons.prems(1) _ Cons.prems(3) one(1)] _ Cons.prems(3) one(2)] Cons.prems(2) one(3) show ?case
    by (simp add: add.assoc)
qed simp

text \<open>While no signal comes, an orderly event that ends nothing is answered.\<close>

lemma serves:
  assumes "kept d p" and "p_phase p = Up" and "list_all gentle evs" and "pg_manager pg = g"
  shows "\<exists>as p'. process_run pg evs p = Some (as, p') \<and> p_phase p' = Up \<and> list_all2 answers evs as"
  using assms
proof (induction evs arbitrary: d p)
  case (Cons ev evs)
  then have ev: "gentle ev" by simp
  have "\<exists>a p1. process_step pg ev p = Some (a, p1) \<and> p_phase p1 = Up \<and> answers ev a"
  proof (cases ev)
    case (HttpArrives r e)
    with ev have ord: "range_order (ev_order e)" by simp
    have "\<exists>s' w'. main_server (pg_url pg) g (ev_gets e) (ev_now e) (pg_assets pg) (ev_order e) (ev_meta e) (ev_cache e) r
        (p_manager p, p_assets p) new_writer = Returned s' w'"
      using fixed.main_answers [where d = d and s = "(p_manager p, p_assets p)" and url = "pg_url pg" and env = "ev_gets e" and now = "ev_now e"
          and h = "pg_assets pg" and ?t1.0 = "ev_meta e" and ?t2.0 = "ev_cache e" and r = r, OF _ _ ord] Cons.prems(1)
      by (auto simp: kept_def)
    with HttpArrives Cons.prems(2,4) show ?thesis by (auto simp: http_arrives_def)
  next
    case (RpcArrives name data e)
    show ?thesis
    proof (cases "map_of service_methods name")
      case None
      with RpcArrives Cons.prems(2) show ?thesis
        by (simp add: rpc_arrives_def registerCacheService_def)
    next
      case (Some m)
      obtain wr s' where run: "call_method (pg_start pg) g e m data (p_manager p) = (wr, s')" by (rule prod.exhaust)
      with call_method_not_ended [of e data "pg_start pg" g m "p_manager p"] ev RpcArrives have "wr \<noteq> Ended" by simp
      with Some run RpcArrives Cons.prems(2,4) show ?thesis
        by (cases wr) (simp_all add: rpc_arrives_def registerCacheService_def)
    qed
  qed (use ev Cons.prems(2) in simp_all)
  then obtain a p1 where one: "process_step pg ev p = Some (a, p1)" "p_phase p1 = Up" "answers ev a" by blast
  have "orderly ev" using ev by (cases ev) simp_all
  with step_keeps [OF Cons.prems(1) _ Cons.prems(4) one(1)] have "kept (d + recorded_answer a) p1" by simp
  from Cons.IH [OF this one(2)] Cons.prems(3,4) obtain as p' where
    "process_run pg evs p1 = Some (as, p')" "p_phase p' = Up" "list_all2 answers evs as" by auto
  with one show ?case by (intro exI [of _ "a # as"] exI [of _ p']) simp
qed simp

end

section \<open>The process serves\<close>

definition metered_ok :: "'r manager_config \<Rightarrow> int \<Rightarrow> 64 word \<Rightarrow> 'r manager \<Rightarrow> bool" where
  "metered_ok g n d s \<longleftrightarrow> l1_inv (m_l1 s) \<and> capacity_is n (m_l1 s) \<and>
     TotalRequests (m_metrics s) = L1Hits (m_metrics s) + L1Misses (m_metrics s) + d \<and>
     L1Misses (m_metrics s) = L2Hits (m_metrics s) + L2Misses (m_metrics s) \<and>
     (\<not> g_useSF g \<longrightarrow> OriginCalls (m_metrics s) = L2Misses (m_metrics s))"

text \<open>The operations of the manager do not look at the number of the requests.\<close>

lemma metered_Get:
  assumes "metered_ok g n d s"
  shows "metered_ok g n d (snd (Manager_Get g clk fl orig key s))"
proof -
  have inv: "l1_inv (m_l1 s)" "capacity_is n (m_l1 s)" using assms by (simp_all add: metered_ok_def)
  note old = assms [unfolded metered_ok_def]
  have "TotalRequests (m_metrics (snd (Manager_Get g clk fl orig key s))) =
      L1Hits (m_metrics (snd (Manager_Get g clk fl orig key s))) + L1Misses (m_metrics (snd (Manager_Get g clk fl orig key s))) + d \<and>
    L1Misses (m_metrics (snd (Manager_Get g clk fl orig key s))) =
      L2Hits (m_metrics (snd (Manager_Get g clk fl orig key s))) + L2Misses (m_metrics (snd (Manager_Get g clk fl orig key s))) \<and>
    (\<not> g_useSF g \<longrightarrow> OriginCalls (m_metrics (snd (Manager_Get g clk fl orig key s))) = L2Misses (m_metrics (snd (Manager_Get g clk fl orig key s))))"
    using inv(1)
  proof (cases rule: Get_cases [where s = s and clk = clk and key = key and g = g])
    case (l1 v)
    with inv old show ?thesis by (simp add: Get_L1_hit RecordLatency_def inc_defs algebra_simps)
  next
    case (l2 v r')
    with inv old show ?thesis by (simp add: Get_L2_hit RecordLatency_def inc_defs algebra_simps)
  next
    case (origin e r')
    with inv old show ?thesis
      by (cases "e = RedisNil"; simp add: Get_origin RecordLatency_def split_beta fetchFromOrigin_counters;
          simp add: inc_defs algebra_simps)
  qed
  with inv show ?thesis by (simp add: metered_ok_def Get_inv Get_capacity)
qed

lemma metered_step:
  assumes "metered_ok g n d s"
  shows "metered_ok g n d (manager_step g op s)"
proof (cases op)
  case (DoGet clk fl orig key)
  with metered_Get [OF assms] show ?thesis by simp
qed (use assms in \<open>simp_all add: metered_ok_def Manager_Set_def Invalidate_def background_set_def Let_def split_beta
      L1_Set_inv L1_Delete_inv l1_capacity_ops\<close>)

interpretation metered: metered_invariant g "metered_ok g n" for g :: "'r manager_config" and n
proof
  show "metered_ok g n d (manager_step g op s)" if "metered_ok g n d s" for d s op
    using that by (rule metered_step)
  show "metered_ok g n (d + 1) (count (RecordLatency l) s)" if "metered_ok g n d s" for d s l
    using that by (simp add: metered_ok_def RecordLatency_def algebra_simps)
qed

section \<open>Properties\<close>

definition main_program :: "time \<Rightarrow> 'r redis_client \<Rightarrow> config \<Rightarrow> 'w binary_handler \<Rightarrow> (string \<Rightarrow> string) \<Rightarrow> ('r, 'w) program" where
  "main_program startTime rc cfg h url =
     \<lparr>pg_start = startTime, pg_manager = server_config rc cfg, pg_assets = h, pg_url = url\<rparr>"

lemma process_start_ok:
  "metered.kept cfg' (perShard_of (L1MaxSize cfg)) 0 (process_start cfg r w)"
  by (simp add: metered.kept_def metered_ok_def process_start_def server_manager_def server_assets_def NewManager_def NewL1_inv
      NewL1_capacity metrics_zero_def asset_inv_def newAssetCache_def)

text \<open>C2: Both front ends serve.  From its start with any configuration, in every run of HTTP requests, gRPC calls with
  any bytes and background writes, whatever Redis, the origin and the object store answer, each request and
  each call of a method is answered and the process stays up, as long as the origin does not panic in a call
  of gRPC and no batch of sets has a null entry.  The requests counted are those that hit or missed L1 and,
  once more, every gRPC call that was decoded.\<close>

theorem process_serves:
  assumes "list_all gentle evs"
  shows "\<exists>as p. process_run (main_program startTime rc cfg h url) evs (process_start cfg r w) = Some (as, p) \<and>
    p_phase p = Up \<and> list_all2 answers evs as \<and>
    int (L1_Stats (m_l1 (p_manager p))) \<le> 256 * perShard_of (L1MaxSize cfg) \<and> asset_inv (bs_cache (p_assets p)) \<and>
    L1Misses (m_metrics (p_manager p)) = L2Hits (m_metrics (p_manager p)) + L2Misses (m_metrics (p_manager p)) \<and>
    TotalRequests (m_metrics (p_manager p)) =
      L1Hits (m_metrics (p_manager p)) + L1Misses (m_metrics (p_manager p)) + sum_list (map recorded_answer as)"
proof -
  let ?pg = "main_program startTime rc cfg h url" and ?p = "process_start cfg r w"
  note start = process_start_ok [of "server_config rc cfg" cfg r w]
  have pg: "pg_manager ?pg = server_config rc cfg" and up: "p_phase ?p = Up" by (simp_all add: main_program_def process_start_def)
  from metered.serves [OF start up assms pg] obtain as p where
    run: "process_run ?pg evs ?p = Some (as, p)" "p_phase p = Up" "list_all2 answers evs as" by blast
  have "list_all orderly evs" using assms by (auto simp: list_all_iff) (metis gentle.simps orderly.elims(3))
  from metered.run_keeps [OF start this pg run(1)] have ok:
    "metered_ok (server_config rc cfg) (perShard_of (L1MaxSize cfg)) (sum_list (map recorded_answer as)) (p_manager p)" "assets_ok (p_assets p)"
    by (simp_all add: metered.kept_def)
  have "int (L1_Stats (m_l1 (p_manager p))) \<le> 256 * perShard_of (L1MaxSize cfg)"
    using ok(1) by (auto simp: metered_ok_def capacity_is_def list_all_iff intro!: L1_Stats_bound)
  with run ok show ?thesis by (auto simp: metered_ok_def)
qed

text \<open>C4: The two protocols share one cache.  A value put over HTTP is answered by a \<open>Get\<close> over gRPC, in base64 within a JSON
  object; a value set over gRPC, whatever its bytes, is the body of the answer to a \<open>GET\<close> over HTTP.  Both
  within the TTL, for keys in valid UTF-8, and also when Redis refused the write.\<close>

theorem protocols_share_cache:
  assumes "p_phase p = Up" and "l1_inv (m_l1 (p_manager p))" and "to_valid k = k" and "key_path k path"
    and "rq_method r = ''PUT''" and "rq_path r = path" and "rq_body r = value_body v rest"
    and "t_l1 (fst (rv_gets e' 0)) \<le> ev_now e + c_ttl (m_l1 (p_manager p))"
    and "rq_method r' = ''GET''" and "rq_path r' = path"
    and "t_l1 (fst (ev_gets f' 0)) \<le> rv_sets f 0 + c_ttl (m_l1 (p_manager p))"
  shows "(\<exists>w body p' ms raw. process_run pg [HttpArrives r e, RpcArrives ''Get'' (get_text k) e'] p =
        Some ([HttpAnswer w, RpcAnswer (Body body)], p') \<and>
      json_parse body = Some (JObject ms) \<and> map_of ms ''value'' = Some (JString raw) \<and>
      Option.bind (unquote_body raw) b64_decode = Some (to_valid v)) \<and>
    (\<exists>wr w p'. process_run pg [RpcArrives ''Set'' (set_text k v) f, HttpArrives r' f'] p = Some ([RpcAnswer wr, HttpAnswer w], p') \<and>
      status_of w = 200 \<and> w_body w = v)"
proof
  let ?g = "pg_manager pg" and ?m = "p_manager p"
  note K = key_path_found [OF assms(4)]
  let ?r = "r\<lparr>rq_value := k\<rparr>" and ?r' = "r'\<lparr>rq_value := k\<rparr>"
  obtain clk fl orig where env: "rv_gets e' 0 = (clk, fl, orig)" by (cases "rv_gets e' 0") auto
  from put_caches [OF assms(2) _ _ cors_writer_fresh, of ?r "to_valid v" ?g "ev_now e"] K(4) assms(7,8)
  obtain m' w where put: "putCache ?g (ev_now e) ?r ?m cors_writer = Returned m' w"
      "l1_inv (m_l1 m')" "l1_live (t_l1 clk) (m_l1 m') k = Some (to_valid v)" by (auto simp: env)
  have one: "main_server (pg_url pg) ?g (ev_gets e) (ev_now e) (pg_assets pg) (ev_order e) (ev_meta e) (ev_cache e) r (?m, p_assets p) new_writer =
      Returned (m', p_assets p) w"
    unfolding main_server_def by (rule http_served [where rt = PutCache and v = k])
      (simp_all add: assms(5,6) K server_routes_def on_manager_def put(1))
  have live: "l1_live (t_l1 clk) (m_l1 m') (to_valid k) = Some (to_valid v)" using put(3) assms(3) by simp
  from put(2) live K(4) obtain body s' ms raw where two:
    "Get_Handler ?g (clk, fl, orig) (rv_enter e') (rv_start e') (rv_stop e') (rv_leave e') (get_text k) m' = (Body body, s')"
    "json_parse body = Some (JObject ms)" "map_of ms ''value'' = Some (JString raw)"
    "Option.bind (unquote_body raw) b64_decode = Some (to_valid v)"
    by (rule Get_Handler_live)
  show "\<exists>w body p' ms raw. process_run pg [HttpArrives r e, RpcArrives ''Get'' (get_text k) e'] p =
        Some ([HttpAnswer w, RpcAnswer (Body body)], p') \<and>
      json_parse body = Some (JObject ms) \<and> map_of ms ''value'' = Some (JString raw) \<and>
      Option.bind (unquote_body raw) b64_decode = Some (to_valid v)"
    using two assms(1) by (simp add: http_arrives_def one rpc_arrives_def registerCacheService_def service_methods_def call_method_def env)
  obtain clk' fl' orig' where env': "ev_gets f' 0 = (clk', fl', orig')" by (cases "ev_gets f' 0") auto
  let ?s = "count (RecordLatency (rv_leave f - rv_enter f)) (snd (Manager_Set ?g (rv_sets f 0) k v ?m))"
  have set: "l1_inv (m_l1 ?s)" "l1_live (t_l1 clk') (m_l1 ?s) k = Some v"
    using Manager_Set_live [OF assms(2), of "t_l1 clk'" "rv_sets f 0"] assms(11) by (simp_all add: env')
  let ?s2 = "snd (Manager_Get ?g clk' fl' orig' k ?s)" and ?w = "write_body v (json_type cors_writer)"
  have "getCache ?g (ev_gets f' 0) ?r' ?s cors_writer = Returned ?s2 ?w"
    using set K(4) by (simp add: env' getCache_def manager_get_def Get_L1_hit)
  then have get: "main_server (pg_url pg) ?g (ev_gets f') (ev_now f') (pg_assets pg) (ev_order f') (ev_meta f') (ev_cache f') r' (?s, p_assets p) new_writer =
      Returned (?s2, p_assets p) ?w"
    unfolding main_server_def by (intro http_served [where rt = GetCache and v = k])
      (simp_all add: assms(9,10) K server_routes_def on_manager_def)
  have "\<exists>wr. rpc_arrives pg ''Set'' (set_text k v) f p = (RpcAnswer wr, p\<lparr>p_manager := ?s\<rparr>)"
    using Set_Handler_text [OF K(4), of ?g "rv_enter f" "rv_sets f 0" "rv_leave f" v ?m]
    by (simp add: rpc_arrives_def registerCacheService_def service_methods_def call_method_def assms(3) split: option.split)
  then show "\<exists>wr w p'. process_run pg [RpcArrives ''Set'' (set_text k v) f, HttpArrives r' f'] p = Some ([RpcAnswer wr, HttpAnswer w], p') \<and>
      status_of w = 200 \<and> w_body w = v"
    using assms(1) get json_answers(2,3) [OF cors_writer_fresh, of v] by (auto simp: http_arrives_def)
qed

text \<open>The write of Redis that an origin fetch starts in the background does not survive a shutdown: a \<open>GET\<close> of a key
  neither layer has is answered 200, then a signal comes, gRPC stops and drains and \<open>main\<close> returns with exit code 0;
  the write is still pending, Redis is as the lookup left it, and the write cannot happen any more.\<close>

theorem shutdown_loses_write:
  assumes "p_phase p = Up" and "l1_inv (m_l1 (p_manager p))" and "key_path k path" and "rq_method r = ''GET''" and "rq_path r = path"
    and "ev_gets e 0 = (clk, fl, orig)" and "l1_live (t_l1 clk) (m_l1 (p_manager p)) k = None"
    and "rd_get (l2_client (g_l2 (pg_manager pg))) k (m_redis (p_manager p)) = (Inl RedisNil, r0)"
    and "runs_fetch (pg_manager pg) fl" and "orig k = Fetched v" and "p_calls p = []"
  shows "\<exists>w p'. process_run pg [HttpArrives r e, SignalArrives, GracefulStop, GrpcDrained, MainReturns] p =
      Some ([HttpAnswer w, NoAnswer, NoAnswer, NoAnswer, NoAnswer], p') \<and> status_of w = 200 \<and> w_body w = v \<and>
    p_phase p' = Exited 0 \<and> (k, v) \<in> set (m_pending (p_manager p')) \<and> m_redis (p_manager p') = r0 \<and>
    (\<forall>i. process_step pg (Background i) p' = None)"
proof -
  let ?g = "pg_manager pg" and ?r = "r\<lparr>rq_value := k\<rparr>" and ?w = "write_body v (json_type cors_writer)"
  note K = key_path_found [OF assms(3)]
  have runs: "\<not> g_useSF ?g \<or> (\<exists>b. fl = Runs b)" using assms(9) by (simp add: runs_fetch_def)
  note F = fetchFromOrigin_runs [OF runs] and G = Get_origin [OF assms(2,7,8)]
  obtain res m where run: "Manager_Get ?g clk fl orig k (p_manager p) = (res, m)" by (rule prod.exhaust)
  have "fst (Manager_Get ?g clk fl orig k (p_manager p)) = Fetched v"
    by (simp add: G split_beta F origin_result_def assms(10))
  moreover have "m_redis (snd (Manager_Get ?g clk fl orig k (p_manager p))) = r0"
    "(k, v) \<in> set (m_pending (snd (Manager_Get ?g clk fl orig k (p_manager p))))"
    by (simp_all add: G split_beta F assms(10))
  ultimately have m: "res = Fetched v" "m_redis m = r0" "(k, v) \<in> set (m_pending m)" by (simp_all add: run)
  have "getCache ?g (ev_gets e 0) ?r (p_manager p) cors_writer = Returned m ?w"
    using K(4) by (simp add: assms(6) getCache_def manager_get_def run m(1))
  then have get: "main_server (pg_url pg) ?g (ev_gets e) (ev_now e) (pg_assets pg) (ev_order e) (ev_meta e) (ev_cache e) r (p_manager p, p_assets p) new_writer =
      Returned (m, p_assets p) ?w"
    unfolding main_server_def by (intro http_served [where rt = GetCache and v = k])
      (simp_all add: assms(4,5) K server_routes_def on_manager_def)
  show ?thesis
    using assms(1,11) m json_answers(2,3) [OF cors_writer_fresh, of v] by (simp add: http_arrives_def get)
qed

section \<open>The end of the process\<close>








text \<open>Whether a call has got an answer.\<close>

fun rpc_answered :: "answer \<Rightarrow> bool" where
  "rpc_answered (RpcAnswer wr) \<longleftrightarrow> True"
| "rpc_answered RpcUnimplemented \<longleftrightarrow> True"
| "rpc_answered _ \<longleftrightarrow> False"




text \<open>The books on the accepted calls: what was accepted has run or is still to run, what has run has its answer unless it
  ended the process, and nothing is left when the drain has ended.\<close>

fun is_run :: "process_event \<Rightarrow> bool" where
  "is_run (RpcRuns i e) \<longleftrightarrow> True"
| "is_run _ \<longleftrightarrow> False"


definition answered :: "process_event list \<Rightarrow> answer list \<Rightarrow> nat" where
  "answered evs as = length (filter (\<lambda>(ev, a). is_run ev \<and> rpc_answered a) (zip evs as))"










section \<open>Witnesses\<close>

abbreviation demo_rpc :: "time \<Rightarrow> rpc_env" where
  "demo_rpc t \<equiv> \<lparr>rv_gets = \<lambda>_. (at_time t, Runs False, \<lambda>k. Fetched ''v''), rv_sets = \<lambda>_. t, rv_enter = t, rv_start = t, rv_stop = t, rv_leave = t\<rparr>"

abbreviation demo_http :: "time \<Rightarrow> request_env" where
  "demo_http t \<equiv> \<lparr>ev_gets = \<lambda>_. (at_time t, Runs False, \<lambda>k. Fetched ''v''), ev_now = t, ev_order = \<lambda>i m. m, ev_meta = t, ev_cache = t\<rparr>"

abbreviation demo_process :: "(string \<Rightarrow> bytes option, string \<Rightarrow> (bytes \<times> string) option) process" where
  "demo_process \<equiv> \<lparr>p_phase = Up, p_manager = demo_manager, p_assets = server_assets Map.empty, p_redis_open = True, p_calls = []\<rparr>"

abbreviation demo_program :: "(string \<Rightarrow> bytes option) manager_config \<Rightarrow> (string \<Rightarrow> bytes option, string \<Rightarrow> (bytes \<times> string) option) program" where
  "demo_program g \<equiv> \<lparr>pg_start = 0, pg_manager = g, pg_assets = mem_handler True, pg_url = \<lambda>u. u\<rparr>"

theorem process_serves_witness:
  "\<exists>wr w p. process_run (main_program 0 map_redis (Load (\<lambda>_. '''')) (mem_handler True) (\<lambda>u. u))
      [RpcArrives ''Get'' (get_text ''k'') (demo_rpc 1), HttpArrives (demo_request ''GET'' ''k'' []) (demo_http 2), RpcArrives ''Flush'' [] (demo_rpc 3)]
      (process_start (Load (\<lambda>_. '''')) Map.empty Map.empty) = Some ([RpcAnswer wr, HttpAnswer w, RpcUnimplemented], p) \<and>
    TotalRequests (m_metrics (p_manager p)) = L1Hits (m_metrics (p_manager p)) + L1Misses (m_metrics (p_manager p)) + recorded wr"
proof -
  let ?evs = "[RpcArrives ''Get'' (get_text ''k'') (demo_rpc 1), HttpArrives (demo_request ''GET'' ''k'' []) (demo_http 2), RpcArrives ''Flush'' [] (demo_rpc 3)]"
  have "no_null (get_text ''k'')" "no_null []" by code_simp+
  then have "list_all gentle ?evs" by (simp add: calm_def same_order)
  from process_serves [OF this, of 0 map_redis "Load (\<lambda>_. '''')" "mem_handler True" "\<lambda>u. u" Map.empty Map.empty]
  obtain as p where run: "process_run (main_program 0 map_redis (Load (\<lambda>_. '''')) (mem_handler True) (\<lambda>u. u)) ?evs
      (process_start (Load (\<lambda>_. '''')) Map.empty Map.empty) = Some (as, p)" "list_all2 answers ?evs as"
    and counters: "TotalRequests (m_metrics (p_manager p)) = L1Hits (m_metrics (p_manager p)) + L1Misses (m_metrics (p_manager p)) + sum_list (map recorded_answer as)"
    by blast
  from run(2) obtain wr w where "as = [RpcAnswer wr, HttpAnswer w, RpcUnimplemented]"
    by (auto simp: list_all2_Cons1 service_methods_def)
  with run(1) counters show ?thesis
    by (intro exI [of _ wr] exI [of _ w] exI [of _ p]) (simp add: recorded_answer_def del: process_run.simps)
qed

theorem protocols_share_cache_witness:
  "\<exists>w p'. process_run (demo_program broken_config)
      [RpcArrives ''Set'' (set_text ''k'' [CHR 0xFF]) (demo_rpc 0), HttpArrives ((demo_request ''GET'' [] [])\<lparr>rq_path := ''/cache/k''\<rparr>) (demo_http 10)]
      demo_process = Some ([RpcAnswer (Failed (BackendError ''io'')), HttpAnswer w], p') \<and> w_body w = [CHR 0xFF]"
proof -
  have k: "key_path ''k'' ''/cache/k''" "to_valid ''k'' = ''k''" by code_simp+
  let ?r = "(demo_request ''PUT'' [] (value_body [CHR 0xFF] []))\<lparr>rq_path := ''/cache/k''\<rparr>"
  have p: "p_phase demo_process = Up" "l1_inv (m_l1 (p_manager demo_process))" by (simp_all add: demo_inv)
  from protocols_share_cache [OF p k(2,1), of ?r "[CHR 0xFF]" "[]" "demo_rpc 10" "demo_http 0" "(demo_request ''GET'' [] [])\<lparr>rq_path := ''/cache/k''\<rparr>"
      "demo_http 10" "demo_rpc 0" "demo_program broken_config"]
  obtain wr w p' where run: "process_run (demo_program broken_config) [RpcArrives ''Set'' (set_text ''k'' [CHR 0xFF]) (demo_rpc 0),
      HttpArrives ((demo_request ''GET'' [] [])\<lparr>rq_path := ''/cache/k''\<rparr>) (demo_http 10)] demo_process = Some ([RpcAnswer wr, HttpAnswer w], p')"
    "w_body w = [CHR 0xFF]"
    by (auto simp: demo_ttl simp del: process_run.simps to_valid.simps)
  have "fst (rpc_arrives (demo_program broken_config) ''Set'' (set_text ''k'' [CHR 0xFF]) (demo_rpc 0) demo_process) = RpcAnswer (Failed (BackendError ''io''))"
    by (simp add: rpc_arrives_def registerCacheService_def service_methods_def call_method_def Set_Handler_text broken_set del: to_valid.simps)
  with run show ?thesis by (auto split: option.splits prod.splits)
qed

theorem shutdown_loses_write_witness:
  "\<exists>w p'. process_run (demo_program demo_config)
      [HttpArrives ((demo_request ''GET'' [] [])\<lparr>rq_path := ''/cache/k''\<rparr>) (demo_http 10), SignalArrives, GracefulStop, GrpcDrained, MainReturns]
      demo_process = Some ([HttpAnswer w, NoAnswer, NoAnswer, NoAnswer, NoAnswer], p') \<and> w_body w = ''v'' \<and>
    p_phase p' = Exited 0 \<and> m_redis (p_manager p') = Map.empty"
proof -
  have k: "key_path ''k'' ''/cache/k''" by code_simp
  have p: "p_phase demo_process = Up" "l1_inv (m_l1 (p_manager demo_process))" by (simp_all add: demo_inv)
  from shutdown_loses_write [OF p k, of "(demo_request ''GET'' [] [])\<lparr>rq_path := ''/cache/k''\<rparr>" "demo_http 10" "at_time 10" "Runs False" "\<lambda>k. Fetched ''v''"
      "demo_program demo_config" Map.empty "''v''"]
  show ?thesis by (auto simp: demo_live demo_redis demo_runs simp del: process_run.simps)
qed

end
