(* ===== verification/Load_Tests.thy ===== *)
theory Load_Tests
  imports Binary_Handler Json_Number Origin
begin

text \<open>
  The parts of the load testers under \<open>scripts/\<close> that compute without the network: the arguments that
  \<open>asset_loadtest_local.go\<close> hands on, the content type and the cache status of \<open>asset_loadtest.go\<close>, and the
  percentiles of \<open>loadtest.go\<close> with their doubles.
\<close>

section \<open>Arguments\<close>

definition has_prefix :: "string \<Rightarrow> string \<Rightarrow> bool" where
  "has_prefix s pre \<longleftrightarrow> take (length pre) s = pre"

definition hasFlag :: "string list \<Rightarrow> string \<Rightarrow> bool" where
  "hasFlag args name \<longleftrightarrow> list_ex (\<lambda>a. a = ''-'' @ name \<or> a = ''--'' @ name \<or>
     has_prefix a (''-'' @ name @ ''='') \<or> has_prefix a (''--'' @ name @ ''='')) args"

text \<open>An empty string is also the answer when the flag is not there.\<close>

fun getFlagValue :: "string list \<Rightarrow> string \<Rightarrow> string" where
  "getFlagValue [] name = ''''"
| "getFlagValue (a # args) name =
     (if has_prefix a (''-'' @ name @ ''='') then drop (length name + 2) a
      else if has_prefix a (''--'' @ name @ ''='') then drop (length name + 3) a
      else if (a = ''-'' @ name \<or> a = ''--'' @ name) \<and> args \<noteq> [] then hd args
      else getFlagValue args name)"

fun upsertFlag :: "string list \<Rightarrow> string \<Rightarrow> string \<Rightarrow> string list" where
  "upsertFlag [] name v = [''-'' @ name @ ''='' @ v]"
| "upsertFlag (a # args) name v =
     (if has_prefix a (''-'' @ name @ ''='') then (''-'' @ name @ ''='' @ v) # args
      else if has_prefix a (''--'' @ name @ ''='') then (''--'' @ name @ ''='' @ v) # args
      else if (a = ''-'' @ name \<or> a = ''--'' @ name) \<and> args \<noteq> [] then a # v # tl args
      else a # upsertFlag args name v)"

definition proxy_flags :: "string list" where
  "proxy_flags = [''-ha'', ''-ha=true'', ''--ha'', ''--ha=true'', ''-varnish'', ''-varnish=true'', ''--varnish'', ''--varnish=true'',
     ''-nginx'', ''-nginx=true'', ''--nginx'', ''--nginx=true'']"

definition hasAny :: "string list \<Rightarrow> string list \<Rightarrow> bool" where
  "hasAny args vs \<longleftrightarrow> list_ex (\<lambda>a. a \<in> set vs) args"

text \<open>The arguments handed on, when the server on a host answers or not; \<open>None\<close>: exit code 2.\<close>

definition local_args :: "(string \<Rightarrow> bool) \<Rightarrow> string list \<Rightarrow> string list option" where
  "local_args serverReachable args =
     (if hasAny args proxy_flags then None
      else let host0 = getFlagValue args ''host'';
               (host1, args1) = (if host0 = '''' then (''127.0.0.1'', args @ [''-host='' @ ''127.0.0.1'']) else (host0, args));
               (host2, args2) = (if \<not> serverReachable host1 \<and> host1 \<noteq> ''127.0.0.1'' \<and> serverReachable ''127.0.0.1''
                                 then (''127.0.0.1'', upsertFlag args1 ''host'' ''127.0.0.1'') else (host1, args1))
           in Some (if \<not> hasFlag args2 ''upload'' then args2 @ [''-upload=http://'' @ host2 @ '':8080''] else args2))"

lemma has_prefix_append [simp]: "has_prefix (pre @ s) pre"
  by (simp add: has_prefix_def)

lemma flag_prefixes [simp]:
  "has_prefix (CHR ''-'' # name @ CHR ''='' # v) (''-'' @ name @ ''='')"
  "has_prefix (CHR ''-'' # CHR ''-'' # name @ CHR ''='' # v) (''--'' @ name @ ''='')"
  by (simp_all add: has_prefix_def)

text \<open>A flag that ends the arguments without its value.\<close>

fun bare_end :: "string list \<Rightarrow> string \<Rightarrow> bool" where
  "bare_end [] name = False"
| "bare_end [a] name = (a = ''-'' @ name \<or> a = ''--'' @ name)"
| "bare_end (a # args) name =
     (\<not> has_prefix a (''-'' @ name @ ''='') \<and> \<not> has_prefix a (''--'' @ name @ ''='') \<and> a \<noteq> ''-'' @ name \<and> a \<noteq> ''--'' @ name \<and>
      bare_end args name)"

lemma long_not_short: "\<not> has_prefix (''--'' @ name @ ''='' @ v) (''-'' @ name @ ''='')"
proof
  assume "has_prefix (''--'' @ name @ ''='' @ v) (''-'' @ name @ ''='')"
  then have "take (Suc (length name)) (CHR ''-'' # name) = name @ ''=''" by (simp add: has_prefix_def)
  then have "count_list (CHR ''-'' # name) (CHR ''-'') = count_list (name @ ''='') (CHR ''-'')" by simp
  then show False by simp
qed

text \<open>What was set is read back, unless the arguments end with the bare flag: then the argument appended for it is
  taken as its value.\<close>

theorem upsert_then_get:
  "getFlagValue (upsertFlag args name v) name = (if bare_end args name then ''-'' @ name @ ''='' @ v else v)"
proof (induction args name rule: bare_end.induct)
  case (2 a name)
  show ?case using long_not_short [of name v] by (auto simp: has_prefix_def numeral_3_eq_3)
next
  case (3 a b args name)
  then show ?case using long_not_short [of name v] by (auto simp: has_prefix_def numeral_3_eq_3)
qed (simp add: has_prefix_def)

text \<open>So the fallback can go wrong: with \<open>-host\<close> last and no server on \<open>localhost\<close> the host is left as it is.\<close>

theorem bare_host:
  "local_args (\<lambda>_. False) [''-c=5'', ''-host''] = Some [''-c=5'', ''-host'', ''-host=127.0.0.1'', ''-upload=http://127.0.0.1:8080'']"
  by code_simp

section \<open>Content type and cache status\<close>

definition mime_types :: "(string \<times> string) list" where
  "mime_types =
     [(''.png'', ''image/png''), (''.jpg'', ''image/jpeg''), (''.jpeg'', ''image/jpeg''), (''.gif'', ''image/gif''),
      (''.webp'', ''image/webp''), (''.svg'', ''image/svg+xml''), (''.mp4'', ''video/mp4''), (''.ts'', ''video/mp2t''),
      (''.m3u8'', ''application/vnd.apple.mpegurl''), (''.webm'', ''video/webm''), (''.css'', ''text/css''),
      (''.js'', ''application/javascript''), (''.woff2'', ''font/woff2''), (''.woff'', ''font/woff'')]"

definition detectMIME :: "string \<Rightarrow> string" where
  "detectMIME name =
     (case map_of mime_types (to_lower (file_ext name)) of Some t \<Rightarrow> t | None \<Rightarrow> ''application/octet-stream'')"

definition detectCacheHit :: "(string \<times> string) list \<Rightarrow> string" where
  "detectCacheHit hs =
     (if map_of hs ''X-Cache-Status'' = Some ''HIT'' then ''HIT''
      else if map_of hs ''X-Cache'' = Some ''HIT'' then ''HIT'' else ''MISS'')"

text \<open>The request that \<open>uploadAll\<close> sends for a file.\<close>

definition upload_request :: "string \<Rightarrow> bytes \<Rightarrow> request" where
  "upload_request name data =
     \<lparr>rq_method = ''POST'', rq_path = ''/upload/'' @ name, rq_value = name, rq_content_type = detectMIME name,
       rq_body = data, rq_body_fails = False\<rparr>"

lemma mime_tables:
  "detectMIME name \<noteq> ''application/octet-stream'' \<Longrightarrow> detectMIME name = detectContentType name"
proof -
  let ?e = "to_lower (file_ext name)"
  assume known: "detectMIME name \<noteq> ''application/octet-stream''"
  then obtain t where t: "map_of mime_types ?e = Some t" by (auto simp: detectMIME_def split: option.splits)
  have "list_all (\<lambda>(e, t). map_of mime_table e = Some t) mime_types" by code_simp
  with map_of_SomeD [OF t] have "map_of mime_table ?e = Some t" by (auto simp: list_all_iff)
  with t show ?thesis by (simp add: detectMIME_def detectContentType_def)
qed

text \<open>The table of the tester lacks some types of the server's, but no upload of the tester is stored under another
  type than the server would detect: what the tester does not know it sends as a type the server replaces.\<close>

theorem tester_upload_type: "upload_type (upload_request name data) = detectContentType name"
proof -
  have "detectMIME name \<noteq> []"
  proof -
    have "list_all (\<lambda>(e, t). t \<noteq> []) mime_types" by code_simp
    then show ?thesis by (auto simp: detectMIME_def list_all_iff split: option.splits dest: map_of_SomeD)
  qed
  then show ?thesis using mime_tables [of name] by (simp add: upload_type_def upload_request_def)
qed

theorem tables_differ: "detectMIME ''clip.mov'' = ''application/octet-stream'' \<and> detectContentType ''clip.mov'' = ''video/quicktime''"
  by code_simp

text \<open>What the tester uploads, it reads as a hit from the start, with the type the server detects: the upload has filled the
  cache of the assets.\<close>

theorem tester_first_read:
  assumes "ready h" and "name \<noteq> []" and "length data \<le> max_upload"
    and "put_object (stores h) (minioBucket h) name data (detectContentType name) (bs_world s) = (Inr n, w1)"
    and "asset_inv (bs_cache s)" and "range_order ord" and "rq_value r' = name"
  shows "\<exists>s' w' s'' w''. upload h ord t1 t2 (upload_request name data) s new_writer = Returned s' w' \<and>
    serveAsset h ord' t3 r' s' new_writer = Returned s'' w'' \<and> served w'' data (detectContentType name) ''HIT'' \<and>
    detectCacheHit (fst (snd (response_of w''))) = ''HIT''"
proof -
  let ?r = "upload_request name data"
  have r: "rq_value ?r = name" "read_limited ?r = Some data" using assms(3) by (simp_all add: upload_request_def read_limited_def)
  have ne: "rq_value ?r \<noteq> []" using r(1) assms(2) by simp
  have put: "put_object (stores h) (minioBucket h) (rq_value ?r) data (upload_type ?r) (bs_world s) = (Inr n, w1)"
    using assms(4) by (simp add: r(1) tester_upload_type)
  have "rq_value r' = rq_value ?r" using assms(7) r(1) by simp
  from upload_then_serve [OF assms(1) ne r(2) put assms(5,6) this, of t1 t2 ord' t3] show ?thesis
    by (auto simp: tester_upload_type detectCacheHit_def served_def)
qed

theorem tester_first_read_witness:
  "\<exists>s' w' s'' w''. upload (mem_handler True) (\<lambda>i m. m) 1 2 (upload_request ''f.js'' ''x'') (empty_state Map.empty) new_writer = Returned s' w' \<and>
    serveAsset (mem_handler True) (\<lambda>i m. m) 3 (file_request []) s' new_writer = Returned s'' w'' \<and>
    detectCacheHit (fst (snd (response_of w''))) = ''HIT''"
proof -
  have r: "rq_value (file_request []) = ''f.js''" by (rule mem_handler_ready(2))
  have len: "length ''x'' \<le> max_upload" by (simp add: max_upload_def)
  show ?thesis
    using tester_first_read [where h = "mem_handler True" and s = "empty_state Map.empty" and ?t1.0 = 1 and ?t2.0 = 2
        and ord' = "\<lambda>i m. m" and ?t3.0 = 3, OF mem_handler_ready(1) _ len mem_put empty_state_inv(1) same_order r]
    by blast
qed

section \<open>Percentiles\<close>

text \<open>\<open>int(math.Ceil(x))\<close> for a finite \<open>x\<close>.\<close>

fun ceil_int :: "float64 \<Rightarrow> int" where
  "ceil_int (Fin s m e) =
     (let i = (if s then - int m else int m) in if 0 \<le> e then i * 2 ^ nat e else - (- i div 2 ^ nat (- e)))"
| "ceil_int _ = - (2 ^ 63)"

text \<open>\<open>p\<close> is the double of the call.  \<open>None\<close>: the index of an empty slice.\<close>

definition percentile :: "int list \<Rightarrow> float64 \<Rightarrow> int option" where
  "percentile ls p =
     (let idx = ceil_int (f64_mul (f64_div p (f64_of_int 100)) (f64_of_int (int (length ls)))) - 1;
          idx = (if idx < 0 then 0 else idx);
          idx = (if int (length ls) \<le> idx then int (length ls) - 1 else idx)
      in if idx < 0 then None else Some (ls ! nat idx))"

definition avg :: "int list \<Rightarrow> int" where
  "avg ds = (if ds = [] then 0 else foldl (\<lambda>sum d. wrap64 (sum + d)) 0 ds sdiv int (length ds))"

lemma ceil_int_val: "is_fin x \<Longrightarrow> ceil_int x = \<lceil>val x\<rceil>"
proof (cases x)
  case (Fin s m e)
  show ?thesis
  proof (cases "0 \<le> e")
    case True
    have "val x = of_int ((if s then - int m else int m) * 2 ^ nat e)"
      by (simp add: Fin sgn_of_def powi2_nat [OF True])
    with True show ?thesis by (simp add: Fin del: val.simps of_int_mult of_int_power)
  next
    case False
    have "(2::real) powi e = 1 / 2 ^ nat (- e)" using False by (simp add: power_int_def power_one_over)
    then have "val x = of_int (if s then - int m else int m) / of_int (2 ^ nat (- e))"
      by (simp add: Fin sgn_of_def)
    then have "\<lceil>val x\<rceil> = - (- (if s then - int m else int m) div 2 ^ nat (- e))"
      by (simp only: ceiling_divide_eq_div)
    with False show ?thesis by (simp add: Fin)
  qed
qed simp_all

text \<open>The quotient \<open>p/100\<close>, and how near it is to the exact one.\<close>

lemma quotients:
  "f64_div (f64_of_int 50) (f64_of_int 100) = Fin False 4503599627370496 (- 53)"
  "f64_div (f64_of_int 90) (f64_of_int 100) = Fin False 8106479329266893 (- 53)"
  "f64_div (f64_of_int 95) (f64_of_int 100) = Fin False 8556839292003942 (- 53)"
  "f64_div (f64_of_int 99) (f64_of_int 100) = Fin False 8917127262193582 (- 53)"
  by (simp_all add: f64_eval)

lemma quotient:
  assumes "p \<in> {50, 90, 95, 99::int}"
  obtains m where "f64_div (f64_of_int p) (f64_of_int 100) = Fin False m (- 53)"
    "\<bar>100 * int m - p * 2 ^ 53\<bar> * 2 ^ 54 < p * 2 ^ 53" "m < 2 ^ 53" 
  using assms quotients by auto

lemma of_int_exact:
  assumes "0 \<le> i" and "i < 2 ^ 53"
  shows "representable (of_int i)" "is_fin (f64_of_int i)" "val (f64_of_int i) = of_int i"
proof -
  show rep: "representable (of_int i)"
    using assms representable_intro [of "nat i" 0] by simp
  have top: "(of_int i :: real) < f64_top"
  proof -
    have "(of_int i :: real) < of_int (2 ^ 53)" using assms(2) by (simp only: of_int_less_iff)
    also have "\<dots> \<le> f64_top" by (simp add: f64_top_def)
    finally show ?thesis .
  qed
  then have "rnd (of_int \<bar>i\<bar>) < f64_top" using assms(1) rnd_representable [OF rep] by simp
  from f64_of_int_fin [OF this] assms(1) rnd_representable [OF rep] show "is_fin (f64_of_int i)" "val (f64_of_int i) = of_int i"
    by (simp_all add: signed_rnd_def)
qed

text \<open>The rank, for up to \<open>2^40\<close> latencies: the double product rounds so that its ceiling is the exact one.\<close>

lemma rank_exact:
  assumes "p \<in> {50, 90, 95, 99::int}" and "0 < n" and "n < 2 ^ 40"
  shows "ceil_int (f64_mul (f64_div (f64_of_int p) (f64_of_int 100)) (f64_of_int n)) = - (- (p * n) div 100)"
proof -
  obtain m where q: "f64_div (f64_of_int p) (f64_of_int 100) = Fin False m (- 53)"
    and close: "\<bar>100 * int m - p * 2 ^ 53\<bar> * 2 ^ 54 < p * 2 ^ 53" and m: "m < 2 ^ 53"
    using assms(1) by (rule quotient)
  note N = of_int_exact [of n]
  define w where "w = real m * of_int n / 2 ^ 53"
  define k where "k = - (- (p * n) div 100)"
  have w0: "0 \<le> w" using assms(2) by (simp add: w_def)
  have p: "0 < p" "p < 100" using assms(1) by auto
  have k: "100 * k - 100 < p * n" "p * n \<le> 100 * k" unfolding k_def by linarith+
  have pn: "0 < p * n" "p * n < 100 * n" using p assms(2) by simp_all
  have k40: "1 \<le> k" "k \<le> n" using k pn by linarith+
  have diff: "\<bar>100 * w - of_int (p * n)\<bar> * 2 ^ 54 < of_int (p * n)"
  proof -
    define D :: real where "D = of_int (100 * int m - p * 2 ^ 53)"
    have "of_int (\<bar>100 * int m - p * 2 ^ 53\<bar> * 2 ^ 54) < (of_int (p * 2 ^ 53) :: real)" using close by (simp only: of_int_less_iff)
    then have D: "\<bar>D\<bar> * 2 ^ 54 < of_int p * 2 ^ 53" by (simp add: D_def)
    have "100 * w - of_int (p * n) = of_int n * D / 2 ^ 53" by (simp add: w_def D_def field_simps)
    then have "\<bar>100 * w - of_int (p * n)\<bar> * 2 ^ 54 = of_int n * (\<bar>D\<bar> * 2 ^ 54) / 2 ^ 53"
      using assms(2) by (simp only: abs_mult abs_divide) simp
    also have "\<dots> < of_int n * (of_int p * 2 ^ 53) / 2 ^ 53"
      using D assms(2) by (intro divide_strict_right_mono mult_strict_left_mono) simp_all
    finally show ?thesis by (simp add: mult_ac)
  qed
  have rnd: "of_int k - 1 < rnd w \<and> rnd w \<le> of_int k"
  proof (cases "p * n = 100 * k")
    case True
    then have "\<bar>w - of_int k\<bar> * 2 ^ 54 < of_int k" using diff by (simp add: abs_if split: if_splits)
    then have "rnd w = of_int k" using k40 assms(3) by (intro rnd_close [of _ "nat k" 0]) simp_all
    then show ?thesis by simp
  next
    case False
    then have margins: "100 * k - 99 \<le> p * n" "p * n \<le> 100 * k - 1" using k by linarith+
    have "(of_int (p * n) :: real) < 100 * 2 ^ 40"
    proof -
      have "p * n < 100 * 2 ^ 40" using pn assms(3) by linarith
      then have "(of_int (p * n) :: real) < of_int (100 * 2 ^ 40)" by (simp only: of_int_less_iff)
      then show ?thesis by simp
    qed
    then have d: "\<bar>100 * w - of_int (p * n)\<bar> < 1 / 100" using diff by simp
    have "(of_int (100 * k - 99) :: real) \<le> of_int (p * n)" "(of_int (p * n) :: real) \<le> of_int (100 * k - 1)"
      using margins by (simp_all only: of_int_le_iff)
    then have lo: "of_int k - 1 + 1 / 128 \<le> w" and hi: "w \<le> of_int k" using d by (auto simp: abs_if split: if_splits)
    have "representable (real (nat (128 * (k - 1) + 1)) * 2 powi (- 7))"
      using k40 assms(3) by (intro representable_intro) simp_all
    moreover have "real (nat (128 * (k - 1) + 1)) * 2 powi (- 7) = of_int k - 1 + 1 / 128"
      using k40 by (simp add: power_int_def field_simps)
    ultimately have "representable (of_int k - 1 + 1 / 128)" by (simp only:)
    from rnd_ge [OF lo this] have "of_int k - 1 < rnd w" by simp
    moreover have "rnd w \<le> of_int k" using hi k40 assms(3) by (intro rnd_le of_int_exact) simp_all
    ultimately show ?thesis by simp
  qed
  have w: "val (Fin False m (- 53)) * val (f64_of_int n) = w"
    using N assms by (simp add: w_def sgn_of_def power_int_def power_one_over)
  have "(of_int k :: real) < f64_top"
  proof -
    have "(of_int k :: real) < of_int (2 ^ 40)" using k40 assms(3) by (simp only: of_int_less_iff)
    also have "\<dots> \<le> f64_top" by (simp add: f64_top_def)
    finally show ?thesis .
  qed
  then have "rnd \<bar>val (Fin False m (- 53)) * val (f64_of_int n)\<bar> < f64_top"
    unfolding w using rnd w0 by simp
  from f64_mul_fin [OF _ _ this] N assms w w0 have
    "is_fin (f64_mul (Fin False m (- 53)) (f64_of_int n))" "val (f64_mul (Fin False m (- 53)) (f64_of_int n)) = rnd w"
    by (simp_all add: signed_rnd_def del: val.simps)
  then show ?thesis
    using rnd by (simp add: q ceil_int_val k_def [symmetric] ceiling_unique)
qed

lemma sorted_rank:
  fixes xs :: "int list"
  assumes "sorted xs" and "0 < k" and "k \<le> length xs"
  shows "k \<le> length (filter (\<lambda>x. x \<le> xs ! (k - 1)) xs)" and "length (filter (\<lambda>x. x < xs ! (k - 1)) xs) < k"
proof -
  let ?r = "xs ! (k - 1)"
  have "\<forall>x \<in> set (take k xs). x \<le> ?r"
    using assms by (auto simp: in_set_conv_nth intro!: sorted_nth_mono) linarith+
  then have "filter (\<lambda>x. x \<le> ?r) (take k xs) = take k xs" by simp
  then have "length (filter (\<lambda>x. x \<le> ?r) (take k xs @ drop k xs)) \<ge> k"
    using assms(3) by (simp only: filter_append) simp
  then show "k \<le> length (filter (\<lambda>x. x \<le> ?r) xs)" by simp
  have "\<forall>x \<in> set (drop (k - 1) xs). \<not> x < ?r"
    using assms by (auto simp: in_set_conv_nth not_less intro!: sorted_nth_mono)
  then have "filter (\<lambda>x. x < ?r) (drop (k - 1) xs) = []" by (simp add: filter_empty_conv)
  then have "length (filter (\<lambda>x. x < ?r) (take (k - 1) xs @ drop (k - 1) xs)) = length (filter (\<lambda>x. x < ?r) (take (k - 1) xs))"
    by (simp only: filter_append) simp
  moreover have "length (filter (\<lambda>x. x < ?r) (take (k - 1) xs)) \<le> k - 1"
    using length_filter_le [of _ "take (k - 1) xs"] by (rule order_trans) simp
  ultimately show "length (filter (\<lambda>x. x < ?r) xs) < k" using assms(2) by simp
qed

text \<open>C38: The median and the percentiles 90, 95 and 99 the tester prints are the exact nearest ranks in spite of the doubles:
  at least \<open>p\<close> percent of the latencies are at most the answer, and fewer than \<open>p\<close> percent are below it.\<close>

theorem percentile_nearest_rank:
  assumes "sorted ls" and "ls \<noteq> []" and "length ls < 2 ^ 40" and "p \<in> {50, 90, 95, 99::int}"
  shows "\<exists>r \<in> set ls. percentile ls (f64_of_int p) = Some r \<and>
    p * int (length ls) \<le> 100 * int (length (filter (\<lambda>x. x \<le> r) ls)) \<and>
    100 * int (length (filter (\<lambda>x. x < r) ls)) < p * int (length ls)"
proof -
  let ?n = "int (length ls)"
  define k where "k = - (- (p * ?n) div 100)"
  have n: "0 < ?n" "?n < 2 ^ 40" using assms(2) of_nat_less_iff [of "length ls" "2 ^ 40", where 'a = int] assms(3) by simp_all
  have rank: "ceil_int (f64_mul (f64_div (f64_of_int p) (f64_of_int 100)) (f64_of_int ?n)) = k"
    unfolding k_def using assms(4) n by (rule rank_exact)
  have p: "0 < p" "p < 100" using assms(4) by auto
  have pn: "0 < p * ?n" "p * ?n < 100 * ?n" using p n(1) by simp_all
  have k: "100 * k - 100 < p * ?n" "p * ?n \<le> 100 * k" unfolding k_def by linarith+
  have kn: "0 < k" "k \<le> ?n" using k pn by linarith+
  note R = sorted_rank [OF assms(1), of "nat k"]
  have "percentile ls (f64_of_int p) = Some (ls ! (nat k - 1))"
    using kn by (simp add: percentile_def rank nat_diff_distrib)
  moreover have "ls ! (nat k - 1) \<in> set ls" using kn by (intro nth_mem) linarith
  moreover have "p * ?n \<le> 100 * int (length (filter (\<lambda>x. x \<le> ls ! (nat k - 1)) ls))"
    using R(1) kn k(2) by linarith
  moreover have "100 * int (length (filter (\<lambda>x. x < ls ! (nat k - 1)) ls)) < p * ?n"
    using R(2) kn k(1) by linarith
  ultimately show ?thesis by (intro bexI [of _ "ls ! (nat k - 1)"]) simp_all
qed

theorem percentile_nearest_rank_witness:
  "\<exists>r \<in> set [3, 5, 8::int]. percentile [3, 5, 8] (f64_of_int 50) = Some r \<and> 150 \<le> 100 * int (length (filter (\<lambda>x. x \<le> r) [3, 5, 8]))"
  using percentile_nearest_rank [of "[3, 5, 8]" 50] by auto

text \<open>The one called p999 is not: of a thousand latencies it is the largest, not the second largest, because
  \<open>99.9/100*1000\<close> is more than 999 in doubles.\<close>

theorem p999_is_max:
  assumes "length ls = 1000"
  shows "percentile ls (round_frac False 999 10 0) = Some (ls ! 999)"
proof -
  have "ceil_int (f64_mul (f64_div (round_frac False 999 10 0) (f64_of_int 100)) (f64_of_int 1000)) = 1000"
    by (simp add: f64_eval)
  with assms show ?thesis by (simp add: percentile_def)
qed

theorem p999_is_max_witness: "percentile (replicate 999 1 @ [2]) (round_frac False 999 10 0) = Some 2"
  using p999_is_max [of "replicate 999 1 @ [2]"] by (simp add: nth_append)

end
