(* ===== verification/Js_Function.thy ===== *)
theory Js_Function
  imports Float64
begin

text \<open>
  The JavaScript of the repository is \<open>src/sample-assets-small/script-NNNN.js\<close>: payloads that the
  asset path serves, written by \<open>create_js\<close> of \<open>scripts/generate_small_assets.sh\<close>.  Each file is a
  comment and a list of declarations \<open>function fn_S_I(x) { return x * 0.dddddd + k; }\<close>.  Here is
  what such a declaration means: \<open>Lin c k\<close> is the function with the coefficient \<open>c / 10^6\<close> and the
  offset \<open>k\<close>, a call evaluates its body on the IEEE doubles of \<open>Float64\<close>, and loading a script
  declares its functions in the global environment, a later declaration of a name replacing an
  earlier one.  Arguments that are strings or objects are left out of \<open>js_value\<close>.
\<close>

named_theorems table_checks \<open>the tables respect the ranges of the generator\<close>

section \<open>Values, calls, scripts\<close>

datatype js_value = Undefined | Null | Boolean bool | Number float64 | BigInt int | Symbol nat

datatype js_error = TypeError | ReferenceError string

datatype js_fun = Lin (coeff: nat) (offset: int)

record js_script =
  seed :: nat
  funs :: "js_fun list"

text \<open>The literals of a body: six decimals after \<open>0.\<close>, and an integer after an optional minus.\<close>

definition js_decimal :: "nat \<Rightarrow> float64" where
  "js_decimal c = round_frac False c 1000000 0"

definition js_integer :: "int \<Rightarrow> float64" where
  "js_integer k = (if k < 0 then f64_neg (f64_of_int (- k)) else f64_of_int k)"

text \<open>\<open>return x * 0.dddddd + k;\<close> on a Number.\<close>

fun js_body :: "js_fun \<Rightarrow> float64 \<Rightarrow> float64" where
  "js_body (Lin c k) x = f64_add (f64_mul x (js_decimal c)) (js_integer k)"

text \<open>For instance \<open>fn_3000_0(1)\<close>, which prints as \<open>-20.361124\<close>.\<close>

lemma js_body_example:
  "js_body (Lin 638876 (- 21)) (f64_of_int 1) = Fin True 5731146903702779 (- 48)"
  by (simp add: f64_eval js_decimal_def js_integer_def)

text \<open>The operand \<open>x\<close> of \<open>*\<close> is converted first; a BigInt cannot be mixed with a Number.\<close>

fun to_number :: "js_value \<Rightarrow> js_error + float64" where
  "to_number Undefined = Inr NaN"
| "to_number Null = Inr (f64_zero False)"
| "to_number (Boolean b) = Inr (f64_of_int (if b then 1 else 0))"
| "to_number (Number x) = Inr x"
| "to_number (BigInt i) = Inl TypeError"
| "to_number (Symbol s) = Inl TypeError"

text \<open>A call binds \<open>x\<close> to the first argument, \<open>undefined\<close> when there is none.\<close>

definition js_arg :: "js_value list \<Rightarrow> js_value" where
  "js_arg args = (case args of [] \<Rightarrow> Undefined | v # _ \<Rightarrow> v)"

definition js_apply :: "js_fun \<Rightarrow> js_value list \<Rightarrow> js_error + js_value" where
  "js_apply f args =
     (case to_number (js_arg args) of Inl e \<Rightarrow> Inl e | Inr x \<Rightarrow> Inr (Number (js_body f x)))"

definition fn_name :: "nat \<Rightarrow> nat \<Rightarrow> string" where
  "fn_name s i = ''fn_'' @ show_nat s @ ''_'' @ show_nat i"

type_synonym js_env = "string \<Rightarrow> js_fun option"

fun declare_funs :: "nat \<Rightarrow> nat \<Rightarrow> js_fun list \<Rightarrow> js_env \<Rightarrow> js_env" where
  "declare_funs s i [] env = env"
| "declare_funs s i (f # fs) env = declare_funs s (Suc i) fs (env(fn_name s i \<mapsto> f))"

definition load_script :: "js_script \<Rightarrow> js_env \<Rightarrow> js_env" where
  "load_script sc env = declare_funs (seed sc) 0 (funs sc) env"

definition js_call :: "js_env \<Rightarrow> string \<Rightarrow> js_value list \<Rightarrow> js_error + js_value" where
  "js_call env name args =
     (case env name of None \<Rightarrow> Inl (ReferenceError name) | Some f \<Rightarrow> js_apply f args)"

section \<open>What the generator promises of a function\<close>

definition gen_fun :: "js_fun \<Rightarrow> bool" where
  "gen_fun f \<longleftrightarrow> 0 < coeff f \<and> coeff f < 1000000 \<and> - 100 \<le> offset f \<and> offset f \<le> 100"

definition gen_script :: "js_script \<Rightarrow> bool" where
  "gen_script sc \<longleftrightarrow> list_all gen_fun (funs sc) \<and> 50 \<le> length (funs sc) \<and> length (funs sc) \<le> 500"

section \<open>Names do not clash\<close>

lemma fn_name_inj: "fn_name s i = fn_name t j \<longleftrightarrow> s = t \<and> i = j"
  by (auto simp: fn_name_def append_sep_inj show_nat_no_underscore show_nat_inj)

lemma declare_funs_lookup:
  "declare_funs s i fs env (fn_name t j) =
     (if t = s \<and> i \<le> j \<and> j < i + length fs then Some (fs ! (j - i)) else env (fn_name t j))"
proof (induction fs arbitrary: i env)
  case (Cons f fs)
  show ?case
    by (auto simp: Cons.IH fn_name_inj nth_Cons' le_Suc_eq)
qed auto

lemma load_script_lookup:
  "load_script sc env (fn_name t j) =
     (if t = seed sc \<and> j < length (funs sc) then Some (funs sc ! j) else env (fn_name t j))"
  by (simp add: load_script_def declare_funs_lookup)

lemma fold_load_other:
  "t \<notin> seed ` set scs \<Longrightarrow> fold load_script scs env (fn_name t j) = env (fn_name t j)"
  by (induction scs arbitrary: env) (auto simp: load_script_lookup)

lemma fold_load_lookup:
  assumes "distinct (map seed scs)" and "sc \<in> set scs" and "j < length (funs sc)"
  shows "fold load_script scs env (fn_name (seed sc) j) = Some (funs sc ! j)"
  using assms
proof (induction scs arbitrary: env)
  case (Cons sc' scs)
  show ?case
  proof (cases "sc = sc'")
    case True
    with Cons.prems have "seed sc \<notin> seed ` set scs" by simp
    then show ?thesis using True Cons.prems by (simp add: fold_load_other load_script_lookup)
  next
    case False
    with Cons show ?thesis by simp
  qed
qed simp

section \<open>The literals\<close>

lemma representable_nat: "m < 2 ^ 53 \<Longrightarrow> representable (real m)"
  using representable_intro [of m 0] by simp

lemma lt_top: "v \<le> 2 powi 1000 \<Longrightarrow> v < f64_top"
proof -
  have "(2::real) powi 1000 < f64_top"
    unfolding f64_top_def by (intro power_int_strict_increasing) auto
  then show "v \<le> 2 powi 1000 \<Longrightarrow> v < f64_top" by linarith
qed

lemma nat_lt_top: "m < 2 ^ 53 \<Longrightarrow> real m < f64_top"
proof (rule lt_top)
  assume "m < 2 ^ 53"
  then have "real m \<le> 2 powi 53" by (simp add: power_int_def)
  also have "(2::real) powi 53 \<le> 2 powi 1000" by (rule powi2_mono) simp
  finally show "real m \<le> 2 powi 1000" .
qed

lemma js_integer_val:
  assumes "\<bar>k\<bar> < 2 ^ 53"
  shows "is_fin (js_integer k)" and "canonical (js_integer k)" and "val (js_integer k) = of_int k"
proof -
  have r: "representable (of_int \<bar>k\<bar>)"
    using representable_nat [of "nat \<bar>k\<bar>"] assms by (simp add: nat_less_iff)
  have lt: "rnd (of_int \<bar>k\<bar>) < f64_top"
    using rnd_representable [OF r] nat_lt_top [of "nat \<bar>k\<bar>"] assms by (simp add: nat_less_iff)
  have neg: "is_fin (f64_neg x) = is_fin x" "canonical (f64_neg x) = canonical x"
    "val (f64_neg x) = - val x" for x by (cases x; simp add: sgn_of_def)+
  note A = f64_of_int_fin [of "\<bar>k\<bar>"]
  have B: "js_integer k = (if k < 0 then f64_neg (f64_of_int \<bar>k\<bar>) else f64_of_int \<bar>k\<bar>)"
    by (simp add: js_integer_def)
  have C: "signed_rnd (of_int \<bar>k\<bar>) = of_int \<bar>k\<bar>"
    using rnd_representable [OF r] by (simp add: signed_rnd_def)
  show "is_fin (js_integer k)" and "canonical (js_integer k)" and "val (js_integer k) = of_int k"
    using A lt C unfolding B by (cases "k < 0", simp_all add: neg)+
qed


text \<open>
  A coefficient between \<open>1\<close> and \<open>999999\<close> millionths is read as a double between \<open>2^-20\<close> and
  \<open>1 - 2^-20\<close>, and that double is within one rounding error of the written decimal.
\<close>

definition coeff_max :: real where
  "coeff_max = (2 ^ 20 - 1) / 2 ^ 20"

lemma coeff_max_representable: "representable coeff_max"
proof -
  have "coeff_max = real 1048575 * 2 powi (- 20)" by (simp add: coeff_max_def)
  then show ?thesis using representable_intro [of 1048575 "- 20"] by (simp only:) simp
qed

lemma js_decimal_val:
  assumes "0 < c" and "c < 1000000"
  shows "is_fin (js_decimal c)" and "canonical (js_decimal c)"
    and "val (js_decimal c) = rnd (real c / 1000000)"
    and "0 < val (js_decimal c)" and "val (js_decimal c) \<le> coeff_max"
proof -
  have fv: "frac_val c 1000000 0 = real c / 1000000" by (simp add: frac_val_def)
  have "real c \<le> 999999" using assms(2) by linarith
  then have le: "rnd (real c / 1000000) \<le> coeff_max"
    by (intro rnd_le coeff_max_representable) (simp add: coeff_max_def)
  have "representable (2 powi (- 20))" using representable_intro [of 1 "- 20"] by simp
  moreover have "2 powi (- 20) \<le> real c / 1000000" using assms(1) by (simp add: field_simps)
  ultimately have "2 powi (- 20) \<le> rnd (real c / 1000000)" by (intro rnd_ge)
  then have pos: "0 < rnd (real c / 1000000)" using powi2_pos [of "- 20"] by linarith
  have "(2::real) powi 0 \<le> 2 powi 1000" by (rule powi2_mono) simp
  then have "1 \<le> (2::real) powi 1000" by (simp only: power_int_0_right)
  moreover have "coeff_max \<le> 1" by (simp add: coeff_max_def)
  ultimately have "rnd (real c / 1000000) < f64_top" using le by (intro lt_top) linarith
  then have "rnd (frac_val c 1000000 0) < f64_top" by (simp only: fv)
  note R = round_frac_fin [OF _ this, of False, folded js_decimal_def]
  show "is_fin (js_decimal c)" and "canonical (js_decimal c)" using R by simp_all
  show v: "val (js_decimal c) = rnd (real c / 1000000)"
    using R(3) by (simp add: fv signed_rnd_def)
  show "0 < val (js_decimal c)" and "val (js_decimal c) \<le> coeff_max"
    using pos le by (simp_all only: v)
qed

section \<open>A call on a finite number\<close>

text \<open>The greatest value of the product, and of the sum, over all finite arguments.\<close>

lemma product_bound:
  "representable (coeff_max * f64_top)" "representable ((2 ^ 21 - 1) * 2 powi 1003)"
  "coeff_max * f64_top + 100 \<le> (2 ^ 21 - 1) * 2 powi 1003" "(2 ^ 21 - 1) * 2 powi 1003 < f64_top"
proof -
  have t: "f64_top = 2 ^ 21 * 2 powi 1003" "f64_top = 2 ^ 20 * 2 powi 1004"
    unfolding f64_top_def using powi2_split [of 1003 1024] powi2_split [of 1004 1024] by simp_all
  have c: "coeff_max * f64_top = (2 ^ 20 - 1) * 2 powi 1004"
    unfolding t(2) coeff_max_def by simp
  show "representable (coeff_max * f64_top)"
    unfolding c using representable_intro [of 1048575 1004] by (simp del: power_int_numeral)
  show "representable ((2 ^ 21 - 1) * 2 powi 1003)"
    using representable_intro [of 2097151 1003] by (simp del: power_int_numeral)
  show "(2 ^ 21 - 1) * 2 powi 1003 < f64_top"
    unfolding t(1) by (intro mult_strict_right_mono powi2_pos) simp
  have "(2::real) powi 1004 = 2 * 2 powi 1003" using powi2_split [of 1003 1004] by simp
  moreover have "128 \<le> (2::real) powi 1003"
    by (rule order_trans [OF _ powi2_mono [of 7 1003]]) simp_all
  moreover have "b = 2 * a \<Longrightarrow> 128 \<le> a \<Longrightarrow> (2 ^ 20 - 1) * b + 100 \<le> (2 ^ 21 - 1) * a" for a b :: real
    by simp
  ultimately show "coeff_max * f64_top + 100 \<le> (2 ^ 21 - 1) * 2 powi 1003"
    unfolding c by blast
qed


lemma js_body_fin:
  assumes "gen_fun f" and "is_fin x" and "canonical x"
  defines "k \<equiv> val (js_decimal (coeff f))"
  shows "is_fin (js_body f x)" and "canonical (js_body f x)"
    and "val (js_body f x) = signed_rnd (signed_rnd (val x * k) + of_int (offset f))"
proof -
  obtain c d where f: "f = Lin c d" by (cases f)
  have c: "0 < c" "c < 1000000" "\<bar>d\<bar> < 2 ^ 53" "\<bar>real_of_int d\<bar> \<le> 100"
    using assms(1) by (auto simp: f gen_fun_def)
  note C = js_decimal_val [OF c(1,2)] and D = js_integer_val [OF c(3)] and P = product_bound
  have k: "k = val (js_decimal c)" by (simp add: k_def f)
  have "\<bar>val x * k\<bar> \<le> f64_top * coeff_max"
    unfolding abs_mult k using C(4,5) abs_val_lt_top [OF assms(3)] by (intro mult_mono) auto
  then have prod: "rnd \<bar>val x * k\<bar> \<le> coeff_max * f64_top"
    by (intro rnd_le P(1)) (simp only: mult.commute)
  have "0 < f64_top" by simp
  then have "coeff_max * f64_top < f64_top" by (simp add: coeff_max_def)
  with prod have lt: "rnd \<bar>val x * val (js_decimal c)\<bar> < f64_top" unfolding k by (rule le_less_trans)
  note M = f64_mul_fin [OF assms(2) C(1) lt]
  have "\<bar>val (f64_mul x (js_decimal c)) + val (js_integer d)\<bar> \<le> coeff_max * f64_top + 100"
    using abs_triangle_ineq [of "signed_rnd (val x * k)" "of_int d"] prod c(4)
    unfolding M(3) D(3) abs_signed_rnd k by linarith
  from rnd_le [OF order_trans [OF this P(3)] P(2)] P(4)
  have "rnd \<bar>val (f64_mul x (js_decimal c)) + val (js_integer d)\<bar> < f64_top" by (rule le_less_trans)
  note A = f64_add_fin [OF M(1) D(1) this]
  show "is_fin (js_body f x)" and "canonical (js_body f x)"
    and "val (js_body f x) = signed_rnd (signed_rnd (val x * k) + of_int (offset f))"
    using A by (simp_all add: f k M(3) D(3))
qed

lemma js_body_Inf: "gen_fun f \<Longrightarrow> js_body f (Inf s) = Inf s"
proof -
  assume g: "gen_fun f"
  obtain c d where f: "f = Lin c d" by (cases f)
  have c: "0 < c" "c < 1000000" "\<bar>d\<bar> < 2 ^ 53" using g by (auto simp: f gen_fun_def)
  obtain t m e where D: "js_decimal c = Fin t m e" using js_decimal_val(1) [OF c(1,2)] by (rule is_fin_cases)
  obtain t' m' e' where I: "js_integer d = Fin t' m' e'" using js_integer_val(1) [OF c(3)] by (rule is_fin_cases)
  have pos: "0 < sgn_of t * (real m * 2 powi e)" using js_decimal_val(4) [OF c(1,2)] D by (simp add: mult.assoc)
  then have m: "m \<noteq> 0" by (cases "m = 0") simp_all
  have "0 \<le> real m * 2 powi e" by (intro mult_nonneg_nonneg) (auto intro: less_imp_le)
  with pos have "\<not> t" by (cases t) simp_all
  with m show ?thesis by (simp add: f D I)
qed

lemma js_body_NaN: "js_body f NaN = NaN"
  by (cases f) simp

text \<open>
  The three facts a caller needs: the class of the argument (finite, infinite, NaN) is kept, the
  order is kept, and the result is the exact linear function up to a bounded rounding error.
\<close>

lemma js_body_canonical: "canonical (js_body f x)"
  by (cases f) (simp add: f64_canonical)

lemma js_body_mono:
  assumes "gen_fun f" and "canonical x" and "canonical y" and "f64_le x y"
  shows "f64_le (js_body f x) (js_body f y)"
proof (cases "is_fin x \<and> is_fin y")
  case True
  have k: "0 < val (js_decimal (coeff f))" using assms(1) by (auto simp: gen_fun_def intro: js_decimal_val)
  from True assms(4) have "val x \<le> val y" by (simp add: f64_le_fin)
  with k have "signed_rnd (val x * val (js_decimal (coeff f))) \<le> signed_rnd (val y * val (js_decimal (coeff f)))"
    by (intro signed_rnd_mono mult_right_mono) auto
  then have "val (js_body f x) \<le> val (js_body f y)"
    using True assms by (auto simp: js_body_fin(3) intro!: signed_rnd_mono)
  with True assms show ?thesis by (simp add: f64_le_fin js_body_fin(1))
next
  case False
  have fin: "is_fin z \<Longrightarrow> canonical z \<Longrightarrow> \<exists>s m e. js_body f z = Fin s m e" for z
    using js_body_fin(1) [OF assms(1)] by (meson is_fin_cases)
  from False assms(2-4) show ?thesis
    using fin [of x] fin [of y]
    by (cases x; cases y) (auto simp: js_body_Inf [OF assms(1)])
qed


text \<open>The exact linear function that a declaration denotes.\<close>

definition exact :: "js_fun \<Rightarrow> real \<Rightarrow> real" where
  "exact f r = r * (real (coeff f) / 1000000) + of_int (offset f)"

lemma abs_product_le:
  assumes "gen_fun f" and "canonical x"
  shows "\<bar>signed_rnd (val x * val (js_decimal (coeff f)))\<bar> \<le> \<bar>val x\<bar>"
proof -
  have k: "0 < val (js_decimal (coeff f))" "val (js_decimal (coeff f)) \<le> coeff_max"
    using assms(1) by (auto simp: gen_fun_def intro: js_decimal_val)
  then have "val (js_decimal (coeff f)) \<le> 1" by (simp add: coeff_max_def)
  then have "\<bar>val x * val (js_decimal (coeff f))\<bar> \<le> \<bar>val x\<bar> * 1"
    unfolding abs_mult using k by (intro mult_left_mono) auto
  moreover have "rnd \<bar>val x\<bar> = \<bar>val x\<bar>"
    using abs_signed_rnd [of "val x"] signed_rnd_val [OF assms(2)] by simp
  ultimately show ?thesis
    unfolding abs_signed_rnd using rnd_mono [of "\<bar>val x * val (js_decimal (coeff f))\<bar>" "\<bar>val x\<bar>"] by simp
qed

lemma js_body_accuracy:
  assumes "gen_fun f" and "is_fin x" and "canonical x"
  shows "\<bar>val (js_body f x) - exact f (val x)\<bar> \<le> (\<bar>val x\<bar> + 101) * 2 powi (- 51)"
proof -
  define k where "k = val (js_decimal (coeff f))"
  define c where "c = real (coeff f) / 1000000"
  define d where "d = real_of_int (offset f)"
  define p where "p = signed_rnd (val x * k)"
  define u where "u = (2::real) powi (- 53)"
  define t where "t = (2::real) powi (- 1075)"
  have g: "0 < coeff f" "coeff f < 1000000" "\<bar>d\<bar> \<le> 100" "0 \<le> c" "c \<le> 1"
    using assms(1) by (auto simp: gen_fun_def d_def c_def)
  have u: "0 < u" "0 < t" "t \<le> u" "2 powi (- 51) = 4 * u"
    by (auto simp: u_def t_def intro: powi2_mono)
  have err: "rounding_error v = \<bar>v\<bar> * u + t" for v by (simp only: rounding_error_def u_def t_def)
  have "\<bar>k - c\<bar> \<le> c * u + t"
    using rnd_error [of c] g(4) js_decimal_val(3) [OF g(1,2)] by (simp add: k_def c_def err)
  also have "\<dots> \<le> 2 * u" using mult_right_mono [OF g(5), of u] u(1,3) by linarith
  finally have e1: "\<bar>val x * k - val x * c\<bar> \<le> \<bar>val x\<bar> * (2 * u)"
    unfolding right_diff_distrib [symmetric] abs_mult by (rule mult_left_mono) simp
  have k1: "\<bar>k\<bar> \<le> 1"
    using js_decimal_val(4,5) [OF g(1,2)] by (simp add: k_def coeff_max_def)
  have "\<bar>p - val x * k\<bar> \<le> \<bar>val x * k\<bar> * u + t"
    using signed_rnd_error [of "val x * k"] by (simp add: p_def err)
  also have "\<bar>val x * k\<bar> \<le> \<bar>val x\<bar>" using mult_left_mono [OF k1, of "\<bar>val x\<bar>"] by (simp add: abs_mult)
  finally have e2: "\<bar>p - val x * k\<bar> \<le> \<bar>val x\<bar> * u + t" using u(1) by (simp add: mult_right_mono)
  have "\<bar>p + d\<bar> \<le> \<bar>val x\<bar> + 100"
    using abs_product_le [OF assms(1,3)] g(3) by (simp add: p_def k_def)
  then have "\<bar>p + d\<bar> * u \<le> (\<bar>val x\<bar> + 100) * u" using u(1) by (intro mult_right_mono) auto
  then have e3: "\<bar>signed_rnd (p + d) - (p + d)\<bar> \<le> (\<bar>val x\<bar> + 100) * u + t"
    using signed_rnd_error [of "p + d"] by (simp add: err)
  have "\<bar>signed_rnd (p + d) - (val x * c + d)\<bar>
      \<le> ((\<bar>val x\<bar> + 100) * u + t) + (\<bar>val x\<bar> * u + t) + \<bar>val x\<bar> * (2 * u)"
    using e1 e2 e3 by linarith
  also have "\<dots> \<le> (\<bar>val x\<bar> + 101) * (4 * u)" using u(1-3) by (simp add: algebra_simps)
  finally show ?thesis
    unfolding js_body_fin(3) [OF assms] exact_def u(4) by (simp add: p_def k_def c_def d_def)
qed

text \<open>
  Since every coefficient is at most \<open>1 - 2^-20\<close>, the interval \<open>[-2^28, 2^28]\<close> is closed under every
  function: no chain of calls, over any functions in any order, leaves it.
\<close>

lemma js_body_box:
  assumes "gen_fun f" and "is_fin x" and "canonical x" and "\<bar>val x\<bar> \<le> 2 ^ 28"
  shows "\<bar>val (js_body f x)\<bar> \<le> 2 ^ 28"
proof -
  define k where "k = val (js_decimal (coeff f))"
  have k: "0 < k" "k \<le> coeff_max" and d: "\<bar>real_of_int (offset f)\<bar> \<le> 100"
    using assms(1) by (auto simp: gen_fun_def k_def intro: js_decimal_val)
  have rep: "representable (2 ^ 28 - 2 ^ 8)" "representable (2 ^ 28)"
    using representable_nat [of "2 ^ 28 - 2 ^ 8"] representable_nat [of "2 ^ 28"] by simp_all
  have "\<bar>val x * k\<bar> \<le> 2 ^ 28 * coeff_max"
    unfolding abs_mult using k assms(4) by (intro mult_mono) auto
  also have "2 ^ 28 * coeff_max = 2 ^ 28 - 2 ^ 8" by (simp add: coeff_max_def)
  finally have "\<bar>signed_rnd (val x * k)\<bar> \<le> 2 ^ 28 - 2 ^ 8"
    unfolding abs_signed_rnd using rep(1) by (rule rnd_le)
  then have "\<bar>signed_rnd (val x * k) + of_int (offset f)\<bar> \<le> 2 ^ 28" using d by simp
  then have "\<bar>signed_rnd (signed_rnd (val x * k) + of_int (offset f))\<bar> \<le> 2 ^ 28"
    unfolding abs_signed_rnd using rep(2) by (rule rnd_le)
  then show ?thesis using js_body_fin(3) [OF assms(1-3)] by (simp add: k_def)
qed

text \<open>Feeding the result of each call to the next.\<close>

definition js_chain :: "js_fun list \<Rightarrow> float64 \<Rightarrow> float64" where
  "js_chain fs x = fold js_body fs x"

lemma js_chain_box:
  assumes "list_all gen_fun fs" and "is_fin x" and "canonical x" and "\<bar>val x\<bar> \<le> 2 ^ 28"
  shows "is_fin (js_chain fs x) \<and> canonical (js_chain fs x) \<and> \<bar>val (js_chain fs x)\<bar> \<le> 2 ^ 28"
  using assms
proof (induction fs arbitrary: x)
  case (Cons f fs)
  then show ?case
    using js_body_fin [of f x] js_body_box [of f x] by (simp add: js_chain_def)
qed (simp add: js_chain_def)

end
