(* ===== verification/Js_Scripts_A.thy ===== *)
theory Js_Scripts_A
  imports Js_Function
begin

text \<open>
  The declarations of \<open>src/sample-assets-small/script-0000.js\<close> to \<open>script-0004.js\<close>, in the order
  of the files: \<open>Lin c k\<close> on line \<open>i + 2\<close> of a file stands for the body \<open>return x * 0.c + k;\<close> of its function
  number \<open>i\<close>, with the six decimals \<open>c\<close> read as a natural number.
\<close>

section \<open>script-0000.js\<close>

text \<open>Functions 0 to 85.\<close>

definition fns_3000_0 :: "js_fun list" where
  "fns_3000_0 = [
     Lin 638876 (- 21), Lin 83301 83, Lin 647362 (- 64), Lin 603225 85, Lin 442679 (- 44),
     Lin 183777 73, Lin 214563 (- 46), Lin 702042 91, Lin 512821 54, Lin 620371 8,
     Lin 421388 95, Lin 722587 (- 7), Lin 995604 (- 44), Lin 753530 68, Lin 377623 (- 42),
     Lin 691133 (- 16), Lin 705205 (- 18), Lin 972298 (- 66), Lin 869057 42, Lin 426043 (- 69),
     Lin 80988 51, Lin 917552 (- 83), Lin 638270 37, Lin 484452 19, Lin 811584 71,
     Lin 646401 (- 45), Lin 833871 66, Lin 296846 39, Lin 105771 (- 49), Lin 155612 32,
     Lin 177143 (- 20), Lin 567495 76, Lin 234571 (- 19), Lin 200387 (- 38), Lin 550621 44,
     Lin 626294 7, Lin 68984 (- 49), Lin 596168 (- 48), Lin 129843 (- 93), Lin 635386 (- 99),
     Lin 908014 (- 26), Lin 588024 85, Lin 747671 (- 63), Lin 816552 (- 100), Lin 839972 (- 92),
     Lin 518624 (- 61), Lin 785215 9, Lin 8964 (- 12), Lin 999750 (- 19), Lin 683828 (- 71),
     Lin 543007 39, Lin 453090 65, Lin 606625 15, Lin 732890 50, Lin 392996 72,
     Lin 594448 73, Lin 101090 76, Lin 33440 86, Lin 854367 10, Lin 129628 57,
     Lin 405391 (- 76), Lin 939465 51, Lin 6426 (- 52), Lin 81313 49, Lin 471403 (- 34),
     Lin 629161 40, Lin 757550 (- 36), Lin 371785 62, Lin 723102 71, Lin 190731 65,
     Lin 559907 (- 53), Lin 218716 (- 18), Lin 629840 (- 33), Lin 710736 54, Lin 849644 (- 15),
     Lin 927885 9, Lin 625413 (- 70), Lin 679774 (- 63), Lin 1782 24, Lin 330154 (- 47),
     Lin 895507 9, Lin 742606 92, Lin 533952 52, Lin 248147 3, Lin 951002 (- 45),
     Lin 138133 (- 33)]"

definition script_3000 :: js_script where
  "script_3000 = \<lparr>seed = 3000, funs = fns_3000_0\<rparr>"

section \<open>script-0001.js\<close>

text \<open>Functions 0 to 148.\<close>

definition fns_3001_0 :: "js_fun list" where
  "fns_3001_0 = [
     Lin 291374 13, Lin 145792 (- 38), Lin 973766 (- 9), Lin 676669 (- 15), Lin 475840 (- 2),
     Lin 910261 54, Lin 637663 (- 46), Lin 861927 53, Lin 649766 (- 93), Lin 787305 30,
     Lin 23588 13, Lin 860086 98, Lin 956379 (- 55), Lin 260555 15, Lin 425252 (- 13),
     Lin 900067 25, Lin 198249 (- 34), Lin 739616 87, Lin 165531 8, Lin 604548 79,
     Lin 84829 (- 25), Lin 421678 (- 5), Lin 970930 97, Lin 128692 0, Lin 866486 57,
     Lin 268647 59, Lin 579745 (- 63), Lin 613232 (- 22), Lin 172484 78, Lin 715959 (- 90),
     Lin 604256 41, Lin 646292 (- 16), Lin 193366 (- 93), Lin 146899 81, Lin 617295 (- 46),
     Lin 66289 (- 33), Lin 229836 (- 3), Lin 771164 (- 21), Lin 390838 21, Lin 135468 (- 5),
     Lin 312298 (- 43), Lin 395356 (- 13), Lin 984806 (- 20), Lin 228934 (- 32), Lin 659551 43,
     Lin 371296 48, Lin 839994 (- 1), Lin 404075 (- 38), Lin 374720 (- 77), Lin 571167 (- 49),
     Lin 745897 79, Lin 56980 60, Lin 962111 (- 11), Lin 172105 77, Lin 345272 (- 18),
     Lin 787903 (- 24), Lin 498300 94, Lin 28227 72, Lin 170572 (- 57), Lin 548787 (- 76),
     Lin 982055 (- 82), Lin 52113 78, Lin 695608 (- 93), Lin 234942 (- 49), Lin 626294 (- 72),
     Lin 16352 2, Lin 132976 (- 12), Lin 998020 (- 58), Lin 208997 (- 33), Lin 589290 (- 51),
     Lin 732211 (- 55), Lin 776453 (- 36), Lin 77590 43, Lin 817470 (- 86), Lin 726589 (- 15),
     Lin 765141 (- 66), Lin 663582 (- 69), Lin 497319 (- 28), Lin 404529 70, Lin 182869 (- 77),
     Lin 265411 45, Lin 196240 37, Lin 664956 35, Lin 100803 46, Lin 202812 (- 80),
     Lin 45720 (- 91), Lin 38471 94, Lin 309296 89, Lin 408294 84, Lin 420199 (- 56),
     Lin 641499 34, Lin 928870 62, Lin 146724 41, Lin 361528 70, Lin 762193 2,
     Lin 450792 (- 98), Lin 809652 (- 95), Lin 104925 83, Lin 526967 9, Lin 4794 (- 78),
     Lin 989652 23, Lin 891731 (- 77), Lin 937977 (- 33), Lin 165585 57, Lin 223673 53,
     Lin 534518 10, Lin 632043 43, Lin 81962 93, Lin 865633 (- 99), Lin 919507 34,
     Lin 828896 99, Lin 580158 (- 39), Lin 697205 26, Lin 851363 (- 33), Lin 4448 64,
     Lin 772395 98, Lin 850028 (- 13), Lin 487086 84, Lin 579407 39, Lin 215779 27,
     Lin 454994 26, Lin 786239 (- 20), Lin 566383 (- 43), Lin 530937 41, Lin 574694 47,
     Lin 193122 58, Lin 470062 2, Lin 913410 75, Lin 507769 26, Lin 280030 57,
     Lin 747689 (- 98), Lin 569227 (- 85), Lin 559407 (- 86), Lin 223608 68, Lin 673134 43,
     Lin 807970 (- 41), Lin 846669 (- 21), Lin 752674 (- 60), Lin 913543 (- 50), Lin 479528 41,
     Lin 769329 (- 24), Lin 902537 (- 93), Lin 786919 29, Lin 232482 17, Lin 856009 (- 72),
     Lin 275393 (- 66), Lin 318317 (- 21), Lin 215370 77, Lin 86455 22]"

text \<open>Functions 149 to 297.\<close>

definition fns_3001_1 :: "js_fun list" where
  "fns_3001_1 = [
     Lin 314014 81, Lin 633573 50, Lin 513088 47, Lin 467487 (- 43), Lin 796999 43,
     Lin 291120 1, Lin 459427 82, Lin 682832 (- 41), Lin 1114 (- 45), Lin 581690 (- 33),
     Lin 504553 87, Lin 436897 (- 36), Lin 165966 2, Lin 933538 42, Lin 251458 85,
     Lin 567653 (- 100), Lin 71923 (- 67), Lin 414792 36, Lin 104997 (- 27), Lin 101590 (- 24),
     Lin 828881 (- 98), Lin 203792 (- 25), Lin 835312 (- 23), Lin 358238 7, Lin 641751 4,
     Lin 170717 (- 85), Lin 780457 32, Lin 290290 63, Lin 516090 27, Lin 965888 92,
     Lin 439794 24, Lin 322920 48, Lin 172508 (- 70), Lin 931614 (- 40), Lin 425845 58,
     Lin 79768 95, Lin 533586 (- 96), Lin 37120 (- 20), Lin 947173 34, Lin 287714 (- 43),
     Lin 615078 (- 49), Lin 263075 (- 26), Lin 741580 (- 9), Lin 802373 28, Lin 890865 (- 49),
     Lin 757413 18, Lin 941971 42, Lin 772104 27, Lin 92088 51, Lin 840941 5,
     Lin 491770 (- 42), Lin 998680 7, Lin 764306 (- 67), Lin 255465 (- 32), Lin 103455 (- 86),
     Lin 136501 (- 30), Lin 567930 (- 95), Lin 131159 (- 61), Lin 95353 (- 15), Lin 745940 (- 21),
     Lin 127119 27, Lin 292124 (- 28), Lin 578103 37, Lin 328925 58, Lin 750824 15,
     Lin 738730 (- 33), Lin 912306 (- 6), Lin 550938 (- 90), Lin 234490 (- 35), Lin 579013 (- 35),
     Lin 547771 4, Lin 867217 (- 53), Lin 840631 61, Lin 86321 (- 39), Lin 837974 (- 20),
     Lin 787783 (- 88), Lin 506194 2, Lin 222381 71, Lin 954831 44, Lin 645584 (- 86),
     Lin 656926 64, Lin 969592 (- 51), Lin 311128 (- 72), Lin 64403 (- 75), Lin 754027 22,
     Lin 79371 84, Lin 577896 (- 69), Lin 704281 6, Lin 160716 (- 52), Lin 582467 (- 36),
     Lin 282399 (- 10), Lin 162006 (- 25), Lin 511745 (- 94), Lin 355620 (- 42), Lin 681844 83,
     Lin 863973 52, Lin 149463 67, Lin 836567 48, Lin 88992 (- 75), Lin 143187 99,
     Lin 740354 (- 60), Lin 238309 (- 30), Lin 732594 (- 90), Lin 433992 81, Lin 240566 (- 69),
     Lin 509303 (- 73), Lin 422810 97, Lin 379958 35, Lin 410744 45, Lin 321565 25,
     Lin 852984 (- 59), Lin 157177 (- 9), Lin 368150 (- 34), Lin 395758 11, Lin 549155 (- 3),
     Lin 405910 35, Lin 117534 (- 30), Lin 593746 77, Lin 419861 (- 83), Lin 39851 (- 44),
     Lin 709080 37, Lin 452779 (- 21), Lin 981966 (- 58), Lin 394885 64, Lin 279260 (- 7),
     Lin 36662 (- 46), Lin 526487 1, Lin 338200 78, Lin 62519 4, Lin 249513 (- 38),
     Lin 41423 97, Lin 639532 (- 49), Lin 509246 (- 31), Lin 599638 95, Lin 146723 (- 48),
     Lin 972670 52, Lin 741105 (- 28), Lin 219553 9, Lin 462185 (- 6), Lin 18946 38,
     Lin 127948 40, Lin 856876 80, Lin 658737 (- 77), Lin 935898 (- 66), Lin 280859 54,
     Lin 261113 83, Lin 651747 92, Lin 566474 40, Lin 725282 4]"

text \<open>Functions 298 to 312.\<close>

definition fns_3001_2 :: "js_fun list" where
  "fns_3001_2 = [
     Lin 243133 99, Lin 948784 2, Lin 740348 80, Lin 184582 69, Lin 577733 51,
     Lin 758542 82, Lin 248483 88, Lin 860223 (- 5), Lin 274227 (- 24), Lin 92478 32,
     Lin 626365 (- 65), Lin 23270 62, Lin 31086 (- 55), Lin 566076 (- 69), Lin 723391 2]"

definition script_3001 :: js_script where
  "script_3001 = \<lparr>seed = 3001, funs = fns_3001_0 @ fns_3001_1 @ fns_3001_2\<rparr>"

section \<open>script-0002.js\<close>

text \<open>Functions 0 to 148.\<close>

definition fns_3002_0 :: "js_fun list" where
  "fns_3002_0 = [
     Lin 196433 62, Lin 841689 (- 100), Lin 62304 (- 2), Lin 737047 16, Lin 720049 95,
     Lin 3048 (- 17), Lin 10802 (- 13), Lin 430716 97, Lin 538926 12, Lin 614142 (- 51),
     Lin 111330 20, Lin 439122 10, Lin 774414 (- 20), Lin 518418 (- 89), Lin 67820 (- 42),
     Lin 816292 (- 39), Lin 857 (- 88), Lin 924256 (- 80), Lin 57228 (- 85), Lin 578222 (- 58),
     Lin 90880 (- 74), Lin 739965 95, Lin 524250 (- 86), Lin 366890 (- 56), Lin 914829 (- 7),
     Lin 895918 59, Lin 24128 34, Lin 100198 (- 17), Lin 56705 (- 65), Lin 21971 (- 41),
     Lin 825045 13, Lin 835534 5, Lin 139279 (- 74), Lin 222532 (- 7), Lin 886952 (- 43),
     Lin 349649 41, Lin 47084 91, Lin 607600 (- 25), Lin 695755 (- 34), Lin 768658 (- 82),
     Lin 605195 (- 73), Lin 302830 (- 17), Lin 572509 (- 67), Lin 442782 18, Lin 380093 (- 12),
     Lin 628831 52, Lin 288424 (- 22), Lin 371612 (- 90), Lin 134302 45, Lin 178675 (- 39),
     Lin 686324 (- 59), Lin 117380 33, Lin 175892 51, Lin 312942 26, Lin 797569 37,
     Lin 192913 (- 49), Lin 803917 (- 91), Lin 364029 72, Lin 151740 42, Lin 879012 97,
     Lin 434843 (- 100), Lin 651002 89, Lin 731633 (- 1), Lin 451806 (- 66), Lin 744378 81,
     Lin 880950 (- 97), Lin 245447 29, Lin 351105 16, Lin 981936 14, Lin 682071 15,
     Lin 888557 10, Lin 462815 55, Lin 378908 16, Lin 700993 15, Lin 411318 (- 37),
     Lin 263593 73, Lin 903823 (- 2), Lin 383173 14, Lin 282412 (- 94), Lin 829840 4,
     Lin 614920 (- 76), Lin 180434 (- 34), Lin 441981 2, Lin 492826 (- 72), Lin 957544 98,
     Lin 965555 (- 49), Lin 83787 (- 70), Lin 158992 30, Lin 918285 46, Lin 236464 (- 26),
     Lin 263664 (- 68), Lin 161605 93, Lin 986649 17, Lin 183556 99, Lin 978830 72,
     Lin 59164 (- 9), Lin 683417 94, Lin 497256 (- 4), Lin 57090 100, Lin 859538 (- 57),
     Lin 543139 96, Lin 517019 (- 36), Lin 340574 54, Lin 373484 (- 8), Lin 590651 76,
     Lin 947601 (- 27), Lin 16441 (- 62), Lin 576674 19, Lin 869706 89, Lin 603887 43,
     Lin 613883 (- 58), Lin 301085 13, Lin 507845 17, Lin 50203 (- 47), Lin 136689 (- 83),
     Lin 150876 (- 38), Lin 657420 92, Lin 421976 (- 71), Lin 325725 (- 5), Lin 100679 (- 28),
     Lin 984352 (- 22), Lin 901980 59, Lin 924973 (- 38), Lin 539229 (- 85), Lin 898988 81,
     Lin 208495 (- 26), Lin 953136 (- 85), Lin 204736 38, Lin 230755 53, Lin 514582 (- 39),
     Lin 110643 (- 22), Lin 141254 (- 24), Lin 325753 (- 22), Lin 992738 36, Lin 164783 (- 4),
     Lin 527550 54, Lin 163887 (- 17), Lin 559584 (- 34), Lin 318769 43, Lin 476847 (- 56),
     Lin 394080 43, Lin 692540 (- 19), Lin 696370 63, Lin 906584 21, Lin 976421 43,
     Lin 520007 (- 92), Lin 789292 (- 15), Lin 311492 (- 42), Lin 94718 41]"

text \<open>Functions 149 to 170.\<close>

definition fns_3002_1 :: "js_fun list" where
  "fns_3002_1 = [
     Lin 742656 (- 78), Lin 855734 (- 100), Lin 534362 32, Lin 512578 13, Lin 352272 62,
     Lin 884909 (- 76), Lin 944740 59, Lin 162797 (- 24), Lin 5545 93, Lin 144676 11,
     Lin 156787 (- 92), Lin 966456 (- 57), Lin 288980 69, Lin 115184 48, Lin 378169 (- 38),
     Lin 424164 (- 41), Lin 976412 (- 60), Lin 869151 90, Lin 139214 (- 1), Lin 231271 (- 46),
     Lin 563724 54, Lin 219672 98]"

definition script_3002 :: js_script where
  "script_3002 = \<lparr>seed = 3002, funs = fns_3002_0 @ fns_3002_1\<rparr>"

section \<open>script-0003.js\<close>

text \<open>Functions 0 to 148.\<close>

definition fns_3003_0 :: "js_fun list" where
  "fns_3003_0 = [
     Lin 555880 86, Lin 248065 (- 32), Lin 569470 92, Lin 906871 (- 87), Lin 349587 (- 10),
     Lin 55652 (- 37), Lin 684160 (- 63), Lin 9629 95, Lin 803296 (- 66), Lin 59466 (- 100),
     Lin 357860 86, Lin 870493 55, Lin 940138 (- 98), Lin 810445 (- 1), Lin 861001 (- 89),
     Lin 121114 (- 46), Lin 938334 38, Lin 508233 (- 25), Lin 137544 (- 45), Lin 439532 (- 40),
     Lin 25149 59, Lin 846719 (- 24), Lin 128039 (- 87), Lin 117738 66, Lin 123425 (- 86),
     Lin 631913 15, Lin 336019 (- 64), Lin 127764 (- 88), Lin 878422 (- 94), Lin 347231 24,
     Lin 12017 50, Lin 934845 (- 67), Lin 523843 (- 77), Lin 375753 20, Lin 572704 (- 84),
     Lin 692771 (- 92), Lin 727796 30, Lin 701538 99, Lin 143911 61, Lin 963098 (- 6),
     Lin 441241 66, Lin 50069 50, Lin 900260 (- 22), Lin 671689 66, Lin 71128 (- 34),
     Lin 831463 83, Lin 565229 80, Lin 548613 (- 20), Lin 196389 90, Lin 244245 (- 51),
     Lin 959400 25, Lin 842446 (- 6), Lin 777866 13, Lin 502458 53, Lin 391607 19,
     Lin 963604 13, Lin 939952 88, Lin 164246 21, Lin 33341 (- 32), Lin 841991 13,
     Lin 955123 (- 17), Lin 418839 88, Lin 848920 0, Lin 821581 (- 94), Lin 717487 (- 91),
     Lin 949464 (- 14), Lin 224286 (- 62), Lin 611505 21, Lin 18105 47, Lin 686814 (- 72),
     Lin 253274 (- 22), Lin 342693 38, Lin 992374 28, Lin 857142 (- 68), Lin 567605 50,
     Lin 136229 (- 22), Lin 519386 (- 98), Lin 525226 (- 95), Lin 349544 (- 97), Lin 808138 42,
     Lin 919986 50, Lin 824086 (- 72), Lin 544587 (- 69), Lin 194356 50, Lin 230410 23,
     Lin 978323 (- 26), Lin 485383 70, Lin 838668 77, Lin 545966 (- 44), Lin 752989 (- 34),
     Lin 858940 (- 31), Lin 559094 81, Lin 442389 89, Lin 901378 (- 5), Lin 936577 (- 85),
     Lin 944065 (- 97), Lin 690629 18, Lin 390998 (- 45), Lin 405256 6, Lin 784948 76,
     Lin 10755 (- 59), Lin 303083 (- 38), Lin 797831 3, Lin 668465 89, Lin 630103 85,
     Lin 58633 74, Lin 194642 38, Lin 799387 (- 38), Lin 341494 6, Lin 73471 (- 71),
     Lin 577495 (- 26), Lin 837782 (- 21), Lin 834394 85, Lin 742320 18, Lin 985392 23,
     Lin 378205 22, Lin 655607 44, Lin 271364 67, Lin 406120 (- 56), Lin 568875 94,
     Lin 861412 95, Lin 470906 46, Lin 348474 8, Lin 986896 (- 54), Lin 876635 (- 54),
     Lin 310840 (- 2), Lin 523411 12, Lin 748150 79, Lin 530854 37, Lin 805721 (- 93),
     Lin 86384 (- 55), Lin 612783 14, Lin 912147 (- 58), Lin 337218 (- 3), Lin 371605 (- 81),
     Lin 167960 (- 49), Lin 314829 48, Lin 770388 (- 32), Lin 49202 (- 87), Lin 658800 82,
     Lin 236038 (- 12), Lin 733678 39, Lin 384486 10, Lin 201411 54, Lin 425484 13,
     Lin 698393 (- 12), Lin 406823 (- 76), Lin 98960 90, Lin 235836 (- 72)]"

text \<open>Functions 149 to 191.\<close>

definition fns_3003_1 :: "js_fun list" where
  "fns_3003_1 = [
     Lin 443733 (- 42), Lin 507815 27, Lin 689222 (- 96), Lin 744499 66, Lin 556490 (- 64),
     Lin 875414 76, Lin 742897 (- 20), Lin 415559 (- 26), Lin 883525 (- 64), Lin 206076 (- 91),
     Lin 1435 36, Lin 146943 40, Lin 482438 (- 85), Lin 860668 23, Lin 163397 93,
     Lin 226180 (- 45), Lin 646426 23, Lin 646610 50, Lin 403534 18, Lin 33729 8,
     Lin 898646 72, Lin 368976 31, Lin 108186 (- 12), Lin 415096 92, Lin 245058 93,
     Lin 746551 20, Lin 133632 3, Lin 800590 (- 38), Lin 846220 67, Lin 733062 (- 62),
     Lin 676036 (- 40), Lin 996025 82, Lin 324078 (- 51), Lin 252870 (- 66), Lin 88851 92,
     Lin 50117 (- 10), Lin 818840 19, Lin 863131 32, Lin 273270 2, Lin 88772 (- 78),
     Lin 681466 26, Lin 920122 (- 89), Lin 781886 73]"

definition script_3003 :: js_script where
  "script_3003 = \<lparr>seed = 3003, funs = fns_3003_0 @ fns_3003_1\<rparr>"

section \<open>script-0004.js\<close>

text \<open>Functions 0 to 148.\<close>

definition fns_3004_0 :: "js_fun list" where
  "fns_3004_0 = [
     Lin 494651 (- 48), Lin 701018 86, Lin 662002 83, Lin 857314 (- 91), Lin 565070 (- 90),
     Lin 662482 2, Lin 495336 45, Lin 121198 (- 13), Lin 644540 56, Lin 15354 89,
     Lin 349201 91, Lin 742670 79, Lin 366531 89, Lin 338784 (- 76), Lin 834311 (- 29),
     Lin 593010 (- 5), Lin 342925 78, Lin 36456 90, Lin 475432 (- 100), Lin 778182 82,
     Lin 286458 19, Lin 97218 (- 74), Lin 603500 (- 11), Lin 188379 68, Lin 829274 35,
     Lin 862218 13, Lin 813652 (- 27), Lin 885330 (- 80), Lin 56407 8, Lin 685347 22,
     Lin 884387 2, Lin 73742 43, Lin 908800 15, Lin 282739 (- 80), Lin 819246 (- 91),
     Lin 817572 37, Lin 891801 (- 33), Lin 843546 (- 22), Lin 881540 (- 26), Lin 994749 50,
     Lin 98130 17, Lin 804376 (- 6), Lin 466490 98, Lin 790509 (- 4), Lin 647785 99,
     Lin 247552 (- 14), Lin 847152 (- 5), Lin 711371 81, Lin 482961 5, Lin 965665 (- 88),
     Lin 854646 33, Lin 256237 (- 83), Lin 361677 10, Lin 192244 92, Lin 619275 10,
     Lin 861008 (- 80), Lin 394503 (- 29), Lin 545158 (- 64), Lin 960428 (- 9), Lin 236664 (- 13),
     Lin 994972 (- 49), Lin 487801 (- 7), Lin 812011 57, Lin 180342 (- 29), Lin 901031 (- 39),
     Lin 901653 (- 75), Lin 557888 (- 25), Lin 524947 (- 69), Lin 844106 (- 5), Lin 568999 (- 80),
     Lin 171675 52, Lin 589663 70, Lin 196022 (- 91), Lin 568871 17, Lin 612605 (- 26),
     Lin 198899 1, Lin 998571 (- 7), Lin 393005 (- 70), Lin 123605 30, Lin 872959 (- 29),
     Lin 923464 79, Lin 439739 (- 14), Lin 219068 2, Lin 359388 55, Lin 690081 (- 42),
     Lin 34494 (- 35), Lin 549139 60, Lin 464225 85, Lin 368890 95, Lin 388815 86,
     Lin 337083 (- 30), Lin 454268 (- 24), Lin 346398 (- 84), Lin 933760 64, Lin 562831 (- 30),
     Lin 841188 77, Lin 185932 37, Lin 677824 19, Lin 312157 59, Lin 813281 (- 29),
     Lin 160345 29, Lin 195238 31, Lin 412042 42, Lin 802189 (- 26), Lin 914327 (- 20),
     Lin 629345 (- 9), Lin 542057 46, Lin 154178 (- 59), Lin 525960 56, Lin 195757 (- 23),
     Lin 794586 38, Lin 50738 (- 36), Lin 826026 4, Lin 750266 66, Lin 424466 62,
     Lin 398995 (- 41), Lin 614236 68, Lin 762125 (- 26), Lin 692681 90, Lin 344143 (- 3),
     Lin 713769 51, Lin 45652 7, Lin 956283 (- 22), Lin 975490 49, Lin 757594 (- 75),
     Lin 842422 (- 18), Lin 809273 (- 41), Lin 560098 44, Lin 888965 (- 34), Lin 974140 22,
     Lin 767936 7, Lin 528938 (- 100), Lin 743117 (- 94), Lin 827036 92, Lin 156067 (- 95),
     Lin 59229 77, Lin 518149 0, Lin 603858 72, Lin 870491 (- 54), Lin 661379 (- 66),
     Lin 599442 (- 84), Lin 32799 33, Lin 560502 39, Lin 870346 (- 9), Lin 78178 (- 25),
     Lin 491834 (- 72), Lin 111837 40, Lin 231754 18, Lin 238698 (- 50)]"

text \<open>Functions 149 to 297.\<close>

definition fns_3004_1 :: "js_fun list" where
  "fns_3004_1 = [
     Lin 598992 31, Lin 792690 44, Lin 770934 (- 5), Lin 239897 57, Lin 146421 (- 1),
     Lin 156908 51, Lin 257766 (- 79), Lin 256340 (- 99), Lin 920748 31, Lin 296414 13,
     Lin 327793 64, Lin 944088 (- 9), Lin 509581 54, Lin 414063 59, Lin 721543 89,
     Lin 7041 (- 67), Lin 924295 (- 86), Lin 548709 (- 81), Lin 625373 (- 93), Lin 778160 67,
     Lin 496674 (- 4), Lin 323041 (- 6), Lin 823709 (- 1), Lin 188841 (- 68), Lin 605901 83,
     Lin 546335 (- 84), Lin 384409 69, Lin 973298 95, Lin 480804 14, Lin 887573 27,
     Lin 910169 (- 16), Lin 59612 (- 81), Lin 775172 41, Lin 876966 (- 50), Lin 32192 (- 4),
     Lin 683864 73, Lin 62436 (- 13), Lin 46199 98, Lin 122517 (- 47), Lin 251607 3,
     Lin 955600 26, Lin 74169 (- 12), Lin 843482 (- 44), Lin 464706 85, Lin 569984 (- 12),
     Lin 114358 84, Lin 322459 59, Lin 650923 (- 81), Lin 842437 (- 56), Lin 47819 63,
     Lin 746448 29, Lin 830958 (- 21), Lin 308227 (- 53), Lin 825020 (- 41), Lin 165978 (- 91),
     Lin 829569 (- 8), Lin 784228 96, Lin 997679 17, Lin 885859 92, Lin 31944 32,
     Lin 539492 46, Lin 593790 (- 4), Lin 710974 24, Lin 960921 (- 19), Lin 712386 (- 52),
     Lin 501775 97, Lin 913864 89, Lin 569737 (- 69), Lin 99827 36, Lin 50465 (- 71),
     Lin 566352 24, Lin 835381 (- 77), Lin 122840 90, Lin 403724 40, Lin 277457 (- 53),
     Lin 597088 36, Lin 652978 (- 85), Lin 710221 (- 54), Lin 772131 6, Lin 872800 79,
     Lin 453917 4, Lin 126272 (- 25), Lin 34962 (- 10), Lin 736056 84, Lin 936977 (- 33),
     Lin 156443 8, Lin 647811 (- 40), Lin 751561 1, Lin 947712 54, Lin 547377 (- 87),
     Lin 212134 (- 87), Lin 367101 (- 13), Lin 650899 (- 97), Lin 934526 (- 8), Lin 428177 (- 23),
     Lin 771446 (- 100), Lin 101114 54, Lin 928368 93, Lin 442422 (- 66), Lin 975842 8,
     Lin 741359 (- 73), Lin 963280 (- 92), Lin 836256 96, Lin 222607 82, Lin 225752 32,
     Lin 660999 (- 25), Lin 723727 (- 55), Lin 65799 (- 25), Lin 838053 (- 94), Lin 878984 2,
     Lin 604502 92, Lin 522502 (- 31), Lin 651290 (- 64), Lin 131629 (- 26), Lin 318331 92,
     Lin 743298 46, Lin 667567 (- 48), Lin 588402 (- 24), Lin 20634 (- 16), Lin 954976 48,
     Lin 427448 61, Lin 688851 55, Lin 57380 99, Lin 903924 (- 84), Lin 763238 74,
     Lin 605484 28, Lin 651864 (- 26), Lin 580656 (- 8), Lin 922552 (- 7), Lin 764634 46,
     Lin 428045 55, Lin 671857 45, Lin 614735 (- 73), Lin 13011 (- 72), Lin 616397 (- 52),
     Lin 565015 (- 98), Lin 239648 29, Lin 54132 (- 19), Lin 607318 (- 96), Lin 440177 61,
     Lin 698988 87, Lin 983132 (- 15), Lin 60592 (- 4), Lin 535409 (- 62), Lin 573379 16,
     Lin 992095 (- 72), Lin 654089 9, Lin 696133 (- 68), Lin 93046 (- 2)]"

text \<open>Functions 298 to 391.\<close>

definition fns_3004_2 :: "js_fun list" where
  "fns_3004_2 = [
     Lin 119592 (- 14), Lin 169120 (- 63), Lin 13465 56, Lin 532357 (- 42), Lin 681895 78,
     Lin 658422 43, Lin 451311 (- 39), Lin 946906 28, Lin 893531 44, Lin 340068 25,
     Lin 211118 (- 30), Lin 509434 37, Lin 67408 3, Lin 235201 (- 89), Lin 810420 (- 46),
     Lin 466530 (- 77), Lin 709581 (- 17), Lin 783247 (- 47), Lin 155249 (- 76), Lin 233133 40,
     Lin 441304 (- 95), Lin 994822 63, Lin 861682 55, Lin 888295 (- 41), Lin 926868 84,
     Lin 586542 59, Lin 444044 (- 20), Lin 374073 86, Lin 437281 (- 17), Lin 47986 (- 91),
     Lin 533788 84, Lin 162029 97, Lin 626577 (- 77), Lin 479290 91, Lin 339680 (- 75),
     Lin 120949 (- 60), Lin 534320 99, Lin 246769 (- 94), Lin 480591 (- 50), Lin 132581 (- 78),
     Lin 452295 87, Lin 52104 25, Lin 122628 (- 92), Lin 886452 (- 80), Lin 122126 (- 88),
     Lin 377968 (- 61), Lin 424177 (- 53), Lin 961890 (- 61), Lin 757569 (- 49), Lin 14833 (- 35),
     Lin 642334 100, Lin 943497 (- 64), Lin 385788 (- 91), Lin 887170 77, Lin 478940 (- 94),
     Lin 477232 (- 28), Lin 756059 5, Lin 598055 (- 62), Lin 728648 (- 91), Lin 756465 (- 48),
     Lin 789614 81, Lin 28320 15, Lin 982411 21, Lin 195639 (- 81), Lin 173433 (- 3),
     Lin 370469 67, Lin 43228 84, Lin 402952 34, Lin 800303 (- 96), Lin 304192 71,
     Lin 996122 (- 84), Lin 35486 63, Lin 672825 (- 98), Lin 864194 (- 61), Lin 904834 37,
     Lin 238880 (- 23), Lin 950004 42, Lin 379746 (- 78), Lin 171615 (- 2), Lin 474772 80,
     Lin 843996 (- 43), Lin 602096 (- 19), Lin 980308 94, Lin 389911 (- 95), Lin 210672 42,
     Lin 687129 55, Lin 121645 30, Lin 115619 57, Lin 871667 (- 11), Lin 373289 (- 82),
     Lin 181943 (- 62), Lin 437455 57, Lin 911327 57, Lin 849761 9]"

definition script_3004 :: js_script where
  "script_3004 = \<lparr>seed = 3004, funs = fns_3004_0 @ fns_3004_1 @ fns_3004_2\<rparr>"

section \<open>The tables respect the ranges of the generator\<close>

lemma gen_fns_3000_0 [table_checks]: "list_all gen_fun fns_3000_0" "length fns_3000_0 = 86"
  by (simp_all add: fns_3000_0_def gen_fun_def)

lemma gen_script_3000 [table_checks]: "gen_script script_3000" "seed script_3000 = 3000" "length (funs script_3000) = 86"
  by (simp_all add: script_3000_def gen_script_def gen_fns_3000_0)

lemma gen_fns_3001_0 [table_checks]: "list_all gen_fun fns_3001_0" "length fns_3001_0 = 149"
  by (simp_all add: fns_3001_0_def gen_fun_def)

lemma gen_fns_3001_1 [table_checks]: "list_all gen_fun fns_3001_1" "length fns_3001_1 = 149"
  by (simp_all add: fns_3001_1_def gen_fun_def)

lemma gen_fns_3001_2 [table_checks]: "list_all gen_fun fns_3001_2" "length fns_3001_2 = 15"
  by (simp_all add: fns_3001_2_def gen_fun_def)

lemma gen_script_3001 [table_checks]: "gen_script script_3001" "seed script_3001 = 3001" "length (funs script_3001) = 313"
  by (simp_all add: script_3001_def gen_script_def gen_fns_3001_0 gen_fns_3001_1 gen_fns_3001_2)

lemma gen_fns_3002_0 [table_checks]: "list_all gen_fun fns_3002_0" "length fns_3002_0 = 149"
  by (simp_all add: fns_3002_0_def gen_fun_def)

lemma gen_fns_3002_1 [table_checks]: "list_all gen_fun fns_3002_1" "length fns_3002_1 = 22"
  by (simp_all add: fns_3002_1_def gen_fun_def)

lemma gen_script_3002 [table_checks]: "gen_script script_3002" "seed script_3002 = 3002" "length (funs script_3002) = 171"
  by (simp_all add: script_3002_def gen_script_def gen_fns_3002_0 gen_fns_3002_1)

lemma gen_fns_3003_0 [table_checks]: "list_all gen_fun fns_3003_0" "length fns_3003_0 = 149"
  by (simp_all add: fns_3003_0_def gen_fun_def)

lemma gen_fns_3003_1 [table_checks]: "list_all gen_fun fns_3003_1" "length fns_3003_1 = 43"
  by (simp_all add: fns_3003_1_def gen_fun_def)

lemma gen_script_3003 [table_checks]: "gen_script script_3003" "seed script_3003 = 3003" "length (funs script_3003) = 192"
  by (simp_all add: script_3003_def gen_script_def gen_fns_3003_0 gen_fns_3003_1)

lemma gen_fns_3004_0 [table_checks]: "list_all gen_fun fns_3004_0" "length fns_3004_0 = 149"
  by (simp_all add: fns_3004_0_def gen_fun_def)

lemma gen_fns_3004_1 [table_checks]: "list_all gen_fun fns_3004_1" "length fns_3004_1 = 149"
  by (simp_all add: fns_3004_1_def gen_fun_def)

lemma gen_fns_3004_2 [table_checks]: "list_all gen_fun fns_3004_2" "length fns_3004_2 = 94"
  by (simp_all add: fns_3004_2_def gen_fun_def)

lemma gen_script_3004 [table_checks]: "gen_script script_3004" "seed script_3004 = 3004" "length (funs script_3004) = 392"
  by (simp_all add: script_3004_def gen_script_def gen_fns_3004_0 gen_fns_3004_1 gen_fns_3004_2)

end
