(* ===== verification/Js_Scripts_B.thy ===== *)
theory Js_Scripts_B
  imports Js_Function
begin

text \<open>
  The declarations of \<open>src/sample-assets-small/script-0005.js\<close> to \<open>script-0009.js\<close>, in the order
  of the files: \<open>Lin c k\<close> on line \<open>i + 2\<close> of a file stands for the body \<open>return x * 0.c + k;\<close> of its function
  number \<open>i\<close>, with the six decimals \<open>c\<close> read as a natural number.
\<close>

section \<open>script-0005.js\<close>

text \<open>Functions 0 to 148.\<close>

definition fns_3005_0 :: "js_fun list" where
  "fns_3005_0 = [
     Lin 728714 1, Lin 334650 (- 45), Lin 77825 86, Lin 26105 37, Lin 351472 (- 87),
     Lin 897826 15, Lin 238610 35, Lin 630240 40, Lin 43204 6, Lin 444558 16,
     Lin 193305 64, Lin 402495 (- 18), Lin 261594 92, Lin 671052 (- 80), Lin 281759 70,
     Lin 438071 36, Lin 469082 (- 74), Lin 563995 (- 23), Lin 311215 62, Lin 275896 56,
     Lin 474451 46, Lin 227706 85, Lin 709415 (- 55), Lin 158471 86, Lin 867189 (- 22),
     Lin 453548 (- 2), Lin 876194 (- 45), Lin 999535 90, Lin 335072 (- 42), Lin 826760 (- 7),
     Lin 179979 60, Lin 311593 68, Lin 623691 (- 83), Lin 74994 4, Lin 449161 88,
     Lin 462322 55, Lin 712279 24, Lin 902141 12, Lin 344270 (- 44), Lin 273629 81,
     Lin 103540 (- 47), Lin 932038 (- 61), Lin 405006 (- 69), Lin 237983 95, Lin 474214 (- 46),
     Lin 436347 4, Lin 326889 (- 18), Lin 912167 5, Lin 264499 (- 33), Lin 92534 (- 3),
     Lin 172054 91, Lin 899325 (- 25), Lin 802971 (- 88), Lin 287175 61, Lin 499678 (- 41),
     Lin 139113 93, Lin 482252 58, Lin 729809 73, Lin 651455 (- 37), Lin 601653 38,
     Lin 238229 (- 41), Lin 70415 62, Lin 902829 (- 27), Lin 249685 58, Lin 905839 14,
     Lin 209510 (- 25), Lin 632227 (- 76), Lin 595264 (- 88), Lin 135797 17, Lin 972843 (- 50),
     Lin 236799 (- 62), Lin 193228 (- 46), Lin 430736 (- 61), Lin 222591 (- 36), Lin 726925 32,
     Lin 193382 (- 66), Lin 259395 72, Lin 744523 (- 32), Lin 360952 66, Lin 491842 (- 54),
     Lin 512914 (- 26), Lin 74280 (- 11), Lin 473728 (- 28), Lin 82050 79, Lin 641172 (- 17),
     Lin 360558 60, Lin 320857 68, Lin 545217 88, Lin 984997 65, Lin 581777 (- 95),
     Lin 454727 59, Lin 733195 73, Lin 419960 (- 40), Lin 528721 (- 62), Lin 41116 (- 91),
     Lin 673042 (- 98), Lin 576754 85, Lin 213205 73, Lin 275033 45, Lin 157847 (- 92),
     Lin 190736 (- 96), Lin 415788 (- 51), Lin 479645 (- 22), Lin 157770 55, Lin 553167 (- 85),
     Lin 575888 6, Lin 238404 43, Lin 755628 33, Lin 366712 1, Lin 929147 58,
     Lin 861870 49, Lin 647632 (- 81), Lin 928529 0, Lin 952730 52, Lin 33409 (- 72),
     Lin 413884 81, Lin 749432 (- 23), Lin 232371 26, Lin 651445 32, Lin 732461 86,
     Lin 600976 1, Lin 54263 76, Lin 941084 30, Lin 11299 (- 37), Lin 982781 60,
     Lin 490531 (- 16), Lin 963961 (- 34), Lin 669969 68, Lin 789308 1, Lin 479236 (- 23),
     Lin 33149 53, Lin 466755 25, Lin 750419 (- 1), Lin 458858 88, Lin 838516 25,
     Lin 298266 34, Lin 232882 60, Lin 843355 50, Lin 449561 (- 64), Lin 643946 98,
     Lin 547348 73, Lin 28123 (- 12), Lin 526748 (- 23), Lin 632011 0, Lin 336443 (- 92),
     Lin 33569 (- 28), Lin 714445 (- 55), Lin 566062 15, Lin 61270 41]"

text \<open>Functions 149 to 297.\<close>

definition fns_3005_1 :: "js_fun list" where
  "fns_3005_1 = [
     Lin 707604 16, Lin 960698 74, Lin 305959 98, Lin 650156 (- 13), Lin 605685 (- 92),
     Lin 345309 (- 11), Lin 700756 38, Lin 555815 (- 10), Lin 506451 (- 90), Lin 492211 97,
     Lin 599351 61, Lin 680339 (- 58), Lin 25247 (- 17), Lin 172086 66, Lin 288057 (- 37),
     Lin 916656 59, Lin 506474 (- 11), Lin 407626 52, Lin 516505 (- 5), Lin 73309 (- 63),
     Lin 934410 (- 12), Lin 874277 (- 76), Lin 797639 (- 64), Lin 190024 32, Lin 892955 11,
     Lin 836694 98, Lin 204933 98, Lin 512040 58, Lin 639932 88, Lin 496567 43,
     Lin 280300 88, Lin 452552 (- 85), Lin 452394 90, Lin 291900 (- 69), Lin 249640 34,
     Lin 81722 38, Lin 60798 (- 93), Lin 374494 (- 50), Lin 29225 33, Lin 754877 88,
     Lin 954171 4, Lin 752212 87, Lin 949837 10, Lin 870189 91, Lin 963888 17,
     Lin 16741 (- 77), Lin 639189 90, Lin 856040 33, Lin 390582 80, Lin 674404 (- 28),
     Lin 394477 (- 12), Lin 660569 49, Lin 816343 (- 13), Lin 491204 97, Lin 897671 (- 7),
     Lin 604475 (- 14), Lin 330738 (- 84), Lin 142278 100, Lin 469349 99, Lin 702866 (- 81),
     Lin 581830 (- 59), Lin 416040 (- 75), Lin 866000 (- 75), Lin 756236 (- 1), Lin 108071 (- 71),
     Lin 189406 (- 69), Lin 246585 (- 53), Lin 329523 58, Lin 658541 66, Lin 49880 (- 91),
     Lin 605331 76, Lin 158969 (- 81), Lin 644329 15, Lin 481909 (- 75), Lin 930386 (- 75),
     Lin 153672 (- 6), Lin 142097 7, Lin 701757 (- 47), Lin 442786 15, Lin 485980 66,
     Lin 321696 7, Lin 517916 8, Lin 824496 79, Lin 551884 (- 79), Lin 661125 27,
     Lin 29535 (- 98), Lin 17517 19, Lin 257181 52, Lin 330434 (- 23), Lin 693129 82,
     Lin 153068 (- 41), Lin 968127 5, Lin 750021 (- 92), Lin 89819 (- 88), Lin 620179 (- 30),
     Lin 588765 (- 100), Lin 64293 97, Lin 797225 (- 13), Lin 938777 40, Lin 634341 (- 75),
     Lin 967055 (- 16), Lin 970584 (- 26), Lin 572393 81, Lin 529370 (- 69), Lin 598614 (- 95),
     Lin 936850 (- 24), Lin 461928 55, Lin 217217 69, Lin 210461 10, Lin 622677 (- 65),
     Lin 364104 (- 47), Lin 205499 (- 88), Lin 244259 (- 4), Lin 731667 (- 70), Lin 969192 (- 97),
     Lin 986378 89, Lin 294676 30, Lin 788410 5, Lin 833862 (- 34), Lin 217235 58,
     Lin 376597 53, Lin 7837 64, Lin 975996 57, Lin 214222 14, Lin 403894 54,
     Lin 787302 (- 72), Lin 72253 68, Lin 376172 16, Lin 138650 (- 68), Lin 300269 70,
     Lin 140100 46, Lin 333883 44, Lin 328528 53, Lin 413965 (- 51), Lin 208152 (- 9),
     Lin 940098 (- 3), Lin 910873 84, Lin 288841 (- 18), Lin 280354 (- 80), Lin 917616 56,
     Lin 312422 86, Lin 70072 29, Lin 492320 (- 4), Lin 489460 7, Lin 634755 76,
     Lin 353953 13, Lin 11919 66, Lin 226673 73, Lin 381801 97]"

definition script_3005 :: js_script where
  "script_3005 = \<lparr>seed = 3005, funs = fns_3005_0 @ fns_3005_1\<rparr>"

section \<open>script-0006.js\<close>

text \<open>Functions 0 to 148.\<close>

definition fns_3006_0 :: "js_fun list" where
  "fns_3006_0 = [
     Lin 708649 80, Lin 933356 32, Lin 941650 44, Lin 289867 (- 17), Lin 783468 (- 43),
     Lin 774195 82, Lin 568834 (- 12), Lin 469200 (- 75), Lin 325532 (- 23), Lin 609728 (- 7),
     Lin 61199 1, Lin 279525 63, Lin 616289 94, Lin 780742 (- 15), Lin 826406 (- 67),
     Lin 798105 (- 6), Lin 129702 (- 88), Lin 977130 14, Lin 881298 (- 11), Lin 518628 12,
     Lin 119528 (- 39), Lin 690706 (- 99), Lin 606833 20, Lin 258345 2, Lin 257780 33,
     Lin 958065 (- 27), Lin 478110 91, Lin 832026 (- 58), Lin 77029 (- 24), Lin 717719 (- 53),
     Lin 70492 (- 56), Lin 582422 (- 91), Lin 340105 4, Lin 790301 90, Lin 770685 42,
     Lin 563579 (- 70), Lin 184085 0, Lin 652333 33, Lin 926745 41, Lin 604145 48,
     Lin 421406 63, Lin 693601 (- 61), Lin 817862 51, Lin 427581 38, Lin 5322 (- 42),
     Lin 543808 (- 70), Lin 312485 (- 90), Lin 516064 28, Lin 654961 (- 20), Lin 647794 46,
     Lin 876574 37, Lin 595629 38, Lin 510886 6, Lin 333907 43, Lin 20173 (- 81),
     Lin 453712 (- 46), Lin 468485 (- 91), Lin 729841 (- 56), Lin 547710 (- 48), Lin 98070 57,
     Lin 674734 (- 33), Lin 843624 46, Lin 629725 94, Lin 771528 (- 21), Lin 608178 35,
     Lin 465282 0, Lin 688482 64, Lin 814867 35, Lin 599616 90, Lin 487141 37,
     Lin 655798 (- 56), Lin 64479 56, Lin 808066 (- 17), Lin 134959 84, Lin 324961 50,
     Lin 669368 (- 29), Lin 52338 34, Lin 728470 21, Lin 27332 (- 43), Lin 845174 77,
     Lin 510402 8, Lin 982831 (- 58), Lin 259402 25, Lin 272474 31, Lin 186976 (- 79),
     Lin 902300 (- 92), Lin 957987 (- 14), Lin 206289 88, Lin 567469 (- 70), Lin 793447 (- 43),
     Lin 54739 7, Lin 818835 (- 45), Lin 702770 73, Lin 79896 (- 30), Lin 910049 (- 71),
     Lin 575215 41, Lin 232858 (- 13), Lin 403620 (- 76), Lin 110624 59, Lin 971820 6,
     Lin 862042 74, Lin 539317 92, Lin 720984 (- 71), Lin 768610 65, Lin 79308 (- 80),
     Lin 751782 (- 66), Lin 224090 (- 29), Lin 296934 (- 38), Lin 720536 0, Lin 464650 38,
     Lin 875016 (- 48), Lin 140286 (- 42), Lin 920948 (- 91), Lin 73295 (- 81), Lin 926699 95,
     Lin 766509 (- 66), Lin 96701 99, Lin 213683 (- 25), Lin 356310 (- 83), Lin 183569 (- 83),
     Lin 327398 56, Lin 125043 (- 42), Lin 686476 20, Lin 569540 (- 84), Lin 725527 (- 72),
     Lin 876350 99, Lin 756296 (- 46), Lin 727806 6, Lin 276962 79, Lin 958536 (- 39),
     Lin 865910 58, Lin 677891 2, Lin 755021 (- 23), Lin 996684 (- 85), Lin 856489 (- 21),
     Lin 521596 40, Lin 526884 (- 63), Lin 493364 19, Lin 766444 31, Lin 202858 31,
     Lin 512008 (- 84), Lin 394424 69, Lin 18629 85, Lin 706117 77, Lin 661459 (- 70),
     Lin 629383 90, Lin 642416 (- 72), Lin 775662 57, Lin 233002 (- 12)]"

text \<open>Functions 149 to 158.\<close>

definition fns_3006_1 :: "js_fun list" where
  "fns_3006_1 = [
     Lin 802519 (- 20), Lin 69033 (- 95), Lin 403580 78, Lin 29948 69, Lin 62868 (- 8),
     Lin 207244 (- 25), Lin 33674 (- 35), Lin 138434 (- 5), Lin 37816 (- 6), Lin 60202 (- 23)]"

definition script_3006 :: js_script where
  "script_3006 = \<lparr>seed = 3006, funs = fns_3006_0 @ fns_3006_1\<rparr>"

section \<open>script-0007.js\<close>

text \<open>Functions 0 to 148.\<close>

definition fns_3007_0 :: "js_fun list" where
  "fns_3007_0 = [
     Lin 668498 (- 4), Lin 515396 24, Lin 434866 (- 77), Lin 362274 19, Lin 304455 94,
     Lin 319895 (- 93), Lin 195033 84, Lin 359702 19, Lin 142105 7, Lin 733294 100,
     Lin 620975 (- 87), Lin 784986 81, Lin 851758 37, Lin 137200 16, Lin 69046 (- 72),
     Lin 536114 77, Lin 27295 29, Lin 597847 93, Lin 136989 (- 84), Lin 518321 (- 84),
     Lin 935784 (- 59), Lin 737563 (- 6), Lin 827722 (- 39), Lin 45914 (- 20), Lin 401860 (- 34),
     Lin 325393 (- 52), Lin 92339 45, Lin 216383 (- 16), Lin 423677 (- 69), Lin 673255 (- 4),
     Lin 714402 25, Lin 44519 29, Lin 165999 78, Lin 200863 (- 42), Lin 598088 68,
     Lin 430507 100, Lin 929308 (- 47), Lin 814921 (- 55), Lin 34064 (- 32), Lin 419012 (- 6),
     Lin 858202 (- 31), Lin 495733 87, Lin 690090 (- 68), Lin 503191 54, Lin 697959 18,
     Lin 319636 22, Lin 308668 (- 26), Lin 758197 (- 31), Lin 594719 (- 73), Lin 107309 (- 28),
     Lin 245213 (- 18), Lin 766283 30, Lin 305785 (- 12), Lin 33082 80, Lin 361742 (- 99),
     Lin 705997 (- 45), Lin 780550 (- 100), Lin 952471 (- 34), Lin 413463 50, Lin 698596 84,
     Lin 76750 (- 37), Lin 902786 4, Lin 149271 (- 77), Lin 460680 32, Lin 378640 (- 32),
     Lin 125683 86, Lin 864776 (- 92), Lin 204788 17, Lin 954143 100, Lin 736260 44,
     Lin 601243 (- 47), Lin 543456 18, Lin 632181 4, Lin 895305 (- 22), Lin 665794 65,
     Lin 339820 (- 7), Lin 502394 34, Lin 720326 (- 6), Lin 807470 14, Lin 811623 18,
     Lin 13659 66, Lin 558989 (- 86), Lin 685482 (- 22), Lin 147435 (- 3), Lin 51803 (- 16),
     Lin 635615 (- 38), Lin 267919 (- 33), Lin 802656 (- 32), Lin 929005 80, Lin 887262 0,
     Lin 769145 (- 67), Lin 122216 91, Lin 717714 (- 49), Lin 350207 (- 6), Lin 830074 23,
     Lin 8483 (- 77), Lin 746215 (- 13), Lin 68975 13, Lin 762840 (- 25), Lin 821050 81,
     Lin 654426 67, Lin 277163 (- 80), Lin 555413 (- 84), Lin 97272 36, Lin 269049 94,
     Lin 555326 (- 97), Lin 395473 73, Lin 675150 (- 21), Lin 617172 (- 59), Lin 842784 (- 41),
     Lin 660760 26, Lin 960443 (- 50), Lin 120149 (- 58), Lin 770757 93, Lin 602692 31,
     Lin 860103 31, Lin 848193 77, Lin 734762 70, Lin 829798 5, Lin 921394 48,
     Lin 78123 (- 17), Lin 158160 54, Lin 915306 (- 97), Lin 26191 (- 20), Lin 669952 64,
     Lin 428479 (- 37), Lin 857458 15, Lin 789640 11, Lin 59259 (- 68), Lin 837952 69,
     Lin 91979 (- 20), Lin 562001 54, Lin 148040 (- 44), Lin 965617 (- 88), Lin 480050 46,
     Lin 95780 (- 70), Lin 894454 28, Lin 13992 90, Lin 300351 33, Lin 83070 (- 32),
     Lin 832167 (- 63), Lin 696168 (- 22), Lin 701585 (- 3), Lin 646813 18, Lin 178445 17,
     Lin 190024 49, Lin 448373 (- 74), Lin 192197 (- 36), Lin 847136 (- 99)]"

text \<open>Functions 149 to 297.\<close>

definition fns_3007_1 :: "js_fun list" where
  "fns_3007_1 = [
     Lin 451547 10, Lin 483527 (- 15), Lin 655234 58, Lin 881274 (- 58), Lin 23389 (- 6),
     Lin 861452 83, Lin 361312 (- 33), Lin 907170 22, Lin 392300 96, Lin 392391 (- 11),
     Lin 301510 (- 26), Lin 802759 45, Lin 717353 (- 50), Lin 673486 (- 78), Lin 689952 50,
     Lin 290408 (- 91), Lin 605102 (- 56), Lin 320685 (- 30), Lin 920357 53, Lin 369180 11,
     Lin 172562 51, Lin 418917 (- 68), Lin 323452 2, Lin 457477 66, Lin 865235 (- 27),
     Lin 933738 (- 53), Lin 208864 (- 19), Lin 866003 (- 27), Lin 7714 92, Lin 275795 91,
     Lin 950627 56, Lin 129254 49, Lin 893218 (- 23), Lin 310807 (- 69), Lin 119796 (- 47),
     Lin 120721 (- 61), Lin 828888 (- 64), Lin 290639 (- 31), Lin 251691 (- 78), Lin 984887 77,
     Lin 837245 0, Lin 624783 55, Lin 422279 14, Lin 926346 (- 11), Lin 25983 (- 57),
     Lin 202924 (- 75), Lin 559986 (- 25), Lin 182440 4, Lin 747137 34, Lin 261186 81,
     Lin 644414 73, Lin 296665 12, Lin 414014 (- 59), Lin 615718 (- 82), Lin 400487 (- 31),
     Lin 821706 21, Lin 906027 (- 52), Lin 839530 18, Lin 780859 41, Lin 296633 (- 26),
     Lin 60589 22, Lin 187468 (- 93), Lin 387037 (- 39), Lin 276874 (- 57), Lin 311044 25,
     Lin 147552 3, Lin 902511 (- 64), Lin 400534 88, Lin 172925 8, Lin 70865 3,
     Lin 926287 34, Lin 593215 64, Lin 227551 22, Lin 378754 (- 93), Lin 288290 80,
     Lin 67210 91, Lin 852930 (- 75), Lin 464360 (- 61), Lin 572149 59, Lin 173325 (- 68),
     Lin 229104 (- 46), Lin 447503 22, Lin 480472 (- 35), Lin 994128 (- 64), Lin 368642 (- 94),
     Lin 197842 (- 4), Lin 303125 (- 65), Lin 117452 55, Lin 935302 (- 50), Lin 198259 (- 17),
     Lin 273839 68, Lin 371100 97, Lin 963104 34, Lin 639442 7, Lin 276118 74,
     Lin 379019 (- 50), Lin 413728 90, Lin 945845 (- 99), Lin 32826 68, Lin 716120 (- 81),
     Lin 687061 (- 46), Lin 675369 95, Lin 195716 (- 6), Lin 787806 20, Lin 631794 (- 76),
     Lin 940148 (- 80), Lin 28537 (- 46), Lin 815373 16, Lin 651709 56, Lin 6867 (- 95),
     Lin 816615 (- 65), Lin 598080 (- 62), Lin 782650 77, Lin 929574 (- 39), Lin 269733 (- 10),
     Lin 225456 14, Lin 37778 86, Lin 260253 42, Lin 230470 (- 30), Lin 746250 69,
     Lin 738281 (- 64), Lin 23712 49, Lin 858145 (- 78), Lin 410137 (- 8), Lin 998971 (- 75),
     Lin 472075 (- 28), Lin 9767 (- 56), Lin 761165 (- 22), Lin 42328 (- 81), Lin 175480 83,
     Lin 410253 (- 89), Lin 523300 (- 91), Lin 109482 50, Lin 616852 45, Lin 52769 (- 36),
     Lin 845597 (- 86), Lin 483254 44, Lin 474985 (- 87), Lin 650160 (- 86), Lin 335316 82,
     Lin 338085 87, Lin 750936 22, Lin 149724 7, Lin 968265 (- 99), Lin 45371 55,
     Lin 319074 22, Lin 846816 (- 75), Lin 610274 (- 54), Lin 125934 35]"

text \<open>Functions 298 to 325.\<close>

definition fns_3007_2 :: "js_fun list" where
  "fns_3007_2 = [
     Lin 871728 56, Lin 11964 19, Lin 122665 (- 92), Lin 358285 (- 88), Lin 650670 70,
     Lin 59712 (- 8), Lin 855290 (- 20), Lin 639739 (- 43), Lin 816610 (- 47), Lin 473511 (- 63),
     Lin 648478 78, Lin 592952 31, Lin 110424 77, Lin 569268 (- 26), Lin 700726 83,
     Lin 6558 (- 90), Lin 107460 (- 25), Lin 177878 (- 54), Lin 707581 (- 91), Lin 75835 (- 93),
     Lin 206520 (- 81), Lin 68436 (- 62), Lin 168648 84, Lin 99512 42, Lin 708283 18,
     Lin 217753 59, Lin 382355 (- 72), Lin 65953 38]"

definition script_3007 :: js_script where
  "script_3007 = \<lparr>seed = 3007, funs = fns_3007_0 @ fns_3007_1 @ fns_3007_2\<rparr>"

section \<open>script-0008.js\<close>

text \<open>Functions 0 to 116.\<close>

definition fns_3008_0 :: "js_fun list" where
  "fns_3008_0 = [
     Lin 261917 (- 94), Lin 159039 (- 79), Lin 70192 88, Lin 374962 (- 81), Lin 944311 (- 20),
     Lin 817115 55, Lin 159231 34, Lin 464403 (- 71), Lin 882336 (- 80), Lin 986188 82,
     Lin 562556 41, Lin 61050 94, Lin 956359 74, Lin 168368 33, Lin 610453 (- 15),
     Lin 915807 55, Lin 70182 82, Lin 936827 (- 68), Lin 318596 53, Lin 142387 18,
     Lin 202185 (- 19), Lin 345450 76, Lin 41317 81, Lin 854512 61, Lin 488044 (- 8),
     Lin 219198 (- 29), Lin 666066 25, Lin 133632 (- 19), Lin 782776 (- 41), Lin 785045 9,
     Lin 269039 13, Lin 219390 36, Lin 211868 (- 52), Lin 618460 (- 81), Lin 961950 18,
     Lin 644515 (- 58), Lin 269 (- 70), Lin 899851 (- 83), Lin 56887 (- 84), Lin 758381 (- 31),
     Lin 59210 (- 80), Lin 949180 9, Lin 817274 (- 3), Lin 315155 (- 99), Lin 631310 (- 50),
     Lin 761672 10, Lin 934367 68, Lin 154435 35, Lin 94417 (- 21), Lin 596866 (- 3),
     Lin 289877 4, Lin 382133 58, Lin 573418 (- 69), Lin 68466 (- 36), Lin 664508 54,
     Lin 158814 (- 22), Lin 954281 47, Lin 944545 (- 70), Lin 678952 (- 45), Lin 604532 69,
     Lin 298142 58, Lin 458541 (- 62), Lin 605443 49, Lin 15499 32, Lin 847030 59,
     Lin 584783 (- 60), Lin 566885 59, Lin 574790 (- 36), Lin 999323 46, Lin 781908 (- 44),
     Lin 16408 (- 76), Lin 957586 3, Lin 299191 (- 93), Lin 653070 16, Lin 447969 55,
     Lin 559437 18, Lin 858415 (- 96), Lin 594128 12, Lin 938534 (- 77), Lin 329307 42,
     Lin 491544 (- 88), Lin 122597 (- 58), Lin 193938 (- 11), Lin 505892 (- 38), Lin 912835 (- 32),
     Lin 737694 (- 87), Lin 76932 (- 95), Lin 214573 53, Lin 861074 (- 55), Lin 487164 36,
     Lin 573838 (- 47), Lin 497533 7, Lin 116168 36, Lin 307937 87, Lin 780278 15,
     Lin 216385 (- 55), Lin 551355 (- 15), Lin 532917 (- 19), Lin 753104 (- 52), Lin 61548 (- 59),
     Lin 317961 (- 35), Lin 389231 73, Lin 973807 58, Lin 420292 26, Lin 137704 (- 69),
     Lin 215591 (- 64), Lin 75401 (- 25), Lin 205539 (- 85), Lin 735251 99, Lin 586757 68,
     Lin 328893 (- 99), Lin 357152 (- 69), Lin 5558 (- 13), Lin 773767 27, Lin 928680 42,
     Lin 716224 27, Lin 367799 (- 85)]"

definition script_3008 :: js_script where
  "script_3008 = \<lparr>seed = 3008, funs = fns_3008_0\<rparr>"

section \<open>script-0009.js\<close>

text \<open>Functions 0 to 148.\<close>

definition fns_3009_0 :: "js_fun list" where
  "fns_3009_0 = [
     Lin 461624 (- 13), Lin 667403 (- 72), Lin 995978 95, Lin 285728 13, Lin 694738 (- 88),
     Lin 267648 (- 24), Lin 23464 (- 98), Lin 489164 (- 44), Lin 215013 60, Lin 9163 (- 47),
     Lin 715146 58, Lin 487298 5, Lin 47328 86, Lin 405457 38, Lin 405555 (- 50),
     Lin 192631 (- 20), Lin 760988 10, Lin 671501 (- 23), Lin 14944 83, Lin 485010 12,
     Lin 724832 47, Lin 333216 (- 8), Lin 904994 (- 22), Lin 887779 (- 76), Lin 501765 (- 100),
     Lin 430752 86, Lin 593567 5, Lin 958444 58, Lin 546045 (- 53), Lin 215035 69,
     Lin 856732 (- 15), Lin 436605 100, Lin 799215 38, Lin 245803 (- 38), Lin 748989 5,
     Lin 508601 (- 99), Lin 546848 (- 82), Lin 851785 90, Lin 165203 (- 22), Lin 705638 55,
     Lin 766611 81, Lin 656816 (- 3), Lin 570348 (- 30), Lin 457669 (- 76), Lin 765948 25,
     Lin 31424 (- 32), Lin 639637 80, Lin 414624 (- 98), Lin 210947 (- 19), Lin 707218 26,
     Lin 87441 (- 94), Lin 846197 44, Lin 133598 26, Lin 399613 (- 54), Lin 553450 (- 55),
     Lin 93981 (- 96), Lin 902665 (- 11), Lin 687311 81, Lin 213806 (- 3), Lin 804452 (- 2),
     Lin 229421 (- 16), Lin 523966 (- 89), Lin 316 80, Lin 999025 (- 84), Lin 431828 (- 32),
     Lin 417663 (- 34), Lin 96545 (- 75), Lin 898250 (- 65), Lin 874088 (- 95), Lin 764145 (- 10),
     Lin 418175 (- 27), Lin 522836 97, Lin 387429 2, Lin 40105 8, Lin 666959 (- 29),
     Lin 418364 (- 82), Lin 150674 2, Lin 524747 5, Lin 947059 41, Lin 453621 3,
     Lin 9560 14, Lin 299887 3, Lin 807045 (- 94), Lin 840903 17, Lin 568709 15,
     Lin 909415 (- 13), Lin 600513 (- 67), Lin 854668 (- 10), Lin 68943 11, Lin 535251 76,
     Lin 479294 (- 92), Lin 544566 24, Lin 582153 (- 50), Lin 968112 (- 46), Lin 189066 (- 79),
     Lin 522626 (- 11), Lin 403909 35, Lin 137067 61, Lin 850686 (- 90), Lin 194884 76,
     Lin 142695 40, Lin 436093 22, Lin 599364 70, Lin 869020 28, Lin 980772 (- 63),
     Lin 548379 14, Lin 234565 (- 2), Lin 287641 (- 72), Lin 769886 (- 62), Lin 853094 (- 87),
     Lin 164173 50, Lin 453503 97, Lin 610319 54, Lin 287050 (- 12), Lin 829422 11,
     Lin 413513 78, Lin 573647 (- 59), Lin 405879 (- 87), Lin 692727 53, Lin 583048 90,
     Lin 594136 (- 83), Lin 727019 (- 41), Lin 273687 36, Lin 705924 (- 83), Lin 35183 52,
     Lin 115343 (- 65), Lin 988353 (- 73), Lin 892914 18, Lin 214571 (- 95), Lin 928890 100,
     Lin 72464 38, Lin 496093 92, Lin 78267 96, Lin 898396 (- 84), Lin 225490 (- 49),
     Lin 408686 (- 87), Lin 66963 (- 53), Lin 216675 11, Lin 745553 (- 77), Lin 366633 75,
     Lin 180245 83, Lin 842778 13, Lin 832813 (- 24), Lin 283740 52, Lin 954886 (- 45),
     Lin 850976 14, Lin 20000 (- 69), Lin 616793 56, Lin 437497 50]"

text \<open>Functions 149 to 297.\<close>

definition fns_3009_1 :: "js_fun list" where
  "fns_3009_1 = [
     Lin 682919 (- 72), Lin 811092 16, Lin 524045 50, Lin 28575 (- 97), Lin 611451 (- 79),
     Lin 904944 63, Lin 717305 (- 22), Lin 143709 47, Lin 74864 41, Lin 567863 (- 62),
     Lin 291584 91, Lin 275586 (- 73), Lin 209615 (- 80), Lin 717869 (- 71), Lin 882085 (- 65),
     Lin 344687 4, Lin 239389 13, Lin 837860 (- 70), Lin 698706 12, Lin 678548 (- 62),
     Lin 508950 (- 88), Lin 545140 (- 81), Lin 829212 67, Lin 125760 31, Lin 614386 25,
     Lin 395192 80, Lin 490059 (- 74), Lin 689148 (- 37), Lin 586629 8, Lin 459317 (- 2),
     Lin 651780 9, Lin 123829 (- 92), Lin 21234 (- 94), Lin 660614 11, Lin 649027 42,
     Lin 555920 95, Lin 41057 (- 31), Lin 20631 51, Lin 411221 (- 64), Lin 504269 (- 95),
     Lin 115446 15, Lin 336265 2, Lin 654835 4, Lin 386811 25, Lin 958237 (- 93),
     Lin 68193 (- 99), Lin 851667 33, Lin 297695 (- 26), Lin 344367 (- 8), Lin 170631 90,
     Lin 18256 99, Lin 855334 (- 26), Lin 882608 (- 44), Lin 679329 99, Lin 368562 (- 90),
     Lin 14362 (- 67), Lin 47300 69, Lin 925116 77, Lin 231419 14, Lin 557654 (- 40),
     Lin 472175 53, Lin 123148 82, Lin 238182 (- 2), Lin 232088 (- 59), Lin 958071 (- 52),
     Lin 374647 98, Lin 241404 (- 28), Lin 657975 81, Lin 800579 (- 96), Lin 467095 (- 40),
     Lin 996098 15, Lin 120529 (- 1), Lin 953570 (- 13), Lin 892516 (- 26), Lin 679495 99,
     Lin 837349 (- 19), Lin 210775 9, Lin 454879 0, Lin 195671 53, Lin 372086 (- 31),
     Lin 997669 40, Lin 580705 (- 81), Lin 511759 3, Lin 174992 (- 2), Lin 920873 48,
     Lin 403137 (- 78), Lin 486048 94, Lin 486257 31, Lin 341822 (- 28), Lin 789455 87,
     Lin 650242 (- 10), Lin 397985 (- 25), Lin 767497 75, Lin 880336 67, Lin 649976 (- 91),
     Lin 357787 (- 44), Lin 625966 70, Lin 500680 (- 60), Lin 467672 74, Lin 825247 (- 30),
     Lin 495341 51, Lin 297613 13, Lin 466840 (- 88), Lin 401371 (- 77), Lin 331462 (- 12),
     Lin 891857 (- 4), Lin 495051 (- 95), Lin 384429 (- 4), Lin 659370 (- 63), Lin 303694 (- 49),
     Lin 418815 4, Lin 123807 (- 17), Lin 911396 58, Lin 28055 45, Lin 719605 (- 52),
     Lin 258374 57, Lin 197887 20, Lin 905045 24, Lin 421762 21, Lin 470927 53,
     Lin 801521 80, Lin 799912 73, Lin 515036 (- 35), Lin 646659 3, Lin 878997 (- 46),
     Lin 620503 47, Lin 633927 (- 73), Lin 360061 75, Lin 321988 39, Lin 836681 (- 96),
     Lin 673548 65, Lin 54549 (- 10), Lin 409365 (- 39), Lin 888306 49, Lin 771754 (- 82),
     Lin 186666 18, Lin 98231 (- 59), Lin 724791 28, Lin 60603 61, Lin 385590 23,
     Lin 338532 13, Lin 776675 (- 79), Lin 33878 31, Lin 635921 (- 71), Lin 654373 (- 51),
     Lin 240936 15, Lin 747955 (- 100), Lin 480003 70, Lin 694490 29]"

text \<open>Functions 298 to 419.\<close>

definition fns_3009_2 :: "js_fun list" where
  "fns_3009_2 = [
     Lin 417360 5, Lin 631354 (- 17), Lin 296538 (- 79), Lin 150875 44, Lin 182483 50,
     Lin 601170 (- 39), Lin 116285 (- 53), Lin 30412 81, Lin 203350 83, Lin 642379 (- 47),
     Lin 839264 (- 1), Lin 636511 37, Lin 82757 (- 59), Lin 281197 74, Lin 759670 40,
     Lin 709739 29, Lin 826459 (- 49), Lin 122565 (- 49), Lin 370247 78, Lin 409005 (- 68),
     Lin 650165 (- 81), Lin 296562 83, Lin 609790 (- 17), Lin 302685 (- 4), Lin 615242 27,
     Lin 242914 (- 67), Lin 282440 93, Lin 898977 (- 34), Lin 509515 (- 49), Lin 255463 (- 85),
     Lin 12366 18, Lin 29674 1, Lin 136031 61, Lin 991121 (- 37), Lin 954875 4,
     Lin 292560 (- 87), Lin 895992 (- 100), Lin 224216 92, Lin 906463 (- 29), Lin 124242 (- 98),
     Lin 783067 16, Lin 488749 (- 36), Lin 358177 63, Lin 120913 (- 2), Lin 795095 6,
     Lin 719367 17, Lin 572378 13, Lin 639361 51, Lin 9346 96, Lin 326552 87,
     Lin 927971 16, Lin 709861 60, Lin 637626 92, Lin 833384 5, Lin 250183 99,
     Lin 501331 (- 29), Lin 230499 88, Lin 870036 (- 8), Lin 122425 73, Lin 272355 (- 8),
     Lin 64750 (- 37), Lin 158869 38, Lin 924643 (- 61), Lin 20791 (- 30), Lin 101063 89,
     Lin 795108 36, Lin 546305 (- 27), Lin 553011 (- 23), Lin 821208 48, Lin 598210 67,
     Lin 136170 77, Lin 647132 (- 74), Lin 513353 30, Lin 924014 (- 3), Lin 998315 (- 25),
     Lin 822263 (- 49), Lin 354345 (- 74), Lin 33277 29, Lin 836644 20, Lin 607772 (- 66),
     Lin 34464 (- 95), Lin 54370 36, Lin 5505 74, Lin 398677 (- 51), Lin 68869 36,
     Lin 356372 71, Lin 472420 (- 5), Lin 51226 (- 22), Lin 276158 10, Lin 408782 (- 26),
     Lin 59486 (- 21), Lin 227580 18, Lin 700110 (- 4), Lin 930507 9, Lin 567220 (- 35),
     Lin 226572 (- 12), Lin 194090 (- 35), Lin 989197 65, Lin 812579 (- 56), Lin 247602 (- 5),
     Lin 341737 90, Lin 653497 (- 77), Lin 902349 31, Lin 280342 2, Lin 979592 75,
     Lin 721409 (- 23), Lin 238637 (- 51), Lin 981500 (- 88), Lin 600724 43, Lin 740557 (- 58),
     Lin 227766 (- 52), Lin 591830 11, Lin 747645 72, Lin 374301 (- 88), Lin 50740 (- 55),
     Lin 14301 87, Lin 239789 5, Lin 142715 0, Lin 735251 (- 95), Lin 793498 1,
     Lin 86698 (- 38), Lin 550575 (- 20)]"

definition script_3009 :: js_script where
  "script_3009 = \<lparr>seed = 3009, funs = fns_3009_0 @ fns_3009_1 @ fns_3009_2\<rparr>"

section \<open>The tables respect the ranges of the generator\<close>

lemma gen_fns_3005_0 [table_checks]: "list_all gen_fun fns_3005_0" "length fns_3005_0 = 149"
  by (simp_all add: fns_3005_0_def gen_fun_def)

lemma gen_fns_3005_1 [table_checks]: "list_all gen_fun fns_3005_1" "length fns_3005_1 = 149"
  by (simp_all add: fns_3005_1_def gen_fun_def)

lemma gen_script_3005 [table_checks]: "gen_script script_3005" "seed script_3005 = 3005" "length (funs script_3005) = 298"
  by (simp_all add: script_3005_def gen_script_def gen_fns_3005_0 gen_fns_3005_1)

lemma gen_fns_3006_0 [table_checks]: "list_all gen_fun fns_3006_0" "length fns_3006_0 = 149"
  by (simp_all add: fns_3006_0_def gen_fun_def)

lemma gen_fns_3006_1 [table_checks]: "list_all gen_fun fns_3006_1" "length fns_3006_1 = 10"
  by (simp_all add: fns_3006_1_def gen_fun_def)

lemma gen_script_3006 [table_checks]: "gen_script script_3006" "seed script_3006 = 3006" "length (funs script_3006) = 159"
  by (simp_all add: script_3006_def gen_script_def gen_fns_3006_0 gen_fns_3006_1)

lemma gen_fns_3007_0 [table_checks]: "list_all gen_fun fns_3007_0" "length fns_3007_0 = 149"
  by (simp_all add: fns_3007_0_def gen_fun_def)

lemma gen_fns_3007_1 [table_checks]: "list_all gen_fun fns_3007_1" "length fns_3007_1 = 149"
  by (simp_all add: fns_3007_1_def gen_fun_def)

lemma gen_fns_3007_2 [table_checks]: "list_all gen_fun fns_3007_2" "length fns_3007_2 = 28"
  by (simp_all add: fns_3007_2_def gen_fun_def)

lemma gen_script_3007 [table_checks]: "gen_script script_3007" "seed script_3007 = 3007" "length (funs script_3007) = 326"
  by (simp_all add: script_3007_def gen_script_def gen_fns_3007_0 gen_fns_3007_1 gen_fns_3007_2)

lemma gen_fns_3008_0 [table_checks]: "list_all gen_fun fns_3008_0" "length fns_3008_0 = 117"
  by (simp_all add: fns_3008_0_def gen_fun_def)

lemma gen_script_3008 [table_checks]: "gen_script script_3008" "seed script_3008 = 3008" "length (funs script_3008) = 117"
  by (simp_all add: script_3008_def gen_script_def gen_fns_3008_0)

lemma gen_fns_3009_0 [table_checks]: "list_all gen_fun fns_3009_0" "length fns_3009_0 = 149"
  by (simp_all add: fns_3009_0_def gen_fun_def)

lemma gen_fns_3009_1 [table_checks]: "list_all gen_fun fns_3009_1" "length fns_3009_1 = 149"
  by (simp_all add: fns_3009_1_def gen_fun_def)

lemma gen_fns_3009_2 [table_checks]: "list_all gen_fun fns_3009_2" "length fns_3009_2 = 122"
  by (simp_all add: fns_3009_2_def gen_fun_def)

lemma gen_script_3009 [table_checks]: "gen_script script_3009" "seed script_3009 = 3009" "length (funs script_3009) = 420"
  by (simp_all add: script_3009_def gen_script_def gen_fns_3009_0 gen_fns_3009_1 gen_fns_3009_2)

end
