(* ===== verification/Js_Scripts_C.thy ===== *)
theory Js_Scripts_C
  imports Js_Function
begin

text \<open>
  The declarations of \<open>src/sample-assets-small/script-0010.js\<close> to \<open>script-0014.js\<close>, in the order
  of the files: \<open>Lin c k\<close> on line \<open>i + 2\<close> of a file stands for the body \<open>return x * 0.c + k;\<close> of its function
  number \<open>i\<close>, with the six decimals \<open>c\<close> read as a natural number.
\<close>

section \<open>script-0010.js\<close>

text \<open>Functions 0 to 148.\<close>

definition fns_3010_0 :: "js_fun list" where
  "fns_3010_0 = [
     Lin 646525 42, Lin 361036 84, Lin 373859 35, Lin 567221 (- 64), Lin 436354 7,
     Lin 828111 0, Lin 675739 (- 55), Lin 835528 (- 42), Lin 75525 1, Lin 251835 55,
     Lin 548262 (- 60), Lin 142023 (- 93), Lin 44564 66, Lin 757682 (- 43), Lin 669645 (- 66),
     Lin 585677 (- 57), Lin 662254 11, Lin 592108 (- 71), Lin 310753 (- 49), Lin 117300 16,
     Lin 333957 85, Lin 70596 59, Lin 408715 12, Lin 470816 48, Lin 450905 41,
     Lin 237530 31, Lin 173711 74, Lin 481510 60, Lin 972346 81, Lin 258781 (- 77),
     Lin 306896 16, Lin 44552 19, Lin 569984 (- 40), Lin 291754 68, Lin 886458 (- 90),
     Lin 279803 38, Lin 263321 84, Lin 515988 9, Lin 813556 62, Lin 486030 (- 57),
     Lin 254124 85, Lin 360701 (- 57), Lin 917845 29, Lin 928426 47, Lin 843421 (- 87),
     Lin 822745 18, Lin 271138 45, Lin 909722 (- 19), Lin 227746 7, Lin 7542 (- 20),
     Lin 338068 (- 31), Lin 744215 (- 26), Lin 45575 (- 63), Lin 255153 1, Lin 97086 17,
     Lin 191634 (- 45), Lin 46404 (- 95), Lin 848345 (- 97), Lin 886227 (- 60), Lin 333704 66,
     Lin 790634 (- 55), Lin 575953 (- 85), Lin 418751 (- 51), Lin 840851 79, Lin 47956 (- 67),
     Lin 378059 76, Lin 526001 44, Lin 228399 (- 32), Lin 69564 (- 75), Lin 967629 (- 22),
     Lin 49655 88, Lin 405525 22, Lin 178717 53, Lin 484881 (- 95), Lin 579117 47,
     Lin 824615 (- 20), Lin 577992 65, Lin 663693 (- 88), Lin 271524 28, Lin 902458 42,
     Lin 416930 14, Lin 715739 27, Lin 666512 42, Lin 306714 (- 95), Lin 2181 (- 45),
     Lin 63767 98, Lin 116851 (- 44), Lin 145911 19, Lin 357868 55, Lin 548607 8,
     Lin 367717 (- 43), Lin 861357 (- 53), Lin 461203 97, Lin 872729 (- 87), Lin 120852 81,
     Lin 796524 (- 68), Lin 150737 (- 32), Lin 223997 (- 15), Lin 679257 (- 34), Lin 642765 (- 44),
     Lin 322375 (- 47), Lin 986493 (- 1), Lin 788202 19, Lin 283826 (- 8), Lin 403698 (- 88),
     Lin 986459 5, Lin 979975 (- 6), Lin 936308 25, Lin 80260 (- 20), Lin 628347 78,
     Lin 422720 (- 27), Lin 96255 (- 20), Lin 781128 32, Lin 213830 53, Lin 222281 83,
     Lin 138151 55, Lin 277990 66, Lin 919668 2, Lin 441047 93, Lin 118117 (- 9),
     Lin 846528 (- 18), Lin 124793 (- 86), Lin 116109 49, Lin 580745 (- 76), Lin 8903 27,
     Lin 971586 (- 45), Lin 225128 (- 24), Lin 387715 (- 11), Lin 221681 (- 35), Lin 153718 72,
     Lin 984154 (- 19), Lin 292738 22, Lin 9087 45, Lin 832591 (- 91), Lin 293617 82,
     Lin 919509 22, Lin 243382 80, Lin 935960 (- 24), Lin 617455 24, Lin 330450 36,
     Lin 810737 39, Lin 827345 28, Lin 346628 (- 25), Lin 41385 1, Lin 717448 (- 40),
     Lin 769894 9, Lin 137462 (- 27), Lin 618267 (- 74), Lin 838311 60]"

text \<open>Functions 149 to 297.\<close>

definition fns_3010_1 :: "js_fun list" where
  "fns_3010_1 = [
     Lin 806503 (- 87), Lin 190684 (- 29), Lin 503455 (- 22), Lin 123967 77, Lin 293566 (- 28),
     Lin 844455 29, Lin 172402 (- 48), Lin 815887 (- 44), Lin 801934 (- 75), Lin 669696 (- 90),
     Lin 1515 70, Lin 614247 13, Lin 831448 11, Lin 330777 (- 47), Lin 654261 (- 29),
     Lin 30372 79, Lin 256954 (- 93), Lin 791604 (- 62), Lin 745779 (- 31), Lin 4047 81,
     Lin 424558 16, Lin 684258 (- 13), Lin 896917 89, Lin 555181 (- 62), Lin 156974 (- 21),
     Lin 631187 (- 91), Lin 847246 56, Lin 800560 (- 86), Lin 673916 72, Lin 657271 54,
     Lin 411833 (- 92), Lin 175750 80, Lin 292849 (- 72), Lin 316211 (- 33), Lin 852580 46,
     Lin 545557 (- 1), Lin 458928 (- 48), Lin 698801 (- 59), Lin 772728 73, Lin 579154 (- 36),
     Lin 834377 71, Lin 304970 63, Lin 617583 79, Lin 245312 7, Lin 864933 (- 90),
     Lin 519262 18, Lin 489410 28, Lin 601757 (- 36), Lin 647270 (- 53), Lin 116408 (- 86),
     Lin 691550 66, Lin 887269 (- 99), Lin 18741 69, Lin 277551 11, Lin 254731 83,
     Lin 867178 8, Lin 923762 50, Lin 105462 62, Lin 170120 72, Lin 852973 38,
     Lin 403942 (- 58), Lin 282000 44, Lin 396688 (- 48), Lin 144511 0, Lin 334568 37,
     Lin 440386 71, Lin 746798 (- 57), Lin 239080 26, Lin 749832 55, Lin 888821 77,
     Lin 281214 60, Lin 617684 (- 45), Lin 471912 54, Lin 797887 0, Lin 367727 80,
     Lin 917621 96, Lin 345835 19, Lin 763878 (- 69), Lin 789014 (- 18), Lin 90514 6,
     Lin 765920 (- 65), Lin 679120 (- 5), Lin 908018 90, Lin 522104 3, Lin 830620 7,
     Lin 707545 (- 96), Lin 167831 (- 19), Lin 282920 (- 54), Lin 235887 34, Lin 882424 77,
     Lin 588867 9, Lin 651287 (- 89), Lin 619300 (- 73), Lin 204641 (- 16), Lin 973574 32,
     Lin 112657 34, Lin 580675 (- 62), Lin 45867 (- 20), Lin 565163 5, Lin 716640 42,
     Lin 701216 53, Lin 629041 58, Lin 893384 (- 71), Lin 731456 (- 72), Lin 513608 60,
     Lin 56400 (- 59), Lin 711262 (- 2), Lin 859412 (- 12), Lin 1774 89, Lin 275963 79,
     Lin 474929 77, Lin 501379 66, Lin 268519 (- 9), Lin 985617 90, Lin 192282 (- 81),
     Lin 720160 62, Lin 830770 53, Lin 420647 19, Lin 149811 (- 56), Lin 782056 38,
     Lin 114274 (- 59), Lin 188960 63, Lin 55341 96, Lin 729476 (- 8), Lin 762247 (- 71),
     Lin 566018 (- 47), Lin 431422 (- 78), Lin 415310 2, Lin 724603 30, Lin 323992 (- 26),
     Lin 507468 (- 29), Lin 192538 50, Lin 338602 50, Lin 525448 29, Lin 289664 (- 67),
     Lin 312331 59, Lin 467847 (- 65), Lin 934151 86, Lin 480182 (- 10), Lin 644816 73,
     Lin 772930 95, Lin 837112 14, Lin 974665 (- 42), Lin 639986 38, Lin 508956 42,
     Lin 413478 (- 25), Lin 836120 35, Lin 450258 (- 76), Lin 987020 (- 48)]"

text \<open>Functions 298 to 341.\<close>

definition fns_3010_2 :: "js_fun list" where
  "fns_3010_2 = [
     Lin 286467 97, Lin 752304 73, Lin 1376 (- 5), Lin 728776 (- 43), Lin 708547 (- 40),
     Lin 693035 52, Lin 971686 (- 93), Lin 403037 60, Lin 162155 46, Lin 401062 (- 33),
     Lin 392091 (- 27), Lin 17618 47, Lin 264805 37, Lin 375083 (- 59), Lin 419860 (- 24),
     Lin 561150 (- 62), Lin 464895 87, Lin 412075 (- 1), Lin 578048 50, Lin 798319 (- 80),
     Lin 935619 58, Lin 284840 (- 74), Lin 384075 58, Lin 20468 (- 1), Lin 629139 43,
     Lin 632820 16, Lin 126707 (- 75), Lin 785374 (- 42), Lin 471148 (- 54), Lin 188311 (- 23),
     Lin 693860 (- 37), Lin 755333 (- 49), Lin 830989 57, Lin 304532 96, Lin 152711 85,
     Lin 114203 (- 48), Lin 442606 42, Lin 371560 (- 78), Lin 229318 (- 74), Lin 201952 5,
     Lin 399130 (- 8), Lin 746227 (- 54), Lin 99476 99, Lin 521257 (- 22)]"

definition script_3010 :: js_script where
  "script_3010 = \<lparr>seed = 3010, funs = fns_3010_0 @ fns_3010_1 @ fns_3010_2\<rparr>"

section \<open>script-0011.js\<close>

text \<open>Functions 0 to 148.\<close>

definition fns_3011_0 :: "js_fun list" where
  "fns_3011_0 = [
     Lin 249489 60, Lin 691272 (- 53), Lin 888993 98, Lin 607343 (- 83), Lin 271197 30,
     Lin 296242 (- 82), Lin 705524 (- 27), Lin 256091 17, Lin 219635 (- 72), Lin 533437 43,
     Lin 714076 39, Lin 598163 (- 33), Lin 688240 6, Lin 931094 63, Lin 736868 6,
     Lin 700471 15, Lin 769633 92, Lin 22105 82, Lin 593382 (- 98), Lin 531885 71,
     Lin 150171 (- 56), Lin 158249 21, Lin 411986 (- 23), Lin 215508 87, Lin 952913 72,
     Lin 855042 (- 40), Lin 854298 69, Lin 702714 (- 44), Lin 950521 (- 23), Lin 627905 (- 92),
     Lin 267821 (- 2), Lin 960932 32, Lin 88797 2, Lin 224890 (- 19), Lin 839265 0,
     Lin 17836 (- 87), Lin 683073 (- 74), Lin 896241 (- 70), Lin 551346 (- 25), Lin 638448 (- 31),
     Lin 798543 (- 44), Lin 390628 (- 56), Lin 234613 (- 25), Lin 480555 (- 85), Lin 524636 64,
     Lin 942464 (- 7), Lin 614799 63, Lin 678321 7, Lin 769436 6, Lin 344768 (- 69),
     Lin 759719 (- 37), Lin 753375 (- 77), Lin 286326 89, Lin 504039 35, Lin 49324 (- 38),
     Lin 583728 (- 78), Lin 333134 (- 58), Lin 122917 5, Lin 644235 77, Lin 520495 (- 26),
     Lin 460659 (- 11), Lin 555696 2, Lin 80349 79, Lin 531227 69, Lin 99423 (- 80),
     Lin 446865 (- 9), Lin 290372 (- 73), Lin 907353 (- 22), Lin 666707 25, Lin 164173 (- 97),
     Lin 541080 (- 17), Lin 898929 (- 63), Lin 261450 (- 90), Lin 341163 61, Lin 718441 (- 41),
     Lin 490839 51, Lin 474461 69, Lin 997793 (- 84), Lin 960388 44, Lin 337760 (- 20),
     Lin 832445 45, Lin 434978 64, Lin 113892 (- 97), Lin 607026 67, Lin 298700 77,
     Lin 869783 83, Lin 115635 (- 90), Lin 552247 (- 57), Lin 769259 (- 96), Lin 542316 56,
     Lin 624939 41, Lin 764336 49, Lin 133047 (- 7), Lin 85997 (- 18), Lin 978063 58,
     Lin 587365 74, Lin 323613 (- 64), Lin 298775 83, Lin 523024 (- 34), Lin 75110 54,
     Lin 414855 31, Lin 945580 (- 37), Lin 462064 (- 73), Lin 417290 55, Lin 313654 (- 11),
     Lin 573933 (- 16), Lin 619560 (- 59), Lin 593076 48, Lin 107918 74, Lin 178369 (- 42),
     Lin 227999 (- 65), Lin 391537 (- 6), Lin 710332 56, Lin 986821 53, Lin 302402 (- 2),
     Lin 602498 4, Lin 168711 84, Lin 412281 13, Lin 788747 77, Lin 854561 86,
     Lin 979659 26, Lin 22131 46, Lin 715010 23, Lin 929923 (- 74), Lin 461290 3,
     Lin 5561 100, Lin 318195 43, Lin 34599 20, Lin 331084 (- 67), Lin 255411 (- 14),
     Lin 915339 (- 55), Lin 956846 83, Lin 830476 14, Lin 648899 (- 31), Lin 292727 69,
     Lin 759199 (- 94), Lin 317447 11, Lin 819053 8, Lin 377632 87, Lin 996283 20,
     Lin 200311 (- 50), Lin 54603 31, Lin 399969 94, Lin 977840 (- 77), Lin 31517 58,
     Lin 369596 92, Lin 96783 (- 98), Lin 88586 49, Lin 770590 (- 14)]"

text \<open>Functions 149 to 297.\<close>

definition fns_3011_1 :: "js_fun list" where
  "fns_3011_1 = [
     Lin 125207 (- 50), Lin 326370 (- 29), Lin 366306 56, Lin 901844 (- 61), Lin 928003 18,
     Lin 761246 (- 31), Lin 544547 38, Lin 541762 (- 33), Lin 226271 33, Lin 251210 37,
     Lin 990985 (- 19), Lin 9733 (- 30), Lin 283429 (- 44), Lin 867063 45, Lin 413908 (- 78),
     Lin 579060 (- 60), Lin 860404 11, Lin 209616 4, Lin 800080 30, Lin 284748 (- 30),
     Lin 94717 5, Lin 177958 (- 6), Lin 88195 (- 35), Lin 363822 (- 21), Lin 775697 55,
     Lin 690742 (- 87), Lin 222831 (- 42), Lin 924889 (- 82), Lin 480566 41, Lin 672048 (- 17),
     Lin 439837 53, Lin 20936 45, Lin 204572 35, Lin 817972 92, Lin 531326 (- 48),
     Lin 482658 21, Lin 97458 (- 53), Lin 217000 9, Lin 896639 (- 4), Lin 211203 (- 42),
     Lin 879652 (- 41), Lin 328191 21, Lin 511769 31, Lin 770438 85, Lin 6638 16,
     Lin 497755 55, Lin 725828 18, Lin 243467 (- 82), Lin 934938 (- 63), Lin 924859 91,
     Lin 411432 (- 79), Lin 152700 89, Lin 875157 43, Lin 384064 43, Lin 89517 (- 86),
     Lin 274088 (- 9), Lin 553916 11, Lin 90502 (- 74), Lin 926909 (- 28), Lin 637862 56,
     Lin 212278 (- 62), Lin 122194 68, Lin 192059 49, Lin 783015 (- 77), Lin 868135 (- 72),
     Lin 308695 (- 67), Lin 253723 65, Lin 573844 (- 48), Lin 168427 29, Lin 596876 (- 90),
     Lin 170820 51, Lin 6545 17, Lin 885064 (- 91), Lin 228004 67, Lin 140653 (- 37),
     Lin 291733 (- 28), Lin 498619 (- 26), Lin 724748 48, Lin 246855 (- 47), Lin 747195 92,
     Lin 587847 42, Lin 538515 13, Lin 732054 11, Lin 142755 (- 100), Lin 175551 32,
     Lin 262017 26, Lin 263608 (- 33), Lin 757969 34, Lin 245109 59, Lin 398658 4,
     Lin 849722 96, Lin 913111 8, Lin 325514 18, Lin 229491 74, Lin 613954 51,
     Lin 822971 (- 77), Lin 712490 25, Lin 484272 (- 55), Lin 827831 10, Lin 816501 69,
     Lin 824064 97, Lin 915149 (- 99), Lin 196402 (- 100), Lin 729483 82, Lin 256094 (- 28),
     Lin 225882 (- 77), Lin 158628 83, Lin 970367 77, Lin 390254 (- 75), Lin 258949 53,
     Lin 47581 92, Lin 2190 96, Lin 958565 87, Lin 888798 (- 64), Lin 77697 (- 2),
     Lin 6601 (- 73), Lin 262880 (- 77), Lin 193626 7, Lin 895098 (- 77), Lin 878272 (- 44),
     Lin 378639 59, Lin 605559 17, Lin 931400 66, Lin 49307 29, Lin 774837 14,
     Lin 916813 22, Lin 403296 60, Lin 60418 44, Lin 672652 75, Lin 787856 94,
     Lin 954050 (- 76), Lin 563671 (- 76), Lin 510528 (- 16), Lin 85852 21, Lin 259301 (- 28),
     Lin 421074 (- 8), Lin 302213 (- 22), Lin 901074 (- 69), Lin 216583 52, Lin 106106 (- 48),
     Lin 285619 (- 24), Lin 104404 (- 90), Lin 850400 74, Lin 447676 (- 37), Lin 557629 1,
     Lin 443025 6, Lin 402712 (- 56), Lin 963614 28, Lin 328813 (- 84)]"

text \<open>Functions 298 to 344.\<close>

definition fns_3011_2 :: "js_fun list" where
  "fns_3011_2 = [
     Lin 154699 (- 74), Lin 623955 (- 27), Lin 362216 61, Lin 197297 45, Lin 891921 (- 70),
     Lin 620729 66, Lin 635749 (- 75), Lin 16866 (- 74), Lin 926727 (- 70), Lin 265203 22,
     Lin 944804 72, Lin 508235 (- 42), Lin 692963 53, Lin 935396 56, Lin 964360 23,
     Lin 179795 (- 44), Lin 187567 (- 96), Lin 411967 11, Lin 497759 74, Lin 944974 (- 96),
     Lin 915412 20, Lin 232928 (- 76), Lin 539434 (- 52), Lin 62650 94, Lin 203611 63,
     Lin 888524 25, Lin 396483 14, Lin 821952 59, Lin 732091 (- 37), Lin 937454 59,
     Lin 879098 45, Lin 249708 83, Lin 314879 66, Lin 254737 (- 43), Lin 55580 19,
     Lin 964373 66, Lin 585545 (- 60), Lin 707257 (- 63), Lin 653339 64, Lin 140242 (- 43),
     Lin 992455 (- 5), Lin 280647 (- 48), Lin 796192 (- 22), Lin 976260 81, Lin 729291 77,
     Lin 521786 26, Lin 276890 (- 51)]"

definition script_3011 :: js_script where
  "script_3011 = \<lparr>seed = 3011, funs = fns_3011_0 @ fns_3011_1 @ fns_3011_2\<rparr>"

section \<open>script-0012.js\<close>

text \<open>Functions 0 to 148.\<close>

definition fns_3012_0 :: "js_fun list" where
  "fns_3012_0 = [
     Lin 265847 27, Lin 195620 77, Lin 271903 (- 25), Lin 834879 (- 33), Lin 736058 (- 51),
     Lin 930695 82, Lin 556626 70, Lin 191459 (- 31), Lin 929050 17, Lin 841930 55,
     Lin 592381 17, Lin 870689 72, Lin 686681 (- 6), Lin 318180 86, Lin 409725 19,
     Lin 396162 (- 64), Lin 88802 (- 30), Lin 806499 40, Lin 344128 (- 58), Lin 970990 0,
     Lin 559718 (- 28), Lin 365459 99, Lin 930748 100, Lin 89250 (- 81), Lin 424455 (- 32),
     Lin 632628 (- 51), Lin 979527 (- 40), Lin 145726 82, Lin 271168 (- 31), Lin 811473 30,
     Lin 483519 93, Lin 557705 (- 15), Lin 681626 58, Lin 574290 (- 7), Lin 794889 58,
     Lin 689678 (- 49), Lin 984693 (- 88), Lin 224463 3, Lin 435760 60, Lin 811663 42,
     Lin 262162 66, Lin 131881 (- 74), Lin 216540 (- 76), Lin 638622 (- 41), Lin 492385 (- 29),
     Lin 126881 19, Lin 80692 3, Lin 387637 (- 70), Lin 389842 28, Lin 194727 (- 89),
     Lin 782400 (- 86), Lin 981374 14, Lin 406769 (- 97), Lin 578073 (- 79), Lin 340393 38,
     Lin 697301 59, Lin 231587 (- 70), Lin 814156 76, Lin 589309 (- 58), Lin 707907 50,
     Lin 878375 (- 82), Lin 884353 80, Lin 168926 8, Lin 921530 (- 93), Lin 4396 (- 95),
     Lin 511055 55, Lin 358477 (- 57), Lin 180003 (- 49), Lin 820039 31, Lin 333022 (- 66),
     Lin 949196 83, Lin 179429 5, Lin 625766 (- 36), Lin 486021 47, Lin 931139 (- 20),
     Lin 944552 (- 84), Lin 206305 (- 5), Lin 293195 98, Lin 300436 (- 76), Lin 867405 100,
     Lin 73645 (- 85), Lin 229562 (- 31), Lin 951583 (- 95), Lin 904480 (- 97), Lin 286822 10,
     Lin 838434 74, Lin 693124 (- 8), Lin 434358 (- 8), Lin 138937 80, Lin 285509 63,
     Lin 256561 (- 16), Lin 845383 (- 61), Lin 500961 66, Lin 143282 (- 9), Lin 161133 94,
     Lin 404821 40, Lin 818747 (- 94), Lin 560742 (- 91), Lin 901537 87, Lin 123771 56,
     Lin 715740 (- 10), Lin 196709 43, Lin 783762 36, Lin 659178 4, Lin 31172 (- 5),
     Lin 188623 29, Lin 779876 52, Lin 628023 (- 52), Lin 635784 (- 19), Lin 963956 83,
     Lin 494394 97, Lin 90384 93, Lin 415690 (- 46), Lin 143780 (- 61), Lin 995629 (- 96),
     Lin 827941 (- 47), Lin 796472 (- 19), Lin 423582 (- 79), Lin 290366 60, Lin 267509 67,
     Lin 371882 61, Lin 202587 2, Lin 193983 (- 96), Lin 672014 (- 43), Lin 867435 54,
     Lin 856573 (- 16), Lin 746644 21, Lin 167181 (- 46), Lin 787379 66, Lin 954164 28,
     Lin 388653 (- 13), Lin 866507 (- 95), Lin 91550 (- 81), Lin 664809 (- 84), Lin 728903 (- 87),
     Lin 188941 13, Lin 372520 79, Lin 416476 89, Lin 353403 (- 33), Lin 589617 (- 27),
     Lin 882841 (- 44), Lin 999462 56, Lin 583779 (- 14), Lin 61108 (- 40), Lin 440059 (- 23),
     Lin 144659 95, Lin 518461 19, Lin 256407 (- 45), Lin 456737 (- 98)]"

text \<open>Functions 149 to 291.\<close>

definition fns_3012_1 :: "js_fun list" where
  "fns_3012_1 = [
     Lin 158733 (- 5), Lin 326411 (- 47), Lin 56006 (- 95), Lin 51253 (- 3), Lin 86848 (- 67),
     Lin 988248 (- 81), Lin 307839 (- 49), Lin 315829 (- 64), Lin 418865 (- 44), Lin 273276 98,
     Lin 389467 26, Lin 660604 (- 60), Lin 611969 4, Lin 481052 (- 48), Lin 784023 24,
     Lin 883762 40, Lin 838059 (- 67), Lin 487585 64, Lin 114465 (- 1), Lin 483606 (- 11),
     Lin 833844 (- 90), Lin 365573 71, Lin 966661 (- 55), Lin 268549 (- 51), Lin 418995 2,
     Lin 968983 15, Lin 50752 (- 75), Lin 795417 (- 49), Lin 995040 (- 43), Lin 416243 (- 45),
     Lin 802653 (- 27), Lin 868154 (- 34), Lin 903112 65, Lin 288003 44, Lin 316092 86,
     Lin 617398 95, Lin 924594 27, Lin 895124 (- 6), Lin 35981 (- 40), Lin 726255 (- 56),
     Lin 152528 27, Lin 710115 83, Lin 903584 (- 73), Lin 230144 (- 68), Lin 549570 (- 68),
     Lin 827875 (- 46), Lin 602126 (- 68), Lin 376733 92, Lin 879158 12, Lin 765836 (- 65),
     Lin 922027 6, Lin 840487 72, Lin 321444 94, Lin 567117 15, Lin 729212 (- 61),
     Lin 946412 33, Lin 894034 (- 37), Lin 747182 49, Lin 800688 36, Lin 638756 (- 15),
     Lin 998430 (- 1), Lin 572440 100, Lin 860392 60, Lin 355802 95, Lin 918902 (- 2),
     Lin 960751 77, Lin 793536 (- 27), Lin 623681 88, Lin 864159 88, Lin 327796 (- 33),
     Lin 131404 (- 98), Lin 905734 (- 100), Lin 446232 87, Lin 259460 (- 57), Lin 774975 (- 69),
     Lin 202938 40, Lin 804142 (- 98), Lin 693931 95, Lin 497177 55, Lin 409124 53,
     Lin 353685 (- 91), Lin 632333 (- 88), Lin 773122 (- 34), Lin 160622 12, Lin 351323 (- 59),
     Lin 310863 (- 83), Lin 81205 (- 51), Lin 788192 (- 90), Lin 657216 26, Lin 4466 63,
     Lin 190305 (- 28), Lin 233119 26, Lin 606216 (- 96), Lin 894869 (- 30), Lin 702020 (- 64),
     Lin 208115 (- 38), Lin 768464 (- 64), Lin 380903 32, Lin 422794 (- 14), Lin 647117 32,
     Lin 277601 39, Lin 478612 61, Lin 356739 (- 8), Lin 68625 32, Lin 689057 49,
     Lin 941804 (- 65), Lin 297115 (- 23), Lin 953727 (- 42), Lin 895564 (- 16), Lin 15599 (- 7),
     Lin 411219 55, Lin 654360 (- 77), Lin 379852 2, Lin 733261 (- 32), Lin 971204 9,
     Lin 730126 (- 43), Lin 719590 (- 34), Lin 824932 (- 95), Lin 165770 (- 40), Lin 708592 57,
     Lin 790352 8, Lin 83637 53, Lin 614453 18, Lin 337392 1, Lin 99332 36,
     Lin 837243 88, Lin 19752 91, Lin 606588 (- 33), Lin 507815 98, Lin 150105 (- 29),
     Lin 521714 47, Lin 509839 6, Lin 978028 32, Lin 621045 24, Lin 177722 (- 39),
     Lin 581704 85, Lin 517035 (- 12), Lin 470406 (- 67), Lin 469814 6, Lin 551940 57,
     Lin 116488 (- 93), Lin 788635 (- 39), Lin 836464 (- 81)]"

definition script_3012 :: js_script where
  "script_3012 = \<lparr>seed = 3012, funs = fns_3012_0 @ fns_3012_1\<rparr>"

section \<open>script-0013.js\<close>

text \<open>Functions 0 to 148.\<close>

definition fns_3013_0 :: "js_fun list" where
  "fns_3013_0 = [
     Lin 683937 26, Lin 708422 (- 87), Lin 126747 79, Lin 151455 56, Lin 955771 (- 60),
     Lin 543702 83, Lin 405622 84, Lin 438576 (- 80), Lin 877790 (- 58), Lin 337938 (- 17),
     Lin 860111 2, Lin 812552 (- 93), Lin 1539 (- 17), Lin 215402 (- 19), Lin 262292 4,
     Lin 353059 (- 24), Lin 959201 13, Lin 999339 (- 82), Lin 880802 76, Lin 153292 2,
     Lin 284477 44, Lin 702 (- 9), Lin 203853 33, Lin 759993 71, Lin 841111 (- 16),
     Lin 136006 (- 79), Lin 766653 (- 39), Lin 791152 95, Lin 237852 27, Lin 608989 (- 89),
     Lin 395882 (- 44), Lin 800865 (- 13), Lin 847536 (- 19), Lin 381312 (- 93), Lin 713243 (- 88),
     Lin 130247 (- 56), Lin 146850 11, Lin 32722 (- 15), Lin 72607 (- 37), Lin 951006 (- 34),
     Lin 20840 (- 16), Lin 316466 (- 50), Lin 917237 95, Lin 883829 (- 27), Lin 204604 12,
     Lin 293701 (- 39), Lin 5747 53, Lin 650969 25, Lin 913798 (- 100), Lin 589382 (- 70),
     Lin 420228 (- 57), Lin 37224 58, Lin 27752 (- 42), Lin 998293 (- 21), Lin 60215 42,
     Lin 956693 (- 77), Lin 977840 (- 62), Lin 494643 31, Lin 97018 (- 10), Lin 32079 (- 68),
     Lin 653714 34, Lin 166564 89, Lin 737273 76, Lin 778844 (- 92), Lin 841973 (- 59),
     Lin 227288 5, Lin 537678 (- 14), Lin 968913 92, Lin 102329 8, Lin 971393 (- 81),
     Lin 233434 (- 90), Lin 312315 (- 46), Lin 787615 93, Lin 125218 44, Lin 934865 85,
     Lin 929416 87, Lin 53340 2, Lin 369293 (- 50), Lin 343176 75, Lin 703074 (- 35),
     Lin 980617 (- 40), Lin 35810 (- 45), Lin 576161 (- 100), Lin 256117 (- 20), Lin 679761 (- 78),
     Lin 133210 (- 97), Lin 237876 (- 2), Lin 563396 52, Lin 654336 68, Lin 831912 40,
     Lin 512637 (- 94), Lin 320866 (- 31), Lin 284951 (- 10), Lin 746237 (- 65), Lin 487200 53,
     Lin 153538 (- 10), Lin 644157 46, Lin 457570 (- 46), Lin 673828 27, Lin 469578 59,
     Lin 913956 (- 12), Lin 168950 (- 9), Lin 691118 49, Lin 156097 39, Lin 271103 (- 76),
     Lin 673533 17, Lin 730855 35, Lin 319150 89, Lin 657426 (- 41), Lin 539873 (- 80),
     Lin 791557 (- 19), Lin 755119 10, Lin 575749 (- 74), Lin 710733 18, Lin 513267 32,
     Lin 799883 49, Lin 18923 96, Lin 647240 (- 52), Lin 564974 60, Lin 928748 (- 89),
     Lin 449120 (- 89), Lin 905883 (- 40), Lin 585332 70, Lin 346292 51, Lin 400451 67,
     Lin 820712 98, Lin 808785 (- 1), Lin 320149 (- 4), Lin 874798 6, Lin 588903 88,
     Lin 887564 87, Lin 58237 2, Lin 199399 56, Lin 114841 (- 15), Lin 568384 (- 96),
     Lin 743781 33, Lin 353715 (- 25), Lin 557585 (- 15), Lin 446200 90, Lin 524329 44,
     Lin 426431 25, Lin 612922 51, Lin 219661 9, Lin 910130 (- 92), Lin 38170 8,
     Lin 318570 (- 45), Lin 45785 28, Lin 473598 16, Lin 794283 (- 80)]"

text \<open>Functions 149 to 173.\<close>

definition fns_3013_1 :: "js_fun list" where
  "fns_3013_1 = [
     Lin 223161 (- 56), Lin 175872 (- 53), Lin 549689 (- 9), Lin 944701 81, Lin 57233 34,
     Lin 589795 (- 39), Lin 975987 32, Lin 692744 (- 5), Lin 250981 94, Lin 289253 20,
     Lin 939335 30, Lin 764464 (- 51), Lin 513517 71, Lin 718627 44, Lin 556815 (- 35),
     Lin 507727 (- 80), Lin 897028 (- 79), Lin 677949 53, Lin 229528 (- 34), Lin 82529 (- 99),
     Lin 105142 3, Lin 497197 27, Lin 936426 (- 7), Lin 963319 (- 25), Lin 390579 (- 52)]"

definition script_3013 :: js_script where
  "script_3013 = \<lparr>seed = 3013, funs = fns_3013_0 @ fns_3013_1\<rparr>"

section \<open>script-0014.js\<close>

text \<open>Functions 0 to 148.\<close>

definition fns_3014_0 :: "js_fun list" where
  "fns_3014_0 = [
     Lin 110760 43, Lin 231815 (- 69), Lin 341464 68, Lin 403208 (- 98), Lin 360209 (- 62),
     Lin 983960 (- 62), Lin 257422 97, Lin 243442 18, Lin 386624 72, Lin 474945 (- 48),
     Lin 568186 (- 78), Lin 654871 34, Lin 226442 86, Lin 707832 58, Lin 627058 (- 40),
     Lin 696976 0, Lin 923054 (- 55), Lin 27072 (- 28), Lin 245732 47, Lin 810095 77,
     Lin 340409 80, Lin 745947 (- 42), Lin 373725 (- 69), Lin 846940 83, Lin 240385 (- 82),
     Lin 69302 (- 87), Lin 532255 (- 72), Lin 377227 (- 52), Lin 641289 66, Lin 865497 98,
     Lin 439885 43, Lin 823140 90, Lin 605060 41, Lin 977311 (- 81), Lin 829891 (- 25),
     Lin 279044 49, Lin 39819 (- 22), Lin 715444 47, Lin 207769 38, Lin 456727 (- 98),
     Lin 261159 60, Lin 886695 36, Lin 832512 (- 48), Lin 502789 (- 91), Lin 857233 (- 14),
     Lin 664488 (- 73), Lin 239069 89, Lin 594037 100, Lin 184879 (- 22), Lin 488558 (- 37),
     Lin 789358 (- 29), Lin 68773 (- 11), Lin 658435 22, Lin 778149 89, Lin 893424 42,
     Lin 909832 7, Lin 474735 (- 72), Lin 491308 (- 70), Lin 405023 40, Lin 325074 (- 76),
     Lin 752570 51, Lin 326219 (- 79), Lin 119212 (- 21), Lin 984854 (- 13), Lin 408843 19,
     Lin 467206 54, Lin 339015 39, Lin 65713 (- 1), Lin 847030 77, Lin 46363 (- 10),
     Lin 151079 (- 33), Lin 661125 71, Lin 111224 (- 59), Lin 859214 31, Lin 873973 (- 21),
     Lin 390927 (- 92), Lin 844932 (- 58), Lin 999996 53, Lin 636362 (- 78), Lin 356480 (- 22),
     Lin 649228 52, Lin 170356 (- 76), Lin 669620 34, Lin 401792 41, Lin 255272 24,
     Lin 48964 43, Lin 487519 (- 75), Lin 682645 0, Lin 229357 (- 23), Lin 513311 (- 49),
     Lin 459905 31, Lin 712302 (- 92), Lin 959148 20, Lin 174424 (- 50), Lin 229049 (- 69),
     Lin 397678 11, Lin 876137 (- 64), Lin 387961 (- 11), Lin 530754 11, Lin 502757 61,
     Lin 193887 (- 24), Lin 425395 (- 52), Lin 313593 (- 89), Lin 504086 (- 63), Lin 600496 (- 40),
     Lin 869273 65, Lin 705616 97, Lin 587670 92, Lin 297221 (- 96), Lin 25836 1,
     Lin 162511 12, Lin 552839 16, Lin 474205 77, Lin 723163 (- 99), Lin 590226 (- 88),
     Lin 725764 98, Lin 241779 (- 97), Lin 353650 (- 32), Lin 536274 (- 50), Lin 81170 (- 54),
     Lin 89144 8, Lin 346627 (- 30), Lin 46902 (- 37), Lin 110487 8, Lin 946603 (- 14),
     Lin 904348 84, Lin 765453 (- 92), Lin 204638 (- 57), Lin 395590 (- 62), Lin 290692 (- 77),
     Lin 848978 20, Lin 98764 59, Lin 485656 (- 62), Lin 620992 (- 3), Lin 247521 (- 88),
     Lin 16306 25, Lin 531320 (- 84), Lin 77295 41, Lin 927971 (- 82), Lin 722399 (- 51),
     Lin 529715 (- 4), Lin 572058 (- 25), Lin 930027 78, Lin 178247 59, Lin 61751 38,
     Lin 348355 31, Lin 32687 20, Lin 174871 (- 28), Lin 497683 27]"

text \<open>Functions 149 to 297.\<close>

definition fns_3014_1 :: "js_fun list" where
  "fns_3014_1 = [
     Lin 659149 40, Lin 938292 36, Lin 362917 (- 68), Lin 595582 95, Lin 563223 53,
     Lin 81446 88, Lin 417011 35, Lin 911103 (- 62), Lin 828676 (- 19), Lin 656822 (- 52),
     Lin 456726 (- 50), Lin 821397 50, Lin 673016 (- 41), Lin 579212 (- 29), Lin 465289 31,
     Lin 168248 (- 44), Lin 548300 (- 18), Lin 358848 64, Lin 354832 (- 14), Lin 526751 46,
     Lin 91754 (- 15), Lin 723085 42, Lin 730633 (- 74), Lin 346370 (- 67), Lin 177149 64,
     Lin 557231 (- 61), Lin 268475 (- 52), Lin 988742 (- 82), Lin 754326 (- 86), Lin 783038 63,
     Lin 431489 (- 36), Lin 729024 (- 27), Lin 270023 (- 5), Lin 645797 27, Lin 339145 15,
     Lin 223319 (- 33), Lin 407450 64, Lin 525589 8, Lin 789766 35, Lin 25138 85,
     Lin 727386 (- 38), Lin 682754 (- 71), Lin 182989 47, Lin 580667 (- 95), Lin 316840 69,
     Lin 50171 85, Lin 14617 (- 19), Lin 649556 31, Lin 633513 95, Lin 790584 11,
     Lin 878296 (- 67), Lin 377459 94, Lin 341589 18, Lin 305874 9, Lin 637334 (- 6),
     Lin 614256 79, Lin 939379 12, Lin 642213 42, Lin 826425 (- 91), Lin 539154 (- 8),
     Lin 150980 21, Lin 619172 93, Lin 646952 (- 48), Lin 417868 (- 90), Lin 896125 (- 47),
     Lin 167698 72, Lin 420662 51, Lin 819652 (- 28), Lin 966542 69, Lin 249922 (- 91),
     Lin 318673 (- 100), Lin 707437 (- 95), Lin 144877 50, Lin 529139 11, Lin 73182 32,
     Lin 133848 (- 41), Lin 332238 21, Lin 794963 (- 83), Lin 496963 (- 73), Lin 536855 60,
     Lin 255986 (- 32), Lin 134819 (- 18), Lin 169345 7, Lin 320327 65, Lin 695300 10,
     Lin 581026 (- 94), Lin 922786 (- 52), Lin 133229 93, Lin 921957 2, Lin 510480 (- 99),
     Lin 884649 12, Lin 900343 23, Lin 963549 (- 19), Lin 578615 (- 64), Lin 809183 51,
     Lin 965279 75, Lin 776043 (- 55), Lin 919681 (- 77), Lin 491885 17, Lin 765325 (- 9),
     Lin 452901 43, Lin 177267 (- 91), Lin 323074 19, Lin 717966 (- 45), Lin 938769 (- 71),
     Lin 995600 33, Lin 543512 40, Lin 914255 (- 37), Lin 522331 (- 2), Lin 646651 (- 4),
     Lin 887786 60, Lin 62252 (- 42), Lin 130422 66, Lin 462831 (- 60), Lin 536875 57,
     Lin 98579 (- 88), Lin 80616 29, Lin 540958 55, Lin 560254 4, Lin 313969 2,
     Lin 378720 (- 82), Lin 556580 56, Lin 642888 15, Lin 501741 2, Lin 750407 (- 84),
     Lin 782860 93, Lin 710975 90, Lin 325107 (- 9), Lin 129132 42, Lin 340653 50,
     Lin 51660 33, Lin 874701 51, Lin 17091 (- 71), Lin 283386 73, Lin 690414 19,
     Lin 251864 63, Lin 342589 37, Lin 592212 (- 81), Lin 801595 (- 92), Lin 222302 78,
     Lin 905418 (- 16), Lin 230232 (- 38), Lin 433897 (- 51), Lin 746094 (- 42), Lin 499298 (- 82),
     Lin 527750 (- 84), Lin 878749 93, Lin 764001 (- 77), Lin 258944 (- 53)]"

text \<open>Functions 298 to 446.\<close>

definition fns_3014_2 :: "js_fun list" where
  "fns_3014_2 = [
     Lin 107762 44, Lin 326616 20, Lin 200468 (- 55), Lin 748503 14, Lin 46317 (- 93),
     Lin 79826 61, Lin 214799 39, Lin 478947 (- 58), Lin 204576 83, Lin 695397 (- 35),
     Lin 801284 63, Lin 751051 4, Lin 566931 22, Lin 888859 58, Lin 874225 (- 66),
     Lin 460104 (- 60), Lin 439018 99, Lin 490752 (- 37), Lin 996909 88, Lin 913712 (- 36),
     Lin 400943 65, Lin 992370 9, Lin 755806 43, Lin 623271 (- 24), Lin 255565 (- 61),
     Lin 938323 (- 71), Lin 824321 51, Lin 705959 44, Lin 365975 56, Lin 486885 65,
     Lin 462837 (- 63), Lin 111901 89, Lin 152231 (- 25), Lin 878056 (- 25), Lin 451365 54,
     Lin 886619 90, Lin 851308 59, Lin 570099 (- 36), Lin 266053 44, Lin 85503 (- 96),
     Lin 590228 (- 46), Lin 947794 (- 56), Lin 971384 24, Lin 860474 (- 87), Lin 760922 (- 8),
     Lin 779640 6, Lin 798987 58, Lin 98846 (- 90), Lin 618540 53, Lin 396671 (- 57),
     Lin 127561 10, Lin 207192 74, Lin 668036 66, Lin 322847 8, Lin 335285 68,
     Lin 140929 15, Lin 52459 32, Lin 451477 (- 22), Lin 465501 (- 9), Lin 982545 85,
     Lin 46013 (- 44), Lin 577520 (- 54), Lin 384588 15, Lin 452218 (- 35), Lin 699616 35,
     Lin 515401 17, Lin 966185 46, Lin 439000 (- 74), Lin 760882 35, Lin 460422 0,
     Lin 767207 (- 15), Lin 458860 (- 39), Lin 461364 90, Lin 132300 (- 44), Lin 235389 73,
     Lin 887999 52, Lin 301753 (- 44), Lin 61987 49, Lin 65148 17, Lin 531195 57,
     Lin 547471 51, Lin 904951 76, Lin 115654 (- 77), Lin 924073 (- 2), Lin 878493 (- 34),
     Lin 509587 (- 40), Lin 495747 84, Lin 442218 78, Lin 982207 (- 97), Lin 427483 3,
     Lin 476121 (- 35), Lin 773143 41, Lin 402120 13, Lin 438333 6, Lin 54304 (- 8),
     Lin 558833 64, Lin 179547 72, Lin 442866 (- 12), Lin 646309 (- 73), Lin 589353 42,
     Lin 554060 (- 23), Lin 13470 62, Lin 631982 70, Lin 891010 76, Lin 615782 74,
     Lin 800442 27, Lin 335307 19, Lin 467062 50, Lin 13289 67, Lin 538497 44,
     Lin 769177 (- 52), Lin 676717 86, Lin 196126 (- 95), Lin 161552 (- 17), Lin 74560 (- 94),
     Lin 183569 (- 34), Lin 825049 (- 50), Lin 874407 (- 27), Lin 853777 36, Lin 532096 (- 10),
     Lin 573008 (- 12), Lin 722468 (- 31), Lin 2477 51, Lin 507300 89, Lin 369672 52,
     Lin 225678 (- 90), Lin 405694 6, Lin 328497 63, Lin 247240 (- 73), Lin 173008 (- 88),
     Lin 518131 66, Lin 952241 67, Lin 771245 (- 71), Lin 334882 100, Lin 599266 76,
     Lin 677515 (- 33), Lin 672358 (- 42), Lin 116745 (- 47), Lin 150445 86, Lin 383237 16,
     Lin 259049 4, Lin 200023 (- 34), Lin 630738 (- 51), Lin 778220 (- 34), Lin 733702 35,
     Lin 211302 (- 84), Lin 240174 17, Lin 168994 (- 84), Lin 223247 (- 57)]"

text \<open>Functions 447 to 450.\<close>

definition fns_3014_3 :: "js_fun list" where
  "fns_3014_3 = [
     Lin 51553 66, Lin 615445 2, Lin 292768 19, Lin 298650 (- 90)]"

definition script_3014 :: js_script where
  "script_3014 = \<lparr>seed = 3014, funs = fns_3014_0 @ fns_3014_1 @ fns_3014_2 @ fns_3014_3\<rparr>"

section \<open>The tables respect the ranges of the generator\<close>

lemma gen_fns_3010_0 [table_checks]: "list_all gen_fun fns_3010_0" "length fns_3010_0 = 149"
  by (simp_all add: fns_3010_0_def gen_fun_def)

lemma gen_fns_3010_1 [table_checks]: "list_all gen_fun fns_3010_1" "length fns_3010_1 = 149"
  by (simp_all add: fns_3010_1_def gen_fun_def)

lemma gen_fns_3010_2 [table_checks]: "list_all gen_fun fns_3010_2" "length fns_3010_2 = 44"
  by (simp_all add: fns_3010_2_def gen_fun_def)

lemma gen_script_3010 [table_checks]: "gen_script script_3010" "seed script_3010 = 3010" "length (funs script_3010) = 342"
  by (simp_all add: script_3010_def gen_script_def gen_fns_3010_0 gen_fns_3010_1 gen_fns_3010_2)

lemma gen_fns_3011_0 [table_checks]: "list_all gen_fun fns_3011_0" "length fns_3011_0 = 149"
  by (simp_all add: fns_3011_0_def gen_fun_def)

lemma gen_fns_3011_1 [table_checks]: "list_all gen_fun fns_3011_1" "length fns_3011_1 = 149"
  by (simp_all add: fns_3011_1_def gen_fun_def)

lemma gen_fns_3011_2 [table_checks]: "list_all gen_fun fns_3011_2" "length fns_3011_2 = 47"
  by (simp_all add: fns_3011_2_def gen_fun_def)

lemma gen_script_3011 [table_checks]: "gen_script script_3011" "seed script_3011 = 3011" "length (funs script_3011) = 345"
  by (simp_all add: script_3011_def gen_script_def gen_fns_3011_0 gen_fns_3011_1 gen_fns_3011_2)

lemma gen_fns_3012_0 [table_checks]: "list_all gen_fun fns_3012_0" "length fns_3012_0 = 149"
  by (simp_all add: fns_3012_0_def gen_fun_def)

lemma gen_fns_3012_1 [table_checks]: "list_all gen_fun fns_3012_1" "length fns_3012_1 = 143"
  by (simp_all add: fns_3012_1_def gen_fun_def)

lemma gen_script_3012 [table_checks]: "gen_script script_3012" "seed script_3012 = 3012" "length (funs script_3012) = 292"
  by (simp_all add: script_3012_def gen_script_def gen_fns_3012_0 gen_fns_3012_1)

lemma gen_fns_3013_0 [table_checks]: "list_all gen_fun fns_3013_0" "length fns_3013_0 = 149"
  by (simp_all add: fns_3013_0_def gen_fun_def)

lemma gen_fns_3013_1 [table_checks]: "list_all gen_fun fns_3013_1" "length fns_3013_1 = 25"
  by (simp_all add: fns_3013_1_def gen_fun_def)

lemma gen_script_3013 [table_checks]: "gen_script script_3013" "seed script_3013 = 3013" "length (funs script_3013) = 174"
  by (simp_all add: script_3013_def gen_script_def gen_fns_3013_0 gen_fns_3013_1)

lemma gen_fns_3014_0 [table_checks]: "list_all gen_fun fns_3014_0" "length fns_3014_0 = 149"
  by (simp_all add: fns_3014_0_def gen_fun_def)

lemma gen_fns_3014_1 [table_checks]: "list_all gen_fun fns_3014_1" "length fns_3014_1 = 149"
  by (simp_all add: fns_3014_1_def gen_fun_def)

lemma gen_fns_3014_2 [table_checks]: "list_all gen_fun fns_3014_2" "length fns_3014_2 = 149"
  by (simp_all add: fns_3014_2_def gen_fun_def)

lemma gen_fns_3014_3 [table_checks]: "list_all gen_fun fns_3014_3" "length fns_3014_3 = 4"
  by (simp_all add: fns_3014_3_def gen_fun_def)

lemma gen_script_3014 [table_checks]: "gen_script script_3014" "seed script_3014 = 3014" "length (funs script_3014) = 451"
  by (simp_all add: script_3014_def gen_script_def gen_fns_3014_0 gen_fns_3014_1 gen_fns_3014_2 gen_fns_3014_3)

end
