(* ===== verification/Js_Scripts_D.thy ===== *)
theory Js_Scripts_D
  imports Js_Function
begin

text \<open>
  The declarations of \<open>src/sample-assets-small/script-0015.js\<close> to \<open>script-0019.js\<close>, in the order
  of the files: \<open>Lin c k\<close> on line \<open>i + 2\<close> of a file stands for the body \<open>return x * 0.c + k;\<close> of its function
  number \<open>i\<close>, with the six decimals \<open>c\<close> read as a natural number.
\<close>

section \<open>script-0015.js\<close>

text \<open>Functions 0 to 148.\<close>

definition fns_3015_0 :: "js_fun list" where
  "fns_3015_0 = [
     Lin 724098 81, Lin 600230 (- 90), Lin 58975 16, Lin 723800 65, Lin 388261 31,
     Lin 492738 47, Lin 337371 (- 28), Lin 260596 100, Lin 395538 10, Lin 568993 (- 50),
     Lin 141713 56, Lin 854691 (- 4), Lin 436375 83, Lin 375692 33, Lin 945051 25,
     Lin 920674 (- 21), Lin 179128 (- 45), Lin 557474 13, Lin 364590 81, Lin 568179 (- 7),
     Lin 394124 (- 68), Lin 211207 (- 70), Lin 16673 (- 69), Lin 228999 (- 57), Lin 497506 (- 48),
     Lin 399672 (- 33), Lin 213634 (- 62), Lin 153406 (- 88), Lin 645943 (- 13), Lin 657921 (- 22),
     Lin 729834 (- 72), Lin 738981 (- 58), Lin 624457 23, Lin 381425 77, Lin 784667 48,
     Lin 583498 (- 48), Lin 324244 56, Lin 214165 (- 76), Lin 817414 83, Lin 618804 (- 11),
     Lin 262765 72, Lin 389175 (- 17), Lin 448843 97, Lin 917587 (- 18), Lin 642995 88,
     Lin 123344 18, Lin 116518 95, Lin 191591 (- 70), Lin 901145 15, Lin 937299 (- 25),
     Lin 242754 (- 90), Lin 427979 (- 75), Lin 114694 93, Lin 665694 (- 70), Lin 693148 (- 70),
     Lin 283034 20, Lin 806889 64, Lin 443017 31, Lin 779070 (- 9), Lin 270998 17,
     Lin 527560 (- 26), Lin 936146 59, Lin 367808 (- 24), Lin 662888 9, Lin 4828 83,
     Lin 475809 (- 96), Lin 749529 (- 65), Lin 405203 (- 13), Lin 63970 68, Lin 427115 49,
     Lin 850496 17, Lin 122653 (- 96), Lin 775670 (- 70), Lin 121878 (- 53), Lin 621508 (- 71),
     Lin 451141 (- 38), Lin 342206 25, Lin 115393 66, Lin 496573 69, Lin 73063 (- 9),
     Lin 80079 (- 55), Lin 587627 75, Lin 628288 (- 48), Lin 157848 52, Lin 825636 (- 24),
     Lin 253107 (- 56), Lin 681119 73, Lin 440516 (- 83), Lin 157112 12, Lin 786206 (- 88),
     Lin 999298 91, Lin 2113 59, Lin 635040 17, Lin 408310 24, Lin 927787 (- 85),
     Lin 355116 (- 46), Lin 248442 91, Lin 906756 4, Lin 161972 81, Lin 234109 (- 21),
     Lin 839085 16, Lin 937570 89, Lin 439912 31, Lin 449884 70, Lin 265021 (- 7),
     Lin 797786 (- 98), Lin 628950 (- 86), Lin 234857 89, Lin 873785 (- 48), Lin 344131 (- 70),
     Lin 433519 (- 68), Lin 629125 (- 8), Lin 723392 47, Lin 855643 (- 16), Lin 473623 62,
     Lin 230649 (- 34), Lin 848050 (- 93), Lin 738052 16, Lin 554577 81, Lin 807886 16,
     Lin 29971 (- 70), Lin 526949 26, Lin 611586 39, Lin 983579 28, Lin 136005 62,
     Lin 17136 24, Lin 400730 (- 86), Lin 184583 11, Lin 972823 79, Lin 174439 27,
     Lin 494520 60, Lin 941933 18, Lin 551474 22, Lin 65370 80, Lin 219866 (- 57),
     Lin 227588 (- 80), Lin 711416 39, Lin 837848 (- 12), Lin 917348 (- 9), Lin 608998 41,
     Lin 380169 92, Lin 853912 (- 95), Lin 403914 42, Lin 962309 47, Lin 12304 24,
     Lin 540010 (- 91), Lin 997608 65, Lin 733052 (- 74), Lin 440557 68]"

text \<open>Functions 149 to 291.\<close>

definition fns_3015_1 :: "js_fun list" where
  "fns_3015_1 = [
     Lin 111777 (- 47), Lin 975954 13, Lin 881430 (- 19), Lin 53368 (- 99), Lin 40372 44,
     Lin 768038 26, Lin 827259 67, Lin 231694 (- 12), Lin 546499 4, Lin 719780 (- 69),
     Lin 285909 (- 56), Lin 622446 38, Lin 848157 98, Lin 923428 17, Lin 870458 (- 75),
     Lin 397894 (- 28), Lin 814096 52, Lin 792526 17, Lin 911969 (- 15), Lin 26664 43,
     Lin 613881 (- 95), Lin 58858 (- 5), Lin 946201 (- 31), Lin 286364 11, Lin 974742 70,
     Lin 619650 68, Lin 137636 (- 98), Lin 793165 (- 64), Lin 284335 (- 97), Lin 448592 66,
     Lin 920567 4, Lin 704554 (- 28), Lin 480051 68, Lin 482160 (- 19), Lin 166656 (- 56),
     Lin 459535 40, Lin 104067 (- 23), Lin 574637 (- 13), Lin 668046 (- 10), Lin 881610 65,
     Lin 548079 (- 99), Lin 648578 (- 92), Lin 907176 36, Lin 589181 18, Lin 297912 (- 46),
     Lin 986671 (- 100), Lin 790753 (- 70), Lin 649378 (- 80), Lin 119273 (- 83), Lin 792104 (- 100),
     Lin 239418 98, Lin 802026 (- 95), Lin 778888 (- 78), Lin 362446 (- 65), Lin 212976 18,
     Lin 46886 (- 24), Lin 656587 72, Lin 125197 (- 100), Lin 421909 70, Lin 475802 55,
     Lin 223046 31, Lin 699288 43, Lin 345085 16, Lin 80370 (- 2), Lin 569424 (- 26),
     Lin 250183 (- 92), Lin 830542 92, Lin 640158 27, Lin 241899 80, Lin 570145 (- 57),
     Lin 129810 (- 32), Lin 736452 84, Lin 348404 36, Lin 295938 (- 43), Lin 205283 67,
     Lin 155406 92, Lin 196812 (- 80), Lin 222937 29, Lin 849113 67, Lin 855119 73,
     Lin 798641 36, Lin 978862 (- 4), Lin 709410 98, Lin 241004 11, Lin 772717 43,
     Lin 712457 56, Lin 30970 14, Lin 91722 (- 12), Lin 446900 19, Lin 660383 (- 86),
     Lin 602532 30, Lin 299724 58, Lin 378713 (- 7), Lin 912898 97, Lin 496189 (- 72),
     Lin 178988 58, Lin 469671 58, Lin 404702 21, Lin 914379 10, Lin 415158 (- 23),
     Lin 903212 (- 42), Lin 154165 (- 45), Lin 771342 (- 33), Lin 848492 (- 46), Lin 449558 34,
     Lin 244824 (- 37), Lin 887846 (- 91), Lin 950829 (- 33), Lin 539428 (- 29), Lin 723266 (- 1),
     Lin 375351 (- 68), Lin 9002 (- 72), Lin 636929 (- 38), Lin 916675 (- 19), Lin 794479 88,
     Lin 53474 28, Lin 799817 6, Lin 787148 42, Lin 85087 40, Lin 595055 (- 30),
     Lin 139432 12, Lin 741546 38, Lin 569046 35, Lin 546090 39, Lin 317092 (- 79),
     Lin 436302 54, Lin 830292 100, Lin 624726 64, Lin 241419 (- 94), Lin 984569 (- 36),
     Lin 701592 87, Lin 755256 (- 73), Lin 927770 0, Lin 561308 (- 86), Lin 876882 67,
     Lin 627821 96, Lin 260825 48, Lin 20579 (- 87), Lin 753715 (- 63), Lin 891593 (- 22),
     Lin 318865 (- 88), Lin 114785 91, Lin 167136 78]"

definition script_3015 :: js_script where
  "script_3015 = \<lparr>seed = 3015, funs = fns_3015_0 @ fns_3015_1\<rparr>"

section \<open>script-0016.js\<close>

text \<open>Functions 0 to 148.\<close>

definition fns_3016_0 :: "js_fun list" where
  "fns_3016_0 = [
     Lin 693206 (- 24), Lin 870618 7, Lin 81413 (- 38), Lin 608393 (- 21), Lin 451533 44,
     Lin 335874 54, Lin 650800 (- 68), Lin 525358 (- 65), Lin 171557 (- 85), Lin 250826 (- 44),
     Lin 86200 (- 44), Lin 561125 (- 87), Lin 131807 (- 59), Lin 749709 (- 73), Lin 266683 (- 82),
     Lin 384920 (- 33), Lin 700022 (- 87), Lin 329258 (- 41), Lin 592849 21, Lin 328579 48,
     Lin 681364 89, Lin 1382 (- 27), Lin 718584 90, Lin 72901 (- 55), Lin 968870 (- 86),
     Lin 102453 98, Lin 635868 (- 80), Lin 475450 20, Lin 756305 78, Lin 124626 (- 60),
     Lin 570203 56, Lin 937760 11, Lin 543735 (- 62), Lin 396965 0, Lin 943971 83,
     Lin 387578 (- 50), Lin 329230 (- 82), Lin 175749 (- 85), Lin 124589 (- 45), Lin 567068 (- 63),
     Lin 829309 (- 2), Lin 607457 (- 62), Lin 495788 (- 1), Lin 84484 (- 98), Lin 243608 (- 3),
     Lin 539693 (- 89), Lin 343838 25, Lin 762672 (- 73), Lin 918971 32, Lin 104506 55,
     Lin 620491 (- 16), Lin 818492 (- 18), Lin 59058 (- 83), Lin 91394 36, Lin 856784 (- 85),
     Lin 95764 (- 22), Lin 183325 (- 68), Lin 470019 78, Lin 493342 (- 43), Lin 249058 94,
     Lin 674262 34, Lin 419357 45, Lin 433284 17, Lin 345338 47, Lin 153742 (- 90),
     Lin 209217 3, Lin 994015 (- 92), Lin 752774 (- 59), Lin 361808 100, Lin 54979 (- 71),
     Lin 753841 31, Lin 776782 (- 94), Lin 242849 (- 6), Lin 758000 (- 9), Lin 43557 69,
     Lin 150 (- 94), Lin 809216 2, Lin 332810 (- 46), Lin 313966 55, Lin 782037 82,
     Lin 411937 85, Lin 169021 (- 100), Lin 408735 (- 2), Lin 173327 (- 77), Lin 659048 93,
     Lin 798623 (- 24), Lin 976843 (- 62), Lin 164777 (- 64), Lin 932307 29, Lin 53995 (- 36),
     Lin 633600 0, Lin 245595 58, Lin 394280 (- 76), Lin 998003 (- 96), Lin 234274 (- 5),
     Lin 536340 (- 96), Lin 110409 85, Lin 675841 84, Lin 384838 48, Lin 923546 (- 62),
     Lin 920957 (- 50), Lin 191831 24, Lin 589584 54, Lin 4758 42, Lin 699974 26,
     Lin 209722 (- 14), Lin 305576 (- 39), Lin 929774 8, Lin 722503 (- 17), Lin 860275 (- 67),
     Lin 914061 (- 91), Lin 211621 35, Lin 180661 (- 28), Lin 50578 63, Lin 402465 (- 9),
     Lin 446038 79, Lin 588892 (- 64), Lin 793035 88, Lin 633691 (- 54), Lin 548500 (- 92),
     Lin 187896 (- 65), Lin 879243 39, Lin 719927 99, Lin 415135 (- 5), Lin 393988 83,
     Lin 214484 74, Lin 651578 94, Lin 602094 91, Lin 14292 5, Lin 98862 (- 99),
     Lin 396205 27, Lin 168209 0, Lin 359461 52, Lin 96958 17, Lin 190255 86,
     Lin 93936 42, Lin 519249 (- 71), Lin 487482 (- 53), Lin 911905 (- 27), Lin 519006 (- 57),
     Lin 425420 (- 15), Lin 525953 (- 85), Lin 659159 58, Lin 113867 (- 14), Lin 383218 (- 46),
     Lin 153095 (- 85), Lin 522161 20, Lin 234654 (- 68), Lin 53217 (- 38)]"

text \<open>Functions 149 to 297.\<close>

definition fns_3016_1 :: "js_fun list" where
  "fns_3016_1 = [
     Lin 934820 (- 51), Lin 772260 96, Lin 474052 98, Lin 793122 (- 58), Lin 428141 30,
     Lin 563471 43, Lin 640943 78, Lin 445722 8, Lin 156641 (- 96), Lin 982747 (- 83),
     Lin 832498 68, Lin 549846 4, Lin 840438 (- 5), Lin 225952 (- 75), Lin 867251 6,
     Lin 146614 (- 25), Lin 919549 (- 34), Lin 771123 90, Lin 934062 62, Lin 548106 26,
     Lin 895279 12, Lin 130857 17, Lin 295868 (- 81), Lin 188857 (- 40), Lin 49324 10,
     Lin 672831 (- 29), Lin 938778 10, Lin 864294 55, Lin 426534 (- 45), Lin 559097 38,
     Lin 756518 (- 36), Lin 783437 52, Lin 18949 6, Lin 5746 24, Lin 360795 1,
     Lin 677564 (- 65), Lin 819337 81, Lin 551535 (- 81), Lin 905765 (- 8), Lin 873042 (- 67),
     Lin 225657 (- 21), Lin 546453 (- 89), Lin 546026 (- 56), Lin 238734 32, Lin 602872 89,
     Lin 269223 (- 20), Lin 988729 (- 14), Lin 332694 (- 86), Lin 8074 (- 90), Lin 909268 (- 79),
     Lin 183161 (- 65), Lin 562475 (- 97), Lin 995337 21, Lin 613923 (- 44), Lin 681772 7,
     Lin 680627 75, Lin 757732 9, Lin 387622 24, Lin 916793 (- 37), Lin 618307 22,
     Lin 325087 (- 32), Lin 304000 (- 83), Lin 772439 0, Lin 364774 (- 29), Lin 432103 15,
     Lin 453788 13, Lin 787688 (- 65), Lin 85835 (- 82), Lin 163683 87, Lin 217772 (- 91),
     Lin 668511 (- 75), Lin 684269 3, Lin 98228 12, Lin 411175 (- 10), Lin 672257 27,
     Lin 448704 95, Lin 595026 (- 1), Lin 289052 (- 60), Lin 434032 3, Lin 305654 (- 43),
     Lin 489890 12, Lin 535707 51, Lin 686741 4, Lin 173716 (- 42), Lin 764310 (- 79),
     Lin 31472 32, Lin 652938 61, Lin 823168 7, Lin 101793 18, Lin 87152 32,
     Lin 46624 8, Lin 694961 (- 18), Lin 26629 45, Lin 866824 (- 14), Lin 933480 (- 76),
     Lin 129194 94, Lin 706024 (- 59), Lin 146306 0, Lin 197910 (- 70), Lin 973350 41,
     Lin 194418 (- 90), Lin 480776 (- 92), Lin 774989 30, Lin 430345 (- 27), Lin 977854 (- 74),
     Lin 451817 (- 79), Lin 847663 (- 62), Lin 463707 73, Lin 939175 (- 97), Lin 271250 (- 45),
     Lin 845488 (- 69), Lin 679579 (- 58), Lin 451705 (- 59), Lin 963946 7, Lin 703951 (- 70),
     Lin 491824 31, Lin 25067 (- 9), Lin 152209 (- 97), Lin 780786 (- 47), Lin 847573 (- 25),
     Lin 702332 73, Lin 75952 12, Lin 211423 (- 85), Lin 763862 51, Lin 852891 (- 80),
     Lin 809368 99, Lin 963014 64, Lin 157016 99, Lin 581811 (- 41), Lin 321162 83,
     Lin 460942 (- 50), Lin 867031 (- 22), Lin 275318 (- 65), Lin 836593 5, Lin 428435 (- 52),
     Lin 13767 (- 67), Lin 826958 86, Lin 42693 78, Lin 43614 72, Lin 189074 58,
     Lin 11923 (- 64), Lin 196342 (- 47), Lin 394257 (- 67), Lin 463293 16, Lin 254708 (- 77),
     Lin 382679 76, Lin 958080 (- 29), Lin 770976 (- 83), Lin 506886 (- 81)]"

text \<open>Functions 298 to 446.\<close>

definition fns_3016_2 :: "js_fun list" where
  "fns_3016_2 = [
     Lin 552136 2, Lin 646849 54, Lin 195595 (- 62), Lin 748996 37, Lin 379764 28,
     Lin 110587 (- 42), Lin 928517 53, Lin 505667 56, Lin 811421 1, Lin 311330 51,
     Lin 673711 43, Lin 962700 91, Lin 958652 100, Lin 329958 86, Lin 659922 (- 77),
     Lin 903368 37, Lin 49605 2, Lin 760150 68, Lin 7291 33, Lin 909645 68,
     Lin 259601 (- 64), Lin 410144 19, Lin 939691 (- 23), Lin 637182 (- 65), Lin 29355 (- 63),
     Lin 679575 (- 35), Lin 790886 35, Lin 990014 21, Lin 296575 (- 6), Lin 801522 (- 26),
     Lin 703081 72, Lin 454381 (- 66), Lin 302447 (- 5), Lin 112671 (- 58), Lin 423181 78,
     Lin 83389 17, Lin 190320 45, Lin 662430 (- 90), Lin 185522 0, Lin 322985 7,
     Lin 17839 25, Lin 181511 27, Lin 887261 (- 62), Lin 368153 (- 28), Lin 595697 (- 8),
     Lin 684785 85, Lin 25633 17, Lin 185711 17, Lin 205320 20, Lin 863626 (- 51),
     Lin 166143 (- 83), Lin 76800 (- 9), Lin 125488 72, Lin 718643 (- 64), Lin 839105 67,
     Lin 758077 (- 3), Lin 737424 (- 3), Lin 550760 (- 93), Lin 170295 91, Lin 171196 8,
     Lin 439071 (- 51), Lin 791804 2, Lin 371137 (- 17), Lin 834368 12, Lin 407818 (- 99),
     Lin 447675 (- 62), Lin 122290 54, Lin 988980 88, Lin 549018 50, Lin 142325 (- 62),
     Lin 514274 20, Lin 218278 16, Lin 763701 (- 93), Lin 49280 21, Lin 593119 48,
     Lin 139303 20, Lin 20432 73, Lin 983228 10, Lin 600269 (- 97), Lin 76293 82,
     Lin 245905 (- 14), Lin 880657 31, Lin 653962 (- 39), Lin 897981 (- 89), Lin 633700 (- 86),
     Lin 701410 (- 94), Lin 596821 76, Lin 135170 (- 93), Lin 334824 (- 10), Lin 314861 55,
     Lin 602189 (- 91), Lin 61942 (- 33), Lin 825297 (- 28), Lin 21964 (- 85), Lin 477832 (- 65),
     Lin 915390 33, Lin 824158 (- 31), Lin 597038 (- 91), Lin 735146 49, Lin 454083 53,
     Lin 156903 5, Lin 50600 28, Lin 531157 19, Lin 87945 (- 36), Lin 442032 40,
     Lin 875739 (- 8), Lin 865179 (- 4), Lin 392323 1, Lin 618567 69, Lin 910377 (- 59),
     Lin 513914 (- 76), Lin 231952 58, Lin 264385 74, Lin 195675 1, Lin 75896 9,
     Lin 589919 50, Lin 440454 53, Lin 141033 54, Lin 655054 (- 85), Lin 869018 94,
     Lin 936907 65, Lin 716652 (- 5), Lin 312587 (- 25), Lin 451345 (- 7), Lin 651595 (- 92),
     Lin 497402 70, Lin 312429 46, Lin 909341 9, Lin 321133 (- 81), Lin 37221 (- 27),
     Lin 826650 (- 1), Lin 118997 96, Lin 493653 76, Lin 189624 72, Lin 796998 81,
     Lin 940031 93, Lin 351601 (- 71), Lin 892486 (- 89), Lin 769326 (- 50), Lin 1778 72,
     Lin 639739 (- 53), Lin 871896 60, Lin 981837 5, Lin 926160 (- 74), Lin 422370 (- 47),
     Lin 659515 (- 62), Lin 515268 (- 3), Lin 112975 (- 91), Lin 930876 (- 28)]"

text \<open>Functions 447 to 462.\<close>

definition fns_3016_3 :: "js_fun list" where
  "fns_3016_3 = [
     Lin 131131 (- 44), Lin 251299 95, Lin 816533 (- 9), Lin 877519 (- 96), Lin 226198 (- 25),
     Lin 149667 39, Lin 645189 (- 1), Lin 968419 (- 37), Lin 252851 (- 92), Lin 462271 (- 21),
     Lin 863976 (- 75), Lin 447423 (- 88), Lin 38117 86, Lin 125163 45, Lin 534896 11,
     Lin 632246 69]"

definition script_3016 :: js_script where
  "script_3016 = \<lparr>seed = 3016, funs = fns_3016_0 @ fns_3016_1 @ fns_3016_2 @ fns_3016_3\<rparr>"

section \<open>script-0017.js\<close>

text \<open>Functions 0 to 148.\<close>

definition fns_3017_0 :: "js_fun list" where
  "fns_3017_0 = [
     Lin 662426 (- 88), Lin 507488 82, Lin 617671 86, Lin 541331 (- 9), Lin 699971 90,
     Lin 691566 (- 8), Lin 968167 (- 5), Lin 372586 74, Lin 157448 23, Lin 318522 (- 76),
     Lin 60482 73, Lin 262518 (- 53), Lin 614890 12, Lin 897767 (- 33), Lin 186694 47,
     Lin 59884 17, Lin 610453 18, Lin 922258 88, Lin 654960 8, Lin 109382 (- 44),
     Lin 375554 48, Lin 128741 (- 59), Lin 268718 72, Lin 103229 (- 63), Lin 950616 57,
     Lin 974355 69, Lin 403076 (- 90), Lin 892641 81, Lin 291996 60, Lin 656503 (- 17),
     Lin 482623 72, Lin 806691 (- 73), Lin 83689 (- 94), Lin 16483 43, Lin 623617 81,
     Lin 245630 41, Lin 87800 (- 48), Lin 221437 (- 2), Lin 43981 (- 2), Lin 731868 (- 61),
     Lin 198819 83, Lin 129800 58, Lin 409924 (- 54), Lin 938914 (- 55), Lin 252752 73,
     Lin 559198 22, Lin 424126 44, Lin 947869 46, Lin 2682 89, Lin 362828 44,
     Lin 374216 (- 33), Lin 17653 (- 98), Lin 171464 61, Lin 276214 15, Lin 405947 (- 43),
     Lin 228685 (- 34), Lin 756978 (- 87), Lin 848463 (- 46), Lin 937984 (- 78), Lin 869026 22,
     Lin 936252 26, Lin 712101 (- 31), Lin 958962 26, Lin 830578 100, Lin 666190 62,
     Lin 925456 (- 49), Lin 929848 (- 9), Lin 89930 58, Lin 309442 (- 54), Lin 959113 (- 94),
     Lin 93962 6, Lin 827436 27, Lin 280597 (- 78), Lin 747491 (- 77), Lin 957287 (- 92),
     Lin 427892 (- 80), Lin 547895 45, Lin 159777 24, Lin 583730 (- 100), Lin 739400 61,
     Lin 935613 (- 88), Lin 179505 50, Lin 29023 (- 45), Lin 389264 3, Lin 766059 98,
     Lin 684904 (- 11), Lin 727180 (- 58), Lin 759638 (- 60), Lin 857138 (- 88), Lin 968535 33,
     Lin 889408 (- 82), Lin 943741 35, Lin 868947 47, Lin 840657 28, Lin 525279 (- 40),
     Lin 371091 (- 15), Lin 459335 (- 30), Lin 446887 (- 95), Lin 340302 10, Lin 767872 66,
     Lin 158826 (- 12), Lin 470291 (- 71), Lin 808794 45, Lin 591078 78, Lin 893714 (- 60),
     Lin 304425 (- 74), Lin 846301 80, Lin 443739 (- 89), Lin 642914 (- 23), Lin 471497 (- 42),
     Lin 79474 (- 28), Lin 459389 14, Lin 450604 57, Lin 206432 (- 94), Lin 673236 (- 75),
     Lin 717271 2, Lin 789177 (- 26), Lin 398964 53, Lin 905108 46, Lin 336811 (- 80),
     Lin 172052 (- 34), Lin 887515 (- 67), Lin 908229 95, Lin 230100 6, Lin 662640 68,
     Lin 547784 (- 84), Lin 190940 98, Lin 352583 70, Lin 270386 6, Lin 315985 16,
     Lin 479832 (- 85), Lin 705595 69, Lin 315088 (- 81), Lin 474890 (- 63), Lin 320307 (- 37),
     Lin 644284 (- 16), Lin 828485 (- 16), Lin 404246 (- 76), Lin 470634 56, Lin 277731 (- 80),
     Lin 108511 53, Lin 798242 44, Lin 196382 62, Lin 786529 84, Lin 744779 77,
     Lin 500501 3, Lin 742848 (- 59), Lin 825631 (- 99), Lin 130307 39]"

text \<open>Functions 149 to 257.\<close>

definition fns_3017_1 :: "js_fun list" where
  "fns_3017_1 = [
     Lin 418646 (- 54), Lin 577819 (- 58), Lin 639085 6, Lin 487919 (- 42), Lin 91498 27,
     Lin 91311 (- 48), Lin 228091 53, Lin 811595 (- 69), Lin 93616 39, Lin 758921 75,
     Lin 24136 (- 72), Lin 226781 (- 81), Lin 167586 10, Lin 543452 (- 39), Lin 922588 (- 71),
     Lin 299328 32, Lin 889248 (- 1), Lin 212469 74, Lin 761235 (- 49), Lin 336046 6,
     Lin 459821 36, Lin 79511 (- 42), Lin 948763 (- 23), Lin 520783 (- 89), Lin 365298 (- 100),
     Lin 595984 (- 64), Lin 16751 63, Lin 790167 17, Lin 496636 (- 28), Lin 52426 (- 52),
     Lin 947804 (- 14), Lin 797985 (- 76), Lin 464108 (- 70), Lin 434890 (- 62), Lin 729943 (- 78),
     Lin 124524 23, Lin 74178 81, Lin 131193 (- 96), Lin 53938 (- 66), Lin 312931 44,
     Lin 923757 52, Lin 684781 (- 18), Lin 554651 41, Lin 289773 36, Lin 738823 (- 21),
     Lin 136893 78, Lin 76468 15, Lin 422711 (- 60), Lin 67076 57, Lin 188744 (- 7),
     Lin 601527 (- 69), Lin 287024 79, Lin 379839 (- 14), Lin 601245 (- 34), Lin 705422 (- 79),
     Lin 935627 (- 97), Lin 14428 (- 7), Lin 809602 1, Lin 61145 (- 50), Lin 497064 (- 71),
     Lin 640670 (- 68), Lin 228981 (- 75), Lin 346759 33, Lin 300549 (- 47), Lin 282138 35,
     Lin 319900 (- 19), Lin 355943 28, Lin 713728 (- 40), Lin 435811 (- 74), Lin 751048 (- 74),
     Lin 932741 31, Lin 621695 (- 68), Lin 528764 16, Lin 460822 (- 13), Lin 553570 (- 46),
     Lin 870946 (- 84), Lin 922179 87, Lin 621071 (- 67), Lin 875863 (- 73), Lin 562883 30,
     Lin 193481 32, Lin 991501 (- 65), Lin 770944 (- 99), Lin 519356 67, Lin 572618 (- 45),
     Lin 280133 53, Lin 39155 60, Lin 337700 (- 80), Lin 88077 37, Lin 144346 (- 48),
     Lin 267064 63, Lin 267755 21, Lin 300799 82, Lin 188514 (- 36), Lin 313107 (- 17),
     Lin 877072 (- 15), Lin 165148 (- 66), Lin 486159 (- 73), Lin 671993 85, Lin 44299 47,
     Lin 410208 (- 94), Lin 490881 (- 78), Lin 776156 (- 44), Lin 371678 94, Lin 239769 (- 91),
     Lin 15056 57, Lin 728949 (- 46), Lin 714130 84, Lin 377495 73]"

definition script_3017 :: js_script where
  "script_3017 = \<lparr>seed = 3017, funs = fns_3017_0 @ fns_3017_1\<rparr>"

section \<open>script-0018.js\<close>

text \<open>Functions 0 to 146.\<close>

definition fns_3018_0 :: "js_fun list" where
  "fns_3018_0 = [
     Lin 427300 (- 29), Lin 726330 (- 100), Lin 130956 (- 62), Lin 83441 (- 59), Lin 929219 (- 6),
     Lin 23890 (- 20), Lin 991698 (- 82), Lin 721718 50, Lin 115463 66, Lin 112826 71,
     Lin 914856 (- 94), Lin 919843 100, Lin 231957 (- 44), Lin 980895 (- 25), Lin 956848 97,
     Lin 514000 (- 24), Lin 588742 36, Lin 124945 (- 5), Lin 212352 10, Lin 77828 (- 99),
     Lin 136892 55, Lin 292518 (- 75), Lin 425673 94, Lin 789892 77, Lin 350955 82,
     Lin 342020 (- 83), Lin 29503 (- 7), Lin 213019 (- 7), Lin 232672 13, Lin 691001 (- 43),
     Lin 994786 78, Lin 395621 (- 15), Lin 13907 (- 68), Lin 529721 (- 10), Lin 417272 55,
     Lin 553887 66, Lin 653884 (- 20), Lin 141182 (- 81), Lin 482843 3, Lin 25617 (- 2),
     Lin 783522 (- 10), Lin 100711 (- 45), Lin 760588 67, Lin 989675 63, Lin 113200 (- 86),
     Lin 127175 (- 9), Lin 154417 42, Lin 7987 (- 51), Lin 114626 38, Lin 587252 (- 48),
     Lin 633777 31, Lin 703284 (- 73), Lin 95100 62, Lin 177452 (- 84), Lin 242162 (- 71),
     Lin 570361 85, Lin 695131 (- 97), Lin 832291 (- 25), Lin 885753 (- 41), Lin 742267 91,
     Lin 397329 6, Lin 7947 67, Lin 836516 (- 31), Lin 248844 19, Lin 186848 (- 66),
     Lin 905134 10, Lin 623149 58, Lin 31784 68, Lin 193005 21, Lin 201880 92,
     Lin 764681 (- 70), Lin 421247 80, Lin 105167 (- 6), Lin 229557 50, Lin 135396 30,
     Lin 768912 52, Lin 63475 48, Lin 666857 (- 82), Lin 26928 32, Lin 242685 (- 17),
     Lin 30095 (- 40), Lin 782463 4, Lin 152996 (- 57), Lin 575914 21, Lin 160182 (- 8),
     Lin 572592 8, Lin 669621 2, Lin 692275 49, Lin 308109 26, Lin 193750 12,
     Lin 8916 61, Lin 269441 9, Lin 20960 89, Lin 400257 17, Lin 705459 (- 51),
     Lin 150913 (- 28), Lin 144134 (- 66), Lin 500633 (- 75), Lin 226757 (- 78), Lin 518558 1,
     Lin 234833 (- 80), Lin 900904 (- 86), Lin 363537 67, Lin 510454 (- 73), Lin 589919 (- 88),
     Lin 151835 (- 45), Lin 354899 20, Lin 335163 (- 59), Lin 261685 93, Lin 308507 76,
     Lin 739311 81, Lin 711220 80, Lin 461503 73, Lin 473557 31, Lin 573730 88,
     Lin 128250 67, Lin 739131 37, Lin 601943 85, Lin 911206 (- 19), Lin 48578 76,
     Lin 860654 (- 54), Lin 602880 (- 73), Lin 23262 7, Lin 865327 (- 17), Lin 768634 71,
     Lin 391037 77, Lin 542985 (- 68), Lin 796224 68, Lin 413916 (- 82), Lin 747907 42,
     Lin 163146 (- 43), Lin 704890 85, Lin 775828 (- 46), Lin 800296 (- 81), Lin 338135 23,
     Lin 668365 (- 100), Lin 253539 76, Lin 87841 5, Lin 463521 (- 16), Lin 334710 (- 54),
     Lin 258314 99, Lin 383626 (- 59), Lin 302289 (- 51), Lin 544067 (- 93), Lin 161607 73,
     Lin 711144 (- 60), Lin 378712 92]"

definition script_3018 :: js_script where
  "script_3018 = \<lparr>seed = 3018, funs = fns_3018_0\<rparr>"

section \<open>script-0019.js\<close>

text \<open>Functions 0 to 97.\<close>

definition fns_3019_0 :: "js_fun list" where
  "fns_3019_0 = [
     Lin 350986 100, Lin 136967 32, Lin 719731 14, Lin 93107 (- 13), Lin 39047 79,
     Lin 107932 96, Lin 593373 25, Lin 899761 41, Lin 40 (- 38), Lin 772647 35,
     Lin 226833 9, Lin 276237 (- 74), Lin 259418 43, Lin 819348 (- 6), Lin 26632 64,
     Lin 603799 82, Lin 638001 (- 80), Lin 80441 35, Lin 92791 (- 9), Lin 713265 89,
     Lin 648440 73, Lin 878656 (- 13), Lin 658671 74, Lin 974566 (- 43), Lin 838470 (- 4),
     Lin 243881 (- 14), Lin 58323 73, Lin 514193 52, Lin 820928 (- 70), Lin 19684 (- 72),
     Lin 669405 (- 46), Lin 843378 (- 51), Lin 73829 87, Lin 112618 36, Lin 598795 11,
     Lin 886446 (- 19), Lin 635903 18, Lin 570893 100, Lin 219021 (- 98), Lin 878939 (- 14),
     Lin 778138 (- 49), Lin 916693 (- 83), Lin 491096 51, Lin 270803 9, Lin 502347 (- 29),
     Lin 451708 (- 57), Lin 807365 (- 54), Lin 905002 (- 6), Lin 547217 (- 4), Lin 360913 63,
     Lin 776079 (- 58), Lin 15405 (- 92), Lin 9489 (- 19), Lin 532454 (- 6), Lin 427648 (- 57),
     Lin 478695 (- 33), Lin 691363 94, Lin 630270 (- 90), Lin 212711 (- 57), Lin 433995 (- 45),
     Lin 572018 (- 94), Lin 647309 (- 20), Lin 706324 40, Lin 115961 40, Lin 98022 42,
     Lin 551291 56, Lin 258204 (- 34), Lin 558668 (- 6), Lin 669397 63, Lin 268280 (- 53),
     Lin 482389 38, Lin 134952 (- 96), Lin 556387 46, Lin 146945 (- 24), Lin 541211 (- 96),
     Lin 718536 83, Lin 972031 16, Lin 396132 94, Lin 877033 81, Lin 318404 (- 24),
     Lin 382487 (- 35), Lin 490196 8, Lin 770784 23, Lin 19671 30, Lin 673053 81,
     Lin 792243 16, Lin 938835 52, Lin 762288 (- 67), Lin 902203 (- 40), Lin 720782 (- 13),
     Lin 163744 (- 2), Lin 946841 100, Lin 105903 74, Lin 81014 (- 13), Lin 84699 70,
     Lin 46056 26, Lin 146080 58, Lin 356647 84]"

definition script_3019 :: js_script where
  "script_3019 = \<lparr>seed = 3019, funs = fns_3019_0\<rparr>"

section \<open>The tables respect the ranges of the generator\<close>

lemma gen_fns_3015_0 [table_checks]: "list_all gen_fun fns_3015_0" "length fns_3015_0 = 149"
  by (simp_all add: fns_3015_0_def gen_fun_def)

lemma gen_fns_3015_1 [table_checks]: "list_all gen_fun fns_3015_1" "length fns_3015_1 = 143"
  by (simp_all add: fns_3015_1_def gen_fun_def)

lemma gen_script_3015 [table_checks]: "gen_script script_3015" "seed script_3015 = 3015" "length (funs script_3015) = 292"
  by (simp_all add: script_3015_def gen_script_def gen_fns_3015_0 gen_fns_3015_1)

lemma gen_fns_3016_0 [table_checks]: "list_all gen_fun fns_3016_0" "length fns_3016_0 = 149"
  by (simp_all add: fns_3016_0_def gen_fun_def)

lemma gen_fns_3016_1 [table_checks]: "list_all gen_fun fns_3016_1" "length fns_3016_1 = 149"
  by (simp_all add: fns_3016_1_def gen_fun_def)

lemma gen_fns_3016_2 [table_checks]: "list_all gen_fun fns_3016_2" "length fns_3016_2 = 149"
  by (simp_all add: fns_3016_2_def gen_fun_def)

lemma gen_fns_3016_3 [table_checks]: "list_all gen_fun fns_3016_3" "length fns_3016_3 = 16"
  by (simp_all add: fns_3016_3_def gen_fun_def)

lemma gen_script_3016 [table_checks]: "gen_script script_3016" "seed script_3016 = 3016" "length (funs script_3016) = 463"
  by (simp_all add: script_3016_def gen_script_def gen_fns_3016_0 gen_fns_3016_1 gen_fns_3016_2 gen_fns_3016_3)

lemma gen_fns_3017_0 [table_checks]: "list_all gen_fun fns_3017_0" "length fns_3017_0 = 149"
  by (simp_all add: fns_3017_0_def gen_fun_def)

lemma gen_fns_3017_1 [table_checks]: "list_all gen_fun fns_3017_1" "length fns_3017_1 = 109"
  by (simp_all add: fns_3017_1_def gen_fun_def)

lemma gen_script_3017 [table_checks]: "gen_script script_3017" "seed script_3017 = 3017" "length (funs script_3017) = 258"
  by (simp_all add: script_3017_def gen_script_def gen_fns_3017_0 gen_fns_3017_1)

lemma gen_fns_3018_0 [table_checks]: "list_all gen_fun fns_3018_0" "length fns_3018_0 = 147"
  by (simp_all add: fns_3018_0_def gen_fun_def)

lemma gen_script_3018 [table_checks]: "gen_script script_3018" "seed script_3018 = 3018" "length (funs script_3018) = 147"
  by (simp_all add: script_3018_def gen_script_def gen_fns_3018_0)

lemma gen_fns_3019_0 [table_checks]: "list_all gen_fun fns_3019_0" "length fns_3019_0 = 98"
  by (simp_all add: fns_3019_0_def gen_fun_def)

lemma gen_script_3019 [table_checks]: "gen_script script_3019" "seed script_3019 = 3019" "length (funs script_3019) = 98"
  by (simp_all add: script_3019_def gen_script_def gen_fns_3019_0)

end
