(* ===== verification/Js_Scripts_E.thy ===== *)
theory Js_Scripts_E
  imports Js_Function
begin

text \<open>
  The declarations of \<open>src/sample-assets-small/script-0020.js\<close> to \<open>script-0024.js\<close>, in the order
  of the files: \<open>Lin c k\<close> on line \<open>i + 2\<close> of a file stands for the body \<open>return x * 0.c + k;\<close> of its function
  number \<open>i\<close>, with the six decimals \<open>c\<close> read as a natural number.
\<close>

section \<open>script-0020.js\<close>

text \<open>Functions 0 to 98.\<close>

definition fns_3020_0 :: "js_fun list" where
  "fns_3020_0 = [
     Lin 435509 17, Lin 266331 4, Lin 893334 (- 39), Lin 636789 (- 75), Lin 39110 (- 61),
     Lin 604820 92, Lin 574734 (- 73), Lin 605489 33, Lin 163312 (- 9), Lin 249385 (- 56),
     Lin 515446 (- 27), Lin 873754 12, Lin 384897 76, Lin 857889 (- 30), Lin 841754 3,
     Lin 218372 (- 96), Lin 868889 (- 22), Lin 304743 51, Lin 9009 (- 92), Lin 666872 5,
     Lin 942857 83, Lin 499782 (- 94), Lin 158071 58, Lin 722388 (- 18), Lin 525844 (- 89),
     Lin 633660 (- 44), Lin 392081 60, Lin 819653 (- 11), Lin 828096 (- 100), Lin 157158 1,
     Lin 735443 (- 4), Lin 680897 (- 89), Lin 767561 (- 43), Lin 697529 (- 63), Lin 842251 21,
     Lin 135766 (- 46), Lin 878421 89, Lin 766862 (- 93), Lin 208046 57, Lin 90188 73,
     Lin 734747 (- 80), Lin 74174 (- 64), Lin 350478 (- 52), Lin 721531 69, Lin 324220 (- 31),
     Lin 521304 81, Lin 557 (- 85), Lin 772617 99, Lin 179216 (- 100), Lin 354629 (- 62),
     Lin 259865 63, Lin 42179 (- 52), Lin 413841 52, Lin 292139 (- 80), Lin 604273 (- 84),
     Lin 60154 (- 33), Lin 766584 (- 28), Lin 47096 (- 45), Lin 537312 71, Lin 702404 (- 58),
     Lin 718865 16, Lin 635247 (- 25), Lin 616703 (- 20), Lin 934822 (- 79), Lin 97280 (- 54),
     Lin 874264 (- 21), Lin 119955 (- 70), Lin 675072 (- 61), Lin 469428 6, Lin 14199 33,
     Lin 11296 (- 81), Lin 897943 (- 10), Lin 408991 (- 76), Lin 180770 (- 28), Lin 436409 83,
     Lin 953974 87, Lin 747594 (- 1), Lin 923579 (- 100), Lin 524815 82, Lin 826016 (- 12),
     Lin 440216 15, Lin 647224 (- 75), Lin 130600 (- 20), Lin 553089 21, Lin 938327 31,
     Lin 245529 69, Lin 57801 (- 1), Lin 722749 (- 78), Lin 787883 20, Lin 107858 99,
     Lin 912437 (- 67), Lin 525605 93, Lin 306205 (- 56), Lin 377752 5, Lin 729444 27,
     Lin 455170 (- 54), Lin 485681 (- 6), Lin 284867 46, Lin 415211 (- 70)]"

definition script_3020 :: js_script where
  "script_3020 = \<lparr>seed = 3020, funs = fns_3020_0\<rparr>"

section \<open>script-0021.js\<close>

text \<open>Functions 0 to 148.\<close>

definition fns_3021_0 :: "js_fun list" where
  "fns_3021_0 = [
     Lin 607389 (- 96), Lin 2926 67, Lin 254380 (- 29), Lin 985921 (- 7), Lin 493597 (- 45),
     Lin 45789 (- 58), Lin 186335 89, Lin 998540 54, Lin 395979 18, Lin 750099 (- 91),
     Lin 465495 (- 56), Lin 547112 11, Lin 718988 (- 38), Lin 677912 (- 56), Lin 614772 (- 83),
     Lin 209159 (- 75), Lin 911887 (- 62), Lin 468953 56, Lin 216923 (- 63), Lin 915211 30,
     Lin 922920 91, Lin 918821 (- 91), Lin 571404 39, Lin 20927 96, Lin 413129 56,
     Lin 277806 52, Lin 405108 49, Lin 125597 (- 88), Lin 403571 46, Lin 961353 (- 58),
     Lin 891987 22, Lin 895665 16, Lin 449363 (- 92), Lin 24423 30, Lin 426779 23,
     Lin 785734 (- 38), Lin 630590 (- 86), Lin 249960 (- 10), Lin 511082 64, Lin 628636 64,
     Lin 665798 0, Lin 364743 76, Lin 9586 (- 2), Lin 493439 68, Lin 750807 69,
     Lin 476961 (- 86), Lin 441448 86, Lin 351155 66, Lin 336103 7, Lin 148990 80,
     Lin 679577 (- 35), Lin 467326 (- 86), Lin 183242 60, Lin 352061 30, Lin 889806 38,
     Lin 270615 (- 31), Lin 619116 (- 89), Lin 290147 (- 84), Lin 761986 95, Lin 998093 78,
     Lin 419400 (- 94), Lin 71015 (- 30), Lin 871627 (- 67), Lin 472341 (- 73), Lin 89907 (- 45),
     Lin 590825 (- 5), Lin 767138 57, Lin 485825 69, Lin 955082 99, Lin 685506 (- 33),
     Lin 715442 53, Lin 174500 (- 29), Lin 693474 31, Lin 792465 20, Lin 915119 (- 76),
     Lin 845755 70, Lin 494604 44, Lin 50215 (- 79), Lin 353412 51, Lin 370886 72,
     Lin 109218 (- 50), Lin 66358 (- 75), Lin 362414 86, Lin 960034 (- 7), Lin 661595 62,
     Lin 492145 61, Lin 775827 80, Lin 948394 (- 35), Lin 564551 99, Lin 13612 90,
     Lin 850773 (- 86), Lin 389131 (- 78), Lin 490722 68, Lin 993091 (- 99), Lin 889304 (- 68),
     Lin 812811 84, Lin 868839 25, Lin 716644 (- 21), Lin 974697 30, Lin 480270 36,
     Lin 752963 76, Lin 106653 (- 27), Lin 588711 55, Lin 994258 63, Lin 91645 (- 64),
     Lin 839608 (- 36), Lin 534372 27, Lin 740375 86, Lin 323562 (- 50), Lin 143068 34,
     Lin 367794 87, Lin 936890 (- 65), Lin 309963 15, Lin 978269 52, Lin 194599 13,
     Lin 990366 20, Lin 175276 (- 10), Lin 287769 (- 45), Lin 240982 76, Lin 701882 53,
     Lin 736467 (- 60), Lin 498788 (- 54), Lin 215657 100, Lin 71033 (- 44), Lin 622459 (- 22),
     Lin 910858 43, Lin 113700 (- 56), Lin 112882 (- 21), Lin 284690 31, Lin 850598 43,
     Lin 544952 21, Lin 333425 36, Lin 2546 (- 30), Lin 474403 (- 60), Lin 644264 (- 8),
     Lin 998286 (- 94), Lin 193039 81, Lin 294453 93, Lin 213434 5, Lin 240622 (- 15),
     Lin 989117 (- 6), Lin 510402 (- 40), Lin 326605 (- 66), Lin 321388 90, Lin 847234 54,
     Lin 688844 (- 55), Lin 707522 5, Lin 907596 (- 26), Lin 814430 75]"

text \<open>Functions 149 to 297.\<close>

definition fns_3021_1 :: "js_fun list" where
  "fns_3021_1 = [
     Lin 524963 (- 95), Lin 764257 (- 30), Lin 486728 (- 79), Lin 61151 (- 55), Lin 565106 (- 38),
     Lin 787977 (- 13), Lin 426265 100, Lin 332162 33, Lin 451787 (- 12), Lin 816941 18,
     Lin 188283 (- 63), Lin 29207 (- 99), Lin 185686 61, Lin 204335 21, Lin 79898 (- 49),
     Lin 582227 88, Lin 655933 13, Lin 467948 (- 35), Lin 324030 (- 46), Lin 3612 14,
     Lin 181463 8, Lin 474425 19, Lin 422590 58, Lin 703487 31, Lin 32640 20,
     Lin 985889 29, Lin 94940 44, Lin 140475 1, Lin 697569 (- 55), Lin 936160 76,
     Lin 564881 43, Lin 463696 13, Lin 854035 70, Lin 694566 (- 86), Lin 252321 0,
     Lin 145296 4, Lin 873006 75, Lin 992409 50, Lin 391631 (- 12), Lin 300390 (- 64),
     Lin 248730 99, Lin 144049 (- 19), Lin 652394 (- 8), Lin 455550 (- 12), Lin 293295 99,
     Lin 808508 63, Lin 799048 (- 40), Lin 427086 86, Lin 13768 (- 3), Lin 610209 45,
     Lin 359029 67, Lin 870325 17, Lin 862923 87, Lin 984548 49, Lin 21055 (- 27),
     Lin 618151 (- 76), Lin 803873 (- 98), Lin 834803 (- 32), Lin 296834 (- 17), Lin 261186 (- 50),
     Lin 807577 (- 95), Lin 76564 60, Lin 603170 (- 8), Lin 460989 (- 27), Lin 296469 (- 81),
     Lin 71181 (- 49), Lin 716739 (- 25), Lin 3516 5, Lin 385914 3, Lin 87221 23,
     Lin 333059 26, Lin 557554 72, Lin 293710 95, Lin 748472 38, Lin 2262 45,
     Lin 203135 (- 86), Lin 982036 46, Lin 239212 29, Lin 594814 78, Lin 174812 75,
     Lin 151980 43, Lin 618401 (- 37), Lin 448431 31, Lin 306868 (- 9), Lin 719047 63,
     Lin 192269 (- 55), Lin 968703 (- 37), Lin 727297 (- 85), Lin 748782 0, Lin 126258 (- 31),
     Lin 798609 (- 11), Lin 102181 (- 5), Lin 709085 (- 18), Lin 746093 (- 70), Lin 335412 (- 6),
     Lin 103868 (- 19), Lin 947420 23, Lin 578228 87, Lin 414122 23, Lin 128490 15,
     Lin 813239 73, Lin 547768 38, Lin 859651 (- 95), Lin 408122 (- 87), Lin 144802 5,
     Lin 632584 38, Lin 292470 71, Lin 844726 (- 92), Lin 950738 38, Lin 526495 (- 66),
     Lin 449942 77, Lin 487661 (- 27), Lin 523369 (- 77), Lin 191434 (- 51), Lin 422561 66,
     Lin 57016 76, Lin 818350 (- 79), Lin 551191 84, Lin 90395 (- 4), Lin 678625 35,
     Lin 135244 32, Lin 742628 (- 10), Lin 955265 (- 78), Lin 889463 (- 93), Lin 268986 24,
     Lin 522021 40, Lin 723269 (- 65), Lin 148110 (- 91), Lin 656529 (- 43), Lin 174165 35,
     Lin 674374 (- 93), Lin 40197 67, Lin 988673 91, Lin 226476 (- 32), Lin 444590 (- 30),
     Lin 236954 (- 33), Lin 379862 22, Lin 230980 (- 90), Lin 264246 (- 60), Lin 620386 65,
     Lin 367267 97, Lin 100474 (- 11), Lin 355814 58, Lin 416943 (- 84), Lin 304179 54,
     Lin 572972 99, Lin 566393 (- 27), Lin 936172 97, Lin 781643 49]"

text \<open>Functions 298 to 386.\<close>

definition fns_3021_2 :: "js_fun list" where
  "fns_3021_2 = [
     Lin 228953 44, Lin 716749 58, Lin 161324 100, Lin 802786 2, Lin 373692 (- 79),
     Lin 320310 (- 29), Lin 23201 68, Lin 754107 15, Lin 992123 64, Lin 979452 (- 87),
     Lin 275846 93, Lin 836828 (- 52), Lin 478347 90, Lin 156419 (- 8), Lin 793458 (- 19),
     Lin 60349 (- 2), Lin 857652 81, Lin 23672 86, Lin 771598 3, Lin 120072 65,
     Lin 91876 20, Lin 203831 62, Lin 837259 5, Lin 429582 (- 96), Lin 887014 26,
     Lin 690699 (- 77), Lin 429515 43, Lin 707261 81, Lin 241730 33, Lin 342166 33,
     Lin 283600 1, Lin 331804 45, Lin 912642 (- 97), Lin 296145 (- 81), Lin 203952 16,
     Lin 198415 59, Lin 167493 (- 10), Lin 999466 (- 1), Lin 184338 63, Lin 459942 (- 23),
     Lin 958312 (- 52), Lin 751711 64, Lin 622925 44, Lin 632864 27, Lin 899756 (- 64),
     Lin 257465 70, Lin 375339 (- 66), Lin 70439 (- 75), Lin 127304 91, Lin 720777 17,
     Lin 925022 9, Lin 24226 (- 4), Lin 195276 (- 52), Lin 30562 (- 22), Lin 380436 44,
     Lin 454153 98, Lin 358184 33, Lin 761565 (- 94), Lin 121470 (- 82), Lin 864382 (- 15),
     Lin 785307 73, Lin 460446 (- 73), Lin 313299 (- 19), Lin 374441 (- 18), Lin 589359 81,
     Lin 578669 81, Lin 261568 (- 48), Lin 926362 (- 65), Lin 835166 62, Lin 858420 8,
     Lin 55096 (- 96), Lin 336687 (- 57), Lin 865915 (- 86), Lin 69538 3, Lin 830906 (- 54),
     Lin 969961 7, Lin 632267 (- 85), Lin 445806 53, Lin 781438 24, Lin 998721 (- 45),
     Lin 860476 49, Lin 765296 69, Lin 785079 (- 23), Lin 417870 31, Lin 171305 2,
     Lin 141173 (- 19), Lin 920401 62, Lin 163073 (- 50), Lin 82973 67]"

definition script_3021 :: js_script where
  "script_3021 = \<lparr>seed = 3021, funs = fns_3021_0 @ fns_3021_1 @ fns_3021_2\<rparr>"

section \<open>script-0022.js\<close>

text \<open>Functions 0 to 148.\<close>

definition fns_3022_0 :: "js_fun list" where
  "fns_3022_0 = [
     Lin 450257 (- 65), Lin 410400 (- 26), Lin 160247 11, Lin 413709 28, Lin 508961 (- 46),
     Lin 567764 6, Lin 27571 (- 98), Lin 300846 28, Lin 544070 (- 47), Lin 959614 24,
     Lin 789004 58, Lin 702340 (- 52), Lin 228422 85, Lin 239597 56, Lin 256362 9,
     Lin 668636 (- 97), Lin 365351 62, Lin 759715 18, Lin 850700 79, Lin 3521 90,
     Lin 504501 46, Lin 766470 (- 11), Lin 712635 (- 26), Lin 597794 96, Lin 225062 33,
     Lin 191373 98, Lin 889118 28, Lin 665444 13, Lin 79403 (- 44), Lin 403949 (- 17),
     Lin 543556 (- 62), Lin 209608 36, Lin 980657 93, Lin 933151 54, Lin 609535 98,
     Lin 180145 (- 50), Lin 921319 75, Lin 481632 9, Lin 244817 32, Lin 609799 (- 26),
     Lin 945490 1, Lin 288265 (- 47), Lin 86710 (- 45), Lin 42923 76, Lin 343767 (- 50),
     Lin 477374 78, Lin 570416 (- 5), Lin 335757 64, Lin 697099 (- 69), Lin 530505 (- 18),
     Lin 366308 12, Lin 458143 72, Lin 822133 84, Lin 337788 (- 6), Lin 215555 (- 77),
     Lin 575232 72, Lin 428130 18, Lin 327551 (- 65), Lin 947324 (- 51), Lin 829029 (- 99),
     Lin 432904 9, Lin 630041 (- 86), Lin 618410 96, Lin 95983 (- 93), Lin 990328 (- 76),
     Lin 79496 32, Lin 866094 (- 23), Lin 814435 95, Lin 254335 31, Lin 109511 (- 35),
     Lin 649013 39, Lin 70222 (- 40), Lin 925659 (- 33), Lin 407177 (- 83), Lin 428077 22,
     Lin 21536 (- 6), Lin 312034 26, Lin 725830 (- 33), Lin 944912 (- 47), Lin 83163 (- 5),
     Lin 568970 (- 68), Lin 286949 (- 20), Lin 37279 95, Lin 440118 8, Lin 846481 52,
     Lin 214732 80, Lin 567116 (- 14), Lin 307891 (- 72), Lin 710703 (- 9), Lin 33009 (- 40),
     Lin 673309 3, Lin 849151 (- 44), Lin 203083 (- 82), Lin 670933 22, Lin 960817 (- 36),
     Lin 906304 (- 6), Lin 7198 (- 57), Lin 947529 (- 68), Lin 751190 (- 27), Lin 188536 (- 12),
     Lin 951738 12, Lin 235227 100, Lin 166027 67, Lin 447911 4, Lin 892538 15,
     Lin 595456 1, Lin 182089 (- 80), Lin 126581 0, Lin 212004 (- 39), Lin 845385 59,
     Lin 789646 (- 55), Lin 160357 (- 30), Lin 763395 (- 82), Lin 614645 68, Lin 758241 72,
     Lin 468062 99, Lin 19940 56, Lin 649029 71, Lin 719278 (- 89), Lin 262114 (- 76),
     Lin 75735 18, Lin 281845 91, Lin 247746 (- 21), Lin 633910 76, Lin 682219 (- 89),
     Lin 50368 13, Lin 441798 (- 63), Lin 75080 (- 45), Lin 279302 34, Lin 677444 2,
     Lin 7641 62, Lin 527670 92, Lin 322589 (- 36), Lin 73339 47, Lin 140350 93,
     Lin 159579 24, Lin 181818 5, Lin 644317 19, Lin 637057 66, Lin 829359 (- 9),
     Lin 769410 90, Lin 564184 65, Lin 331670 26, Lin 653800 (- 9), Lin 159530 (- 100),
     Lin 348426 10, Lin 695930 36, Lin 866957 (- 19), Lin 3526 83]"

text \<open>Functions 149 to 269.\<close>

definition fns_3022_1 :: "js_fun list" where
  "fns_3022_1 = [
     Lin 107969 (- 88), Lin 352111 47, Lin 309581 67, Lin 246546 2, Lin 162245 (- 78),
     Lin 337368 (- 48), Lin 333560 93, Lin 237195 (- 76), Lin 530424 24, Lin 751512 (- 62),
     Lin 769365 70, Lin 172865 (- 19), Lin 682336 39, Lin 448748 38, Lin 618885 11,
     Lin 270227 63, Lin 780072 (- 88), Lin 164174 (- 92), Lin 200475 (- 60), Lin 358339 (- 62),
     Lin 764956 (- 95), Lin 680007 (- 98), Lin 312785 8, Lin 888799 (- 24), Lin 267233 (- 85),
     Lin 9603 (- 45), Lin 644456 1, Lin 838569 83, Lin 985966 (- 58), Lin 949175 8,
     Lin 494915 (- 99), Lin 800694 93, Lin 472333 59, Lin 815461 (- 41), Lin 24598 2,
     Lin 352117 (- 47), Lin 805798 26, Lin 440479 11, Lin 639629 (- 87), Lin 274574 20,
     Lin 645902 (- 44), Lin 635660 (- 12), Lin 128904 25, Lin 852192 77, Lin 909565 32,
     Lin 165785 (- 13), Lin 699932 (- 11), Lin 160851 (- 42), Lin 242323 27, Lin 589912 (- 67),
     Lin 902170 14, Lin 365499 (- 7), Lin 455463 (- 68), Lin 497870 3, Lin 812534 (- 98),
     Lin 95847 (- 9), Lin 195442 38, Lin 907926 15, Lin 211232 46, Lin 502282 (- 78),
     Lin 945815 58, Lin 1136 (- 84), Lin 793006 (- 67), Lin 917424 (- 84), Lin 431091 (- 66),
     Lin 628923 47, Lin 205013 79, Lin 316104 45, Lin 884544 66, Lin 892275 (- 37),
     Lin 674862 (- 41), Lin 834787 (- 96), Lin 795996 79, Lin 926752 (- 88), Lin 949652 88,
     Lin 461812 63, Lin 314990 (- 16), Lin 810360 7, Lin 314959 51, Lin 680972 4,
     Lin 773988 (- 73), Lin 779176 (- 28), Lin 832514 80, Lin 260505 (- 93), Lin 1977 25,
     Lin 631389 (- 18), Lin 439726 (- 43), Lin 120792 61, Lin 731115 (- 48), Lin 849888 80,
     Lin 412284 82, Lin 453557 68, Lin 794 (- 57), Lin 775601 (- 96), Lin 922172 9,
     Lin 807401 80, Lin 910091 41, Lin 161429 (- 97), Lin 219425 (- 32), Lin 560133 (- 64),
     Lin 609605 (- 35), Lin 136472 (- 11), Lin 928443 19, Lin 167111 91, Lin 249999 31,
     Lin 888416 24, Lin 836330 (- 38), Lin 542858 28, Lin 562802 41, Lin 741781 87,
     Lin 508010 (- 45), Lin 649818 (- 19), Lin 769732 53, Lin 413815 61, Lin 160949 64,
     Lin 896934 (- 86), Lin 821025 (- 7), Lin 768929 (- 23), Lin 807157 (- 14), Lin 472249 (- 19),
     Lin 535407 (- 46)]"

definition script_3022 :: js_script where
  "script_3022 = \<lparr>seed = 3022, funs = fns_3022_0 @ fns_3022_1\<rparr>"

section \<open>script-0023.js\<close>

text \<open>Functions 0 to 148.\<close>

definition fns_3023_0 :: "js_fun list" where
  "fns_3023_0 = [
     Lin 577962 7, Lin 834833 89, Lin 474179 7, Lin 994171 (- 47), Lin 266406 (- 44),
     Lin 337761 23, Lin 837430 (- 68), Lin 946246 (- 80), Lin 146258 70, Lin 208648 19,
     Lin 146095 (- 98), Lin 173653 93, Lin 415289 (- 6), Lin 711589 (- 18), Lin 660418 (- 27),
     Lin 471363 (- 10), Lin 805890 (- 85), Lin 466043 (- 33), Lin 441209 (- 98), Lin 200343 (- 50),
     Lin 14739 (- 3), Lin 155763 (- 26), Lin 692365 (- 56), Lin 650644 55, Lin 752841 (- 91),
     Lin 789689 72, Lin 718073 13, Lin 40789 (- 2), Lin 836357 (- 36), Lin 29603 38,
     Lin 780686 (- 47), Lin 901327 47, Lin 936315 (- 23), Lin 35929 18, Lin 189406 (- 46),
     Lin 982106 (- 97), Lin 886757 87, Lin 688471 (- 98), Lin 454821 54, Lin 824320 52,
     Lin 594412 32, Lin 465483 9, Lin 720897 (- 97), Lin 951623 (- 75), Lin 105423 80,
     Lin 445443 73, Lin 215856 (- 94), Lin 5025 10, Lin 378223 (- 88), Lin 983436 (- 87),
     Lin 841614 28, Lin 5663 55, Lin 911391 (- 5), Lin 172927 (- 88), Lin 803097 43,
     Lin 55517 91, Lin 419910 (- 73), Lin 621571 (- 49), Lin 378566 71, Lin 653772 (- 51),
     Lin 793251 (- 27), Lin 101937 89, Lin 936775 (- 9), Lin 318909 (- 17), Lin 900055 (- 6),
     Lin 77212 62, Lin 76026 81, Lin 876755 45, Lin 661382 96, Lin 246949 13,
     Lin 128879 (- 22), Lin 555268 (- 62), Lin 105789 33, Lin 490669 (- 60), Lin 428729 (- 81),
     Lin 69420 (- 62), Lin 595645 1, Lin 499300 (- 95), Lin 603603 33, Lin 596932 88,
     Lin 837506 (- 64), Lin 724840 85, Lin 192163 (- 47), Lin 783529 (- 7), Lin 416550 (- 44),
     Lin 390557 (- 4), Lin 406517 74, Lin 540924 80, Lin 785398 8, Lin 106545 99,
     Lin 482057 (- 43), Lin 979741 (- 26), Lin 910184 (- 45), Lin 746488 28, Lin 619097 95,
     Lin 287512 (- 67), Lin 53803 4, Lin 121058 (- 60), Lin 393397 (- 84), Lin 23838 87,
     Lin 460314 10, Lin 687268 (- 18), Lin 546210 (- 96), Lin 154726 67, Lin 534477 54,
     Lin 820725 (- 22), Lin 428969 55, Lin 355799 (- 81), Lin 883569 3, Lin 260929 28,
     Lin 133075 85, Lin 695228 (- 25), Lin 861379 (- 45), Lin 978573 (- 28), Lin 443640 57,
     Lin 10209 41, Lin 128706 23, Lin 688558 (- 47), Lin 155569 (- 95), Lin 974436 33,
     Lin 738303 89, Lin 348414 77, Lin 353839 (- 18), Lin 598893 (- 17), Lin 554203 (- 64),
     Lin 873253 21, Lin 580875 89, Lin 673035 (- 45), Lin 351966 41, Lin 949654 (- 83),
     Lin 226837 (- 4), Lin 415075 (- 49), Lin 306859 (- 98), Lin 773882 (- 62), Lin 137957 (- 58),
     Lin 158827 31, Lin 244672 17, Lin 50620 (- 42), Lin 532029 68, Lin 28887 34,
     Lin 524635 23, Lin 787723 (- 96), Lin 969070 29, Lin 147634 (- 59), Lin 220933 (- 44),
     Lin 939799 (- 19), Lin 464873 (- 14), Lin 142487 (- 84), Lin 471309 (- 30)]"

text \<open>Functions 149 to 230.\<close>

definition fns_3023_1 :: "js_fun list" where
  "fns_3023_1 = [
     Lin 146378 60, Lin 327100 (- 43), Lin 140055 31, Lin 101287 (- 70), Lin 222056 (- 93),
     Lin 452155 72, Lin 155694 93, Lin 659330 (- 99), Lin 812304 (- 69), Lin 822900 (- 96),
     Lin 687794 88, Lin 184471 27, Lin 93349 (- 15), Lin 802080 1, Lin 611345 (- 45),
     Lin 760143 (- 87), Lin 849749 (- 86), Lin 483973 10, Lin 79334 (- 79), Lin 16440 89,
     Lin 424368 89, Lin 192364 (- 21), Lin 867131 45, Lin 866033 (- 52), Lin 485635 (- 30),
     Lin 588158 (- 99), Lin 97831 (- 93), Lin 946857 (- 37), Lin 729574 18, Lin 72919 63,
     Lin 401404 67, Lin 120753 (- 37), Lin 899132 13, Lin 851211 12, Lin 363356 (- 29),
     Lin 261729 (- 24), Lin 322702 (- 73), Lin 736720 18, Lin 421456 26, Lin 607954 (- 78),
     Lin 811267 (- 98), Lin 22729 35, Lin 556563 (- 92), Lin 602960 70, Lin 59070 74,
     Lin 938968 35, Lin 964031 (- 9), Lin 348646 (- 14), Lin 8719 27, Lin 573486 (- 10),
     Lin 930644 (- 9), Lin 846904 4, Lin 839352 38, Lin 491101 54, Lin 393194 48,
     Lin 580355 27, Lin 644237 57, Lin 143296 (- 72), Lin 341756 0, Lin 943669 94,
     Lin 807611 19, Lin 737231 (- 59), Lin 940239 77, Lin 358860 90, Lin 332178 70,
     Lin 602901 (- 63), Lin 581020 (- 11), Lin 733865 94, Lin 684237 52, Lin 240448 45,
     Lin 331115 (- 65), Lin 677929 (- 100), Lin 41263 (- 4), Lin 751025 (- 24), Lin 597550 52,
     Lin 454583 1, Lin 461369 98, Lin 989317 (- 77), Lin 88985 (- 44), Lin 126360 17,
     Lin 945842 (- 74), Lin 389580 66]"

definition script_3023 :: js_script where
  "script_3023 = \<lparr>seed = 3023, funs = fns_3023_0 @ fns_3023_1\<rparr>"

section \<open>script-0024.js\<close>

text \<open>Functions 0 to 148.\<close>

definition fns_3024_0 :: "js_fun list" where
  "fns_3024_0 = [
     Lin 143709 (- 73), Lin 304972 (- 47), Lin 529379 62, Lin 470086 (- 87), Lin 557092 95,
     Lin 720313 53, Lin 867663 9, Lin 802827 (- 77), Lin 408858 (- 60), Lin 11081 93,
     Lin 850104 (- 75), Lin 96015 (- 32), Lin 916846 24, Lin 545865 (- 46), Lin 842916 48,
     Lin 358326 (- 50), Lin 612283 (- 25), Lin 345442 76, Lin 177327 (- 48), Lin 143253 (- 63),
     Lin 502842 (- 12), Lin 374293 16, Lin 811049 18, Lin 747903 54, Lin 699923 (- 92),
     Lin 950831 (- 9), Lin 24789 47, Lin 349375 90, Lin 487849 (- 80), Lin 535403 (- 71),
     Lin 191090 (- 17), Lin 694321 (- 76), Lin 761514 62, Lin 332584 (- 47), Lin 326866 (- 57),
     Lin 464372 (- 49), Lin 977238 57, Lin 715676 90, Lin 65617 (- 49), Lin 952379 40,
     Lin 308368 27, Lin 475258 (- 50), Lin 759 (- 13), Lin 77265 (- 91), Lin 615467 (- 68),
     Lin 69807 0, Lin 373022 91, Lin 907458 45, Lin 514419 77, Lin 998363 93,
     Lin 481478 (- 77), Lin 77204 (- 94), Lin 817947 54, Lin 759442 (- 76), Lin 703304 67,
     Lin 961583 (- 68), Lin 898820 38, Lin 900286 37, Lin 204185 (- 9), Lin 953827 67,
     Lin 121850 (- 4), Lin 583488 (- 24), Lin 425654 (- 100), Lin 5763 (- 1), Lin 201871 (- 89),
     Lin 730611 (- 92), Lin 353092 31, Lin 530302 (- 7), Lin 277262 (- 33), Lin 881651 36,
     Lin 126948 18, Lin 535619 (- 8), Lin 99236 53, Lin 135582 54, Lin 217451 (- 73),
     Lin 68735 (- 7), Lin 853019 59, Lin 729549 40, Lin 83041 7, Lin 840035 31,
     Lin 136377 (- 68), Lin 691334 (- 84), Lin 607768 (- 54), Lin 198945 51, Lin 545314 14,
     Lin 722166 29, Lin 207286 (- 41), Lin 896452 (- 48), Lin 199057 20, Lin 241613 (- 13),
     Lin 650165 96, Lin 702737 (- 92), Lin 397125 (- 54), Lin 13779 (- 26), Lin 901338 40,
     Lin 258888 8, Lin 568590 60, Lin 280510 68, Lin 276295 84, Lin 226377 97,
     Lin 38349 2, Lin 919404 (- 73), Lin 57868 52, Lin 353585 (- 100), Lin 259560 5,
     Lin 991547 11, Lin 765754 100, Lin 858376 (- 77), Lin 13679 66, Lin 128863 (- 89),
     Lin 14525 (- 92), Lin 76391 86, Lin 892527 90, Lin 451671 77, Lin 360533 54,
     Lin 445113 50, Lin 67682 36, Lin 771987 10, Lin 30842 66, Lin 330969 87,
     Lin 470146 33, Lin 104233 10, Lin 710416 (- 76), Lin 504387 (- 42), Lin 154415 (- 33),
     Lin 28800 35, Lin 931082 59, Lin 347915 (- 71), Lin 850809 (- 31), Lin 533780 17,
     Lin 728967 (- 56), Lin 477313 (- 71), Lin 516609 (- 39), Lin 605648 19, Lin 303553 (- 68),
     Lin 382038 53, Lin 928501 52, Lin 316572 (- 29), Lin 521200 (- 68), Lin 108523 7,
     Lin 105449 (- 65), Lin 835670 (- 91), Lin 690618 (- 70), Lin 789143 75, Lin 34537 100,
     Lin 821270 (- 81), Lin 130056 42, Lin 928007 (- 24), Lin 707002 (- 4)]"

text \<open>Functions 149 to 265.\<close>

definition fns_3024_1 :: "js_fun list" where
  "fns_3024_1 = [
     Lin 509975 (- 11), Lin 366291 (- 90), Lin 931396 65, Lin 961235 41, Lin 668338 (- 13),
     Lin 767274 (- 38), Lin 750654 (- 39), Lin 953790 (- 90), Lin 636630 (- 92), Lin 180238 (- 21),
     Lin 805507 21, Lin 425913 (- 75), Lin 851799 (- 14), Lin 681437 87, Lin 52573 (- 40),
     Lin 372888 73, Lin 455458 10, Lin 255328 (- 61), Lin 347870 34, Lin 127248 12,
     Lin 321560 (- 73), Lin 867665 74, Lin 105470 46, Lin 310178 (- 46), Lin 11574 (- 68),
     Lin 891393 (- 67), Lin 488008 (- 65), Lin 489043 21, Lin 368902 56, Lin 501933 53,
     Lin 619399 (- 69), Lin 95578 98, Lin 552016 26, Lin 437252 49, Lin 689301 (- 27),
     Lin 330144 85, Lin 194817 (- 23), Lin 586343 19, Lin 842337 42, Lin 883115 97,
     Lin 234987 57, Lin 155864 16, Lin 63082 46, Lin 232190 (- 77), Lin 379313 67,
     Lin 541868 (- 80), Lin 346669 (- 43), Lin 153697 2, Lin 863936 98, Lin 907489 (- 44),
     Lin 670776 (- 89), Lin 884416 6, Lin 697494 30, Lin 729649 4, Lin 456047 (- 5),
     Lin 900519 16, Lin 421061 (- 4), Lin 421981 (- 91), Lin 37574 14, Lin 19214 (- 69),
     Lin 935922 9, Lin 883217 66, Lin 835682 36, Lin 30513 31, Lin 761315 52,
     Lin 629910 73, Lin 18830 95, Lin 340313 27, Lin 518998 20, Lin 22501 22,
     Lin 580313 37, Lin 490763 99, Lin 317984 (- 75), Lin 664508 (- 37), Lin 191931 (- 23),
     Lin 898091 63, Lin 635240 53, Lin 272679 (- 39), Lin 230238 54, Lin 50801 (- 23),
     Lin 111510 35, Lin 607082 15, Lin 452040 100, Lin 856305 27, Lin 812330 95,
     Lin 701993 (- 6), Lin 695099 (- 82), Lin 818503 (- 29), Lin 683054 (- 24), Lin 378631 23,
     Lin 636776 7, Lin 28342 34, Lin 496289 20, Lin 103410 10, Lin 113669 79,
     Lin 505612 3, Lin 916154 (- 87), Lin 540116 15, Lin 726750 (- 23), Lin 15694 39,
     Lin 562429 91, Lin 662427 (- 58), Lin 69521 69, Lin 679422 (- 97), Lin 39188 (- 55),
     Lin 194866 (- 79), Lin 782803 80, Lin 234661 (- 84), Lin 48835 (- 68), Lin 37540 (- 89),
     Lin 324291 95, Lin 634162 (- 13), Lin 61669 (- 82), Lin 555674 93, Lin 534372 11,
     Lin 259841 20, Lin 40429 (- 46)]"

definition script_3024 :: js_script where
  "script_3024 = \<lparr>seed = 3024, funs = fns_3024_0 @ fns_3024_1\<rparr>"

section \<open>The tables respect the ranges of the generator\<close>

lemma gen_fns_3020_0 [table_checks]: "list_all gen_fun fns_3020_0" "length fns_3020_0 = 99"
  by (simp_all add: fns_3020_0_def gen_fun_def)

lemma gen_script_3020 [table_checks]: "gen_script script_3020" "seed script_3020 = 3020" "length (funs script_3020) = 99"
  by (simp_all add: script_3020_def gen_script_def gen_fns_3020_0)

lemma gen_fns_3021_0 [table_checks]: "list_all gen_fun fns_3021_0" "length fns_3021_0 = 149"
  by (simp_all add: fns_3021_0_def gen_fun_def)

lemma gen_fns_3021_1 [table_checks]: "list_all gen_fun fns_3021_1" "length fns_3021_1 = 149"
  by (simp_all add: fns_3021_1_def gen_fun_def)

lemma gen_fns_3021_2 [table_checks]: "list_all gen_fun fns_3021_2" "length fns_3021_2 = 89"
  by (simp_all add: fns_3021_2_def gen_fun_def)

lemma gen_script_3021 [table_checks]: "gen_script script_3021" "seed script_3021 = 3021" "length (funs script_3021) = 387"
  by (simp_all add: script_3021_def gen_script_def gen_fns_3021_0 gen_fns_3021_1 gen_fns_3021_2)

lemma gen_fns_3022_0 [table_checks]: "list_all gen_fun fns_3022_0" "length fns_3022_0 = 149"
  by (simp_all add: fns_3022_0_def gen_fun_def)

lemma gen_fns_3022_1 [table_checks]: "list_all gen_fun fns_3022_1" "length fns_3022_1 = 121"
  by (simp_all add: fns_3022_1_def gen_fun_def)

lemma gen_script_3022 [table_checks]: "gen_script script_3022" "seed script_3022 = 3022" "length (funs script_3022) = 270"
  by (simp_all add: script_3022_def gen_script_def gen_fns_3022_0 gen_fns_3022_1)

lemma gen_fns_3023_0 [table_checks]: "list_all gen_fun fns_3023_0" "length fns_3023_0 = 149"
  by (simp_all add: fns_3023_0_def gen_fun_def)

lemma gen_fns_3023_1 [table_checks]: "list_all gen_fun fns_3023_1" "length fns_3023_1 = 82"
  by (simp_all add: fns_3023_1_def gen_fun_def)

lemma gen_script_3023 [table_checks]: "gen_script script_3023" "seed script_3023 = 3023" "length (funs script_3023) = 231"
  by (simp_all add: script_3023_def gen_script_def gen_fns_3023_0 gen_fns_3023_1)

lemma gen_fns_3024_0 [table_checks]: "list_all gen_fun fns_3024_0" "length fns_3024_0 = 149"
  by (simp_all add: fns_3024_0_def gen_fun_def)

lemma gen_fns_3024_1 [table_checks]: "list_all gen_fun fns_3024_1" "length fns_3024_1 = 117"
  by (simp_all add: fns_3024_1_def gen_fun_def)

lemma gen_script_3024 [table_checks]: "gen_script script_3024" "seed script_3024 = 3024" "length (funs script_3024) = 266"
  by (simp_all add: script_3024_def gen_script_def gen_fns_3024_0 gen_fns_3024_1)

end
