(* ===== verification/Js_Scripts_F.thy ===== *)
theory Js_Scripts_F
  imports Js_Function
begin

text \<open>
  The declarations of \<open>src/sample-assets-small/script-0025.js\<close> to \<open>script-0029.js\<close>, in the order
  of the files: \<open>Lin c k\<close> on line \<open>i + 2\<close> of a file stands for the body \<open>return x * 0.c + k;\<close> of its function
  number \<open>i\<close>, with the six decimals \<open>c\<close> read as a natural number.
\<close>

section \<open>script-0025.js\<close>

text \<open>Functions 0 to 148.\<close>

definition fns_3025_0 :: "js_fun list" where
  "fns_3025_0 = [
     Lin 52512 (- 22), Lin 774066 (- 49), Lin 540860 87, Lin 378705 88, Lin 301399 62,
     Lin 317207 21, Lin 251916 (- 80), Lin 826429 (- 41), Lin 799063 40, Lin 547901 (- 58),
     Lin 123566 (- 9), Lin 420412 (- 97), Lin 970894 (- 54), Lin 808049 (- 71), Lin 987845 (- 91),
     Lin 638159 83, Lin 413207 39, Lin 395564 46, Lin 946690 40, Lin 651939 52,
     Lin 360237 (- 89), Lin 374098 88, Lin 238280 (- 20), Lin 82816 8, Lin 919722 40,
     Lin 601211 29, Lin 373542 43, Lin 459460 70, Lin 513295 (- 21), Lin 144440 (- 37),
     Lin 566520 86, Lin 220385 40, Lin 271190 48, Lin 266443 (- 72), Lin 650421 18,
     Lin 511506 51, Lin 279456 40, Lin 33318 5, Lin 354846 46, Lin 151773 (- 51),
     Lin 153703 40, Lin 596006 (- 34), Lin 434380 56, Lin 283276 (- 9), Lin 775385 (- 52),
     Lin 188795 (- 27), Lin 668101 67, Lin 331750 (- 81), Lin 377669 (- 13), Lin 537050 (- 45),
     Lin 441639 (- 56), Lin 171370 23, Lin 138827 50, Lin 756109 81, Lin 948736 83,
     Lin 638356 (- 79), Lin 924134 (- 46), Lin 809736 100, Lin 783774 (- 1), Lin 196188 73,
     Lin 220217 37, Lin 818362 28, Lin 960323 14, Lin 40394 50, Lin 766427 3,
     Lin 685628 65, Lin 800291 5, Lin 273315 (- 16), Lin 535698 (- 33), Lin 863718 (- 72),
     Lin 712938 47, Lin 983713 94, Lin 88021 28, Lin 242717 (- 51), Lin 45241 (- 32),
     Lin 398704 (- 27), Lin 28451 26, Lin 324078 (- 32), Lin 940865 70, Lin 872423 75,
     Lin 837563 (- 78), Lin 164525 87, Lin 338253 8, Lin 142064 (- 48), Lin 463204 50,
     Lin 975957 (- 84), Lin 602038 85, Lin 390688 (- 6), Lin 775366 28, Lin 574932 37,
     Lin 286594 (- 69), Lin 847035 (- 58), Lin 510312 (- 41), Lin 844234 44, Lin 747830 (- 11),
     Lin 429648 (- 55), Lin 560623 54, Lin 230798 (- 35), Lin 351029 49, Lin 363680 41,
     Lin 772955 (- 51), Lin 108005 20, Lin 733064 99, Lin 79564 8, Lin 35327 (- 24),
     Lin 929595 47, Lin 37142 (- 52), Lin 891295 44, Lin 505028 (- 31), Lin 659872 (- 64),
     Lin 336084 34, Lin 627357 (- 64), Lin 99365 (- 90), Lin 650221 (- 29), Lin 337295 (- 76),
     Lin 572921 88, Lin 877020 81, Lin 427261 60, Lin 608697 61, Lin 813012 11,
     Lin 654106 93, Lin 734822 (- 18), Lin 888036 (- 2), Lin 881506 82, Lin 678980 (- 86),
     Lin 619933 (- 12), Lin 509598 69, Lin 827059 (- 21), Lin 114975 75, Lin 737748 8,
     Lin 379957 55, Lin 294343 (- 86), Lin 131981 (- 54), Lin 30749 82, Lin 770447 56,
     Lin 380581 (- 91), Lin 296047 4, Lin 755663 (- 98), Lin 541313 46, Lin 163647 (- 93),
     Lin 418935 83, Lin 87838 (- 39), Lin 879163 (- 41), Lin 958020 (- 73), Lin 941985 11,
     Lin 687117 (- 94), Lin 694657 70, Lin 177379 7, Lin 293903 31]"

text \<open>Functions 149 to 259.\<close>

definition fns_3025_1 :: "js_fun list" where
  "fns_3025_1 = [
     Lin 368712 59, Lin 172664 53, Lin 244067 (- 80), Lin 26484 53, Lin 498647 40,
     Lin 281515 (- 67), Lin 59437 (- 30), Lin 221808 99, Lin 350131 97, Lin 562904 11,
     Lin 963946 (- 96), Lin 557231 40, Lin 611665 (- 95), Lin 353239 83, Lin 178174 39,
     Lin 872570 (- 44), Lin 945343 29, Lin 893051 (- 43), Lin 629559 16, Lin 203014 (- 93),
     Lin 235053 85, Lin 369898 (- 42), Lin 929326 13, Lin 929500 (- 90), Lin 324515 (- 91),
     Lin 428680 58, Lin 841430 (- 33), Lin 865615 (- 18), Lin 720294 2, Lin 652882 93,
     Lin 751547 78, Lin 735998 93, Lin 491999 92, Lin 380924 31, Lin 875587 (- 14),
     Lin 187576 27, Lin 837169 82, Lin 542586 (- 75), Lin 949796 (- 32), Lin 548814 (- 25),
     Lin 9745 49, Lin 763494 20, Lin 819306 (- 47), Lin 792235 (- 45), Lin 620862 (- 41),
     Lin 221553 10, Lin 675415 (- 92), Lin 84981 (- 12), Lin 664572 63, Lin 840828 65,
     Lin 158082 57, Lin 725961 (- 9), Lin 97045 (- 4), Lin 645330 (- 9), Lin 997472 57,
     Lin 338827 51, Lin 341289 (- 58), Lin 885343 94, Lin 675433 39, Lin 5838 (- 13),
     Lin 985128 (- 95), Lin 347205 (- 7), Lin 935659 (- 86), Lin 354508 84, Lin 929003 (- 6),
     Lin 430780 85, Lin 100191 0, Lin 285224 (- 46), Lin 228600 66, Lin 610559 (- 96),
     Lin 257550 87, Lin 197742 27, Lin 642389 77, Lin 132403 69, Lin 577358 (- 83),
     Lin 954106 (- 17), Lin 629972 76, Lin 569034 36, Lin 896319 (- 63), Lin 776991 (- 67),
     Lin 987735 (- 77), Lin 642305 40, Lin 655332 3, Lin 798596 (- 20), Lin 501403 (- 20),
     Lin 953509 (- 96), Lin 14485 (- 56), Lin 920922 5, Lin 697225 42, Lin 470256 48,
     Lin 615496 (- 33), Lin 365892 10, Lin 959473 12, Lin 773893 29, Lin 74018 (- 65),
     Lin 321794 28, Lin 4943 15, Lin 596361 (- 98), Lin 424816 (- 61), Lin 111053 (- 24),
     Lin 456415 (- 45), Lin 728788 (- 46), Lin 330503 (- 88), Lin 624095 (- 72), Lin 514979 29,
     Lin 548916 10, Lin 344597 (- 3), Lin 638907 (- 79), Lin 239208 (- 25), Lin 475109 (- 76),
     Lin 188198 (- 83)]"

definition script_3025 :: js_script where
  "script_3025 = \<lparr>seed = 3025, funs = fns_3025_0 @ fns_3025_1\<rparr>"

section \<open>script-0026.js\<close>

text \<open>Functions 0 to 148.\<close>

definition fns_3026_0 :: "js_fun list" where
  "fns_3026_0 = [
     Lin 538316 80, Lin 799596 73, Lin 390963 (- 46), Lin 905975 (- 19), Lin 92186 (- 89),
     Lin 238046 (- 86), Lin 808527 87, Lin 401804 (- 14), Lin 429811 62, Lin 927150 15,
     Lin 970874 81, Lin 116762 (- 90), Lin 351605 42, Lin 137808 (- 11), Lin 139406 (- 27),
     Lin 569556 (- 18), Lin 628665 49, Lin 475277 42, Lin 516194 (- 20), Lin 974749 (- 43),
     Lin 477700 (- 29), Lin 7477 (- 91), Lin 204317 54, Lin 626092 8, Lin 206554 (- 12),
     Lin 633885 (- 11), Lin 787071 (- 15), Lin 496421 (- 82), Lin 122009 (- 8), Lin 268661 (- 6),
     Lin 384070 (- 54), Lin 549153 (- 39), Lin 70711 64, Lin 530747 97, Lin 775760 (- 73),
     Lin 84512 (- 67), Lin 178804 (- 36), Lin 820273 61, Lin 280087 67, Lin 494336 (- 40),
     Lin 325873 (- 43), Lin 746964 (- 16), Lin 279936 (- 4), Lin 51299 (- 27), Lin 94216 (- 5),
     Lin 175667 (- 27), Lin 832874 (- 55), Lin 240045 45, Lin 644023 (- 9), Lin 467194 34,
     Lin 393599 (- 44), Lin 515676 (- 87), Lin 550554 60, Lin 421605 (- 23), Lin 859860 79,
     Lin 660268 1, Lin 876479 49, Lin 211247 18, Lin 739761 (- 3), Lin 924529 19,
     Lin 300846 (- 16), Lin 746095 58, Lin 994328 (- 65), Lin 545147 95, Lin 291254 (- 38),
     Lin 983286 50, Lin 934163 (- 14), Lin 648186 10, Lin 235257 44, Lin 440895 (- 8),
     Lin 834321 26, Lin 481388 (- 15), Lin 237324 (- 79), Lin 524308 70, Lin 618607 14,
     Lin 739563 (- 71), Lin 498527 (- 17), Lin 634941 37, Lin 333349 12, Lin 333225 96,
     Lin 572721 36, Lin 391898 (- 7), Lin 364834 (- 5), Lin 32469 91, Lin 396793 (- 96),
     Lin 69019 31, Lin 999807 100, Lin 884095 (- 90), Lin 883496 31, Lin 355570 86,
     Lin 937773 18, Lin 319347 19, Lin 593355 (- 9), Lin 296140 (- 94), Lin 273465 (- 37),
     Lin 393483 83, Lin 754407 (- 30), Lin 29593 14, Lin 958914 (- 1), Lin 861363 3,
     Lin 649841 64, Lin 796823 46, Lin 373374 72, Lin 143571 71, Lin 246425 96,
     Lin 439578 3, Lin 600234 9, Lin 270493 75, Lin 458969 72, Lin 434617 35,
     Lin 625946 23, Lin 503794 (- 43), Lin 446336 35, Lin 270822 (- 33), Lin 692071 (- 61),
     Lin 496797 34, Lin 967592 77, Lin 147540 (- 33), Lin 987617 97, Lin 246470 98,
     Lin 766687 0, Lin 553097 72, Lin 205062 (- 1), Lin 572614 (- 80), Lin 942953 22,
     Lin 825178 56, Lin 540834 (- 33), Lin 917491 (- 51), Lin 111081 90, Lin 362295 18,
     Lin 491031 5, Lin 606696 81, Lin 486235 (- 46), Lin 458376 65, Lin 757436 (- 57),
     Lin 174060 61, Lin 447001 9, Lin 10152 76, Lin 701725 (- 41), Lin 226740 84,
     Lin 420017 (- 99), Lin 908097 (- 41), Lin 917759 (- 50), Lin 221427 25, Lin 3618 (- 22),
     Lin 626206 (- 13), Lin 468315 (- 40), Lin 137386 (- 8), Lin 739958 (- 97)]"

text \<open>Functions 149 to 288.\<close>

definition fns_3026_1 :: "js_fun list" where
  "fns_3026_1 = [
     Lin 965265 (- 37), Lin 286050 (- 90), Lin 143918 68, Lin 619993 33, Lin 375733 (- 52),
     Lin 754324 55, Lin 761834 100, Lin 647792 (- 91), Lin 418712 (- 93), Lin 668041 (- 73),
     Lin 908402 66, Lin 742373 (- 82), Lin 163911 (- 2), Lin 595876 (- 57), Lin 824853 (- 86),
     Lin 850734 49, Lin 206070 (- 28), Lin 324631 61, Lin 788732 73, Lin 334060 61,
     Lin 760167 (- 1), Lin 27280 (- 77), Lin 121868 72, Lin 594831 51, Lin 812423 (- 80),
     Lin 419861 64, Lin 860312 (- 35), Lin 210583 22, Lin 629084 57, Lin 836681 80,
     Lin 216953 31, Lin 255781 69, Lin 860523 (- 91), Lin 518378 18, Lin 429905 (- 86),
     Lin 848543 (- 64), Lin 803180 (- 37), Lin 46009 13, Lin 734171 60, Lin 40275 85,
     Lin 361562 21, Lin 468242 81, Lin 227410 52, Lin 786983 (- 48), Lin 366752 23,
     Lin 514894 11, Lin 855091 (- 18), Lin 627857 37, Lin 772183 21, Lin 238169 (- 60),
     Lin 363666 12, Lin 390274 60, Lin 174855 28, Lin 171268 (- 3), Lin 550872 8,
     Lin 404650 (- 67), Lin 827242 (- 1), Lin 45902 100, Lin 152757 87, Lin 554225 55,
     Lin 812329 (- 99), Lin 26302 68, Lin 553467 (- 30), Lin 812100 8, Lin 295617 (- 87),
     Lin 823533 (- 59), Lin 2303 39, Lin 46975 51, Lin 656646 (- 44), Lin 841238 100,
     Lin 292946 29, Lin 807275 (- 57), Lin 708324 23, Lin 173003 (- 84), Lin 51350 (- 24),
     Lin 563063 67, Lin 146627 (- 73), Lin 620554 1, Lin 65213 (- 81), Lin 637950 32,
     Lin 783318 79, Lin 332530 (- 57), Lin 402632 30, Lin 902993 88, Lin 989898 70,
     Lin 405647 17, Lin 672635 (- 70), Lin 728069 5, Lin 482577 (- 85), Lin 540867 44,
     Lin 479504 (- 11), Lin 935215 (- 90), Lin 166530 (- 97), Lin 124341 (- 46), Lin 352469 18,
     Lin 801358 35, Lin 414658 34, Lin 91533 (- 52), Lin 699105 (- 26), Lin 801510 (- 31),
     Lin 280262 (- 30), Lin 580549 (- 90), Lin 235586 (- 51), Lin 68208 3, Lin 45989 51,
     Lin 306124 (- 100), Lin 718435 (- 18), Lin 506863 (- 16), Lin 787643 71, Lin 556089 (- 2),
     Lin 163997 73, Lin 287682 34, Lin 918934 10, Lin 898783 (- 63), Lin 2586 (- 32),
     Lin 924343 (- 82), Lin 635826 (- 85), Lin 118385 99, Lin 903452 (- 73), Lin 665028 98,
     Lin 473877 (- 70), Lin 951781 1, Lin 330326 (- 22), Lin 928132 (- 78), Lin 259501 (- 6),
     Lin 212331 53, Lin 707077 84, Lin 969057 50, Lin 4357 14, Lin 688447 33,
     Lin 769162 87, Lin 925649 49, Lin 349840 (- 99), Lin 630137 57, Lin 198696 28,
     Lin 520155 (- 4), Lin 54113 (- 73), Lin 627177 (- 21), Lin 234252 (- 76), Lin 267335 22]"

definition script_3026 :: js_script where
  "script_3026 = \<lparr>seed = 3026, funs = fns_3026_0 @ fns_3026_1\<rparr>"

section \<open>script-0027.js\<close>

text \<open>Functions 0 to 148.\<close>

definition fns_3027_0 :: "js_fun list" where
  "fns_3027_0 = [
     Lin 184870 9, Lin 43550 (- 54), Lin 479086 2, Lin 823068 3, Lin 725105 32,
     Lin 601288 (- 6), Lin 155020 68, Lin 939977 41, Lin 192761 94, Lin 683532 93,
     Lin 137353 (- 24), Lin 824888 33, Lin 339346 (- 41), Lin 572753 (- 99), Lin 645205 (- 68),
     Lin 369322 28, Lin 731799 6, Lin 634060 (- 57), Lin 624920 (- 8), Lin 313724 (- 83),
     Lin 650650 53, Lin 95821 4, Lin 259700 96, Lin 206066 (- 40), Lin 495361 (- 62),
     Lin 114219 (- 14), Lin 269236 16, Lin 481354 (- 24), Lin 546978 40, Lin 778574 87,
     Lin 79658 (- 58), Lin 142912 91, Lin 522219 (- 45), Lin 309999 77, Lin 37673 58,
     Lin 375511 6, Lin 682300 88, Lin 406576 (- 41), Lin 438464 (- 14), Lin 877781 36,
     Lin 934738 22, Lin 655818 (- 78), Lin 19520 84, Lin 396707 13, Lin 509839 (- 75),
     Lin 103993 3, Lin 612888 (- 96), Lin 925150 34, Lin 16218 34, Lin 412674 19,
     Lin 748887 58, Lin 596286 92, Lin 970077 (- 15), Lin 509746 29, Lin 111359 11,
     Lin 433407 60, Lin 442921 (- 39), Lin 331253 51, Lin 254284 87, Lin 139224 (- 62),
     Lin 458996 (- 68), Lin 119361 (- 92), Lin 490244 4, Lin 937758 36, Lin 894032 (- 82),
     Lin 210608 (- 30), Lin 231537 (- 79), Lin 325305 (- 95), Lin 739270 9, Lin 74057 (- 65),
     Lin 105757 24, Lin 258409 11, Lin 351289 (- 15), Lin 619335 89, Lin 950734 9,
     Lin 417271 58, Lin 35465 (- 24), Lin 304928 60, Lin 376916 16, Lin 162203 96,
     Lin 213280 16, Lin 614406 (- 79), Lin 735960 (- 93), Lin 79730 (- 95), Lin 738119 (- 60),
     Lin 294561 56, Lin 454545 57, Lin 234503 100, Lin 394617 32, Lin 434581 (- 23),
     Lin 272583 16, Lin 7560 (- 50), Lin 484948 (- 22), Lin 979987 (- 86), Lin 921262 74,
     Lin 583032 46, Lin 753729 83, Lin 877089 98, Lin 924722 83, Lin 761129 66,
     Lin 79985 89, Lin 412959 98, Lin 414927 42, Lin 786359 78, Lin 28013 66,
     Lin 540010 (- 89), Lin 761910 15, Lin 838064 (- 87), Lin 278953 (- 9), Lin 625000 96,
     Lin 506017 (- 7), Lin 280837 63, Lin 910119 (- 44), Lin 750469 99, Lin 366946 23,
     Lin 781209 43, Lin 904390 (- 67), Lin 88917 66, Lin 593681 44, Lin 104766 (- 20),
     Lin 815381 78, Lin 987539 2, Lin 356142 (- 94), Lin 712552 (- 46), Lin 928131 (- 69),
     Lin 893679 (- 3), Lin 908556 44, Lin 98871 38, Lin 931012 (- 21), Lin 409667 18,
     Lin 14842 (- 86), Lin 100278 70, Lin 592956 (- 92), Lin 15610 (- 34), Lin 721899 64,
     Lin 604879 (- 4), Lin 987971 (- 63), Lin 61407 90, Lin 587634 (- 49), Lin 146981 66,
     Lin 663671 (- 28), Lin 778799 40, Lin 386309 70, Lin 439278 (- 48), Lin 144938 56,
     Lin 726640 16, Lin 209527 (- 81), Lin 283898 (- 23), Lin 432772 11]"

text \<open>Functions 149 to 297.\<close>

definition fns_3027_1 :: "js_fun list" where
  "fns_3027_1 = [
     Lin 298376 (- 75), Lin 757263 25, Lin 680424 (- 7), Lin 504410 (- 98), Lin 891133 (- 14),
     Lin 452344 89, Lin 185857 (- 15), Lin 104038 60, Lin 415307 (- 77), Lin 914745 (- 44),
     Lin 99360 21, Lin 711283 (- 60), Lin 177544 100, Lin 717711 (- 64), Lin 352002 (- 30),
     Lin 266047 18, Lin 115745 50, Lin 121083 (- 74), Lin 773547 19, Lin 183209 (- 21),
     Lin 13211 46, Lin 743939 (- 41), Lin 762743 (- 40), Lin 653322 21, Lin 448749 (- 43),
     Lin 738773 59, Lin 601147 32, Lin 742908 (- 52), Lin 47555 (- 59), Lin 76779 (- 60),
     Lin 975478 26, Lin 846130 (- 28), Lin 386301 (- 67), Lin 953518 60, Lin 47943 24,
     Lin 656904 (- 3), Lin 33307 (- 12), Lin 196394 8, Lin 644328 71, Lin 812325 39,
     Lin 109511 31, Lin 725362 (- 31), Lin 244032 (- 16), Lin 366986 (- 68), Lin 615938 (- 6),
     Lin 138213 (- 62), Lin 665344 48, Lin 5189 (- 78), Lin 327763 33, Lin 219216 92,
     Lin 58607 61, Lin 528650 49, Lin 455593 (- 29), Lin 465976 (- 38), Lin 842539 (- 95),
     Lin 117018 74, Lin 218016 48, Lin 306716 (- 77), Lin 600300 (- 24), Lin 733632 (- 64),
     Lin 152663 4, Lin 764656 22, Lin 98466 (- 26), Lin 233443 (- 97), Lin 905279 15,
     Lin 501981 (- 68), Lin 833816 (- 20), Lin 12597 87, Lin 147085 (- 45), Lin 871033 (- 48),
     Lin 150072 5, Lin 994953 1, Lin 996425 (- 17), Lin 956848 (- 70), Lin 567072 (- 100),
     Lin 497191 (- 80), Lin 784167 44, Lin 688807 (- 27), Lin 236723 (- 52), Lin 740322 46,
     Lin 299894 (- 6), Lin 506405 (- 44), Lin 744521 (- 63), Lin 396098 89, Lin 230753 (- 100),
     Lin 312206 (- 90), Lin 494617 95, Lin 714575 99, Lin 549396 (- 88), Lin 43755 (- 34),
     Lin 323167 56, Lin 183419 6, Lin 974889 90, Lin 708300 2, Lin 474889 83,
     Lin 308674 76, Lin 551397 (- 44), Lin 924249 (- 7), Lin 79669 (- 11), Lin 550131 58,
     Lin 717650 (- 34), Lin 121366 68, Lin 930032 56, Lin 550716 59, Lin 575308 (- 77),
     Lin 371825 (- 17), Lin 84655 91, Lin 191738 (- 76), Lin 98016 82, Lin 700529 20,
     Lin 808068 (- 39), Lin 456118 (- 25), Lin 697074 44, Lin 925403 (- 25), Lin 581227 33,
     Lin 99744 94, Lin 99181 76, Lin 612515 (- 46), Lin 942051 (- 2), Lin 504414 95,
     Lin 539139 30, Lin 844368 26, Lin 538711 (- 94), Lin 978439 (- 4), Lin 613309 84,
     Lin 750619 (- 41), Lin 860383 (- 34), Lin 125976 38, Lin 954753 88, Lin 956270 40,
     Lin 37316 (- 94), Lin 395307 (- 10), Lin 368220 38, Lin 44726 (- 91), Lin 184660 (- 67),
     Lin 614379 70, Lin 376607 19, Lin 490503 0, Lin 580118 (- 34), Lin 492144 (- 31),
     Lin 53705 5, Lin 608081 44, Lin 23018 (- 32), Lin 841399 38, Lin 219013 (- 98),
     Lin 802432 15, Lin 705985 55, Lin 118597 (- 16), Lin 500593 6]"

text \<open>Functions 298 to 446.\<close>

definition fns_3027_2 :: "js_fun list" where
  "fns_3027_2 = [
     Lin 346848 24, Lin 515049 (- 26), Lin 274983 (- 15), Lin 643361 51, Lin 326026 (- 76),
     Lin 442538 (- 58), Lin 651058 (- 43), Lin 699044 4, Lin 538918 (- 65), Lin 383584 3,
     Lin 597869 43, Lin 778761 32, Lin 924733 45, Lin 390133 44, Lin 257348 (- 56),
     Lin 617932 35, Lin 583750 (- 54), Lin 479987 (- 18), Lin 220175 (- 35), Lin 278604 (- 67),
     Lin 724080 (- 19), Lin 543833 14, Lin 896855 (- 95), Lin 190833 (- 46), Lin 584726 (- 44),
     Lin 358974 (- 71), Lin 488266 51, Lin 414732 (- 70), Lin 557725 61, Lin 150884 (- 36),
     Lin 296387 34, Lin 445116 99, Lin 868651 47, Lin 785679 29, Lin 628284 46,
     Lin 985914 17, Lin 685631 (- 50), Lin 314609 42, Lin 660861 92, Lin 853868 3,
     Lin 903650 40, Lin 248858 74, Lin 809813 73, Lin 899203 4, Lin 469810 (- 54),
     Lin 422842 (- 24), Lin 522117 67, Lin 961927 (- 77), Lin 599575 57, Lin 456519 (- 37),
     Lin 641975 (- 72), Lin 623660 (- 74), Lin 596620 (- 22), Lin 16251 (- 90), Lin 855075 50,
     Lin 910411 (- 35), Lin 822823 49, Lin 5254 12, Lin 987545 76, Lin 585734 (- 46),
     Lin 623745 48, Lin 912639 22, Lin 864767 95, Lin 613483 (- 84), Lin 413069 (- 99),
     Lin 392623 87, Lin 178263 8, Lin 296220 (- 39), Lin 13402 (- 16), Lin 466295 (- 95),
     Lin 873398 (- 62), Lin 24684 42, Lin 688180 (- 90), Lin 642698 34, Lin 98179 15,
     Lin 501904 (- 46), Lin 655808 (- 20), Lin 956396 87, Lin 197978 57, Lin 950858 31,
     Lin 84115 (- 21), Lin 717663 (- 96), Lin 125886 (- 38), Lin 379287 80, Lin 546999 34,
     Lin 904420 (- 2), Lin 981905 (- 16), Lin 644649 54, Lin 838969 (- 88), Lin 904045 (- 55),
     Lin 898182 (- 55), Lin 608877 (- 29), Lin 784514 (- 78), Lin 256134 15, Lin 593104 81,
     Lin 499334 67, Lin 31920 61, Lin 664258 (- 30), Lin 823079 70, Lin 367239 98,
     Lin 355452 (- 91), Lin 112138 (- 25), Lin 435186 (- 38), Lin 446139 (- 20), Lin 654177 73,
     Lin 234521 (- 60), Lin 284712 23, Lin 932921 18, Lin 446343 75, Lin 961321 65,
     Lin 382243 (- 41), Lin 263422 66, Lin 16854 34, Lin 753270 (- 80), Lin 98313 (- 46),
     Lin 950411 72, Lin 865848 (- 34), Lin 948261 94, Lin 969145 32, Lin 369620 (- 44),
     Lin 350440 96, Lin 745494 (- 48), Lin 248770 40, Lin 207599 (- 33), Lin 149880 0,
     Lin 544648 (- 79), Lin 15629 (- 40), Lin 230308 24, Lin 981717 (- 31), Lin 657161 (- 94),
     Lin 548383 (- 91), Lin 732611 3, Lin 410748 (- 12), Lin 957897 44, Lin 982936 19,
     Lin 360383 85, Lin 267393 49, Lin 888218 (- 40), Lin 548264 (- 77), Lin 128218 3,
     Lin 257595 (- 72), Lin 172261 (- 18), Lin 808284 71, Lin 134414 86, Lin 285890 (- 78),
     Lin 306864 27, Lin 861098 64, Lin 607219 18, Lin 774947 (- 36)]"

text \<open>Functions 447 to 491.\<close>

definition fns_3027_3 :: "js_fun list" where
  "fns_3027_3 = [
     Lin 774622 93, Lin 942882 (- 1), Lin 17991 63, Lin 46063 (- 10), Lin 352294 38,
     Lin 18036 39, Lin 79531 28, Lin 156084 5, Lin 47830 (- 36), Lin 735181 88,
     Lin 569919 47, Lin 942491 (- 55), Lin 946393 1, Lin 348635 (- 32), Lin 493996 (- 81),
     Lin 55323 (- 22), Lin 81194 86, Lin 310827 91, Lin 625414 (- 77), Lin 842061 80,
     Lin 728229 36, Lin 955065 1, Lin 830868 (- 34), Lin 971045 (- 22), Lin 305902 (- 77),
     Lin 948925 36, Lin 419749 72, Lin 740965 22, Lin 88980 37, Lin 731460 60,
     Lin 824303 56, Lin 186774 24, Lin 943024 (- 59), Lin 987254 (- 53), Lin 179498 48,
     Lin 824062 (- 88), Lin 389065 90, Lin 367955 (- 49), Lin 695400 (- 96), Lin 562494 (- 52),
     Lin 980725 (- 41), Lin 249922 52, Lin 995545 91, Lin 505653 70, Lin 486293 59]"

definition script_3027 :: js_script where
  "script_3027 = \<lparr>seed = 3027, funs = fns_3027_0 @ fns_3027_1 @ fns_3027_2 @ fns_3027_3\<rparr>"

section \<open>script-0028.js\<close>

text \<open>Functions 0 to 148.\<close>

definition fns_3028_0 :: "js_fun list" where
  "fns_3028_0 = [
     Lin 665161 66, Lin 203040 0, Lin 376259 (- 14), Lin 574188 (- 23), Lin 535799 39,
     Lin 858871 (- 18), Lin 944203 5, Lin 943441 (- 97), Lin 690 (- 15), Lin 776359 (- 27),
     Lin 527486 69, Lin 83930 (- 14), Lin 793455 16, Lin 243567 (- 52), Lin 281891 (- 17),
     Lin 387352 16, Lin 166511 100, Lin 636021 (- 72), Lin 287343 (- 34), Lin 859299 (- 32),
     Lin 55475 (- 53), Lin 899909 (- 41), Lin 696099 (- 58), Lin 662858 (- 13), Lin 279453 69,
     Lin 645178 (- 61), Lin 859552 (- 55), Lin 722985 (- 32), Lin 394508 (- 86), Lin 402600 0,
     Lin 140082 9, Lin 708971 48, Lin 281808 53, Lin 224546 (- 80), Lin 914308 (- 74),
     Lin 168206 11, Lin 536835 20, Lin 246612 (- 27), Lin 191886 29, Lin 653849 (- 24),
     Lin 535848 (- 13), Lin 829549 32, Lin 695620 (- 67), Lin 58005 (- 93), Lin 501517 (- 59),
     Lin 550823 91, Lin 213319 (- 1), Lin 642128 19, Lin 672984 (- 99), Lin 463831 82,
     Lin 829880 (- 32), Lin 185052 52, Lin 16446 (- 92), Lin 909546 (- 95), Lin 957185 97,
     Lin 63 97, Lin 729519 (- 86), Lin 234703 97, Lin 815205 (- 42), Lin 219788 62,
     Lin 209269 60, Lin 941240 (- 59), Lin 172603 22, Lin 845553 26, Lin 815863 (- 97),
     Lin 454206 31, Lin 493549 (- 8), Lin 639132 (- 28), Lin 878693 9, Lin 782933 (- 66),
     Lin 752659 (- 45), Lin 989633 4, Lin 595319 (- 38), Lin 53374 (- 20), Lin 757070 (- 59),
     Lin 702478 92, Lin 980313 (- 94), Lin 681660 90, Lin 682039 (- 96), Lin 700481 (- 54),
     Lin 485995 13, Lin 816253 (- 1), Lin 317220 8, Lin 43281 29, Lin 521991 95,
     Lin 855800 5, Lin 879453 88, Lin 412748 (- 16), Lin 282913 (- 33), Lin 555977 (- 58),
     Lin 801656 (- 58), Lin 605080 15, Lin 12853 (- 13), Lin 56504 (- 63), Lin 725697 (- 92),
     Lin 970714 34, Lin 752113 (- 7), Lin 667829 (- 12), Lin 280639 32, Lin 593144 (- 94),
     Lin 943041 91, Lin 72867 82, Lin 968659 98, Lin 343115 44, Lin 542955 (- 67),
     Lin 227311 (- 29), Lin 585620 (- 22), Lin 253932 77, Lin 407494 (- 8), Lin 799630 0,
     Lin 536742 61, Lin 963362 43, Lin 909006 12, Lin 296517 85, Lin 32552 (- 30),
     Lin 583565 55, Lin 243102 18, Lin 479885 (- 54), Lin 437054 35, Lin 413414 (- 20),
     Lin 167188 (- 84), Lin 156472 66, Lin 693613 (- 7), Lin 796277 31, Lin 167500 (- 14),
     Lin 439162 (- 66), Lin 138599 97, Lin 789519 (- 60), Lin 157237 (- 63), Lin 102044 92,
     Lin 68283 (- 15), Lin 938911 17, Lin 946067 (- 59), Lin 619093 23, Lin 554894 (- 10),
     Lin 111330 63, Lin 118533 (- 10), Lin 675534 70, Lin 6381 (- 74), Lin 366851 77,
     Lin 499429 8, Lin 63242 93, Lin 272167 89, Lin 920766 48, Lin 120339 (- 3),
     Lin 679694 19, Lin 633659 17, Lin 385415 44, Lin 891076 85]"

text \<open>Functions 149 to 297.\<close>

definition fns_3028_1 :: "js_fun list" where
  "fns_3028_1 = [
     Lin 16964 (- 77), Lin 218978 75, Lin 704126 66, Lin 537139 20, Lin 450534 (- 67),
     Lin 978160 (- 57), Lin 235794 14, Lin 220095 99, Lin 93265 (- 2), Lin 957523 10,
     Lin 791818 (- 28), Lin 621591 65, Lin 846859 (- 95), Lin 381795 (- 37), Lin 907003 (- 25),
     Lin 547205 (- 94), Lin 385566 (- 52), Lin 168567 (- 16), Lin 587215 0, Lin 857576 74,
     Lin 378819 (- 61), Lin 172842 80, Lin 980695 78, Lin 226553 (- 96), Lin 36199 (- 53),
     Lin 522397 27, Lin 197267 (- 100), Lin 327052 (- 15), Lin 504095 (- 89), Lin 567990 60,
     Lin 683582 51, Lin 685762 (- 17), Lin 367223 (- 65), Lin 585837 41, Lin 496005 11,
     Lin 422805 57, Lin 258248 36, Lin 431476 78, Lin 565674 (- 85), Lin 818828 18,
     Lin 501954 0, Lin 767265 38, Lin 77380 (- 83), Lin 332819 (- 72), Lin 116093 (- 87),
     Lin 58977 68, Lin 9953 75, Lin 702159 13, Lin 883841 66, Lin 169148 (- 6),
     Lin 202470 16, Lin 685549 (- 80), Lin 628872 (- 21), Lin 660940 (- 90), Lin 547234 33,
     Lin 690825 (- 68), Lin 657644 (- 29), Lin 543839 (- 98), Lin 482381 95, Lin 147727 (- 77),
     Lin 789407 11, Lin 583865 98, Lin 817249 (- 22), Lin 370982 37, Lin 316762 60,
     Lin 208849 67, Lin 399126 71, Lin 292372 38, Lin 193876 41, Lin 600131 13,
     Lin 885056 (- 47), Lin 991387 59, Lin 529696 (- 66), Lin 669301 (- 82), Lin 209917 36,
     Lin 898989 (- 8), Lin 302692 24, Lin 242110 89, Lin 40201 (- 46), Lin 245963 (- 62),
     Lin 699496 57, Lin 420710 (- 95), Lin 132707 2, Lin 114493 (- 36), Lin 683933 (- 49),
     Lin 111608 (- 9), Lin 578936 34, Lin 940479 21, Lin 556965 36, Lin 582650 (- 83),
     Lin 437948 (- 30), Lin 583538 (- 27), Lin 869933 15, Lin 95610 (- 2), Lin 740815 (- 6),
     Lin 441590 20, Lin 332403 (- 65), Lin 323534 48, Lin 47369 (- 83), Lin 559586 8,
     Lin 929919 (- 36), Lin 985088 23, Lin 512909 74, Lin 225173 (- 73), Lin 894057 (- 7),
     Lin 775571 72, Lin 921784 (- 21), Lin 496007 (- 52), Lin 137474 (- 25), Lin 260473 100,
     Lin 910587 (- 91), Lin 456004 (- 67), Lin 190079 (- 73), Lin 2152 (- 73), Lin 623280 53,
     Lin 289767 (- 7), Lin 241980 72, Lin 873672 3, Lin 967744 (- 95), Lin 416562 (- 53),
     Lin 870604 62, Lin 375348 (- 56), Lin 872082 52, Lin 623595 41, Lin 413474 (- 86),
     Lin 599329 (- 88), Lin 206295 83, Lin 980901 48, Lin 924413 (- 67), Lin 426938 (- 60),
     Lin 62285 10, Lin 479855 (- 31), Lin 606091 23, Lin 409800 (- 24), Lin 183532 30,
     Lin 172362 (- 85), Lin 616594 (- 14), Lin 373277 (- 79), Lin 959181 (- 63), Lin 76987 23,
     Lin 626716 (- 91), Lin 357800 67, Lin 54376 24, Lin 718563 (- 77), Lin 840379 56,
     Lin 269745 (- 54), Lin 528154 79, Lin 558722 96, Lin 73486 (- 38)]"

text \<open>Functions 298 to 422.\<close>

definition fns_3028_2 :: "js_fun list" where
  "fns_3028_2 = [
     Lin 467180 64, Lin 935677 (- 76), Lin 946643 (- 94), Lin 677252 (- 59), Lin 689219 (- 87),
     Lin 392967 (- 35), Lin 138009 (- 78), Lin 906017 74, Lin 897316 (- 36), Lin 450012 (- 94),
     Lin 326462 36, Lin 885918 (- 13), Lin 533641 33, Lin 98818 40, Lin 883063 91,
     Lin 870148 77, Lin 648961 55, Lin 801775 7, Lin 166603 91, Lin 40849 46,
     Lin 195163 8, Lin 715337 16, Lin 307597 (- 68), Lin 270034 45, Lin 515547 (- 17),
     Lin 106516 27, Lin 178739 32, Lin 225721 13, Lin 921403 (- 73), Lin 861746 71,
     Lin 473401 35, Lin 891963 5, Lin 625476 (- 95), Lin 42638 35, Lin 547594 (- 33),
     Lin 964449 (- 65), Lin 709451 (- 97), Lin 832504 59, Lin 753381 (- 60), Lin 497493 (- 100),
     Lin 448035 (- 87), Lin 72711 72, Lin 381538 (- 14), Lin 799912 (- 82), Lin 802896 36,
     Lin 994688 95, Lin 813104 (- 82), Lin 695931 (- 37), Lin 854464 67, Lin 983864 76,
     Lin 141449 (- 2), Lin 482584 18, Lin 500538 (- 19), Lin 395244 (- 69), Lin 394738 (- 30),
     Lin 688282 (- 33), Lin 513858 (- 66), Lin 786910 (- 88), Lin 309367 (- 56), Lin 788243 8,
     Lin 928017 (- 63), Lin 166832 83, Lin 882172 (- 65), Lin 17296 100, Lin 724606 20,
     Lin 465581 90, Lin 556121 (- 57), Lin 517128 89, Lin 923924 33, Lin 672882 (- 97),
     Lin 991279 64, Lin 413683 19, Lin 268983 88, Lin 734554 (- 31), Lin 591006 (- 32),
     Lin 528091 71, Lin 222743 10, Lin 472871 (- 8), Lin 688908 (- 84), Lin 239935 26,
     Lin 509483 63, Lin 458144 (- 96), Lin 528532 (- 51), Lin 614517 73, Lin 691351 (- 58),
     Lin 688102 7, Lin 572427 86, Lin 840312 (- 44), Lin 642362 (- 62), Lin 161836 (- 95),
     Lin 729487 25, Lin 747999 72, Lin 955644 (- 5), Lin 349547 29, Lin 846530 (- 42),
     Lin 257486 44, Lin 142124 (- 1), Lin 387772 29, Lin 624991 (- 53), Lin 972577 (- 26),
     Lin 579447 65, Lin 410326 (- 21), Lin 698513 83, Lin 617238 (- 58), Lin 545209 33,
     Lin 264883 (- 9), Lin 752681 44, Lin 674717 (- 33), Lin 495501 16, Lin 294584 50,
     Lin 296110 (- 84), Lin 947674 (- 67), Lin 598772 (- 17), Lin 617840 15, Lin 478514 (- 14),
     Lin 544546 (- 64), Lin 514979 (- 77), Lin 457660 (- 93), Lin 973636 96, Lin 464214 5,
     Lin 709873 (- 93), Lin 673904 74, Lin 215957 91, Lin 523918 56, Lin 953457 91]"

definition script_3028 :: js_script where
  "script_3028 = \<lparr>seed = 3028, funs = fns_3028_0 @ fns_3028_1 @ fns_3028_2\<rparr>"

section \<open>script-0029.js\<close>

text \<open>Functions 0 to 76.\<close>

definition fns_3029_0 :: "js_fun list" where
  "fns_3029_0 = [
     Lin 507009 100, Lin 135493 74, Lin 782458 30, Lin 974315 (- 72), Lin 401506 (- 35),
     Lin 130757 (- 52), Lin 51117 (- 91), Lin 92833 24, Lin 176282 (- 60), Lin 521698 82,
     Lin 568747 (- 83), Lin 425003 30, Lin 403411 75, Lin 135151 (- 41), Lin 944930 (- 96),
     Lin 227957 62, Lin 12761 (- 78), Lin 194836 (- 41), Lin 815782 (- 48), Lin 738194 90,
     Lin 247890 (- 95), Lin 486092 (- 15), Lin 832542 (- 91), Lin 796282 82, Lin 66921 48,
     Lin 276540 (- 10), Lin 618376 72, Lin 452303 (- 49), Lin 437903 64, Lin 496844 (- 2),
     Lin 195298 20, Lin 431303 69, Lin 817652 (- 77), Lin 285018 81, Lin 460570 (- 89),
     Lin 908817 (- 48), Lin 438759 (- 39), Lin 550545 (- 53), Lin 232877 49, Lin 211555 58,
     Lin 467939 27, Lin 374896 84, Lin 519475 (- 24), Lin 529393 64, Lin 25280 98,
     Lin 649273 (- 89), Lin 455752 (- 48), Lin 24911 (- 18), Lin 315448 (- 50), Lin 507863 25,
     Lin 958101 92, Lin 659951 59, Lin 26850 80, Lin 403206 24, Lin 785277 (- 68),
     Lin 932690 14, Lin 681795 (- 91), Lin 908374 (- 31), Lin 130421 36, Lin 738031 (- 87),
     Lin 464988 (- 86), Lin 224590 42, Lin 19006 87, Lin 438026 44, Lin 971906 (- 2),
     Lin 757475 13, Lin 342438 (- 41), Lin 329535 (- 65), Lin 172627 13, Lin 483901 (- 28),
     Lin 154786 (- 66), Lin 58132 (- 39), Lin 999528 46, Lin 217288 (- 26), Lin 353538 44,
     Lin 852141 90, Lin 672643 (- 79)]"

definition script_3029 :: js_script where
  "script_3029 = \<lparr>seed = 3029, funs = fns_3029_0\<rparr>"

section \<open>The tables respect the ranges of the generator\<close>

lemma gen_fns_3025_0 [table_checks]: "list_all gen_fun fns_3025_0" "length fns_3025_0 = 149"
  by (simp_all add: fns_3025_0_def gen_fun_def)

lemma gen_fns_3025_1 [table_checks]: "list_all gen_fun fns_3025_1" "length fns_3025_1 = 111"
  by (simp_all add: fns_3025_1_def gen_fun_def)

lemma gen_script_3025 [table_checks]: "gen_script script_3025" "seed script_3025 = 3025" "length (funs script_3025) = 260"
  by (simp_all add: script_3025_def gen_script_def gen_fns_3025_0 gen_fns_3025_1)

lemma gen_fns_3026_0 [table_checks]: "list_all gen_fun fns_3026_0" "length fns_3026_0 = 149"
  by (simp_all add: fns_3026_0_def gen_fun_def)

lemma gen_fns_3026_1 [table_checks]: "list_all gen_fun fns_3026_1" "length fns_3026_1 = 140"
  by (simp_all add: fns_3026_1_def gen_fun_def)

lemma gen_script_3026 [table_checks]: "gen_script script_3026" "seed script_3026 = 3026" "length (funs script_3026) = 289"
  by (simp_all add: script_3026_def gen_script_def gen_fns_3026_0 gen_fns_3026_1)

lemma gen_fns_3027_0 [table_checks]: "list_all gen_fun fns_3027_0" "length fns_3027_0 = 149"
  by (simp_all add: fns_3027_0_def gen_fun_def)

lemma gen_fns_3027_1 [table_checks]: "list_all gen_fun fns_3027_1" "length fns_3027_1 = 149"
  by (simp_all add: fns_3027_1_def gen_fun_def)

lemma gen_fns_3027_2 [table_checks]: "list_all gen_fun fns_3027_2" "length fns_3027_2 = 149"
  by (simp_all add: fns_3027_2_def gen_fun_def)

lemma gen_fns_3027_3 [table_checks]: "list_all gen_fun fns_3027_3" "length fns_3027_3 = 45"
  by (simp_all add: fns_3027_3_def gen_fun_def)

lemma gen_script_3027 [table_checks]: "gen_script script_3027" "seed script_3027 = 3027" "length (funs script_3027) = 492"
  by (simp_all add: script_3027_def gen_script_def gen_fns_3027_0 gen_fns_3027_1 gen_fns_3027_2 gen_fns_3027_3)

lemma gen_fns_3028_0 [table_checks]: "list_all gen_fun fns_3028_0" "length fns_3028_0 = 149"
  by (simp_all add: fns_3028_0_def gen_fun_def)

lemma gen_fns_3028_1 [table_checks]: "list_all gen_fun fns_3028_1" "length fns_3028_1 = 149"
  by (simp_all add: fns_3028_1_def gen_fun_def)

lemma gen_fns_3028_2 [table_checks]: "list_all gen_fun fns_3028_2" "length fns_3028_2 = 125"
  by (simp_all add: fns_3028_2_def gen_fun_def)

lemma gen_script_3028 [table_checks]: "gen_script script_3028" "seed script_3028 = 3028" "length (funs script_3028) = 423"
  by (simp_all add: script_3028_def gen_script_def gen_fns_3028_0 gen_fns_3028_1 gen_fns_3028_2)

lemma gen_fns_3029_0 [table_checks]: "list_all gen_fun fns_3029_0" "length fns_3029_0 = 77"
  by (simp_all add: fns_3029_0_def gen_fun_def)

lemma gen_script_3029 [table_checks]: "gen_script script_3029" "seed script_3029 = 3029" "length (funs script_3029) = 77"
  by (simp_all add: script_3029_def gen_script_def gen_fns_3029_0)

end
