(* ===== verification/Js_Assets.thy ===== *)
theory Js_Assets
  imports Js_Scripts_A Js_Scripts_B Js_Scripts_C Js_Scripts_D Js_Scripts_E Js_Scripts_F
begin

text \<open>
  All the JavaScript of the repository together: the 30 scripts of \<open>src/sample-assets-small\<close>, the
  8130 functions they declare, and what calling them does.  The properties hold for every one of
  these functions: the tables are checked once against the ranges of the generator (\<open>gen_fun\<close>), and
  \<open>Js_Function\<close> proves the arithmetic for every function in these ranges.
\<close>

section \<open>The scripts\<close>

definition all_scripts :: "js_script list" where
  "all_scripts =
     [script_3000, script_3001, script_3002, script_3003, script_3004, script_3005,
      script_3006, script_3007, script_3008, script_3009, script_3010, script_3011,
      script_3012, script_3013, script_3014, script_3015, script_3016, script_3017,
      script_3018, script_3019, script_3020, script_3021, script_3022, script_3023,
      script_3024, script_3025, script_3026, script_3027, script_3028, script_3029]"

definition all_funs :: "js_fun list" where
  "all_funs = concat (map funs all_scripts)"

text \<open>The global environment of a page that loads every script.\<close>

definition page_env :: js_env where
  "page_env = fold load_script all_scripts Map.empty"

lemma seeds_distinct: "distinct (map seed all_scripts)"
  by (simp add: all_scripts_def table_checks)

lemma all_scripts_gen: "list_all gen_script all_scripts"
  by (simp add: all_scripts_def table_checks)

lemma all_funs_gen: "list_all gen_fun all_funs"
  using all_scripts_gen by (auto simp: all_funs_def gen_script_def list_all_iff)

lemma all_funs_genD: "f \<in> set all_funs \<Longrightarrow> gen_fun f"
  using all_funs_gen by (auto simp: list_all_iff)

lemma script_3000_in: "script_3000 \<in> set all_scripts"
  by (simp add: all_scripts_def)

lemma sample_fun: "Lin 638876 (- 21) \<in> set all_funs"
  using script_3000_in
  by (auto simp: all_funs_def script_3000_def fns_3000_0_def intro!: bexI [of _ script_3000])

section \<open>Properties\<close>

text \<open>Every script of the repository is one its generator can write: between 50 and 500
  functions, every coefficient strictly between 0 and 1, every offset between -100 and 100; and the
  scripts declare 8130 functions in all.\<close>

theorem scripts_within_generator:
  "list_all gen_script all_scripts \<and> length all_scripts = 30 \<and> length all_funs = 8130"
proof -
  have "length all_funs = 8130"
    by (simp add: all_funs_def all_scripts_def table_checks)
  then show ?thesis using all_scripts_gen by (simp add: all_scripts_def)
qed

text \<open>On a page that loads all the scripts no declaration hides another one: calling the name
  \<open>fn_S_I\<close> runs function number \<open>I\<close> of the script with number \<open>S\<close>.\<close>

theorem page_calls_own_function:
  assumes "sc \<in> set all_scripts" and "i < length (funs sc)"
  shows "js_call page_env (fn_name (seed sc) i) args = js_apply (funs sc ! i) args"
  unfolding js_call_def page_env_def
  using fold_load_lookup [OF seeds_distinct assms] by simp

theorem page_calls_own_function_witness:
  "js_call page_env (fn_name 3000 1) [BigInt 5] = Inl TypeError"
proof -
  have "1 < length (funs script_3000)" by (simp add: table_checks)
  from page_calls_own_function [OF script_3000_in this, of "[BigInt 5]"]
  show ?thesis by (simp add: table_checks js_apply_def js_arg_def)
qed

text \<open>A call never overflows and never invents a NaN: a finite argument gives a finite result,
  an infinite one the same infinity, and NaN gives NaN.\<close>

theorem js_body_class:
  assumes "f \<in> set all_funs" and "canonical x"
  shows "case x of NaN \<Rightarrow> js_body f x = NaN
                 | Inf s \<Rightarrow> js_body f x = Inf s
                 | Fin s m e \<Rightarrow> is_fin (js_body f x)"
  using all_funs_genD [OF assms(1)] assms(2)
  by (cases x) (auto simp: js_body_NaN js_body_Inf intro: js_body_fin)

theorem js_body_class_witness:
  "js_body (Lin 638876 (- 21)) (Inf True) = Inf True"
  using js_body_class [OF sample_fun, of "Inf True"] by simp

text \<open>Every function is monotone on the doubles, infinities and both zeros included.\<close>

theorem js_body_monotone:
  assumes "f \<in> set all_funs" and "canonical x" and "canonical y" and "f64_le x y"
  shows "f64_le (js_body f x) (js_body f y)"
  using js_body_mono [OF all_funs_genD] assms by blast

theorem js_body_monotone_witness:
  "f64_le (js_body (Lin 638876 (- 21)) (f64_of_int 1)) (js_body (Lin 638876 (- 21)) (Inf False))"
proof -
  have "canonical (f64_of_int 1)" and "f64_le (f64_of_int 1) (Inf False)"
    by (simp_all add: f64_eval_examples(1))
  then show ?thesis by (intro js_body_monotone [OF sample_fun]) simp_all
qed

text \<open>C39: the computed result differs from the exact \<open>c x + k\<close> by at most \<open>(|x| + 101) 2^-51\<close>: the
  rounding of the literal, of the product and of the sum together.\<close>

theorem js_body_accurate:
  assumes "f \<in> set all_funs" and "is_fin x" and "canonical x"
  shows "\<bar>val (js_body f x) - exact f (val x)\<bar> \<le> (\<bar>val x\<bar> + 101) * 2 powi (- 51)"
  using js_body_accuracy [OF all_funs_genD] assms by blast

theorem js_body_accurate_witness:
  "\<bar>val (js_body (Lin 638876 (- 21)) (f64_zero False)) - (- 21)\<bar> \<le> 101 * 2 powi (- 51)"
  using js_body_accurate [OF sample_fun, of "f64_zero False"] by (simp add: exact_def)

text \<open>C40: chains of calls stay bounded: feeding each result to the next function, over any of the
  functions in any order and number, never leaves \<open>[-2^28, 2^28]\<close> once inside, so no chain diverges
  or ends in an infinity or NaN.\<close>

theorem js_chain_bounded:
  assumes "set fs \<subseteq> set all_funs" and "is_fin x" and "canonical x" and "\<bar>val x\<bar> \<le> 2 ^ 28"
  shows "is_fin (js_chain fs x) \<and> \<bar>val (js_chain fs x)\<bar> \<le> 2 ^ 28"
proof -
  have "list_all gen_fun fs" using assms(1) all_funs_genD by (auto simp: list_all_iff)
  then show ?thesis using js_chain_box assms(2-4) by blast
qed

theorem js_chain_bounded_witness:
  "is_fin (js_chain [Lin 638876 (- 21), Lin 638876 (- 21)] (f64_zero False))"
  using js_chain_bounded [of "[Lin 638876 (- 21), Lin 638876 (- 21)]" "f64_zero False"] sample_fun
  by simp

end
