(* ===== verification/Spec2Isabelle.thy ===== *)
theory Spec2Isabelle
  imports L1_Properties L1_Eviction L1_Concurrent Coalescing Asset_Concurrent Process_Run Load_Tests Js_Assets
begin

text \<open>
  A model of the cache server of this repository: a Go program that answers \<open>GET\<close>, \<open>PUT\<close> and \<open>DELETE\<close> of
  keys over HTTP and gRPC from an in-process cache (L1), Redis (L2) and an origin, and that uploads and
  serves binary assets from an in-memory cache in front of MinIO; together with the JavaScript the
  repository holds, the 30 scripts among the assets it serves.

  \<^bold>\<open>How the parts interact.\<close>  \<open>cmd/server/main.go\<close> loads the configuration, makes L1, connects Redis, makes
  the simulated origin and the manager, and hands the manager to the HTTP handlers and the gRPC server
  and the Redis client to the binary handler.  A \<open>Get\<close> of the manager asks L1, Redis and the origin in
  this order and fills the layers on the way back, Redis in a goroutine of its own.  All of them count
  in the global metrics.

  \<^bold>\<open>Conventions.\<close>  (\<open>Prelude\<close>)  Strings and byte slices are HOL strings, one character a byte.  Instants and
  durations are nanoseconds in \<open>int\<close>; a clock reading is an argument of the operation that makes it.  A
  Go map is an association list without duplicate keys, and the order of a \<open>range\<close> over it is an
  argument.  Counters are 64-bit words and wrap; hashes are 32-bit words.  A panic is a result of its
  own.  A call that may not return is \<open>None\<close>, a handler that may not
  is \<open>Hangs\<close>.  Code that is not in the repository (the Redis and MinIO
  clients, singleflight, the random draws) is an argument: a record of functions on an unknown world,
  or the outcome of the call.

  \<^bold>\<open>Theories\<close>, in the order of the imports.
  \<^item> \<open>Prelude\<close>: Go maps, sums over them, decimal printing and reading.
  \<^item> \<open>Cache_Interface\<close>: the contract of a cache that may forget but not invent, as the locale
    \<open>lossy_cache\<close>, and its consequence: a run refines a run on a plain map.  \<open>L1_Shard\<close>, \<open>L1_Cache\<close> and
    \<open>Asset_Cache\<close> interpret it.
  \<^item> \<open>Float64\<close>: IEEE double arithmetic (addition, multiplication, division, conversion, comparison) on
    sign, mantissa and exponent, with round to nearest even, its value as a real and its error bounds.
    Go's \<open>float64\<close> and JavaScript's numbers are these.
  \<^item> \<open>Metrics\<close> (\<open>internal/metrics/metrics.go\<close>): counters, \<open>RecordLatency\<close>, \<open>Snapshot\<close>; the hit rates are
    between 0 and 1.
  \<^item> \<open>L1_Shard\<close>, \<open>L1_Cache\<close> (\<open>internal/cache/l1.go\<close>): a shard and its eviction loop; \<open>NewL1\<close>, FNV-1a routing,
    \<open>Get\<close>, \<open>Set\<close>, \<open>Delete\<close>, \<open>Stats\<close>.  \<open>shard_inv\<close> and \<open>l1_inv\<close> are kept by every operation.
  \<^item> \<open>L1_Properties\<close>: capacity, no stale hits, the frame of a \<open>Set\<close>; the growth of the key list and the
    real capacity.  \<open>L1_Eviction\<close>: the eviction order.  \<open>L1_Concurrent\<close>: \<open>Get\<close>, \<open>Set\<close> and \<open>Delete\<close> of one
    shard as steps between locks, an invariant of all interleavings, and the race of the lazy deletion.
  \<^item> \<open>Asset_Cache\<close>, \<open>Content_Type\<close>, \<open>Binary_Handler\<close> (\<open>internal/binaryhandler/handler.go\<close>): the asset cache with
    its byte budget, \<open>detectContentType\<close>, and the handlers on arbitrary stores.  \<open>Asset_Concurrent\<close>: uploads,
    requests and deletions as goroutines; they always end, and two races in which the cache and the store part.
  \<^item> \<open>Http\<close>: response writers, and the middleware of \<open>internal/handler/handler.go\<close> as \<open>main\<close> stacks it.
  \<^item> \<open>Origin\<close> (\<open>internal/origin/origin.go\<close>), \<open>L2_Cache\<close> (\<open>internal/cache/l2.go\<close>), \<open>Manager\<close>
    (\<open>internal/cache/manager.go\<close>): the fetch, the Redis layer, the two-tier operations; \<open>manager_run\<close> is a
    sequence of operations and background writes.
  \<^item> \<open>Coalescing\<close> (\<open>internal/cache/manager.go\<close>): any number of concurrent \<open>Get\<close>s as steps between the accesses to
    L1, Redis and the origin, with \<open>singleflight\<close> as a rule of which only the documentation is assumed: one
    call in flight for a key, every \<open>Get\<close> ends, a herd costs one call (\<open>origin_log\<close> is the traffic of a run with the
    origin), a \<open>Get\<close> can overwrite a later \<open>Set\<close>, and the
    sequential \<open>Get\<close> of \<open>Manager\<close> is the run of a goroutine that is not interrupted.
  \<^item> \<open>Json_String\<close>, \<open>Json\<close>, \<open>Json_Quote\<close>, \<open>Json_Indent\<close>, \<open>Json_Number\<close>: the part of \<open>encoding/json\<close> the handlers use,
    as Go does it: quoting and unquoting with UTF-8 repair, the scanner, compaction with HTML escaping,
    indentation and the shortest decimal of a double.  Printing is read back by the scanner.
    \<open>Cache_Json\<close>: the request bodies, the batch results and the statistics of the cache handlers.
  \<^item> \<open>Cache_Handler\<close> (\<open>internal/handler/handler.go\<close>) and \<open>Grpc_Server\<close> (\<open>internal/grpcserver/server.go\<close>,
    \<open>api/cachepb/cache.go\<close>): the two front ends.  \<open>Router\<close>: the routes of both handlers on the \<open>ServeMux\<close> of Go
    1.22, which requests they serve, and the HTTP server of \<open>main\<close> from path and body to the answer.  \<open>Asset_Routes\<close>: the same server with
    the asset handlers; an upload and its request over HTTP, the announced URL, the list of the names.
    \<open>Server_Run\<close>: the state \<open>main\<close> starts with and runs of any HTTP requests; an invariant of the operations of
    the manager (locale \<open>manager_invariant\<close>) holds in every run, and every request is answered.  \<open>Base64\<close>, \<open>Grpc_Json\<close>: the messages
    of gRPC in the JSON of its codec, and the handlers of the methods from bytes to bytes.
  \<^item> \<open>Config\<close> (\<open>internal/config/config.go\<close>) with the parsers of the standard library it uses, and
    \<open>Server_Main\<close> (\<open>cmd/server/main.go\<close>): the start with and without Redis.
  \<^item> \<open>Process_Run\<close> (\<open>cmd/server/main.go\<close>, \<open>registerCacheService\<close>): the process with both front ends, its phases \<open>Up\<close>,
    \<open>Signalled\<close>, \<open>Draining\<close>, \<open>Closing\<close> and \<open>Exited\<close>, and its events: HTTP requests, gRPC calls by the name of the method,
    run as they arrive or accepted first (\<open>p_calls\<close>) and run later, background writes, the signal, \<open>GracefulStop\<close>, the
    end of the drain.  The locale \<open>metered_invariant\<close> carries an invariant of the manager,
    with the count of the recorded calls, through all of them.
  \<^item> \<open>Load_Tests\<close> (\<open>scripts/*.go\<close>): the arguments of the local wrapper, the content type and cache status of the asset
    tester, whose first read of what it uploaded is a hit, and the percentiles, which are exact up to \<open>2^40\<close>
    latencies but for the one called p999.
  \<^item> \<open>Js_Function\<close>, \<open>Js_Scripts_A\<close> to \<open>Js_Scripts_F\<close>, \<open>Js_Assets\<close> (\<open>src/sample-assets-small/script-*.js\<close>): what a
    declaration and a call mean, the functions of each script in order, and the properties of all of
    them.  A list \<open>fns_S_I\<close> holds the functions from number \<open>I\<close> on of the script with number \<open>S\<close>.

  \<^bold>\<open>Hypotheses about code outside.\<close>  \<open>redis_laws\<close> (\<open>L2_Cache\<close>): a key that was set reads back, a key that was
  deleted reads as missing, in the next lookup (the expiry of a \<open>SET\<close> is left out); \<open>map_redis\<close> satisfies them.  \<open>range_order\<close> (\<open>Asset_Cache\<close>): a range visits every
  entry once.  \<open>single_flight\<close> (\<open>Coalescing\<close>): a call of \<open>Do\<close> runs its function exactly when no execution for
  the key is in flight; \<open>free_flight\<close> satisfies it; that those who wait get its result is part of the step \<open>get_step\<close>.  \<open>object_laws\<close> (\<open>Asset_Concurrent\<close>): an object that was put is read
  back, and metadata does not change it; \<open>mem_handler\<close> satisfies them.  \<open>Process_Run\<close> takes from the documentation
  that \<open>GracefulStop\<close> refuses new calls and waits for the accepted ones, and that \<open>Close\<close> ends the HTTP server.  The other results hold for any behaviour of the stores.

  \<^bold>\<open>Loops.\<close>  \<open>evict_from\<close>, \<open>duration_parts\<close> and \<open>match_path\<close> are total by a measure.  The eviction loop of the asset cache is
  a partial function; it is shown to end when no key is empty, which the handlers ensure, and not to
  end for a cache that holds the empty key alone.  No fuel is used.

  \<^bold>\<open>Not modelled.\<close>  The byte count of the asset cache is an unbounded integer.  The handlers are sequential, apart from
  \<open>L1_Concurrent\<close>, \<open>Coalescing\<close>, \<open>Asset_Concurrent\<close> and the pending writes of the manager; in \<open>Process_Run\<close> an HTTP request
  is one step, and so is the body of a gRPC call.  \<open>net/http\<close> takes the query off a target and refuses an invalid
  escape before the mux; the path of a request is what remains.  The network, timeouts, logging, what the load
  testers and the test client do with a running server, the shell scripts that make the assets, proxies and deployment
  files are not modelled.

  \<^bold>\<open>What is shown, in short.\<close>  The caches never return a stale or invented value and respect their capacity;
  what was uploaded or put is what is served; a value fetched once is cached; the counters balance;
  handlers return and recover from panics; configuration values are read back.  Each request reaches the handler the code registers for it; concurrent \<open>Get\<close>s of a key share one
  origin call and always end, and so do concurrent asset requests; both protocols read and write one cache; the
  shutdown answers every accepted call unless one panics, and each exit code of the process has its cause.  Some theorems describe
  behaviour the authors did not intend: an invalidation undone by a late write, a \<open>Set\<close> overwritten by an
  older value, deleted assets that are served, uploads that leave the cache and the store apart, a write lost by
  the shutdown, the double subtraction
  in the asset budget, the race of the lazy deletion, the key list that only grows, a delete that
  reports success on failure, asset names that break the JSON list or the URL they are announced under, a crash on a null batch entry and one without Redis, a batch emptied by
  one value, a second origin call after the first has landed.
\<close>

section \<open>The server as a whole\<close>

text \<open>The origin that \<open>main\<close> gives to the manager, with the random draws and the clock reading of a fetch.\<close>

definition server_origin :: "nat \<Rightarrow> nat \<Rightarrow> time \<Rightarrow> config \<Rightarrow> origin_fetcher" where
  "server_origin draw1 draw2 now cfg = Fetch draw1 draw2 now None (NewSimulated (OriginLatency cfg))"

abbreviation default_config :: config where
  "default_config \<equiv> Load (\<lambda>_. '''')"

definition client_get :: "string \<Rightarrow> request" where
  "client_get key = \<lparr>rq_method = ''GET'', rq_path = ''/cache/'' @ key, rq_value = key, rq_content_type = '''',
     rq_body = [], rq_body_fails = False\<rparr>"

lemma stack_get:
  assumes "key \<noteq> ''''" and "manager_get g env key s = (Fetched v, s')"
  shows "\<exists>w'. http_stack (getCache g env) (client_get key) s new_writer = Returned s' w' \<and>
    status_of w' = 200 \<and> w_body w' = v"
  using assms
  by (auto simp: http_stack_def LoggingMiddleware_def CORSMiddleware_def RecoveryMiddleware_def Let_def
      client_get_def getCache_def response_of_def writer_simps)

lemma server_manager_start:
  "l1_inv (m_l1 (server_manager cfg r))" "l1_live t (m_l1 (server_manager cfg r)) key = None"
  "c_ttl (m_l1 (server_manager cfg r)) = L1TTL cfg" "m_redis (server_manager cfg r) = r"
  "m_metrics (server_manager cfg r) = metrics_zero"
  by (simp_all add: server_manager_def NewManager_def NewL1_inv l1_live_def NewL1_entries) (simp add: NewL1_def)

lemma default_origin:
  "server_origin draw1 draw2 now default_config key = Fetched (payload key (draw2 mod 1000000) (now div 1000000))"
proof -
  have "OriginLatency default_config = 10000000"
    by (simp add: Load_def envDuration_def parsed_def)
  then show ?thesis
    by (simp add: server_origin_def Fetch_def fetch_delay_def NewSimulated_def Int63n_def signed_divide_int_def)
qed

lemma default_ttl: "L1TTL default_config = 10000000000"
  by (simp add: Load_def envDuration_def parsed_def)

text \<open>A first \<open>Get\<close> that runs the fetch: its value, and the state the next \<open>Get\<close> needs.\<close>

lemma first_fetch:
  assumes "rd_get rc key r = (Inl RedisNil, r')" and "orig key = Fetched v"
  obtains s1 where "Manager_Get (server_config rc cfg) clk (Runs False) orig key (server_manager cfg r) = (Fetched v, s1)"
    "l1_inv (m_l1 s1)" "l1_live t (m_l1 s1) key = (if t \<le> t_set clk + L1TTL cfg then Some v else None)"
    "OriginCalls (m_metrics s1) = 1"
proof -
  let ?s = "server_manager cfg r" and ?g = "server_config rc cfg"
  have rd: "rd_get (l2_client (g_l2 ?g)) key (m_redis ?s) = (Inl RedisNil, r')"
    using assms(1) by (simp add: server_config_def server_manager_start)
  have runs: "\<not> g_useSF ?g \<or> (\<exists>b. Runs False = Runs b)" by blast
  note F = fetchFromOrigin_runs [OF runs]
  note G = Get_origin [OF server_manager_start(1,2) rd]
  let ?s1 = "snd (Manager_Get ?g clk (Runs False) orig key ?s)"
  have res: "fst (Manager_Get ?g clk (Runs False) orig key ?s) = Fetched v"
    by (simp add: G split_beta F origin_result_def assms(2))
  have l1: "m_l1 ?s1 = L1_Set (t_set clk) key v (m_l1 (l1_missed (t_l1 clk) key ?s))"
    by (simp add: G split_beta F assms(2))
  note M = l1_missed_inv [OF server_manager_start(1), of "t_l1 clk" key cfg r]
  have "OriginCalls (m_metrics ?s1) = 1"
    by (simp add: G split_beta F assms(2) RecordLatency_def) (simp add: inc_defs server_manager_start metrics_zero_def)
  moreover have "l1_inv (m_l1 ?s1)" using M(1) by (simp add: l1 L1_Set_inv)
  moreover have "l1_live t (m_l1 ?s1) key = (if t \<le> t_set clk + L1TTL cfg then Some v else None)"
    using M by (simp add: l1 l1_live_def L1_Set_entries_same server_manager_start)
  ultimately show thesis using that [of ?s1] res by (simp add: prod_eq_iff)
qed

text \<open>C1: the first two requests of a key.  With the default configuration and a Redis without the key,
  the first \<open>GET\<close> answers 200 with the payload the simulated origin made; a second one, at most ten
  seconds after the first filled L1, answers the same bytes, with the origin called once in all.\<close>

theorem first_request_then_hit:
  assumes "key \<noteq> ''''" and "rd_get rc key r = (Inl RedisNil, r')" and "t_l1 clk2 \<le> t_set clk1 + 10000000000"
  shows "\<exists>s1 w1 s2 w2.
    http_stack (getCache (server_config rc default_config) (clk1, Runs False, server_origin d1 d2 now default_config))
      (client_get key) (server_manager default_config r) new_writer = Returned s1 w1 \<and>
    status_of w1 = 200 \<and> w_body w1 = payload key (d2 mod 1000000) (now div 1000000) \<and>
    http_stack (getCache (server_config rc default_config) (clk2, fl, server_origin d3 d4 now' default_config))
      (client_get key) s1 new_writer = Returned s2 w2 \<and>
    status_of w2 = 200 \<and> w_body w2 = w_body w1 \<and> OriginCalls (m_metrics s2) = 1"
proof (rule first_fetch [OF assms(2) default_origin [of d1 d2 now], where clk = clk1 and t = "t_l1 clk2" and cfg = default_config])
  let ?g = "server_config rc default_config" and ?v = "payload key (d2 mod 1000000) (now div 1000000)"
  fix s1
  assume one: "Manager_Get ?g clk1 (Runs False) (server_origin d1 d2 now default_config) key (server_manager default_config r) = (Fetched ?v, s1)"
    and inv: "l1_inv (m_l1 s1)" and calls: "OriginCalls (m_metrics s1) = 1"
    and live: "l1_live (t_l1 clk2) (m_l1 s1) key = (if t_l1 clk2 \<le> t_set clk1 + L1TTL default_config then Some ?v else None)"
  have live: "l1_live (t_l1 clk2) (m_l1 s1) key = Some ?v" using live assms(3) by (simp add: default_ttl)
  let ?s2 = "count (RecordLatency (t_end clk2 - t_start clk2)) (count inc_L1Hits s1)"
  have two: "manager_get ?g (clk2, fl, server_origin d3 d4 now' default_config) key s1 = (Fetched ?v, ?s2)"
    using Get_L1_hit [OF inv live] by (simp add: manager_get_def)
  have calls2: "OriginCalls (m_metrics ?s2) = 1" using calls by (simp add: RecordLatency_def inc_defs)
  have one': "manager_get ?g (clk1, Runs False, server_origin d1 d2 now default_config) key
      (server_manager default_config r) = (Fetched ?v, s1)"
    using one by (simp add: manager_get_def)
  obtain w1 where w1: "http_stack (getCache ?g (clk1, Runs False, server_origin d1 d2 now default_config))
      (client_get key) (server_manager default_config r) new_writer = Returned s1 w1"
    "status_of w1 = 200" "w_body w1 = ?v"
    using stack_get [OF assms(1) one'] by blast
  obtain w2 where w2: "http_stack (getCache ?g (clk2, fl, server_origin d3 d4 now' default_config))
      (client_get key) s1 new_writer = Returned ?s2 w2" "status_of w2 = 200" "w_body w2 = ?v"
    using stack_get [OF assms(1) two] by blast
  show ?thesis
    by (rule exI [of _ s1], rule exI [of _ w1], rule exI [of _ ?s2], rule exI [of _ w2])
      (simp only: w1 w2 calls2 simp_thms)
qed

theorem first_request_then_hit_witness:
  "\<exists>s1 w1. http_stack (getCache (server_config map_redis default_config) (at_time 0, Runs False, server_origin 1 42 0 default_config))
      (client_get ''k'') (server_manager default_config Map.empty) new_writer = Returned s1 w1 \<and>
    w_body w1 = payload ''k'' 42 0"
  using first_request_then_hit [of "''k''" map_redis Map.empty Map.empty "at_time 5" "at_time 0" 1 42 0 "Runs False" 1 43 9]
  by (auto simp: map_redis_def)

end
